(* ===== verification/Prelude.thy ===== *)
theory Prelude
  imports Main "HOL-Library.Word" "HOL-Library.Signed_Division"
begin

unbundle bit_operations_syntax

text \<open>
  Shared vocabulary of the development: the machine integers of the C code as words, C's
  conversions between them, byte regions of memory with the effect of \<open>memcpy\<close>, and the
  generic facts on lists and words that the component theories use.

  C's \<open>int32_t\<close>, \<open>int\<close> and so on are the same words as the unsigned types, read by
  \<open>sint\<close>; a signed overflow, which C leaves undefined, wraps here as it does on the machines
  the program is built for.
\<close>

type_synonym u8 = "8 word"
type_synonym u16 = "16 word"
type_synonym u32 = "32 word"
type_synonym u64 = "64 word"

named_theorems ring_simps \<open>index arithmetic of the circular buffers\<close>

section \<open>Byte regions\<close>

text \<open>\<open>memcpy (mem + off, bs, length bs)\<close> and reading \<open>n\<close> bytes at \<open>mem + off\<close>.\<close>

definition mem_write :: "nat \<Rightarrow> 'a list \<Rightarrow> 'a list \<Rightarrow> 'a list" where
  "mem_write off bs mem = take off mem @ bs @ drop (off + length bs) mem"

definition mem_read :: "nat \<Rightarrow> nat \<Rightarrow> 'a list \<Rightarrow> 'a list" where
  "mem_read off n mem = take n (drop off mem)"

lemma length_mem_write [simp]:
  "off + length bs \<le> length mem \<Longrightarrow> length (mem_write off bs mem) = length mem"
  by (simp add: mem_write_def)

lemma length_mem_read [simp]:
  "off + n \<le> length mem \<Longrightarrow> length (mem_read off n mem) = n"
  by (simp add: mem_read_def)

lemma nth_mem_write:
  assumes "off + length bs \<le> length mem" and "i < length mem"
  shows "mem_write off bs mem ! i =
    (if off \<le> i \<and> i < off + length bs then bs ! (i - off) else mem ! i)"
  using assms by (auto simp: mem_write_def nth_append min_def)

lemma mem_read_nth:
  "off + n \<le> length mem \<Longrightarrow> i < n \<Longrightarrow> mem_read off n mem ! i = mem ! (off + i)"
  by (simp add: mem_read_def)

lemma mem_read_write_same:
  "off + length bs \<le> length mem \<Longrightarrow> mem_read off (length bs) (mem_write off bs mem) = bs"
  by (simp add: mem_write_def mem_read_def)

lemma mem_read_write_other:
  assumes "off + length bs \<le> length mem" and "off' + n \<le> length mem"
    and "off' + n \<le> off \<or> off + length bs \<le> off'"
  shows "mem_read off' n (mem_write off bs mem) = mem_read off' n mem"
proof (rule nth_equalityI)
  show "length (mem_read off' n (mem_write off bs mem)) = length (mem_read off' n mem)"
    using assms by simp
next
  fix i assume "i < length (mem_read off' n (mem_write off bs mem))"
  with assms have i: "i < n" by simp
  with assms show "mem_read off' n (mem_write off bs mem) ! i = mem_read off' n mem ! i"
    by (auto simp: mem_read_nth nth_mem_write)
qed

section \<open>Wrapping indices\<close>

lemma wrap_succ [ring_simps]:
  "i < (n::nat) \<Longrightarrow> (if Suc i = n then 0 else Suc i) = Suc i mod n"
  by auto

text \<open>Taking \<open>n\<close> of \<open>c\<close> items from the front leaves the end where it was.\<close>

lemma mod_take_front:
  "n \<le> c \<Longrightarrow> ((t + n) mod m + (c - n)) mod m = (t + c) mod (m::nat)"
  by (simp only: mod_add_left_eq) simp

lemma mod_add_neq [ring_simps]:
  assumes "i < j" "j < (n::nat)"
  shows "(t + i) mod n \<noteq> (t + j) mod n"
proof
  assume "(t + i) mod n = (t + j) mod n"
  then have "n dvd (t + j) - (t + i)"
    using assms by (metis add_le_cancel_left less_imp_le_nat mod_eq_dvd_iff_nat)
  then have "n dvd j - i" by simp
  with assms show False by (meson dvd_imp_le less_imp_diff_less not_le zero_less_diff)
qed

section \<open>Division that truncates towards zero, and signed words\<close>

lemma sdiv_pos: "0 \<le> a \<Longrightarrow> 0 < b \<Longrightarrow> a sdiv b = a div (b::int)"
  by (auto simp: signed_divide_int_def sgn_if)

lemma sdiv_neg: "0 \<le> a \<Longrightarrow> 0 < b \<Longrightarrow> (- a) sdiv b = - (a div (b::int))"
  by (auto simp: signed_divide_int_def sgn_if)

lemma abs_sdiv: "0 < b \<Longrightarrow> \<bar>a sdiv b\<bar> = \<bar>a\<bar> div (b::int)"
  using sdiv_neg [of "- a" b]
  by (cases "0 \<le> a") (simp_all add: sdiv_pos pos_imp_zdiv_nonneg_iff)

lemma abs_sdiv_le: "0 < b \<Longrightarrow> \<bar>a sdiv b\<bar> \<le> \<bar>a::int\<bar>"
  by (simp add: abs_sdiv) (metis abs_ge_zero div_by_1 less_le_not_le linorder_not_less
      int_one_le_iff_zero_less zdiv_mono2 zero_less_one)

lemma sint_word_of_int_64:
  "- 9223372036854775808 \<le> i \<Longrightarrow> i < 9223372036854775808 \<Longrightarrow> sint (word_of_int i :: u64) = i"
  by (simp add: sint_sbintrunc' signed_take_bit_int_eq_self)

lemma sint_word_of_int_32:
  "- 2147483648 \<le> i \<Longrightarrow> i < 2147483648 \<Longrightarrow> sint (word_of_int i :: u32) = i"
  by (simp add: sint_sbintrunc' signed_take_bit_int_eq_self)

lemma sint_bounds_32: "- 2147483648 \<le> sint (d::u32)" "sint (d::u32) < 2147483648"
  using sint_ge [of d] sint_lt [of d] by simp_all

lemma sint_bounds_16: "- 32768 \<le> sint (d::u16)" "sint (d::u16) < 32768"
  using sint_ge [of d] sint_lt [of d] by simp_all

lemma sint_word_of_int_16:
  "- 32768 \<le> i \<Longrightarrow> i < 32768 \<Longrightarrow> sint (word_of_int i :: u16) = i"
  by (simp add: sint_sbintrunc' signed_take_bit_int_eq_self)

lemma word_eq_of_nat: "unat w = n \<Longrightarrow> w = of_nat n"
  by auto

lemma unat_u16: "unat (d::u16) < 65536"
proof -
  have "unat d < 2 ^ LENGTH(16)" by (rule unsigned_less)
  then show ?thesis by simp
qed

lemma unat_u32: "unat (d::u32) < 4294967296"
proof -
  have "unat d < 2 ^ LENGTH(32)" by (rule unsigned_less)
  then show ?thesis by simp
qed

lemma uint_u16: "uint (d::u16) < 65536"
proof -
  have "uint d < 2 ^ LENGTH(16)" by (rule unsigned_less)
  then show ?thesis by simp
qed

lemma uint_eq_unat: "uint d = int (unat d)"
  by simp

lemma sint_u16: "sint (d::u16) = (if unat d < 32768 then int (unat d) else int (unat d) - 65536)"
proof (cases "unat d < 32768")
  case True
  then have "uint d < 32768" using uint_eq_unat [of d] by linarith
  then show ?thesis using sint_word_of_int_16 [of "uint d"] True uint_ge_0 [of d] by simp
next
  case False
  then have u: "32768 \<le> uint d" "uint d < 65536"
    using uint_eq_unat [of d] unat_u16 [of d] by linarith+
  have "word_of_int (uint d - 65536) = d" by simp
  moreover have "sint (word_of_int (uint d - 65536) :: u16) = uint d - 65536"
    by (rule sint_word_of_int_16) (use u in auto)
  ultimately have "sint d = uint d - 65536" by (simp only:)
  then show ?thesis using False by simp
qed

lemma sint_pos_u16: "0 < sint (d::u16) \<longleftrightarrow> 0 < unat d \<and> unat d < 32768"
proof (cases "unat d < 32768")
  case True
  then have "sint d = int (unat d)" by (simp only: sint_u16 if_True)
  with True show ?thesis by linarith
next
  case False
  then have "sint d = int (unat d) - 65536" by (simp only: sint_u16 if_False)
  with False unat_u16 [of d] show ?thesis by linarith
qed

lemma unat_minus_one_u16: "unat (- 1 :: u16) = 65535"
proof -
  have "(- 1 :: u16) = 65535" by simp
  then show ?thesis by (simp only:) simp
qed

section \<open>Numbers and searches\<close>

lemma unat_of_nat_u32: "n < 2 ^ 32 \<Longrightarrow> unat (word_of_nat n :: u32) = n"
  by (simp add: unsigned_of_nat take_bit_nat_eq_self)

lemma find_SomeD: "List.find P xs = Some x \<Longrightarrow> x \<in> set xs \<and> P x"
  by (metis find_Some_iff nth_mem)

lemma find_NoneD: "List.find P xs = None \<Longrightarrow> x \<in> set xs \<Longrightarrow> \<not> P x"
  by (simp add: find_None_iff)

lemma sint_of_nat_32: "x < 2 ^ 31 \<Longrightarrow> sint (of_nat x :: u32) = int x"
  using sint_word_of_int_32 [of "int x"] by simp

section \<open>Rings\<close>

text \<open>The \<open>n\<close> elements from position \<open>t\<close> on, around the end of a buffer.\<close>

definition ring :: "'a list \<Rightarrow> nat \<Rightarrow> nat \<Rightarrow> 'a list" where
  "ring buf t n = map (\<lambda>i. buf ! ((t + i) mod length buf)) [0..<n]"

lemma length_ring [simp]: "length (ring buf t n) = n"
  by (simp add: ring_def)

lemma ring_add: "ring buf t (m + n) = ring buf t m @ ring buf (t + m) n"
  by (rule nth_equalityI) (auto simp: ring_def nth_append add.assoc)

lemma ring_mod: "ring buf (t mod length buf) n = ring buf t n"
  by (simp add: ring_def mod_simps)

lemma ring_mem_read: "t + n \<le> length buf \<Longrightarrow> mem_read t n buf = ring buf t n"
  by (rule nth_equalityI) (auto simp: ring_def mem_read_nth)

text \<open>A write of \<open>bs\<close> just after the occupied part appends \<open>bs\<close> and disturbs nothing.\<close>

lemma ring_write:
  assumes "e + length bs \<le> length buf" and "(t + n) mod length buf = e mod length buf"
    and "n + length bs \<le> length buf" and "bs \<noteq> []"
  shows "ring (mem_write e bs buf) t (n + length bs) = ring buf t n @ bs"
proof (rule nth_equalityI)
  show "length (ring (mem_write e bs buf) t (n + length bs)) = length (ring buf t n @ bs)"
    by simp
next
  fix i assume "i < length (ring (mem_write e bs buf) t (n + length bs))"
  then have i: "i < n + length bs" by simp
  let ?L = "length buf"
  have L: "0 < ?L" and e: "e < ?L" using assms(1,4) by (cases bs; auto)+
  have e': "(t + n) mod ?L = e" using assms(2) e by simp
  let ?k = "(t + i) mod ?L"
  show "ring (mem_write e bs buf) t (n + length bs) ! i = (ring buf t n @ bs) ! i"
  proof (cases "i < n")
    case False
    then obtain j where j: "i = n + j" "j < length bs" using i by (metis le_Suc_ex not_less nat_add_left_cancel_less)
    have "?k = (e + j) mod ?L" using e' j by (metis add.assoc mod_add_left_eq)
    then have "?k = e + j" using assms(1) j by simp
    with i j assms(1) L show ?thesis
      by (simp add: ring_def nth_append nth_mem_write)
  next
    case True
    have "?k \<noteq> e + j" if "j < length bs" for j
    proof -
      have "(t + i) mod ?L \<noteq> (t + (n + j)) mod ?L"
        using True that assms(3) by (intro mod_add_neq) simp_all
      moreover have "(t + (n + j)) mod ?L = e + j"
        using e' that assms(1) by (metis add.assoc add_less_le_mono mod_add_left_eq mod_less nat_add_left_cancel_less order_less_le_trans)
      ultimately show ?thesis by simp
    qed
    then have "\<not> (e \<le> ?k \<and> ?k < e + length bs)"
      by (metis le_Suc_ex nat_add_left_cancel_less)
    with True i assms(1) L show ?thesis
      by (auto simp: ring_def nth_append nth_mem_write)
  qed
qed

end
