(* ===== verification/Metadata_Queue.thy ===== *)
theory Metadata_Queue
  imports Prelude
begin

text \<open>
  The producer/consumer queue of the metadata hub (\<open>metadata/pc_queue.c\<close>): a circular array
  of \<open>capacity\<close> slots of \<open>item_size\<close> bytes each, in the memory region \<open>items\<close>, with the index
  \<open>toq\<close> of the next item to take, \<open>eoq\<close> of the next free slot and the number \<open>count\<close> of
  items held. The mutex makes each operation atomic; waiting on a condition variable is the
  result that the operation does not complete yet.

  The contract \<open>bounded_fifo\<close> is what the metadata producers and consumers rely on; it is
  interpreted on the model of the C code by way of the abstraction to a list of items.
\<close>

section \<open>The interface: a bounded first-in first-out queue\<close>

text \<open>
  \<open>put\<close> refuses an item exactly when the queue is full; \<open>get\<close> has nothing to give
  exactly when it is empty.
\<close>

locale bounded_fifo =
  fixes put :: "'q \<Rightarrow> 'a \<Rightarrow> 'q option"
    and get :: "'q \<Rightarrow> ('a \<times> 'q) option"
    and contents :: "'q \<Rightarrow> 'a list"
    and cap :: "'q \<Rightarrow> nat"
    and ok :: "'q \<Rightarrow> bool"
    and item_ok :: "'q \<Rightarrow> 'a \<Rightarrow> bool"
  assumes contents_cap: "ok q \<Longrightarrow> length (contents q) \<le> cap q"
    and put_full: "ok q \<Longrightarrow> item_ok q x \<Longrightarrow> put q x = None \<longleftrightarrow> length (contents q) = cap q"
    and put_some: "ok q \<Longrightarrow> item_ok q x \<Longrightarrow> put q x = Some q' \<Longrightarrow>
       ok q' \<and> contents q' = contents q @ [x] \<and> cap q' = cap q \<and> item_ok q' = item_ok q"
    and get_empty: "ok q \<Longrightarrow> get q = None \<longleftrightarrow> contents q = []"
    and get_some: "ok q \<Longrightarrow> get q = Some (x, q') \<Longrightarrow>
       ok q' \<and> contents q = x # contents q' \<and> cap q' = cap q \<and> item_ok q' = item_ok q"
begin

text \<open>Operations in any order, as the producers and the consumer interleave them.\<close>

fun run_ops :: "'q \<Rightarrow> 'a option list \<Rightarrow> 'a list \<times> 'a list \<times> 'q" where
  "run_ops q [] = ([], [], q)"
| "run_ops q (Some x # ops) = (case put q x of
       None \<Rightarrow> run_ops q ops
     | Some q' \<Rightarrow> (case run_ops q' ops of (ins, outs, q'') \<Rightarrow> (x # ins, outs, q'')))"
| "run_ops q (None # ops) = (case get q of
       None \<Rightarrow> run_ops q ops
     | Some (x, q') \<Rightarrow> (case run_ops q' ops of (ins, outs, q'') \<Rightarrow> (ins, x # outs, q'')))"

text \<open>
  Whatever the interleaving, what was in the queue followed by what was accepted is what was
  delivered followed by what is left: nothing is lost, duplicated or reordered.
\<close>

lemma run_ops_fifo:
  assumes "ok q" and "\<And>x. Some x \<in> set ops \<Longrightarrow> item_ok q x"
    and "run_ops q ops = (ins, outs, q')"
  shows "ok q' \<and> cap q' = cap q \<and> contents q @ ins = outs @ contents q'"
  using assms
proof (induction q ops arbitrary: ins outs rule: run_ops.induct)
  case (1 q)
  then show ?case by simp
next
  case (2 q x ops)
  have x: "item_ok q x" using "2.prems" by simp
  show ?case
  proof (cases "put q x")
    case None
    then show ?thesis using "2.IH"(1) "2.prems" by simp
  next
    case (Some q1)
    note p = put_some [OF "2.prems"(1) x Some]
    obtain i o' where "run_ops q1 ops = (i, o', q')" and "ins = x # i" "outs = o'"
      using "2.prems"(3) Some by (auto split: prod.splits)
    with "2.IH"(2) [OF Some] "2.prems"(2) p show ?thesis by simp
  qed
next
  case (3 q ops)
  show ?case
  proof (cases "get q")
    case None
    then show ?thesis using "3.IH"(1) "3.prems" by simp
  next
    case (Some r)
    then obtain x q1 where r: "get q = Some (x, q1)" by (cases r) auto
    note g = get_some [OF "3.prems"(1) r]
    obtain i o' where "run_ops q1 ops = (i, o', q')" and "ins = i" "outs = x # o'"
      using "3.prems"(3) r by (auto split: prod.splits)
    with "3.IH"(2) [OF r, of x q1] "3.prems"(2) g show ?thesis by simp
  qed
qed

end

section \<open>The model of the C code\<close>

record pc_queue =
  items :: "u8 list"
  item_size :: nat
  count :: nat
  capacity :: nat
  toq :: nat
  eoq :: nat

text \<open>\<open>pc_queue_init\<close>: the caller supplies the memory for the items.\<close>

definition pc_queue_init :: "u8 list \<Rightarrow> nat \<Rightarrow> nat \<Rightarrow> pc_queue" where
  "pc_queue_init mem isz n =
     \<lparr>items = mem, item_size = isz, count = 0, capacity = n, toq = 0, eoq = 0\<rparr>"

datatype add_response = Added | EWOULDBLOCK | EBUSY

text \<open>
  \<open>pc_queue_add_item\<close>. \<open>busy\<close> is the outcome EBUSY of the timed lock; only the non-blocking
  call returns on it. \<open>the_stuff\<close> is the memory from which \<open>item_size\<close> bytes are copied.
  A NULL queue is \<open>None\<close> and is reported as success.
\<close>

definition pc_queue_add_item ::
  "pc_queue option \<Rightarrow> u8 list \<Rightarrow> bool \<Rightarrow> bool \<Rightarrow> add_response \<times> pc_queue option" where
  "pc_queue_add_item the_queue the_stuff block busy =
     (case the_queue of
        None \<Rightarrow> (Added, None)
      | Some q \<Rightarrow>
          if \<not> block \<and> busy then (EBUSY, Some q)
          else if count q < capacity q then
            (let i = eoq q;
                 mem = mem_write (item_size q * i) (take (item_size q) the_stuff) (items q);
                 i' = Suc i
             in (Added, Some (q\<lparr>items := mem,
                                eoq := (if i' = capacity q then 0 else i'),
                                count := Suc (count q)\<rparr>)))
          else (EWOULDBLOCK, Some q))"

text \<open>
  \<open>pc_queue_get_item\<close>: while the queue is empty the caller waits, which is the result
  \<open>None\<close>; otherwise the item is copied out and the slot released.
\<close>

definition pc_queue_get_item :: "pc_queue \<Rightarrow> (u8 list \<times> pc_queue) option" where
  "pc_queue_get_item q =
     (if count q = 0 then None
      else let i = toq q; i' = Suc i
           in Some (mem_read (item_size q * i) (item_size q) (items q),
                    q\<lparr>toq := (if i' = capacity q then 0 else i'), count := count q - 1\<rparr>))"

section \<open>Well-formedness and the abstraction to a list\<close>

definition pcq_ok :: "pc_queue \<Rightarrow> bool" where
  "pcq_ok q \<longleftrightarrow> 0 < capacity q \<and> toq q < capacity q \<and> count q \<le> capacity q
     \<and> eoq q = (toq q + count q) mod capacity q
     \<and> item_size q * capacity q \<le> length (items q)"

definition slot :: "pc_queue \<Rightarrow> nat \<Rightarrow> u8 list" where
  "slot q i = mem_read (item_size q * i) (item_size q) (items q)"

definition pcq_list :: "pc_queue \<Rightarrow> u8 list list" where
  "pcq_list q = map (\<lambda>i. slot q ((toq q + i) mod capacity q)) [0..<count q]"

definition pcq_put :: "pc_queue \<Rightarrow> u8 list \<Rightarrow> pc_queue option" where
  "pcq_put q x = (case pc_queue_add_item (Some q) x True False of
     (Added, q') \<Rightarrow> q' | _ \<Rightarrow> None)"

lemma length_pcq_list [simp]: "length (pcq_list q) = count q"
  by (simp add: pcq_list_def)

lemma slot_in_region:
  assumes "item_size q * capacity q \<le> length (items q)" and "i < capacity q"
  shows "item_size q * i + item_size q \<le> length (items q)"
proof -
  have "item_size q * i + item_size q = item_size q * Suc i" by simp
  also have "\<dots> \<le> item_size q * capacity q"
    using assms(2) by (intro mult_le_mono2) simp
  finally show ?thesis using assms(1) by simp
qed

text \<open>Writing one slot leaves every other slot alone.\<close>

lemma slot_write:
  assumes ok: "item_size q * capacity q \<le> length (items q)" "i < capacity q" "j < capacity q"
    and x: "length x = item_size q"
  shows "mem_read (item_size q * i) (item_size q) (mem_write (item_size q * j) x (items q))
     = (if i = j then x else slot q i)"
proof (cases "i = j")
  case True
  then show ?thesis
    using mem_read_write_same [of "item_size q * j" x "items q"] slot_in_region [OF ok(1) ok(3)] x
    by simp
next
  case False
  then have "Suc i \<le> j \<or> Suc j \<le> i" by arith
  then have "item_size q * Suc i \<le> item_size q * j \<or> item_size q * Suc j \<le> item_size q * i"
    using mult_le_mono2 by blast
  then have "item_size q * i + item_size q \<le> item_size q * j
      \<or> item_size q * j + length x \<le> item_size q * i"
    using x by (auto simp: algebra_simps)
  with False show ?thesis
    using mem_read_write_other [of "item_size q * j" x "items q" "item_size q * i" "item_size q"]
      slot_in_region [OF ok(1) ok(2)] slot_in_region [OF ok(1) ok(3)] x
    by (simp add: slot_def)
qed

lemma pcq_put_eq:
  assumes "length x = item_size q"
  shows "pcq_put q x = (if count q < capacity q
     then Some (q\<lparr>items := mem_write (item_size q * eoq q) x (items q),
                  eoq := (if Suc (eoq q) = capacity q then 0 else Suc (eoq q)),
                  count := Suc (count q)\<rparr>) else None)"
  using assms by (simp add: pcq_put_def pc_queue_add_item_def Let_def)

lemma pcq_put_some:
  assumes ok: "pcq_ok q" and x: "length x = item_size q" and p: "pcq_put q x = Some q'"
  shows "pcq_ok q' \<and> pcq_list q' = pcq_list q @ [x] \<and> capacity q' = capacity q
    \<and> item_size q' = item_size q"
proof -
  let ?n = "capacity q" and ?t = "toq q" and ?c = "count q"
  from p x have lt: "?c < ?n"
    and q': "q' = q\<lparr>items := mem_write (item_size q * eoq q) x (items q),
       eoq := (if Suc (eoq q) = ?n then 0 else Suc (eoq q)), count := Suc ?c\<rparr>"
    by (auto simp: pcq_put_eq split: if_splits)
  from ok have n: "0 < ?n" and e: "eoq q = (?t + ?c) mod ?n" and t: "?t < ?n"
    and m: "item_size q * ?n \<le> length (items q)"
    by (auto simp: pcq_ok_def)
  from e n have elt: "eoq q < ?n" by simp
  have len: "length (mem_write (item_size q * eoq q) x (items q)) = length (items q)"
    using slot_in_region [OF m elt] x by simp
  have "eoq q' = Suc (?t + ?c) mod ?n"
    using e by (simp add: q' mod_Suc)
  then have ok': "pcq_ok q'"
    using ok lt len by (simp add: pcq_ok_def q')
  have sl: "slot q' i = (if i = eoq q then x else slot q i)" if "i < ?n" for i
    unfolding slot_def [of q'] using slot_write [OF m that elt x] by (simp add: q')
  have "slot q' ((?t + i) mod ?n) = slot q ((?t + i) mod ?n)" if "i < ?c" for i
    using sl [of "(?t + i) mod ?n"] mod_add_neq [OF that lt, of ?t] n e by simp
  moreover have "slot q' ((?t + ?c) mod ?n) = x"
    using sl [of "(?t + ?c) mod ?n"] e n by simp
  ultimately have "pcq_list q' = pcq_list q @ [x]"
    by (simp add: pcq_list_def q')
  with ok' show ?thesis by (simp add: q')
qed

lemma pcq_get_some:
  assumes ok: "pcq_ok q" and g: "pc_queue_get_item q = Some (x, q')"
  shows "pcq_ok q' \<and> pcq_list q = x # pcq_list q' \<and> capacity q' = capacity q
    \<and> item_size q' = item_size q"
proof -
  let ?n = "capacity q" and ?t = "toq q" and ?c = "count q"
  from g have c: "0 < ?c" and x: "x = slot q ?t"
    and q': "q' = q\<lparr>toq := (if Suc ?t = ?n then 0 else Suc ?t), count := ?c - 1\<rparr>"
    by (auto simp: pc_queue_get_item_def slot_def Let_def split: if_splits)
  from ok have t: "?t < ?n" by (simp add: pcq_ok_def)
  have t': "toq q' = Suc ?t mod ?n" using t by (simp add: q' wrap_succ)
  have "(toq q' + (?c - 1)) mod ?n = (?t + ?c) mod ?n"
    using mod_take_front [of 1 ?c ?t ?n] c by (simp add: t')
  moreover have "toq q' < ?n" using t t' by simp
  ultimately have ok': "pcq_ok q'"
    using ok by (auto simp: pcq_ok_def q')
  have "[0..<?c] = 0 # map Suc [0..<?c - 1]"
    using c by (simp add: upt_conv_Cons map_Suc_upt)
  then have "pcq_list q = slot q (?t mod ?n) # map (\<lambda>i. slot q ((?t + Suc i) mod ?n)) [0..<?c - 1]"
    by (simp add: pcq_list_def)
  also have "map (\<lambda>i. slot q ((?t + Suc i) mod ?n)) [0..<?c - 1] = pcq_list q'"
    using t' by (simp add: pcq_list_def q' slot_def mod_simps)
  finally show ?thesis using ok' x t by (simp add: q')
qed

interpretation pcq: bounded_fifo pcq_put pc_queue_get_item pcq_list capacity pcq_ok
  "\<lambda>q x. length x = item_size q"
proof unfold_locales
  fix q :: pc_queue and x :: "u8 list" assume "pcq_ok q" "length x = item_size q"
  then show "pcq_put q x = None \<longleftrightarrow> length (pcq_list q) = capacity q"
    by (auto simp: pcq_put_eq pcq_ok_def)
next
  fix q :: pc_queue assume "pcq_ok q"
  show "pc_queue_get_item q = None \<longleftrightarrow> pcq_list q = []"
    by (auto simp: pc_queue_get_item_def pcq_list_def Let_def)
next
  fix q :: pc_queue assume "pcq_ok q"
  then show "length (pcq_list q) \<le> capacity q"
    by (simp add: pcq_ok_def)
qed (auto dest: pcq_put_some pcq_get_some)

section \<open>Producers and consumer together\<close>

text \<open>
  The calls of all the threads in the order in which they get the mutex. The result is what
  the queue accepted, what it delivered, and the final state; a \<open>Get\<close> on an empty queue
  keeps waiting and changes nothing.
\<close>

datatype pcq_call = Add (stuff: "u8 list") (blocking: bool) (lock_busy: bool) | Get

fun pcq_run :: "pc_queue \<Rightarrow> pcq_call list \<Rightarrow> u8 list list \<times> u8 list list \<times> pc_queue" where
  "pcq_run q [] = ([], [], q)"
| "pcq_run q (Add x block busy # cs) =
     (case pc_queue_add_item (Some q) x block busy of
        (Added, Some q') \<Rightarrow>
          (case pcq_run q' cs of (ins, outs, r) \<Rightarrow> (take (item_size q) x # ins, outs, r))
      | _ \<Rightarrow> pcq_run q cs)"
| "pcq_run q (Get # cs) =
     (case pc_queue_get_item q of
        None \<Rightarrow> pcq_run q cs
      | Some (x, q') \<Rightarrow> (case pcq_run q' cs of (ins, outs, r) \<Rightarrow> (ins, x # outs, r)))"

text \<open>A call as the interface sees it: a busy lock makes a non-blocking call no call at all.\<close>

definition as_op :: "nat \<Rightarrow> pcq_call \<Rightarrow> u8 list option list" where
  "as_op n c = (case c of
     Add x block busy \<Rightarrow> if \<not> block \<and> busy then [] else [Some (take n x)]
   | Get \<Rightarrow> [None])"

lemma as_op_simps [simp]:
  "as_op n (Add x block busy) = (if \<not> block \<and> busy then [] else [Some (take n x)])"
  "as_op n Get = [None]"
  by (simp_all add: as_op_def)

lemma add_item_put:
  "pc_queue_add_item (Some q) x block busy =
     (if \<not> block \<and> busy then (EBUSY, Some q)
      else case pcq_put q (take (item_size q) x) of
        Some q' \<Rightarrow> (Added, Some q') | None \<Rightarrow> (EWOULDBLOCK, Some q))"
  by (simp add: pcq_put_def pc_queue_add_item_def Let_def)

lemma pcq_run_ops:
  assumes "pcq_ok q" and "\<forall>x b l. Add x b l \<in> set cs \<longrightarrow> item_size q \<le> length x"
  shows "pcq_run q cs = pcq.run_ops q (concat (map (as_op (item_size q)) cs))"
  using assms
proof (induction cs arbitrary: q)
  case Nil
  then show ?case by simp
next
  case (Cons c cs)
  have cs: "\<forall>x b l. Add x b l \<in> set cs \<longrightarrow> item_size q \<le> length x"
    using Cons.prems(2) by simp
  note IH = Cons.IH [OF Cons.prems(1) cs]
  show ?case
  proof (cases c)
    case (Add x b l)
    with Cons.prems(2) have len: "length (take (item_size q) x) = item_size q" by auto
    show ?thesis
    proof (cases "pcq_put q (take (item_size q) x)")
      case None
      with Add IH show ?thesis by (simp add: add_item_put)
    next
      case (Some q')
      note p = pcq_put_some [OF Cons.prems(1) len Some]
      have "pcq_run q' cs = pcq.run_ops q' (concat (map (as_op (item_size q)) cs))"
        using Cons.IH [of q'] cs p by simp
      with Add Some IH show ?thesis by (simp add: add_item_put)
    qed
  next
    case Get
    show ?thesis
    proof (cases "pc_queue_get_item q")
      case None
      with Get IH show ?thesis by simp
    next
      case (Some r)
      then obtain x q' where r: "pc_queue_get_item q = Some (x, q')" by (cases r) auto
      note g = pcq_get_some [OF Cons.prems(1) r]
      have "pcq_run q' cs = pcq.run_ops q' (concat (map (as_op (item_size q)) cs))"
        using Cons.IH [of q'] cs g by simp
      with Get r show ?thesis by simp
    qed
  qed
qed

text \<open>
  C9. Whatever the order in which metadata producers and the consumer get the lock, and
  whatever calls are refused because the queue is full or the lock busy, the items held at the
  start followed by those accepted are exactly those delivered followed by those still held:
  the circular array never loses, duplicates, overwrites or reorders an item.
\<close>

theorem metadata_queue_fifo:
  assumes "pcq_ok q"
    and "\<forall>x b l. Add x b l \<in> set cs \<longrightarrow> item_size q \<le> length x"
    and "pcq_run q cs = (accepted, delivered, q')"
  shows "pcq_ok q' \<and> pcq_list q @ accepted = delivered @ pcq_list q'"
proof -
  let ?ops = "concat (map (as_op (item_size q)) cs)"
  have len: "length x = item_size q" if "Some x \<in> set ?ops" for x
  proof -
    from that obtain c where c: "c \<in> set cs" "Some x \<in> set (as_op (item_size q) c)" by auto
    show ?thesis
    proof (cases c)
      case (Add y b l)
      with c(1) assms(2) have "item_size q \<le> length y" by blast
      with c(2) Add show ?thesis by (auto split: if_splits)
    next
      case Get
      with c(2) show ?thesis by simp
    qed
  qed
  have "pcq.run_ops q ?ops = (accepted, delivered, q')"
    using pcq_run_ops [OF assms(1)] assms(2,3) by simp
  from pcq.run_ops_fifo [OF assms(1) len this] show ?thesis by blast
qed

lemma pc_queue_init_ok:
  "0 < n \<Longrightarrow> isz * n \<le> length mem \<Longrightarrow>
     pcq_ok (pc_queue_init mem isz n) \<and> pcq_list (pc_queue_init mem isz n) = []"
  by (simp add: pcq_ok_def pc_queue_init_def pcq_list_def)

theorem metadata_queue_fifo_witness:
  "\<exists>q'. pcq_run (pc_queue_init (replicate 4 0) 2 2)
      [Add [1, 2] True False, Add [3, 4] False False, Add [5, 6] True False, Get,
       Add [7, 8, 9] False False, Get, Get, Get] =
     ([[1, 2], [3, 4], [7, 8]], [[1, 2], [3, 4], [7, 8]], q')
   \<and> pcq_ok q' \<and> pcq_list q' = []"
proof -
  let ?q = "pc_queue_init (replicate 4 0) 2 2"
  let ?cs = "[Add [1, 2] True False, Add [3, 4] False False, Add [5, 6] True False, Get,
       Add [7, 8, 9] False False, Get, Get, Get]"
  obtain q' where r: "pcq_run ?q ?cs = ([[1, 2], [3, 4], [7, 8]], [[1, 2], [3, 4], [7, 8]], q')"
    by (simp add: pc_queue_init_def pc_queue_add_item_def pc_queue_get_item_def
        mem_write_def mem_read_def eval_nat_numeral)
  have "pcq_ok ?q" and "pcq_list ?q = []"
    using pc_queue_init_ok [of 2 2 "replicate 4 0"] by simp_all
  moreover have "\<forall>x b l. Add x b l \<in> set ?cs \<longrightarrow> item_size ?q \<le> length x"
    by (auto simp: pc_queue_init_def)
  ultimately show ?thesis
    using metadata_queue_fifo [of ?q ?cs, OF _ _ r] r by simp
qed

end
