(* ===== verification/Buffered_Tcp.thy ===== *)
theory Buffered_Tcp
  imports Prelude
begin

text \<open>
  The buffered TCP link of AirPlay 2 buffered audio (\<open>utilities/buffered_read.c\<close>): a reader
  thread receives from the socket into a circular buffer, and the audio processor reads blocks
  from it. Pointers into the buffer are offsets from its start; \<open>closed\<close> and \<open>error_code\<close>
  carry the end of the connection from the reader to the consumer. Two threads share the
  descriptor, so their critical sections are the steps of a transition system, whose
  reachable states are those of any schedule.
\<close>

section \<open>The descriptor and its operations\<close>

record tcp_desc =
  closed :: bool
  error_code :: int
  buffer :: "u8 list"
  toq :: nat
  eoq :: nat
  buffer_max_size :: nat
  buffer_occupancy :: nat

definition STANDARD_PACKET_SIZE :: nat where
  "STANDARD_PACKET_SIZE = 4096"

text \<open>
  One turn of the loop of \<open>buffered_tcp_reader\<close>. First half: when the buffer is not full, wrap
  the end pointer and decide how many bytes to ask the socket for. Second half: what \<open>recv\<close>
  delivered (the bytes themselves were written at \<open>eoq\<close>).
\<close>

definition reader_request :: "tcp_desc \<Rightarrow> (nat \<times> tcp_desc) option" where
  "reader_request d =
     (if buffer_occupancy d = buffer_max_size d then None
      else let d' = (if eoq d = buffer_max_size d then d\<lparr>eoq := 0\<rparr> else d);
               free_space = buffer_max_size d' - buffer_occupancy d';
               n = (if STANDARD_PACKET_SIZE > free_space then free_space else STANDARD_PACKET_SIZE);
               gap = buffer_max_size d' - eoq d'
           in Some (if gap < n then gap else n, d'))"

datatype recv_result = RecvError int | RecvData "u8 list"

definition reader_complete :: "recv_result \<Rightarrow> tcp_desc \<Rightarrow> bool \<times> tcp_desc" where
  "reader_complete r d = (case r of
       RecvError e \<Rightarrow> (False, d\<lparr>error_code := e\<rparr>)
     | RecvData bs \<Rightarrow>
         if bs = [] then (True, d\<lparr>closed := True\<rparr>)
         else (False, d\<lparr>buffer := mem_write (eoq d) bs (buffer d),
                        eoq := eoq d + length bs,
                        buffer_occupancy := buffer_occupancy d + length bs\<rparr>))"

text \<open>
  \<open>buffered_read\<close>: on entry it wipes the state of the last error and the closed flag; then it
  waits until there is something to report, and then it reports an error, the end of the
  connection (no bytes), or moves bytes out.
\<close>

datatype read_result = ReadError int | ReadBytes "u8 list"

definition buffered_read_begin :: "tcp_desc \<Rightarrow> tcp_desc" where
  "buffered_read_begin d = d\<lparr>error_code := 0, closed := False\<rparr>"

definition buffered_read_ready :: "tcp_desc \<Rightarrow> bool" where
  "buffered_read_ready d \<longleftrightarrow> \<not> (buffer_occupancy d = 0 \<and> error_code d = 0 \<and> \<not> closed d)"

definition buffered_read_finish :: "nat \<Rightarrow> tcp_desc \<Rightarrow> read_result \<times> tcp_desc" where
  "buffered_read_finish cnt d =
     (if error_code d \<noteq> 0 then (ReadError (error_code d), d)
      else if closed d then (ReadBytes [], d)
      else let m = (if buffer_occupancy d < cnt then buffer_occupancy d else cnt);
               top_gap = buffer_max_size d - toq d;
               n = (if top_gap < m then top_gap else m);
               t = toq d + n
           in (ReadBytes (mem_read (toq d) n (buffer d)),
               d\<lparr>toq := (if t = buffer_max_size d then 0 else t),
                 buffer_occupancy := buffer_occupancy d - n\<rparr>))"

text \<open>
  \<open>read_sized_block\<close>: reads until the block is complete, retrying on EAGAIN and EINTR. The
  outcomes of the successive \<open>buffered_read\<close> calls are the list; the result is the value
  returned with the bytes in the caller's buffer, or \<open>None\<close> while it still waits.
\<close>

definition EAGAIN :: int where "EAGAIN = 11"
definition EINTR :: int where "EINTR = 4"

fun read_sized_block :: "nat \<Rightarrow> u8 list \<Rightarrow> read_result list \<Rightarrow> (int \<times> u8 list) option" where
  "read_sized_block cnt inbuf [] = None"
| "read_sized_block cnt inbuf (ReadError e # rs) =
     (if (e = EAGAIN \<or> e = EINTR) \<and> length inbuf < cnt then read_sized_block cnt inbuf rs
      else Some (-1, inbuf))"
| "read_sized_block cnt inbuf (ReadBytes bs # rs) =
     (if bs = [] then Some (0, inbuf)
      else if length (inbuf @ bs) < cnt then read_sized_block cnt (inbuf @ bs) rs
      else Some (int (length (inbuf @ bs)), inbuf @ bs))"

section \<open>Well-formedness and contents\<close>

definition tcp_ok :: "tcp_desc \<Rightarrow> bool" where
  "tcp_ok d \<longleftrightarrow> 0 < buffer_max_size d \<and> length (buffer d) = buffer_max_size d
     \<and> toq d < buffer_max_size d \<and> eoq d \<le> buffer_max_size d
     \<and> buffer_occupancy d \<le> buffer_max_size d
     \<and> (toq d + buffer_occupancy d) mod buffer_max_size d = eoq d mod buffer_max_size d"

definition pending :: "tcp_desc \<Rightarrow> u8 list" where
  "pending d = ring (buffer d) (toq d) (buffer_occupancy d)"

section \<open>What each critical section does\<close>

lemma reader_request_ok:
  assumes "tcp_ok d" and "reader_request d = Some (n, d')"
  shows "tcp_ok d' \<and> pending d' = pending d \<and> 0 < n \<and> n \<le> STANDARD_PACKET_SIZE
    \<and> buffer_occupancy d' + n \<le> buffer_max_size d' \<and> eoq d' + n \<le> buffer_max_size d'"
  using assms
  by (auto simp: reader_request_def tcp_ok_def pending_def STANDARD_PACKET_SIZE_def Let_def
      split: if_splits)

lemma reader_complete_ok:
  assumes "tcp_ok d" and "length bs + buffer_occupancy d \<le> buffer_max_size d"
    and "eoq d + length bs \<le> buffer_max_size d"
    and "reader_complete (RecvData bs) d = (fin, d')"
  shows "tcp_ok d' \<and> pending d' = pending d @ bs"
proof (cases "bs = []")
  case True
  with assms show ?thesis by (auto simp: reader_complete_def tcp_ok_def pending_def)
next
  case False
  from assms False have d': "d' = d\<lparr>buffer := mem_write (eoq d) bs (buffer d),
      eoq := eoq d + length bs, buffer_occupancy := buffer_occupancy d + length bs\<rparr>"
    by (simp add: reader_complete_def)
  have "(toq d + (buffer_occupancy d + length bs)) mod buffer_max_size d
      = (eoq d + length bs) mod buffer_max_size d"
    using assms(1) unfolding tcp_ok_def by (metis add.assoc mod_add_left_eq)
  with assms False show ?thesis
    using ring_write [of "eoq d" bs "buffer d" "toq d" "buffer_occupancy d"]
    by (auto simp: d' tcp_ok_def pending_def add.commute)
qed

lemma reader_error_ok:
  "tcp_ok d \<Longrightarrow> reader_complete (RecvError e) d = (fin, d') \<Longrightarrow> tcp_ok d' \<and> pending d' = pending d"
  by (auto simp: reader_complete_def tcp_ok_def pending_def)

lemma buffered_read_begin_ok:
  "tcp_ok d \<Longrightarrow> tcp_ok (buffered_read_begin d) \<and> pending (buffered_read_begin d) = pending d"
  by (simp add: buffered_read_begin_def tcp_ok_def pending_def)

text \<open>The bytes a read reports, in order; an error or a closed connection reports none.\<close>

fun read_bytes :: "read_result \<Rightarrow> u8 list" where
  "read_bytes (ReadBytes bs) = bs"
| "read_bytes (ReadError e) = []"

lemma buffered_read_finish_ok:
  assumes "tcp_ok d" and "buffered_read_finish cnt d = (r, d')"
  shows "tcp_ok d' \<and> pending d = read_bytes r @ pending d' \<and> length (read_bytes r) \<le> cnt
    \<and> eoq d' = eoq d \<and> buffer_max_size d' = buffer_max_size d
    \<and> buffer_occupancy d' \<le> buffer_occupancy d"
proof (cases "error_code d \<noteq> 0 \<or> closed d")
  case True
  with assms show ?thesis by (auto simp: buffered_read_finish_def split: if_splits)
next
  case False
  define n where "n = min (buffer_max_size d - toq d) (min (buffer_occupancy d) cnt)"
  let ?M = "buffer_max_size d"
  from assms(2) False have r: "r = ReadBytes (mem_read (toq d) n (buffer d))"
    and d': "d' = d\<lparr>toq := (if toq d + n = ?M then 0 else toq d + n),
        buffer_occupancy := buffer_occupancy d - n\<rparr>"
    by (auto simp: buffered_read_finish_def Let_def n_def min_def split: if_splits)
  have n: "toq d + n \<le> ?M" "n \<le> buffer_occupancy d" "n \<le> cnt"
    using assms(1) by (auto simp: n_def tcp_ok_def)
  have L: "length (buffer d) = ?M" using assms(1) by (simp add: tcp_ok_def)
  have t': "toq d' = (toq d + n) mod ?M" using n assms(1) by (auto simp: d' tcp_ok_def)
  have "(toq d' + (buffer_occupancy d - n)) mod ?M = (toq d + buffer_occupancy d) mod ?M"
    using mod_take_front [OF n(2)] by (simp add: t' del: diff_add_assoc diff_add_assoc2)
  then have ok: "tcp_ok d'" using assms(1) t' by (auto simp: tcp_ok_def d' split: if_splits)
  have "pending d = ring (buffer d) (toq d) n @ ring (buffer d) (toq d + n) (buffer_occupancy d - n)"
    using ring_add [of "buffer d" "toq d" n "buffer_occupancy d - n"] n by (simp add: pending_def)
  also have "ring (buffer d) (toq d + n) (buffer_occupancy d - n) = pending d'"
    using ring_mod [of "buffer d" "toq d + n" "buffer_occupancy d - n"] L t'
    by (simp add: pending_def d')
  also have "ring (buffer d) (toq d) n = read_bytes r"
    using n L by (simp add: r ring_mem_read)
  finally show ?thesis using ok n L by (simp add: r d')
qed

section \<open>The two threads\<close>

text \<open>
  The reader is between turns, receiving up to \<open>n\<close> bytes, or gone; the consumer is busy
  elsewhere or waiting inside a \<open>buffered_read\<close> of some size. \<open>received\<close> and \<open>delivered\<close>
  record the bytes that came from the socket and those handed to the consumer.
\<close>

datatype reader_pc = Between | Receiving nat | Gone

record tcp_sys =
  desc :: tcp_desc
  reader :: reader_pc
  consumer :: "nat option"
  received :: "u8 list"
  delivered :: "u8 list"

inductive tcp_step :: "tcp_sys \<Rightarrow> tcp_sys \<Rightarrow> bool" where
  request: "reader s = Between \<Longrightarrow> reader_request (desc s) = Some (n, d) \<Longrightarrow>
    tcp_step s (s\<lparr>desc := d, reader := Receiving n\<rparr>)"
| receive: "reader s = Receiving n \<Longrightarrow> length bs \<le> n \<Longrightarrow>
    reader_complete (RecvData bs) (desc s) = (fin, d) \<Longrightarrow>
    tcp_step s (s\<lparr>desc := d, reader := (if fin then Gone else Between), received := received s @ bs\<rparr>)"
| failure: "reader s = Receiving n \<Longrightarrow> reader_complete (RecvError e) (desc s) = (fin, d) \<Longrightarrow>
    tcp_step s (s\<lparr>desc := d, reader := Between\<rparr>)"
| read_now: "consumer s = None \<Longrightarrow> d = buffered_read_begin (desc s) \<Longrightarrow> buffered_read_ready d \<Longrightarrow>
    buffered_read_finish cnt d = (r, d') \<Longrightarrow>
    tcp_step s (s\<lparr>desc := d', delivered := delivered s @ read_bytes r\<rparr>)"
| read_wait: "consumer s = None \<Longrightarrow> d = buffered_read_begin (desc s) \<Longrightarrow> \<not> buffered_read_ready d \<Longrightarrow>
    tcp_step s (s\<lparr>desc := d, consumer := Some cnt\<rparr>)"
| read_wake: "consumer s = Some cnt \<Longrightarrow> buffered_read_ready (desc s) \<Longrightarrow>
    buffered_read_finish cnt (desc s) = (r, d') \<Longrightarrow>
    tcp_step s (s\<lparr>desc := d', consumer := None, delivered := delivered s @ read_bytes r\<rparr>)"

definition tcp_init :: "u8 list \<Rightarrow> tcp_sys" where
  "tcp_init mem = \<lparr>desc = \<lparr>closed = False, error_code = 0, buffer = mem, toq = 0, eoq = 0,
      buffer_max_size = length mem, buffer_occupancy = 0\<rparr>,
    reader = Between, consumer = None, received = [], delivered = []\<rparr>"

inductive tcp_reachable :: "u8 list \<Rightarrow> tcp_sys \<Rightarrow> bool" for mem where
  start: "tcp_reachable mem (tcp_init mem)"
| step: "tcp_reachable mem s \<Longrightarrow> tcp_step s t \<Longrightarrow> tcp_reachable mem t"

definition tcp_inv :: "tcp_sys \<Rightarrow> bool" where
  "tcp_inv s \<longleftrightarrow> tcp_ok (desc s) \<and> received s = delivered s @ pending (desc s)
     \<and> (\<forall>n. reader s = Receiving n \<longrightarrow> 0 < n \<and> buffer_occupancy (desc s) + n \<le> buffer_max_size (desc s)
          \<and> eoq (desc s) + n \<le> buffer_max_size (desc s))"

lemma tcp_inv_init: "mem \<noteq> [] \<Longrightarrow> tcp_inv (tcp_init mem)"
  by (simp add: tcp_inv_def tcp_init_def tcp_ok_def pending_def ring_def)

lemma tcp_step_inv: "tcp_step s t \<Longrightarrow> tcp_inv s \<Longrightarrow> tcp_inv t"
proof (induction rule: tcp_step.induct)
  case (request s n d)
  then show ?case using reader_request_ok [of "desc s" n d] by (auto simp: tcp_inv_def)
next
  case (receive s n bs fin d)
  then show ?case
    using reader_complete_ok [of "desc s" bs fin d] by (auto simp: tcp_inv_def)
next
  case (failure s n e fin d)
  then show ?case using reader_error_ok [of "desc s" e fin d] by (auto simp: tcp_inv_def)
next
  case (read_now s d cnt r d')
  have "tcp_ok d \<and> pending d = pending (desc s)"
    using read_now buffered_read_begin_ok [of "desc s"] by (simp add: tcp_inv_def)
  then show ?case
    using read_now buffered_read_finish_ok [of d cnt r d']
    by (auto simp: tcp_inv_def buffered_read_begin_def)
next
  case (read_wait s d cnt)
  then show ?case
    using buffered_read_begin_ok [of "desc s"] by (auto simp: tcp_inv_def buffered_read_begin_def)
next
  case (read_wake s cnt r d')
  then show ?case
    using buffered_read_finish_ok [of "desc s" cnt r d'] by (auto simp: tcp_inv_def)
qed

lemma tcp_reachable_inv:
  assumes "tcp_reachable mem s" and "mem \<noteq> []"
  shows "tcp_inv s"
  using assms by (induction rule: tcp_reachable.induct) (auto intro: tcp_inv_init tcp_step_inv)

text \<open>
  C5. In every state that the reader thread and the audio processor can reach, in any
  schedule, the bytes received from the socket are exactly those handed to the processor
  followed by those in the buffer: wrapping the two pointers, partial reads at the top of the
  buffer, errors and retries never lose, duplicate, reorder or overwrite a byte of the stream,
  and the occupancy never exceeds the buffer.
\<close>

theorem tcp_stream_intact:
  assumes "tcp_reachable mem s" and "mem \<noteq> []"
  shows "received s = delivered s @ pending (desc s)
    \<and> buffer_occupancy (desc s) \<le> buffer_max_size (desc s)
    \<and> eoq (desc s) \<le> buffer_max_size (desc s)"
  using tcp_reachable_inv [OF assms] by (simp add: tcp_inv_def tcp_ok_def)


text \<open>The socket delivers two bytes into a three byte buffer and the processor takes one.\<close>

theorem tcp_stream_intact_witness:
  "\<exists>s. tcp_reachable [0, 0, 0] s \<and> received s = [7, 8] \<and> delivered s = [7]
     \<and> pending (desc s) = [8]"
proof -
  let ?m = "[0, 0, 0] :: u8 list"
  let ?s1 = "(tcp_init ?m)\<lparr>reader := Receiving 3\<rparr>"
  have "tcp_step (tcp_init ?m) ((tcp_init ?m)\<lparr>desc := desc (tcp_init ?m), reader := Receiving 3\<rparr>)"
    by (rule tcp_step.request)
      (simp_all add: tcp_init_def reader_request_def STANDARD_PACKET_SIZE_def)
  then have r1: "tcp_reachable ?m ?s1"
    using tcp_reachable.step [OF tcp_reachable.start] by (simp add: tcp_init_def)
  let ?d2 = "(desc ?s1)\<lparr>buffer := [7, 8, 0], eoq := 2, buffer_occupancy := 2\<rparr>"
  let ?s2 = "?s1\<lparr>desc := ?d2, reader := Between, received := [7, 8]\<rparr>"
  have "tcp_step ?s1 (?s1\<lparr>desc := ?d2, reader := (if False then Gone else Between),
      received := received ?s1 @ [7, 8]\<rparr>)"
    by (rule tcp_step.receive [where n = 3])
      (simp_all add: tcp_init_def reader_complete_def mem_write_def eval_nat_numeral)
  then have r2: "tcp_reachable ?m ?s2"
    using tcp_reachable.step [OF r1] by (simp add: tcp_init_def)
  let ?d3 = "?d2\<lparr>toq := 1, buffer_occupancy := 1\<rparr>"
  have "tcp_step ?s2 (?s2\<lparr>desc := ?d3, delivered := delivered ?s2 @ read_bytes (ReadBytes [7])\<rparr>)"
    by (rule tcp_step.read_now [where cnt = 1, OF _ refl])
      (simp_all add: tcp_init_def buffered_read_begin_def buffered_read_ready_def
        buffered_read_finish_def mem_read_def)
  then have r3: "tcp_reachable ?m (?s2\<lparr>desc := ?d3, delivered := [7]\<rparr>)"
    using tcp_reachable.step [OF r2] by (simp add: tcp_init_def)
  from tcp_stream_intact [OF r3] have "pending ?d3 = [8]" by (simp add: tcp_init_def)
  with r3 show ?thesis by (intro exI [of _ "?s2\<lparr>desc := ?d3, delivered := [7]\<rparr>"]) simp
qed





section \<open>Blocks of a given size\<close>

definition benign :: "read_result \<Rightarrow> bool" where
  "benign r = (case r of ReadError e \<Rightarrow> e = EAGAIN \<or> e = EINTR | ReadBytes bs \<Rightarrow> bs \<noteq> [])"

lemma read_sized_block_acc:
  assumes "\<forall>r \<in> set rs. benign r" and "length inbuf < cnt"
    and "length inbuf + length (concat (map read_bytes rs)) = cnt"
  shows "read_sized_block cnt inbuf rs = Some (int cnt, inbuf @ concat (map read_bytes rs))"
  using assms
proof (induction rs arbitrary: inbuf)
  case Nil
  then show ?case by simp
next
  case (Cons r rs)
  show ?case
  proof (cases r)
    case (ReadError e)
    with Cons show ?thesis by (auto simp: benign_def)
  next
    case (ReadBytes bs)
    with Cons.prems have bs: "bs \<noteq> []" by (auto simp: benign_def)
    show ?thesis
    proof (cases "length (inbuf @ bs) < cnt")
      case True
      then show ?thesis using Cons.IH [of "inbuf @ bs"] Cons.prems ReadBytes bs by simp
    next
      case False
      then have "cnt \<le> length inbuf + length bs" by simp
      moreover have "length inbuf + length bs + length (concat (map read_bytes rs)) = cnt"
        using Cons.prems(3) ReadBytes by simp
      ultimately have "length (concat (map read_bytes rs)) = 0" and "length inbuf + length bs = cnt"
        by linarith+
      then have "concat (map read_bytes rs) = []" and "length (inbuf @ bs) = cnt"
        by (simp_all only: length_0_conv length_append)
      with False ReadBytes bs show ?thesis by simp
    qed
  qed
qed

text \<open>
  Reading a sized block returns exactly the block: if the successive reads are interrupted
  (EAGAIN, EINTR) any number of times and otherwise yield the pieces of a block of \<open>cnt\<close>
  bytes, \<open>read_sized_block\<close> returns \<open>cnt\<close> with the pieces joined in order.
\<close>

theorem read_sized_block_joins:
  assumes "\<forall>r \<in> set rs. benign r" and "concat (map read_bytes rs) = block"
    and "length block = cnt" and "0 < cnt"
  shows "read_sized_block cnt [] rs = Some (int cnt, block)"
  using read_sized_block_acc [of rs "[]" cnt] assms by simp

theorem read_sized_block_joins_witness:
  "read_sized_block 3 [] [ReadBytes [1], ReadError 11, ReadBytes [2, 3]] = Some (3, [1, 2, 3])"
  using read_sized_block_joins [of "[ReadBytes [1], ReadError 11, ReadBytes [2, 3]]" "[1, 2, 3]" 3]
  by (simp add: benign_def EAGAIN_def)

end
