(* ===== verification/Rtsp_Message.thy ===== *)
theory Rtsp_Message
  imports Prelude "HOL-Library.Sublist"
begin

text \<open>
  RTSP messages: the message record and its reference count
  (\<open>utilities/rtsp_message_utilities.c\<close>), the line scanner, the reader that frames a request
  out of the bytes of the connection, and the writer of a response (\<open>rtsp.c\<close>).
  Text is a list of characters; a C string ends at its first NUL.
\<close>

section \<open>Messages and headers\<close>

record rtsp_message =
  index_number :: nat
  headers :: "(string \<times> string) list"
  contentlength :: nat
  content :: string
  request_method :: string
  path :: string
  respcode :: int

definition MAX_HEADERS :: nat where "MAX_HEADERS = 16"

definition msg_init :: "nat \<Rightarrow> rtsp_message \<times> nat" where
  "msg_init msg_indexes =
     (\<lparr>index_number = msg_indexes, headers = [], contentlength = 0, content = [],
       request_method = [], path = [], respcode = 0\<rparr>, Suc msg_indexes)"

definition msg_add_header :: "rtsp_message \<Rightarrow> string \<Rightarrow> string \<Rightarrow> int \<times> rtsp_message" where
  "msg_add_header msg name value =
     (if MAX_HEADERS \<le> length (headers msg) then (1, msg)
      else (0, msg\<lparr>headers := headers msg @ [(name, value)]\<rparr>))"

abbreviation ord_of :: "char \<Rightarrow> nat" where
  "ord_of c \<equiv> of_char c"

text \<open>\<open>strcasecmp\<close> compares as if upper case ASCII letters were lower case.\<close>

definition lower :: "char \<Rightarrow> char" where
  "lower c = (if 65 \<le> ord_of c \<and> ord_of c \<le> 90 then char_of (ord_of c + 32) else c)"

definition strcaseeq :: "string \<Rightarrow> string \<Rightarrow> bool" where
  "strcaseeq s t \<longleftrightarrow> map lower s = map lower t"

fun find_header :: "(string \<times> string) list \<Rightarrow> string \<Rightarrow> string option" where
  "find_header [] name = None"
| "find_header ((n, v) # hs) name = (if strcaseeq n name then Some v else find_header hs name)"

definition msg_get_header :: "rtsp_message \<Rightarrow> string \<Rightarrow> string option" where
  "msg_get_header msg name = find_header (headers msg) name"

section \<open>The C string functions the parser uses\<close>

definition NUL :: char where "NUL = CHR 0x00"
definition CR :: char where "CR = CHR 0x0D"
definition LF :: char where "LF = CHR 0x0A"

definition cstr :: "string \<Rightarrow> string" where
  "cstr s = takeWhile (\<lambda>c. c \<noteq> NUL) s"

text \<open>\<open>strtok_r\<close> with a space as the only delimiter: the next token and what follows it.\<close>

definition strtok :: "string \<Rightarrow> (string \<times> string) option" where
  "strtok s = (let t = dropWhile (\<lambda>c. c = CHR '' '') s
     in if t = [] then None
        else Some (takeWhile (\<lambda>c. c \<noteq> CHR '' '') t, drop 1 (dropWhile (\<lambda>c. c \<noteq> CHR '' '') t)))"

text \<open>\<open>strstr\<close>: what precedes and what follows the first occurrence of the pattern.\<close>

fun strstr_split :: "string \<Rightarrow> string \<Rightarrow> (string \<times> string) option" where
  "strstr_split pat [] = (if pat = [] then Some ([], []) else None)"
| "strstr_split pat (c # cs) =
     (if prefix pat (c # cs) then Some ([], drop (length pat) (c # cs))
      else map_option (\<lambda>(a, b). (c # a, b)) (strstr_split pat cs))"

definition is_space :: "char \<Rightarrow> bool" where
  "is_space c \<longleftrightarrow> ord_of c = 32 \<or> (9 \<le> ord_of c \<and> ord_of c \<le> 13)"

definition is_digit :: "char \<Rightarrow> bool" where
  "is_digit c \<longleftrightarrow> 48 \<le> ord_of c \<and> ord_of c \<le> 57"

definition decimal :: "string \<Rightarrow> int" where
  "decimal s = foldl (\<lambda>n c. 10 * n + (int (ord_of c) - 48)) 0 (takeWhile is_digit s)"

text \<open>\<open>atoi\<close>; a value that does not fit an \<open>int\<close> is undefined in C and unbounded here.\<close>

definition atoi :: "string \<Rightarrow> int" where
  "atoi s = (case dropWhile is_space s of
      [] \<Rightarrow> 0
    | c # t \<Rightarrow> if c = CHR ''-'' then - decimal t
               else if c = CHR ''+'' then decimal t else decimal (c # t))"

section \<open>One line of a request\<close>

text \<open>
  \<open>msg_handle_line\<close>: the first line makes the message, each further line adds a header, and
  the empty line ends the header part. The result is -1 when more lines are wanted, and
  otherwise the size of the content; on failure the message is freed and there is none.
\<close>

definition msg_handle_line ::
  "nat \<Rightarrow> rtsp_message option \<Rightarrow> string \<Rightarrow> int \<times> rtsp_message option \<times> nat" where
  "msg_handle_line idx pmsg line =
     (case pmsg of
        None \<Rightarrow>
          (let (msg, idx') = msg_init idx; fail = (0, None, idx') in
           case strtok line of
             None \<Rightarrow> fail
           | Some (meth, l1) \<Rightarrow>
             (case strtok l1 of
                None \<Rightarrow> fail
              | Some (p, l2) \<Rightarrow>
                (case strtok l2 of
                   None \<Rightarrow> fail
                 | Some (proto, l3) \<Rightarrow>
                     if proto \<noteq> ''RTSP/1.0'' \<and> proto \<noteq> ''HTTP/1.1'' then fail
                     else (-1, Some (msg\<lparr>request_method := take 15 meth, path := take 255 p\<rparr>), idx'))))
      | Some msg \<Rightarrow>
          if line \<noteq> [] then
            (case strstr_split '': '' line of
               None \<Rightarrow> (0, None, idx)
             | Some (n, v) \<Rightarrow> (-1, Some (snd (msg_add_header msg n v)), idx))
          else
            (case msg_get_header msg ''Content-Length'' of
               Some cl \<Rightarrow> (atoi cl, Some msg, idx)
             | None \<Rightarrow> (0, Some msg, idx)))"

section \<open>Framing a request\<close>

text \<open>
  \<open>nextline\<close>: the first line in the buffer and what follows its end, which is CR, LF or CR LF.
\<close>

fun nextline :: "string \<Rightarrow> (string \<times> string) option" where
  "nextline [] = None"
| "nextline (c # cs) =
     (if c = CR then Some ([], (case cs of d # ds \<Rightarrow> if d = LF then ds else cs | [] \<Rightarrow> cs))
      else if c = LF then Some ([], cs)
      else map_option (\<lambda>(l, r). (c # l, r)) (nextline cs))"

lemma nextline_shorter: "nextline s = Some (l, r) \<Longrightarrow> length r < length s"
  by (induction s arbitrary: l r) (auto split: if_splits list.splits)

text \<open>
  What the connection does next: the flag \<open>conn->stop\<close> is found set, bytes arrive, or
  the read returns 0 or a negative number with \<open>errno\<close>. A read delivers at most the bytes
  asked for, and the others stay for the next read.
\<close>

datatype rtsp_event = Stop_Requested | Bytes string | Closed int | Failed int

datatype reply = pending | ok | immediate_shutdown_requested | bad_packet | channel_closed | read_error

definition ETIMEDOUT :: int where "ETIMEDOUT = 110"

fun event_reply :: "rtsp_event \<Rightarrow> reply" where
  "event_reply Stop_Requested = immediate_shutdown_requested"
| "event_reply (Closed e) = (if e = ETIMEDOUT then immediate_shutdown_requested else channel_closed)"
| "event_reply (Failed e) = (if e = ETIMEDOUT then immediate_shutdown_requested else read_error)"
| "event_reply (Bytes s) = (if s = [] then channel_closed else pending)"

definition unread :: "nat \<Rightarrow> string \<Rightarrow> rtsp_event list \<Rightarrow> rtsp_event list" where
  "unread n s es = (if length s \<le> n then es else Bytes (drop n s) # es)"

fun event_size :: "rtsp_event \<Rightarrow> nat" where
  "event_size (Bytes s) = Suc (length s)"
| "event_size e = 1"

abbreviation events_size :: "rtsp_event list \<Rightarrow> nat" where
  "events_size es \<equiv> sum_list (map event_size es)"

lemma unread_size:
  "0 < n \<Longrightarrow> s \<noteq> [] \<Longrightarrow> events_size (unread n s es) < Suc (length s + events_size es)"
  by (cases s) (auto simp: unread_def)

text \<open>The inner loop: handle every complete line in the buffer until the size is known.\<close>

function consume_lines ::
  "nat \<Rightarrow> rtsp_message option \<Rightarrow> string \<Rightarrow> reply \<times> rtsp_message option \<times> int \<times> string \<times> nat" where
  "consume_lines idx msg buf =
     (case nextline buf of
        None \<Rightarrow> (pending, msg, -1, buf, idx)
      | Some (line, rest) \<Rightarrow>
          (case msg_handle_line idx msg (cstr line) of
             (msz, None, idx') \<Rightarrow> (bad_packet, None, msz, buf, idx')
           | (msz, Some m, idx') \<Rightarrow>
               if msz < 0 then consume_lines idx' (Some m) rest
               else (pending, Some m, msz, rest, idx')))"
  by pat_completeness auto
termination
  by (relation "measure (\<lambda>(idx, msg, buf). length buf)") (auto dest: nextline_shorter)

declare consume_lines.simps [simp del]

text \<open>
  The first loop of \<open>rtsp_read_request\<close>, with \<open>buflen\<close> bytes of buffer: read, take the
  lines, until the size of the content is known. \<open>None\<close>: still waiting for the connection.
\<close>

function read_headers ::
  "nat \<Rightarrow> nat \<Rightarrow> rtsp_message option \<Rightarrow> string \<Rightarrow> rtsp_event list \<Rightarrow>
    (reply \<times> rtsp_message option \<times> int \<times> string \<times> nat \<times> rtsp_event list) option" where
  "read_headers buflen idx msg inbuf [] = None"
| "read_headers buflen idx msg inbuf (e # es) =
     (case e of
        Bytes s \<Rightarrow>
          (let n = buflen - length inbuf; got = take n s in
           if got = [] then Some (channel_closed, msg, -1, inbuf, idx, es)
           else (case consume_lines idx msg (inbuf @ got) of
                   (reply, msg', msz, buf', idx') \<Rightarrow>
                     if reply = pending \<and> msz < 0
                     then read_headers buflen idx' msg' buf' (unread n s es)
                     else Some (reply, msg', msz, buf', idx', unread n s es)))
      | _ \<Rightarrow> Some (event_reply e, msg, -1, inbuf, idx, es))"
  by pat_completeness auto
termination
  by (relation "measure (\<lambda>(buflen, idx, msg, inbuf, es). events_size es)")
    (auto simp: unread_size)

text \<open>The second loop: read until the content is complete.\<close>

function read_body ::
  "nat \<Rightarrow> string \<Rightarrow> rtsp_event list \<Rightarrow> (reply \<times> string \<times> rtsp_event list) option" where
  "read_body msz inbuf es =
     (if msz \<le> length inbuf then Some (pending, inbuf, es)
      else (case es of
          [] \<Rightarrow> None
        | e # es' \<Rightarrow>
            (case e of
               Bytes s \<Rightarrow>
                 (let n = msz - length inbuf in
                  if s = [] then Some (channel_closed, inbuf, es')
                  else read_body msz (inbuf @ take n s) (unread n s es'))
             | _ \<Rightarrow> Some (event_reply e, inbuf, es'))))"
  by pat_completeness auto
termination
  by (relation "measure (\<lambda>(msz, inbuf, es). events_size es)") (auto simp: unread_size)

declare read_body.simps [simp del]

definition rtsp_read_request ::
  "nat \<Rightarrow> nat \<Rightarrow> rtsp_event list \<Rightarrow> (reply \<times> rtsp_message option \<times> rtsp_event list) option" where
  "rtsp_read_request buflen idx es =
     (case read_headers buflen idx None [] es of
        None \<Rightarrow> None
      | Some (reply, msg, msz, inbuf, idx', es') \<Rightarrow>
          (case (if reply = pending \<and> 0 < msz then read_body (nat msz) inbuf es'
                 else Some (reply, inbuf, es')) of
             None \<Rightarrow> None
           | Some (reply', inbuf', es'') \<Rightarrow>
               if reply' = pending
               then Some (ok, map_option (\<lambda>m. m\<lparr>contentlength := length inbuf', content := inbuf'\<rparr>) msg, es'')
               else Some (reply', None, es'')))"

section \<open>Framing does not depend on how the bytes are cut into reads\<close>




lemma nextline_None: "nextline a = None \<longleftrightarrow> CR \<notin> set a \<and> LF \<notin> set a"
  by (induction a) auto

lemma nextline_end: "CR \<notin> set l \<Longrightarrow> LF \<notin> set l \<Longrightarrow>
  nextline (l @ [CR]) = Some (l, []) \<and> nextline (l @ LF # r) = Some (l, r)"
  by (induction l) (auto simp: CR_def LF_def)



lemma read_headers_fits:
  assumes "g \<noteq> []" and "length (inbuf @ g) \<le> buflen"
  shows "read_headers buflen idx msg inbuf (Bytes g # es) =
    (case consume_lines idx msg (inbuf @ g) of (rep, msg', sz, buf', idx') \<Rightarrow>
       if rep = pending \<and> sz < 0 then read_headers buflen idx' msg' buf' es
       else Some (rep, msg', sz, buf', idx', es))"
proof -
  from assms have "take (buflen - length inbuf) g = g" and "\<not> buflen \<le> length inbuf"
    and "unread (buflen - length inbuf) g es = es"
    by (cases g; simp add: unread_def)+
  with assms(1) show ?thesis by (simp add: Let_def split: prod.split)
qed

declare read_headers.simps [simp del]





text \<open>
  A cut between the CR and the LF of a line end changes the request: for every acceptable
  request line, when the read that carries it ends with the CR and the next read begins with
  the LF, \<open>rtsp_read_request\<close> takes the LF for the empty line that ends the header part. It
  returns OK with a message that has no header at all, and everything that follows (the
  headers of the request) is delivered as its content.
\<close>

theorem crlf_split_loses_headers:
  assumes "msg_handle_line idx None l = (-1, Some m, idx')"
    and "CR \<notin> set l" "LF \<notin> set l" "NUL \<notin> set l"
    and "length l + 2 + length r \<le> buflen"
  shows "rtsp_read_request buflen idx (Bytes (l @ [CR]) # Bytes (LF # r) # es) =
    Some (ok, Some (m\<lparr>headers := [], contentlength := length r, content := r\<rparr>), es)"
proof -
  have cl: "cstr l = l" using assms(4) by (auto simp: cstr_def takeWhile_eq_all_conv)
  have m: "headers m = []"
    using assms(1) by (auto simp: msg_handle_line_def msg_init_def Let_def split: option.splits if_splits)
  have "consume_lines idx None (l @ [CR]) = (pending, Some m, -1, [], idx')"
    using nextline_end [OF assms(2,3)] assms(1) cl
    by (simp add: consume_lines.simps [of idx None] consume_lines.simps [of idx' "Some m"])
  moreover have "consume_lines idx' (Some m) (LF # r) = (pending, Some m, 0, r, idx')"
    using m by (simp add: consume_lines.simps [of idx' "Some m"] CR_def LF_def cstr_def
        msg_handle_line_def msg_get_header_def)
  ultimately have "read_headers buflen idx None [] (Bytes (l @ [CR]) # Bytes (LF # r) # es)
      = Some (pending, Some m, 0, r, idx', es)"
    using assms(5) by (simp add: read_headers_fits)
  with m show ?thesis by (simp add: rtsp_read_request_def)
qed

theorem crlf_split_loses_headers_witness:
  "rtsp_read_request 4096 1
     [Bytes (''POST /a RTSP/1.0'' @ [CR]), Bytes (LF # ''CSeq: 1'' @ [CR, LF, CR, LF])] =
   Some (ok, Some \<lparr>index_number = 1, headers = [], contentlength = 11,
      content = ''CSeq: 1'' @ [CR, LF, CR, LF], request_method = ''POST'', path = ''/a'',
      respcode = 0\<rparr>, [])"
proof -
  let ?m = "\<lparr>index_number = 1, headers = [], contentlength = 0, content = [],
      request_method = ''POST'', path = ''/a'', respcode = 0\<rparr>"
  have "msg_handle_line 1 None ''POST /a RTSP/1.0'' = (-1, Some ?m, 2)" by code_simp
  from crlf_split_loses_headers [OF this, of "''CSeq: 1'' @ [CR, LF, CR, LF]" 4096 "[]"]
  show ?thesis by (simp add: CR_def LF_def NUL_def)
qed

section \<open>Headers\<close>

text \<open>
  Looking a header up gives the value that was added first under that name, whatever the
  case of the letters, and a seventeenth header is refused and leaves the message alone.
\<close>

theorem header_lookup:
  "msg_get_header (snd (msg_add_header msg n v)) name =
     (case msg_get_header msg name of
        Some w \<Rightarrow> Some w
      | None \<Rightarrow> if strcaseeq n name \<and> length (headers msg) < 16 then Some v else None)"
proof -
  have "find_header (hs @ [(n, v)]) name = (case find_header hs name of
      Some w \<Rightarrow> Some w | None \<Rightarrow> if strcaseeq n name then Some v else None)" for hs
    by (induction hs name rule: find_header.induct) auto
  then show ?thesis
    by (auto simp: msg_get_header_def msg_add_header_def MAX_HEADERS_def split: option.splits)
qed

end
