(* ===== verification/Rtsp_Response.thy ===== *)
theory Rtsp_Response
  imports Rtsp_Message
begin

text \<open>
  The writer of an RTSP response (\<open>msg_write_response\<close> of \<open>rtsp.c\<close>) and the reference
  counts of messages (\<open>msg_retain\<close>, \<open>msg_free\<close> of \<open>utilities/rtsp_message_utilities.c\<close>). The
  response is assembled in an array of 4096 bytes on the stack; writing past it is the result
  \<open>Stack_Overrun\<close>, and what the connection's write returns is a parameter.
\<close>

section \<open>Writing a response\<close>

fun show_nat :: "nat \<Rightarrow> string" where
  "show_nat n = (if n < 10 then [char_of (48 + n)]
                 else show_nat (n div 10) @ [char_of (48 + n mod 10)])"

declare show_nat.simps [simp del]

definition show_int :: "int \<Rightarrow> string" where
  "show_int i = (if i < 0 then CHR ''-'' # show_nat (nat (- i)) else show_nat (nat i))"

definition responses :: "(int \<times> string) list" where
  "responses = [(200, ''OK''), (400, ''Bad Request''), (403, ''Unauthorized''),
     (404, ''Not Found''), (451, ''Unavailable''),
     (456, ''Header Field Not Valid for Resource''),
     (470, ''Connection Authorization Required''), (500, ''Internal Server Error''),
     (501, ''Not Implemented'')]"

definition respcode_text :: "int \<Rightarrow> string" where
  "respcode_text code =
     foldl (\<lambda>text (c, s). if code = c then s else text) ''Unauthorized'' responses"

definition PKT_SIZE :: int where "PKT_SIZE = 4096"

datatype write_result = Stack_Overrun | Return int "string option"

definition status_line :: "int \<Rightarrow> string" where
  "status_line code = ''RTSP/1.0 '' @ show_int code @ '' '' @ respcode_text code @ [CR, LF]"

definition header_line :: "string \<times> string \<Rightarrow> string" where
  "header_line h = fst h @ '': '' @ snd h @ [CR, LF]"

text \<open>The \<open>%d\<close> of the length prints the unsigned 32-bit length as a signed number.\<close>

definition length_line :: "nat \<Rightarrow> string" where
  "length_line n = ''Content-Length: '' @ show_int (sint (word_of_nat n :: u32)) @ [CR, LF]"

text \<open>
  Each header in turn: \<open>p\<close> is what is in the packet so far and \<open>pktfree\<close> the room left.
\<close>

fun write_headers :: "(string \<times> string) list \<Rightarrow> string \<Rightarrow> int \<Rightarrow> (string \<times> int) option" where
  "write_headers [] p pktfree = Some (p, pktfree)"
| "write_headers (h # hs) p pktfree =
     (let n = header_line h; pktfree' = pktfree - int (length n) in
      if pktfree' \<le> 1024 then None else write_headers hs (p @ n) pktfree')"

definition msg_write_response :: "(string \<Rightarrow> int) \<Rightarrow> rtsp_message \<Rightarrow> write_result" where
  "msg_write_response conn_write resp =
     (let p = status_line (respcode resp); pktfree = PKT_SIZE - int (length p) in
      case write_headers (headers resp) p pktfree of
        None \<Rightarrow> Return (-1) None
      | Some (p, pktfree) \<Rightarrow>
          (let p = p @ length_line (contentlength resp);
               pktfree = pktfree - int (length (length_line (contentlength resp))) in
           if pktfree \<le> 1024 then Return (-2) None
           else
             (let p = p @ [CR, LF]; pktfree = pktfree - 2 in
              if pktfree < int (contentlength resp) then Stack_Overrun
              else
                (let p = p @ take (contentlength resp) (content resp);
                     pktfree = pktfree - int (contentlength resp) in
                 if pktfree \<le> 1024 then Return (-3) None
                 else let r = conn_write p in
                      if r = -1 then Return (-4) (Some p)
                      else if r \<noteq> int (length p) then Return (-5) (Some p)
                      else Return 0 (Some p)))))"

text \<open>The header part of the response as it should go out.\<close>

definition response_head :: "rtsp_message \<Rightarrow> string" where
  "response_head resp = status_line (respcode resp) @ concat (map header_line (headers resp))
     @ length_line (contentlength resp)"

lemma write_headers_fit:
  "1024 < pktfree - int (length (concat (map header_line hs))) \<Longrightarrow>
   write_headers hs p pktfree =
     Some (p @ concat (map header_line hs), pktfree - int (length (concat (map header_line hs))))"
  by (induction hs p pktfree rule: write_headers.induct) (auto simp: Let_def)

lemma status_line_200: "status_line 200 = ''RTSP/1.0 200 OK'' @ [CR, LF]"
proof -
  have "show_int 200 = ''200''"
    by (simp add: show_int_def show_nat.simps [of 200] show_nat.simps [of 20] show_nat.simps [of 2]
        char_of_def bit_0)
  moreover have "respcode_text 200 = ''OK''" by code_simp
  ultimately show ?thesis by (simp add: status_line_def)
qed

lemma length_line_examples:
  "length_line 2 = ''Content-Length: 2'' @ [CR, LF]"
  "length_line 5000 = ''Content-Length: 5000'' @ [CR, LF]"
proof -
  have "show_int 2 = ''2''" "show_int 5000 = ''5000''"
    by (simp_all add: show_int_def show_nat.simps [of 2] show_nat.simps [of 5000]
        show_nat.simps [of 500] show_nat.simps [of 50] show_nat.simps [of 5] char_of_def bit_0)
  then show "length_line 2 = ''Content-Length: 2'' @ [CR, LF]"
    "length_line 5000 = ''Content-Length: 5000'' @ [CR, LF]"
    by (simp_all add: length_line_def)
qed

text \<open>
  A response whose header part, blank line and content take less than 3072 bytes goes out
  as exactly that text in one write, and the result says whether the whole of it was written.
\<close>

theorem write_response_exact:
  assumes "length (response_head resp) + 2 + contentlength resp < 3072"
    and "length (content resp) = contentlength resp"
  shows "msg_write_response conn_write resp =
    (let pkt = response_head resp @ [CR, LF] @ content resp; r = conn_write pkt in
     Return (if r = -1 then -4 else if r \<noteq> int (length pkt) then -5 else 0) (Some pkt))"
proof -
  let ?p = "PKT_SIZE - int (length (status_line (respcode resp)))"
  have "1024 < ?p - int (length (concat (map header_line (headers resp))))"
    using assms(1) by (simp add: response_head_def PKT_SIZE_def)
  note w = write_headers_fit [OF this, of "status_line (respcode resp)", unfolded PKT_SIZE_def]
  show ?thesis
    using assms by (simp add: msg_write_response_def w Let_def response_head_def PKT_SIZE_def)
qed

theorem write_response_exact_witness:
  "msg_write_response (\<lambda>s. int (length s))
     \<lparr>index_number = 0, headers = [(''CSeq'', ''7'')], contentlength = 2, content = ''ab'',
       request_method = [], path = [], respcode = 200\<rparr> =
   Return 0 (Some (''RTSP/1.0 200 OK'' @ [CR, LF] @ ''CSeq: 7'' @ [CR, LF] @
     ''Content-Length: 2'' @ [CR, LF, CR, LF] @ ''ab''))"
proof -
  let ?r = "\<lparr>index_number = 0, headers = [(''CSeq'', ''7'')], contentlength = 2, content = ''ab'',
       request_method = [], path = [], respcode = 200\<rparr>"
  have h: "response_head ?r = ''RTSP/1.0 200 OK'' @ [CR, LF] @ ''CSeq: 7'' @ [CR, LF] @
     ''Content-Length: 2'' @ [CR, LF]"
    by (simp add: response_head_def status_line_200 length_line_examples header_line_def)
  show ?thesis
    using write_response_exact [of ?r "\<lambda>s. int (length s)"] by (simp add: h Let_def)
qed

definition cover_art :: "nat \<Rightarrow> string" where
  "cover_art n = replicate n (CHR 0xFF)"

text \<open>
  The content is copied before the packet's size is checked: whenever the header part is
  acceptable and the content does not fit in what is left of the 4096 bytes, the response
  writer overruns its stack buffer instead of rejecting the response.
\<close>

theorem write_response_overrun:
  assumes "length (response_head resp) < 3072"
    and "4094 < length (response_head resp) + contentlength resp"
  shows "msg_write_response conn_write resp = Stack_Overrun"
proof -
  let ?p = "PKT_SIZE - int (length (status_line (respcode resp)))"
  have "1024 < ?p - int (length (concat (map header_line (headers resp))))"
    using assms(1) by (simp add: response_head_def PKT_SIZE_def)
  note w = write_headers_fit [OF this, of "status_line (respcode resp)", unfolded PKT_SIZE_def]
  show ?thesis
    using assms by (simp add: msg_write_response_def w Let_def response_head_def PKT_SIZE_def)
qed

theorem write_response_overrun_witness:
  "msg_write_response (\<lambda>s. int (length s))
     \<lparr>index_number = 0, headers = [], contentlength = 5000, content = cover_art 5000,
       request_method = [], path = [], respcode = 200\<rparr> = Stack_Overrun"
proof -
  have "response_head \<lparr>index_number = 0, headers = [], contentlength = 5000, content = c,
      request_method = [], path = [], respcode = 200\<rparr> =
    ''RTSP/1.0 200 OK'' @ [CR, LF] @ ''Content-Length: 5000'' @ [CR, LF]" for c
    by (simp add: response_head_def status_line_200 length_line_examples)
  then show ?thesis by (intro write_response_overrun) simp_all
qed

section \<open>Reference counts\<close>

text \<open>
  Messages live at addresses above 65536; a message handle holds such an address, or 0, or a
  small number left there when the message was freed. \<open>locked\<close> is the lock that guards the
  counts: an operation that finds it held waits for ever.
\<close>

record msg_store =
  cells :: "nat \<rightharpoonup> nat \<times> nat"  \<comment> \<open>index number and reference count\<close>
  locked :: bool

datatype 'a outcome = Blocked | Undefined | Done 'a

definition msg_retain :: "nat \<Rightarrow> msg_store \<Rightarrow> msg_store outcome" where
  "msg_retain a s =
     (if locked s then Blocked
      else if 65536 < a then
        (case cells s a of
           None \<Rightarrow> Undefined
         | Some (i, n) \<Rightarrow> Done (s\<lparr>cells := (cells s)(a \<mapsto> (i, Suc n)), locked := False\<rparr>))
      else Done (s\<lparr>locked := True\<rparr>))"

definition msg_free :: "nat \<Rightarrow> msg_store \<Rightarrow> (nat \<times> msg_store) outcome" where
  "msg_free a s =
     (if locked s then Blocked
      else if 65536 < a then
        (case cells s a of
           None \<Rightarrow> Undefined
         | Some (i, n) \<Rightarrow>
             if n - 1 = 0 then
               (let index = i mod 65536
                in Done (if index = 0 then 65536 else index, s\<lparr>cells := (cells s)(a := None)\<rparr>))
             else Done (a, s\<lparr>cells := (cells s)(a \<mapsto> (i, n - 1))\<rparr>))
      else Done (a, s))"

fun free_times :: "nat \<Rightarrow> nat \<Rightarrow> msg_store \<Rightarrow> (nat \<times> msg_store) outcome" where
  "free_times 0 a s = Done (a, s)"
| "free_times (Suc k) a s =
     (case msg_free a s of Done (a', s') \<Rightarrow> free_times k a' s' | Blocked \<Rightarrow> Blocked | Undefined \<Rightarrow> Undefined)"

lemma free_times_small: "\<not> locked s \<Longrightarrow> a \<le> 65536 \<Longrightarrow> free_times k a s = Done (a, s)"
  by (induction k) (simp_all add: msg_free_def)

lemma free_times_live:
  "\<not> locked s \<Longrightarrow> 65536 < a \<Longrightarrow> cells s a = Some (i, n) \<Longrightarrow> k < n \<Longrightarrow>
   free_times k a s = Done (a, s\<lparr>cells := (cells s)(a \<mapsto> (i, n - k))\<rparr>)"
proof (induction k arbitrary: s n)
  case 0
  then show ?case by (simp add: fun_upd_idem)
next
  case (Suc k)
  let ?s = "s\<lparr>cells := (cells s)(a \<mapsto> (i, n - 1))\<rparr>"
  have "msg_free a s = Done (a, ?s)" using Suc.prems by (simp add: msg_free_def)
  moreover have "free_times k a ?s = Done (a, ?s\<lparr>cells := (cells ?s)(a \<mapsto> (i, n - 1 - k))\<rparr>)"
    using Suc.prems by (intro Suc.IH) simp_all
  ultimately show ?case by (simp add: fun_upd_def cong: if_cong)
qed

lemma free_times_add:
  "free_times (j + k) a s =
     (case free_times j a s of Done (a', s') \<Rightarrow> free_times k a' s' | Blocked \<Rightarrow> Blocked | Undefined \<Rightarrow> Undefined)"
  by (induction j arbitrary: a s) (auto split: outcome.splits prod.splits)

text \<open>
  A message with reference count \<open>n\<close> survives the first \<open>n - 1\<close> releases and is gone
  after the \<open>n\<close>-th; any number of further releases through the same handle does nothing:
  it is never freed twice.
\<close>

theorem message_freed_once:
  assumes "\<not> locked s" and "65536 < a" and "cells s a = Some (i, n)" and "0 < n"
  shows "(\<forall>k < n. \<exists>s'. free_times k a s = Done (a, s') \<and> cells s' a = Some (i, n - k))
    \<and> (\<forall>k \<ge> n. \<exists>b s'. free_times k a s = Done (b, s') \<and> 0 < b \<and> b \<le> 65536
      \<and> cells s' = (cells s)(a := None) \<and> \<not> locked s')"
proof (rule conjI)
  show "\<forall>k < n. \<exists>s'. free_times k a s = Done (a, s') \<and> cells s' a = Some (i, n - k)"
    using free_times_live [OF assms(1-3)] by simp
  show "\<forall>k \<ge> n. \<exists>b s'. free_times k a s = Done (b, s') \<and> 0 < b \<and> b \<le> 65536
      \<and> cells s' = (cells s)(a := None) \<and> \<not> locked s'"
  proof (intro allI impI)
    fix k assume "n \<le> k"
    then obtain j where k: "k = (n - 1) + Suc j"
      using assms(4) by (metis Suc_diff_1 add_Suc_shift le_Suc_ex)
    let ?s = "s\<lparr>cells := (cells s)(a \<mapsto> (i, 1))\<rparr>"
    let ?b = "if i mod 65536 = 0 then 65536 else i mod 65536"
    let ?t = "?s\<lparr>cells := (cells ?s)(a := None)\<rparr>"
    have "free_times (n - 1) a s = Done (a, ?s)"
      using free_times_live [OF assms(1-3), of "n - 1"] assms(4) by simp
    moreover have "free_times (Suc j) a ?s = free_times j ?b ?t"
      using assms(1,2) by (simp add: msg_free_def Let_def)
    moreover have "free_times j ?b ?t = Done (?b, ?t)"
      using assms(1) mod_less_divisor [of 65536 i] by (intro free_times_small) (auto simp: less_imp_le)
    ultimately have "free_times k a s = Done (?b, ?t)"
      by (simp only: k free_times_add) simp
    then show "\<exists>b s'. free_times k a s = Done (b, s') \<and> 0 < b \<and> b \<le> 65536
      \<and> cells s' = (cells s)(a := None) \<and> \<not> locked s'"
      using assms(1) mod_less_divisor [of 65536 i] by (auto simp: less_imp_le)
  qed
qed

theorem message_freed_once_witness:
  "\<exists>b s'. free_times 3 70000 \<lparr>cells = [70000 \<mapsto> (9, 2)], locked = False\<rparr> = Done (b, s')
     \<and> cells s' 70000 = None"
proof -
  let ?s = "\<lparr>cells = [70000 \<mapsto> (9, 2)], locked = False\<rparr>"
  have "\<forall>k \<ge> 2. \<exists>b s'. free_times k 70000 ?s = Done (b, s') \<and> 0 < b \<and> b \<le> 65536
      \<and> cells s' = (cells ?s)(70000 := None) \<and> \<not> locked s'"
    using message_freed_once [of ?s 70000 9 2] by simp
  from this [rule_format, of 3] show ?thesis by auto
qed

text \<open>
  Retaining through a stale or null handle leaves the reference lock held: the early
  branch never unlocks it, and every later retain or free of any message waits for ever.
\<close>

theorem retain_stale_handle_deadlocks:
  assumes "\<not> locked s" and "a \<le> 65536"
  shows "\<exists>s'. msg_retain a s = Done s' \<and> (\<forall>b. msg_retain b s' = Blocked \<and> msg_free b s' = Blocked)"
  using assms by (simp add: msg_retain_def msg_free_def)

theorem retain_stale_handle_deadlocks_witness:
  "\<exists>s'. msg_retain 9 \<lparr>cells = Map.empty, locked = False\<rparr> = Done s'
     \<and> (\<forall>b. msg_retain b s' = Blocked \<and> msg_free b s' = Blocked)"
  by (rule retain_stale_handle_deadlocks) simp_all

end
