(* ===== verification/Rtp_Clock.thy ===== *)
theory Rtp_Clock
  imports Prelude Complex_Main "HOL-Library.Signed_Division"
begin

text \<open>
  The relation between RTP timestamps and local time (\<open>rtp.c\<close>, \<open>ptp-utilities.c\<close>): the
  anchor a connection holds, how it is set, how it follows a change of the PTP master clock,
  and the conversions between frames and nanoseconds. The record holds the fields of
  \<open>rtsp_conn_info\<close> that these functions use; the player's record extends it, so the functions
  are stated for every extension. Doubles are exact reals. Each reading of the clock is an
  argument, and so is the block of shared memory that the NQPTP service maintains.
\<close>

section \<open>Big-endian reads\<close>

definition nctohs :: "u8 list \<Rightarrow> nat \<Rightarrow> u16" where
  "nctohs p i = word_cat (p ! i) (p ! (i + 1))"

definition nctohl :: "u8 list \<Rightarrow> nat \<Rightarrow> u32" where
  "nctohl p i = word_of_int
     (((uint (p ! i) * 256 + uint (p ! (i + 1))) * 256 + uint (p ! (i + 2))) * 256
       + uint (p ! (i + 3)))"

definition nctoh64 :: "u8 list \<Rightarrow> nat \<Rightarrow> u64" where
  "nctoh64 p i = push_bit 32 (ucast (nctohl p i)) + ucast (nctohl p (i + 4))"

section \<open>The connection's clock state\<close>

datatype clock_status_t =
    clock_no_anchor_info | clock_ok | clock_service_unavailable | clock_access_error
  | clock_data_unavailable | clock_no_master | clock_version_mismatch | clock_not_synchronised
  | clock_not_valid | clock_not_ready

datatype timing_t = ts_ntp | ts_ptp

record clock_conn =
  timing_type :: timing_t
  input_rate :: u32
  anchor_remote_info_is_valid :: bool
  anchor_clock :: u64
  anchor_time :: u64
  anchor_rtptime :: u32
  last_anchor_info_is_valid :: bool
  last_anchor_rtptime :: u32
  last_anchor_local_time :: u64
  last_anchor_time_of_update :: u64
  last_anchor_validity_start_time :: u64
  clock_status :: clock_status_t
  local_to_remote_time_difference :: u64
  local_to_remote_time_difference_measurement_time :: u64
  local_to_remote_time_gradient :: real

section \<open>NTP timing: classic AirPlay\<close>

definition reset_ntp_anchor_info :: "'a clock_conn_scheme \<Rightarrow> 'a clock_conn_scheme" where
  "reset_ntp_anchor_info conn =
     conn\<lparr>anchor_remote_info_is_valid := False, anchor_rtptime := 0, anchor_time := 0\<rparr>"

definition have_ntp_timing_information :: "'a clock_conn_scheme \<Rightarrow> bool" where
  "have_ntp_timing_information conn = anchor_remote_info_is_valid conn"

definition local_to_remote_time_difference_now :: "u64 \<Rightarrow> 'a clock_conn_scheme \<Rightarrow> u64" where
  "local_to_remote_time_difference_now now conn =
     (let t = real_of_int (uint (now - local_to_remote_time_difference_measurement_time conn));
          g = local_to_remote_time_gradient conn
      in if 1 \<le> g
         then local_to_remote_time_difference conn + word_of_int \<lfloor>(g - 1) * t\<rfloor>
         else local_to_remote_time_difference conn - word_of_int \<lfloor>(1 - g) * t\<rfloor>)"

text \<open>
  The nanoseconds that a signed number of frames lasts, and the frames in a signed number of
  nanoseconds. The first cannot overflow 64 bits; the second may, and then wraps. A rate of
  zero is a division by zero, which the results below give as \<open>None\<close>.
\<close>

definition frames_to_ns :: "u32 \<Rightarrow> u32 \<Rightarrow> u64" where
  "frames_to_ns rate d = word_of_int ((sint d * 1000000000) sdiv uint rate)"

definition ns_to_frames :: "u32 \<Rightarrow> u64 \<Rightarrow> u32" where
  "ns_to_frames rate t =
     word_of_int (sint (word_of_int (sint t * uint rate) :: u64) sdiv 1000000000)"

datatype 'a conversion = No_Anchor | Division_By_Zero | Converted 'a

definition frame_to_ntp_local_time :: "u64 \<Rightarrow> u32 \<Rightarrow> 'a clock_conn_scheme \<Rightarrow> u64 conversion" where
  "frame_to_ntp_local_time now timestamp conn =
     (if \<not> anchor_remote_info_is_valid conn then No_Anchor
      else if input_rate conn = 0 then Division_By_Zero
      else Converted (anchor_time conn
             + frames_to_ns (input_rate conn) (timestamp - anchor_rtptime conn)
             - local_to_remote_time_difference_now now conn))"

definition local_ntp_time_to_frame :: "u64 \<Rightarrow> u64 \<Rightarrow> 'a clock_conn_scheme \<Rightarrow> u32 conversion" where
  "local_ntp_time_to_frame now time conn =
     (if \<not> anchor_remote_info_is_valid conn then No_Anchor
      else (let remote_time = time + local_to_remote_time_difference_now now conn
            in Converted (anchor_rtptime conn
                 + ns_to_frames (input_rate conn) (remote_time - anchor_time conn))))"

section \<open>PTP timing: AirPlay 2\<close>

text \<open>
  What NQPTP leaves in shared memory (\<open>None\<close>: it cannot be read), and what
  \<open>ptp_get_clock_info\<close> makes of it: the status, and the clock's identity, the time of the
  sample, the offset to the local clock and the start of its mastership, zero when not known.
\<close>

record nqptp =
  nqptp_version :: u16
  master_clock_id :: u64
  nqptp_local_time :: u64
  local_to_master_time_offset :: u64
  master_clock_start_time :: u64

definition NQPTP_SHM_STRUCTURES_VERSION :: u16 where
  "NQPTP_SHM_STRUCTURES_VERSION = 10"

definition ptp_get_clock_info ::
  "nqptp option \<Rightarrow> clock_status_t \<times> u64 \<times> u64 \<times> u64 \<times> u64" where
  "ptp_get_clock_info shm =
     (case shm of
        None \<Rightarrow> (clock_data_unavailable, 0, 0, 0, 0)
      | Some d \<Rightarrow>
          if nqptp_version d = NQPTP_SHM_STRUCTURES_VERSION then
            (if master_clock_id d \<noteq> 0
             then (clock_ok, master_clock_id d, nqptp_local_time d,
                   local_to_master_time_offset d, master_clock_start_time d)
             else (clock_no_master, 0, 0, 0, 0))
          else if nqptp_version d = 0 then (clock_service_unavailable, 0, 0, 0, 0)
          else (clock_version_mismatch, 0, 0, 0, 0))"

text \<open>
  \<open>set_ptp_anchor_info\<close>: a new anchor for the same clock discredits the last one unless that
  has been valid for five seconds.
\<close>

definition set_ptp_anchor_info ::
  "u64 \<Rightarrow> u64 \<Rightarrow> u32 \<Rightarrow> u64 \<Rightarrow> 'a clock_conn_scheme \<Rightarrow> 'a clock_conn_scheme" where
  "set_ptp_anchor_info now clock_id rtptime networktime conn =
     (let conn' =
        (if clock_id = anchor_clock conn
            \<and> (anchor_rtptime conn \<noteq> rtptime \<or> anchor_time conn \<noteq> networktime)
            \<and> sint (now - last_anchor_validity_start_time conn) < 5000000000
         then conn\<lparr>last_anchor_info_is_valid := False\<rparr> else conn)
      in conn'\<lparr>anchor_remote_info_is_valid := True, anchor_rtptime := rtptime,
               anchor_time := networktime, anchor_clock := clock_id\<rparr>)"

definition reset_ptp_anchor_info :: "'a clock_conn_scheme \<Rightarrow> 'a clock_conn_scheme" where
  "reset_ptp_anchor_info conn =
     conn\<lparr>last_anchor_info_is_valid := False, anchor_remote_info_is_valid := False\<rparr>"

text \<open>
  \<open>get_ptp_anchor_local_time_info\<close>: with a clock that has been master for 0.4 seconds, take the
  anchor's local time if it is the anchor's clock; if the master has changed, carry on with
  the last local time, and after five seconds rebase the anchor on the new clock. \<open>now\<close> and
  \<open>now'\<close> are the two readings of the local clock. The globals that only serve its debug
  messages are left out.
\<close>

definition update_anchor ::
  "u64 \<Rightarrow> u64 \<Rightarrow> u64 \<Rightarrow> u64 \<Rightarrow> u64 \<Rightarrow> 'a clock_conn_scheme \<Rightarrow> clock_status_t \<times> 'a clock_conn_scheme" where
  "update_anchor now now' actual_clock_id actual_offset start_of_mastership conn =
     (if actual_clock_id = anchor_clock conn then
        (clock_ok,
         conn\<lparr>last_anchor_rtptime := anchor_rtptime conn,
              last_anchor_local_time := anchor_time conn - actual_offset,
              last_anchor_time_of_update := now,
              last_anchor_validity_start_time :=
                (if last_anchor_info_is_valid conn then last_anchor_validity_start_time conn
                 else start_of_mastership),
              last_anchor_info_is_valid := True\<rparr>)
      else if last_anchor_info_is_valid conn then
        (clock_ok,
         if sint (now' - last_anchor_time_of_update conn) > 5000000000
         then conn\<lparr>anchor_time := last_anchor_local_time conn + actual_offset,
                   anchor_clock := actual_clock_id\<rparr>
         else conn)
      else (clock_not_valid, conn))"

definition get_ptp_anchor_local_time_info ::
  "nqptp option \<Rightarrow> u64 \<Rightarrow> u64 \<Rightarrow> 'a clock_conn_scheme \<Rightarrow>
    clock_status_t \<times> (u32 \<times> u64) option \<times> 'a clock_conn_scheme" where
  "get_ptp_anchor_local_time_info shm now now' conn =
     (if \<not> anchor_remote_info_is_valid conn then (clock_no_anchor_info, None, conn)
      else
        (let (response, clk, sampled, offset, start) = ptp_get_clock_info shm;
             (response, conn) =
               (if response = clock_ok then
                  (if sint (now - start) \<ge> 400000000 then update_anchor now now' clk offset start conn
                   else (clock_not_valid, conn))
                else (response, conn));
             conn = conn\<lparr>clock_status := response\<rparr>
         in (response,
             if last_anchor_info_is_valid conn
             then Some (last_anchor_rtptime conn, last_anchor_local_time conn) else None,
             conn)))"

definition have_ptp_timing_information ::
  "nqptp option \<Rightarrow> u64 \<Rightarrow> u64 \<Rightarrow> 'a clock_conn_scheme \<Rightarrow> bool \<times> 'a clock_conn_scheme" where
  "have_ptp_timing_information shm now now' conn =
     (let (r, _, conn) = get_ptp_anchor_local_time_info shm now now' conn in (r = clock_ok, conn))"

text \<open>The C code starts from a zero anchor and overwrites it when there is one.\<close>

definition frame_to_ptp_local_time ::
  "nqptp option \<Rightarrow> u64 \<Rightarrow> u64 \<Rightarrow> u32 \<Rightarrow> 'a clock_conn_scheme \<Rightarrow>
    u64 conversion \<times> 'a clock_conn_scheme" where
  "frame_to_ptp_local_time shm now now' timestamp conn =
     (if input_rate conn = 0 then (No_Anchor, conn)
      else
        (let (r, anchor, conn) = get_ptp_anchor_local_time_info shm now now' conn;
             (rtp, lt) = (case anchor of Some a \<Rightarrow> a | None \<Rightarrow> (0, 0))
         in if r \<noteq> clock_ok then (No_Anchor, conn)
            else (Converted (lt + frames_to_ns (input_rate conn) (timestamp - rtp)), conn)))"

definition local_ptp_time_to_frame ::
  "nqptp option \<Rightarrow> u64 \<Rightarrow> u64 \<Rightarrow> u64 \<Rightarrow> 'a clock_conn_scheme \<Rightarrow>
    u32 conversion \<times> 'a clock_conn_scheme" where
  "local_ptp_time_to_frame shm now now' time conn =
     (if input_rate conn = 0 then (No_Anchor, conn)
      else
        (let (r, anchor, conn) = get_ptp_anchor_local_time_info shm now now' conn;
             (rtp, lt) = (case anchor of Some a \<Rightarrow> a | None \<Rightarrow> (0, 0))
         in if r \<noteq> clock_ok then (No_Anchor, conn)
            else (Converted (rtp + ns_to_frames (input_rate conn) (time - lt)), conn)))"

section \<open>The entry points\<close>

text \<open>What one call reads from outside: the clock, twice at most, and the NQPTP block.\<close>

record clock_env =
  clk1 :: u64
  clk2 :: u64
  shm :: "nqptp option"

definition frame_to_local_time ::
  "clock_env \<Rightarrow> u32 \<Rightarrow> 'a clock_conn_scheme \<Rightarrow> u64 conversion \<times> 'a clock_conn_scheme" where
  "frame_to_local_time e timestamp conn =
     (case timing_type conn of
        ts_ptp \<Rightarrow> frame_to_ptp_local_time (shm e) (clk1 e) (clk2 e) timestamp conn
      | ts_ntp \<Rightarrow> (frame_to_ntp_local_time (clk1 e) timestamp conn, conn))"

definition local_time_to_frame ::
  "clock_env \<Rightarrow> u64 \<Rightarrow> 'a clock_conn_scheme \<Rightarrow> u32 conversion \<times> 'a clock_conn_scheme" where
  "local_time_to_frame e time conn =
     (case timing_type conn of
        ts_ptp \<Rightarrow> local_ptp_time_to_frame (shm e) (clk1 e) (clk2 e) time conn
      | ts_ntp \<Rightarrow> (local_ntp_time_to_frame (clk1 e) time conn, conn))"

definition reset_anchor_info :: "'a clock_conn_scheme \<Rightarrow> 'a clock_conn_scheme" where
  "reset_anchor_info conn =
     (case timing_type conn of
        ts_ptp \<Rightarrow> reset_ptp_anchor_info conn | ts_ntp \<Rightarrow> reset_ntp_anchor_info conn)"

definition have_timestamp_timing_information ::
  "clock_env \<Rightarrow> 'a clock_conn_scheme \<Rightarrow> bool \<times> 'a clock_conn_scheme" where
  "have_timestamp_timing_information e conn =
     (case timing_type conn of
        ts_ptp \<Rightarrow> have_ptp_timing_information (shm e) (clk1 e) (clk2 e) conn
      | ts_ntp \<Rightarrow> (have_ntp_timing_information conn, conn))"

text \<open>Only the clock's own fields are ever changed.\<close>

lemma update_anchor_more:
  "clock_conn.more (snd (update_anchor n n' clk off st conn)) = clock_conn.more conn"
  by (simp add: update_anchor_def)

lemma get_ptp_anchor_more:
  "clock_conn.more (snd (snd (get_ptp_anchor_local_time_info d n n' conn))) = clock_conn.more conn"
proof -
  obtain r clk smp off st where p: "ptp_get_clock_info d = (r, clk, smp, off, st)"
    by (metis prod_cases5)
  obtain r' c' where u: "update_anchor n n' clk off st conn = (r', c')" by force
  then have "clock_conn.more c' = clock_conn.more conn" by (metis snd_conv update_anchor_more)
  then show ?thesis by (simp add: get_ptp_anchor_local_time_info_def p u Let_def)
qed

lemma clock_more:
  "clock_conn.more (snd (frame_to_local_time e ts conn)) = clock_conn.more conn"
  "clock_conn.more (snd (local_time_to_frame e t conn)) = clock_conn.more conn"
  "clock_conn.more (snd (have_timestamp_timing_information e conn)) = clock_conn.more conn"
  using get_ptp_anchor_more [of "shm e" "clk1 e" "clk2 e" conn]
  by (auto simp: frame_to_local_time_def local_time_to_frame_def have_timestamp_timing_information_def
      frame_to_ptp_local_time_def local_ptp_time_to_frame_def have_ptp_timing_information_def Let_def
      split: timing_t.splits prod.splits)

section \<open>Conversion arithmetic\<close>




section \<open>What the anchor promises\<close>


lemmas anchor_defs = get_ptp_anchor_local_time_info_def update_anchor_def

text \<open>
  When the anchor is known, either the master is the anchor's clock and the anchor is recorded,
  or the last record is used, and rebased on the new master after five seconds.
\<close>

definition recorded :: "u64 \<Rightarrow> u64 \<Rightarrow> u64 \<Rightarrow> 'a clock_conn_scheme \<Rightarrow> 'a clock_conn_scheme" where
  "recorded now off start conn =
     conn\<lparr>last_anchor_rtptime := anchor_rtptime conn,
          last_anchor_local_time := anchor_time conn - off,
          last_anchor_time_of_update := now,
          last_anchor_validity_start_time :=
            (if last_anchor_info_is_valid conn then last_anchor_validity_start_time conn else start),
          last_anchor_info_is_valid := True, clock_status := clock_ok\<rparr>"

definition carried :: "u64 \<Rightarrow> u64 \<Rightarrow> u64 \<Rightarrow> 'a clock_conn_scheme \<Rightarrow> 'a clock_conn_scheme" where
  "carried now clk off conn =
     (if sint (now - last_anchor_time_of_update conn) > 5000000000
      then conn\<lparr>anchor_time := last_anchor_local_time conn + off, anchor_clock := clk,
                clock_status := clock_ok\<rparr>
      else conn\<lparr>clock_status := clock_ok\<rparr>)"

lemma get_ptp_anchor_ok:
  "get_ptp_anchor_local_time_info d n n' conn = (clock_ok, a, conn') \<longleftrightarrow>
    (\<exists>clk smp off st. anchor_remote_info_is_valid conn
      \<and> ptp_get_clock_info d = (clock_ok, clk, smp, off, st) \<and> 400000000 \<le> sint (n - st)
      \<and> (clk = anchor_clock conn \<and> a = Some (anchor_rtptime conn, anchor_time conn - off)
           \<and> conn' = recorded n off st conn
         \<or> clk \<noteq> anchor_clock conn \<and> last_anchor_info_is_valid conn
           \<and> a = Some (last_anchor_rtptime conn, last_anchor_local_time conn)
           \<and> conn' = carried n' clk off conn))"
proof -
  obtain r clk smp off st where p: "ptp_get_clock_info d = (r, clk, smp, off, st)"
    by (metis prod_cases5)
  show ?thesis
  proof (cases "anchor_remote_info_is_valid conn \<and> r = clock_ok \<and> 400000000 \<le> sint (n - st)")
    case False
    then show ?thesis
      by (auto simp: get_ptp_anchor_local_time_info_def p Let_def)
  next
    case True
    then show ?thesis
      by (cases "clk = anchor_clock conn"; cases "last_anchor_info_is_valid conn")
        (auto simp: anchor_defs p Let_def recorded_def carried_def)
  qed
qed

lemma recorded_simps [simp]:
  "input_rate (recorded n off st conn) = input_rate conn"
  "timing_type (recorded n off st conn) = timing_type conn"
  "anchor_remote_info_is_valid (recorded n off st conn) = anchor_remote_info_is_valid conn"
  "anchor_clock (recorded n off st conn) = anchor_clock conn"
  "anchor_rtptime (recorded n off st conn) = anchor_rtptime conn"
  "anchor_time (recorded n off st conn) = anchor_time conn"
  "last_anchor_rtptime (recorded n off st conn) = anchor_rtptime conn"
  "last_anchor_local_time (recorded n off st conn) = anchor_time conn - off"
  "last_anchor_info_is_valid (recorded n off st conn)"
  by (simp_all add: recorded_def)

lemma carried_simps [simp]:
  "input_rate (carried n clk off conn) = input_rate conn"
  "timing_type (carried n clk off conn) = timing_type conn"
  "anchor_remote_info_is_valid (carried n clk off conn) = anchor_remote_info_is_valid conn"
  "anchor_rtptime (carried n clk off conn) = anchor_rtptime conn"
  "last_anchor_rtptime (carried n clk off conn) = last_anchor_rtptime conn"
  "last_anchor_local_time (carried n clk off conn) = last_anchor_local_time conn"
  "last_anchor_info_is_valid (carried n clk off conn) = last_anchor_info_is_valid conn"
  "anchor_clock (carried n clk off conn) =
    (if sint (n - last_anchor_time_of_update conn) > 5000000000 then clk else anchor_clock conn)"
  "anchor_time (carried n clk off conn) =
    (if sint (n - last_anchor_time_of_update conn) > 5000000000
     then last_anchor_local_time conn + off else anchor_time conn)"
  by (simp_all add: carried_def)





text \<open>A connection with a PTP anchor at frame 0, and the block NQPTP leaves for a master.\<close>

definition sample_conn :: clock_conn where
  "sample_conn = \<lparr>timing_type = ts_ptp, input_rate = 44100, anchor_remote_info_is_valid = True,
     anchor_clock = 7, anchor_time = 5000000000, anchor_rtptime = 4294967295,
     last_anchor_info_is_valid = False, last_anchor_rtptime = 0, last_anchor_local_time = 0,
     last_anchor_time_of_update = 0, last_anchor_validity_start_time = 0,
     clock_status = clock_not_ready, local_to_remote_time_difference = 0,
     local_to_remote_time_difference_measurement_time = 0, local_to_remote_time_gradient = 1\<rparr>"

definition master :: "u64 \<Rightarrow> u64 \<Rightarrow> nqptp option" where
  "master clk off = Some \<lparr>nqptp_version = 10, master_clock_id = clk, nqptp_local_time = 0,
     local_to_master_time_offset = off, master_clock_start_time = 0\<rparr>"


lemma ptp_get_clock_info_master [simp]:
  "clk \<noteq> 0 \<Longrightarrow> ptp_get_clock_info (master clk off) = (clock_ok, clk, 0, off, 0)"
  by (simp add: ptp_get_clock_info_def master_def NQPTP_SHM_STRUCTURES_VERSION_def)


lemma frame_to_ptp_local_time_ok:
  "frame_to_ptp_local_time d n n' ts conn = (Converted t, conn') \<longleftrightarrow>
    input_rate conn \<noteq> 0 \<and>
    (\<exists>a. get_ptp_anchor_local_time_info d n n' conn = (clock_ok, a, conn') \<and>
      t = (case a of Some (rtp, lt) \<Rightarrow> lt + frames_to_ns (input_rate conn') (ts - rtp)
           | None \<Rightarrow> frames_to_ns (input_rate conn') ts))"
  by (auto simp: frame_to_ptp_local_time_def split: prod.splits option.splits)



text \<open>
  A new anchor that names a clock which is no longer master is not honoured: while the old
  record is carried the frames keep their old times, but when it is rebased the old local time
  is attached to the new anchor's frame, so the new anchor's frame moves to the time of
  the old anchor's frame.
\<close>

theorem rebase_mixes_anchors:
  assumes c1_eq: "conn1 = set_ptp_anchor_info now (anchor_clock conn) rtptime networktime conn"
    and "last_anchor_info_is_valid conn"
    and "5000000000 \<le> sint (now - last_anchor_validity_start_time conn)"
    and "frame_to_ptp_local_time d m m' rtptime conn1 = (Converted t, conn2)"
    and "fst (snd (ptp_get_clock_info d)) \<noteq> anchor_clock conn"
    and "5000000000 < sint (m' - last_anchor_time_of_update conn)"
    and "frame_to_ptp_local_time d k k' rtptime conn2 = (Converted t', conn3)"
  shows "t = last_anchor_local_time conn
      + frames_to_ns (input_rate conn) (rtptime - last_anchor_rtptime conn)
    \<and> t' = last_anchor_local_time conn"
proof -
  have c1: "last_anchor_info_is_valid conn1" "anchor_clock conn1 = anchor_clock conn"
    "last_anchor_rtptime conn1 = last_anchor_rtptime conn"
    "last_anchor_local_time conn1 = last_anchor_local_time conn"
    "last_anchor_time_of_update conn1 = last_anchor_time_of_update conn"
    "anchor_rtptime conn1 = rtptime" "input_rate conn1 = input_rate conn"
    using assms(2,3) by (auto simp: c1_eq set_ptp_anchor_info_def)
  have "t = last_anchor_local_time conn
      + frames_to_ns (input_rate conn) (rtptime - last_anchor_rtptime conn)"
    using assms(4,5) c1 by (auto simp: frame_to_ptp_local_time_ok get_ptp_anchor_ok)
  moreover have "t' = last_anchor_local_time conn"
    using assms(4-7) c1
    by (auto simp: frame_to_ptp_local_time_ok get_ptp_anchor_ok frames_to_ns_def signed_divide_int_def)
  ultimately show ?thesis ..
qed

theorem rebase_mixes_anchors_witness:
  "\<exists>t conn2 conn3.
     frame_to_ptp_local_time (master 8 2000) 90000000000 90000000000 441000
       (set_ptp_anchor_info 80000000000 7 441000 15000000000
         (recorded 1000000000 1000 0 (sample_conn\<lparr>anchor_rtptime := 0\<rparr>))) = (Converted t, conn2)
     \<and> t = 4999999000 + frames_to_ns 44100 441000
     \<and> frame_to_ptp_local_time (master 8 2000) 90000000001 90000000001 441000 conn2
       = (Converted 4999999000, conn3)"
proof -
  let ?d = "master 8 2000"
  let ?c = "recorded 1000000000 1000 0 (sample_conn\<lparr>anchor_rtptime := 0\<rparr>)"
  let ?c1 = "set_ptp_anchor_info 80000000000 7 441000 15000000000 ?c"
  let ?c2 = "carried 90000000000 8 2000 ?c1"
  have c: "anchor_clock ?c = 7" "last_anchor_info_is_valid ?c" "last_anchor_local_time ?c = 4999999000"
    "last_anchor_rtptime ?c = 0" "input_rate ?c = 44100" "last_anchor_validity_start_time ?c = 0"
    "last_anchor_time_of_update ?c = 1000000000"
    by (simp_all add: recorded_def sample_conn_def)
  have c1: "anchor_clock ?c1 = 7" "last_anchor_info_is_valid ?c1" "anchor_remote_info_is_valid ?c1"
    "input_rate ?c1 = 44100" "last_anchor_time_of_update ?c1 = 1000000000"
    by (simp_all add: set_ptp_anchor_info_def recorded_def sample_conn_def)
  have "\<exists>t. frame_to_ptp_local_time ?d 90000000000 90000000000 441000 ?c1 = (Converted t, ?c2)"
    by (simp add: frame_to_ptp_local_time_ok get_ptp_anchor_ok c1)
  moreover have "\<exists>t conn3. frame_to_ptp_local_time ?d 90000000001 90000000001 441000 ?c2
      = (Converted t, conn3)"
    by (simp add: frame_to_ptp_local_time_ok get_ptp_anchor_ok c1)
  ultimately obtain t t' conn3 where
    1: "frame_to_ptp_local_time ?d 90000000000 90000000000 441000 ?c1 = (Converted t, ?c2)"
    and 2: "frame_to_ptp_local_time ?d 90000000001 90000000001 441000 ?c2 = (Converted t', conn3)"
    by blast
  have "t = last_anchor_local_time ?c + frames_to_ns (input_rate ?c) (441000 - last_anchor_rtptime ?c)
      \<and> t' = last_anchor_local_time ?c"
    by (rule rebase_mixes_anchors [of ?c1 80000000000 ?c 441000 15000000000, OF _ _ _ 1 _ _ 2])
      (simp_all only: c ptp_get_clock_info_master, simp_all)
  then have "t = 4999999000 + frames_to_ns 44100 441000" "t' = 4999999000"
    unfolding c by simp_all
  with 1 2 show ?thesis by blast
qed

end
