(* ===== verification/Jitter_Buffer.thy ===== *)
theory Jitter_Buffer
  imports Rtp_Clock
begin

text \<open>
  The player's jitter buffer (\<open>player.c\<close>, \<open>player.h\<close>): the 1024 slots indexed by 16-bit
  sequence numbers, how \<open>player_put_packet\<close> places a packet, how it decides which missing
  packets to ask for again, and the operations that look back into the buffer or clear it.
  The build is the full one (AirPlay 2 with FFmpeg). The decoders and AES are arguments, the
  \<open>codec\<close>. The result \<open>None\<close> of an operation is undefined behaviour of the C code: a NULL
  dereference, a write outside an allocation, a division by zero.
\<close>

section \<open>State\<close>

datatype avframe = AVFrame (nb_samples: u32) (samples: "u8 list")

record abuf =
  ready :: bool
  status :: u8
  resend_request_number :: u16
  data :: "u16 list option"
  sequence_number :: u16
  initialisation_time :: u64
  resend_time :: u64
  timestamp :: u32
  timestamp_gap :: u32
  frame_count :: u32  \<comment> \<open>the field \<open>length\<close>\<close>
  ssrc :: u32
  avframe :: "avframe option"

definition BUFFER_FRAMES :: nat where "BUFFER_FRAMES = 1024"

definition BUFIDX :: "u16 \<Rightarrow> nat" where
  "BUFIDX seqno = unat seqno mod BUFFER_FRAMES"

definition SSRC_NONE :: u32 where "SSRC_NONE = 0"
definition ALAC_44100_S16_2 :: u32 where "ALAC_44100_S16_2 = 0xFACE"
definition ALAC_48000_S24_2 :: u32 where "ALAC_48000_S24_2 = 0x15000000"
definition AAC_44100_F24_2 :: u32 where "AAC_44100_F24_2 = 0x16000000"
definition AAC_48000_F24_2 :: u32 where "AAC_48000_F24_2 = 0x17000000"
definition AAC_48000_F24_5P1 :: u32 where "AAC_48000_F24_5P1 = 0x27000000"
definition AAC_48000_F24_7P1 :: u32 where "AAC_48000_F24_7P1 = 0x28000000"

datatype audio_stream_type = ast_unknown | ast_uncompressed | ast_apple_lossless

record player_conn = clock_conn +
  audio_buffer :: "abuf list"
  ab_read :: u16
  ab_write :: u16
  ab_synced :: bool
  ab_buffering :: bool
  connection_state_to_output :: bool
  packet_count :: u64
  packet_count_since_flush :: u64
  time_of_last_audio_packet :: u64
  first_packet_timestamp :: u32
  first_packet_time_to_play :: u64
  time_since_play_started :: u64
  late_packets :: u64
  too_late_packets :: u64
  missing_packets :: u64
  resend_requests :: u64
  last_seqno_valid :: bool
  last_seqno_read :: u16
  flush_requested :: bool
  flush_rtp_timestamp :: u32
  flush_output_flushed :: bool
  latency :: u32
  frames_per_packet :: u32
  input_bytes_per_frame :: u32
  input_format_is_valid :: bool
  stream_encrypted :: bool
  stream_type :: audio_stream_type
  play_number_after_flush :: u64
  initial_reference_time :: u64
  initial_reference_timestamp :: u32
  input_frame_rate_starting_point_is_valid :: bool
  frames_inward_measurement_start_time :: u64
  frames_inward_frames_received_at_measurement_start_time :: u32
  frames_inward_measurement_time :: u64
  frames_inward_frames_received_at_measurement_time :: u32

abbreviation slot :: "player_conn \<Rightarrow> u16 \<Rightarrow> abuf" where
  "slot conn s \<equiv> audio_buffer conn ! BUFIDX s"

section \<open>Streams by SSRC\<close>

definition ssrc_is_recognised :: "u32 \<Rightarrow> bool" where
  "ssrc_is_recognised s \<longleftrightarrow> s \<in> set [ALAC_44100_S16_2, ALAC_48000_S24_2, AAC_44100_F24_2,
     AAC_48000_F24_2, AAC_48000_F24_5P1, AAC_48000_F24_7P1]"

definition ssrc_is_aac :: "u32 \<Rightarrow> bool" where
  "ssrc_is_aac s \<longleftrightarrow>
     s \<in> set [AAC_44100_F24_2, AAC_48000_F24_2, AAC_48000_F24_5P1, AAC_48000_F24_7P1]"

definition get_ssrc_rate :: "u32 \<Rightarrow> u32" where
  "get_ssrc_rate s =
     (if s \<in> set [ALAC_44100_S16_2, AAC_44100_F24_2] then 44100
      else if s \<in> set [ALAC_48000_S24_2, AAC_48000_F24_2, AAC_48000_F24_5P1, AAC_48000_F24_7P1]
      then 48000 else 0)"

definition get_ssrc_block_length :: "u32 \<Rightarrow> nat" where
  "get_ssrc_block_length s =
     (if s \<in> set [ALAC_44100_S16_2, ALAC_48000_S24_2] then 352
      else if s \<in> set [AAC_44100_F24_2, AAC_48000_F24_2, AAC_48000_F24_5P1, AAC_48000_F24_7P1]
      then 1024 else 0)"

section \<open>Slots\<close>

text \<open>The number of things freed, and the slot without them.\<close>

definition free_audio_buffer_payload :: "abuf \<Rightarrow> nat \<times> abuf" where
  "free_audio_buffer_payload b =
     (let (n, b) = (if data b \<noteq> None then (1, b\<lparr>data := None\<rparr>) else (0, b))
      in if avframe b \<noteq> None then (Suc n, b\<lparr>avframe := None, ssrc := SSRC_NONE\<rparr>) else (n, b))"

definition clear_slot :: "abuf \<Rightarrow> abuf" where
  "clear_slot b = (snd (free_audio_buffer_payload b))
     \<lparr>ready := False, resend_request_number := 0, resend_time := 0, initialisation_time := 0,
      sequence_number := 0\<rparr>"

definition ab_resync :: "player_conn \<Rightarrow> player_conn" where
  "ab_resync conn =
     conn\<lparr>audio_buffer := map clear_slot (audio_buffer conn), ab_synced := False,
          last_seqno_valid := False, ab_buffering := True\<rparr>"

definition reset_input_flow_metrics :: "player_conn \<Rightarrow> player_conn" where
  "reset_input_flow_metrics conn =
     conn\<lparr>play_number_after_flush := 0, packet_count_since_flush := 0,
          input_frame_rate_starting_point_is_valid := False, initial_reference_time := 0,
          initial_reference_timestamp := 0\<rparr>"

text \<open>The occupancy, a \<open>size_t\<close> made from a signed 16-bit difference.\<close>

definition get_audio_buffer_occupancy :: "player_conn \<Rightarrow> u64" where
  "get_audio_buffer_occupancy conn =
     (if ab_synced conn then word_of_int (sint (ab_write conn - ab_read conn)) else 0)"

text \<open>Walk back from the write end to the first slot that is not older than the timestamp.\<close>

function revised_from :: "player_conn \<Rightarrow> u32 \<Rightarrow> u16 \<Rightarrow> u16" where
  "revised_from conn ts s =
     (if s = ab_read conn then s
      else let s' = s - 1; b = slot conn s' in
        if ready b \<and> 0 \<le> sint (ts - timestamp b) then s' + 1
        else revised_from conn ts s')"
  by pat_completeness auto
termination
proof (relation "measure (\<lambda>(conn, ts, s). unat (s - ab_read conn))", goal_cases)
  case 1
  show ?case by simp
next
  case (2 conn ts s s' b)
  then have "s - ab_read conn \<noteq> 0" by simp
  then have "unat (s - ab_read conn - 1) < unat (s - ab_read conn)"
    by (metis diff_less measure_unat unat_minus_one unat_gt_0 zero_less_one)
  moreover have "s - ab_read conn - 1 = s' - ab_read conn"
    unfolding 2(2) by (simp add: algebra_simps)
  ultimately show ?case by simp
qed

declare revised_from.simps [simp del]

definition get_revised_seqno :: "player_conn \<Rightarrow> u32 \<Rightarrow> u16" where
  "get_revised_seqno conn ts = revised_from conn ts (ab_write conn)"

lemma unat_distance_step:
  assumes "x \<noteq> (w::u16)" shows "unat (w - (x + 1)) < unat (w - x)"
proof -
  have "w - x \<noteq> 0" using assms by simp
  then have "unat (w - x - 1) < unat (w - x)"
    by (metis diff_less measure_unat unat_minus_one unat_gt_0 zero_less_one)
  then show ?thesis by (simp add: algebra_simps)
qed

lemma unat_succ_distance:
  assumes "x \<noteq> (w::u16)" shows "unat (w - x) = Suc (unat (w - (x + 1)))"
proof -
  have "w - x \<noteq> 0" using assms by simp
  then have "unat (w - x - 1) = unat (w - x) - 1" "unat (w - x) > 0"
    by (simp_all add: unat_minus_one unat_gt_0)
  then show ?thesis by (simp add: algebra_simps)
qed

function clear_buffers_from :: "u16 \<Rightarrow> player_conn \<Rightarrow> player_conn" where
  "clear_buffers_from s conn =
     (if s = ab_write conn then conn
      else clear_buffers_from (s + 1)
        (conn\<lparr>audio_buffer := (audio_buffer conn)
           [BUFIDX s := snd (free_audio_buffer_payload (slot conn s))]\<rparr>))"
  by pat_completeness auto
termination
  by (relation "measure (\<lambda>(s, conn). unat (ab_write conn - s))") (auto simp: unat_distance_step)

declare clear_buffers_from.simps [simp del]

section \<open>Putting a packet\<close>

text \<open>
  What the code calls: AES in CBC mode with the session's key, the selected ALAC decoder and
  FFmpeg. The selected decoder and the times that control the requests come from the
  configuration.
\<close>

record codec =
  aes_decrypt_cbc :: "u8 list \<Rightarrow> u8 list"
  alac_decoder :: "u8 list \<Rightarrow> u16 list option"
  block_to_avframe :: "u32 \<Rightarrow> u8 list \<Rightarrow> avframe option"

datatype decoder = decoder_hammerton | decoder_apple_alac | decoder_ffmpeg_alac | decoder_unknown

record player_config =
  decoder_in_use :: decoder
  resend_control_first_check_time :: real
  resend_control_check_interval_time :: real
  resend_control_last_check_time :: real
  audio_backend_buffer_desired_length :: real
  disable_resend_requests :: bool

text \<open>\<open>double\<close> to \<open>uint64_t\<close>, for values that are not negative and fit.\<close>

definition to_ns :: "real \<Rightarrow> u64" where
  "to_ns secs = word_of_int \<lfloor>secs * 1000000000\<rfloor>"

text \<open>
  Classic packets: decode into a buffer with room for that many 16-bit samples. Uncompressed samples are
  copied without looking at that size.
\<close>

definition uncompressed_samples :: "u8 list \<Rightarrow> u16 list" where
  "uncompressed_samples packet = map (\<lambda>i. nctohs packet (2 * i)) [0..<length packet div 2]"

definition unencrypted_packet_decode ::
  "codec \<Rightarrow> audio_stream_type \<Rightarrow> u8 list \<Rightarrow> nat \<Rightarrow> u16 list option" where
  "unencrypted_packet_decode cd typ packet room =
     (case typ of
        ast_apple_lossless \<Rightarrow> alac_decoder cd packet
      | ast_uncompressed \<Rightarrow>
          (let out = uncompressed_samples packet in
           if room < length out then None else Some out)
      | ast_unknown \<Rightarrow> Some [])"

text \<open>
  The lossless samples in a packet, decrypted if the stream is encrypted: whole AES blocks are
  decrypted and the rest is copied.
\<close>

definition decrypt_packet :: "codec \<Rightarrow> bool \<Rightarrow> u8 list \<Rightarrow> u8 list" where
  "decrypt_packet cd encrypted bs =
     (if encrypted
      then (let aeslen = length bs - length bs mod 16
            in aes_decrypt_cbc cd (take aeslen bs) @ drop aeslen bs)
      else bs)"

text \<open>The FFmpeg decoders, and a muted frame: its length is kept and its sound dropped.\<close>

definition ffmpeg_payload ::
  "codec \<Rightarrow> u32 \<Rightarrow> u8 list \<Rightarrow> bool \<Rightarrow> abuf \<Rightarrow> (u32 \<times> abuf) option" where
  "ffmpeg_payload cd s bs mute b =
     (let f = block_to_avframe cd s bs; b = b\<lparr>avframe := f, ssrc := s\<rparr> in
      case f of
        None \<Rightarrow> if mute then None else Some (0, b)
      | Some fr \<Rightarrow>
          Some (nb_samples fr,
                if mute then b\<lparr>frame_count := nb_samples fr, avframe := None\<rparr> else b))"

definition decode_payload ::
  "codec \<Rightarrow> player_config \<Rightarrow> player_conn \<Rightarrow> u32 \<Rightarrow> u8 list \<Rightarrow> bool \<Rightarrow> abuf \<Rightarrow> (u32 \<times> abuf) option" where
  "decode_payload cd cfg conn s bs mute b =
     (if s = ALAC_44100_S16_2 then
        (let packet = decrypt_packet cd (stream_encrypted conn) bs in
         if decoder_in_use cfg = decoder_hammerton \<or> decoder_in_use cfg = decoder_apple_alac then
           (case unencrypted_packet_decode cd (stream_type conn) packet
                   (unat (frames_per_packet conn * input_bytes_per_frame conn) div 2) of
              None \<Rightarrow> None
            | Some out \<Rightarrow>
                Some (frames_per_packet conn,
                      b\<lparr>data := Some out, frame_count := frames_per_packet conn\<rparr>))
         else if decoder_in_use cfg = decoder_ffmpeg_alac then ffmpeg_payload cd s packet mute b
         else Some (0, b))
      else ffmpeg_payload cd s bs mute b)"

definition fill_slot ::
  "codec \<Rightarrow> player_config \<Rightarrow> player_conn \<Rightarrow> u64 \<Rightarrow> u32 \<Rightarrow> u16 \<Rightarrow> u32 \<Rightarrow> u8 list \<Rightarrow> bool \<Rightarrow> u32 \<Rightarrow>
    abuf \<Rightarrow> (u32 \<times> abuf) option" where
  "fill_slot cd cfg conn now s seqno ts bs mute gap b =
     (let b = (snd (free_audio_buffer_payload b))
            \<lparr>initialisation_time := now, resend_time := 0, frame_count := 0\<rparr> in
      map_option (\<lambda>(used, b).
          (used, b\<lparr>ready := True, status := 0, timestamp := ts, timestamp_gap := gap,
                   sequence_number := seqno\<rparr>))
        (decode_payload cd cfg conn s bs mute b))"

text \<open>
  Where the packet goes: the first packet fixes the position; the expected one is appended;
  one from further on makes the slots in between missing; one from before the write end is
  late, and one from before the read end too late.
\<close>

definition missing_slot :: "u64 \<Rightarrow> abuf \<Rightarrow> abuf" where
  "missing_slot now b =
     b\<lparr>ready := False, resend_request_number := 0, initialisation_time := now, status := 1,
       resend_time := 0, timestamp := 0, sequence_number := 0\<rparr>"

definition mark_missing :: "u64 \<Rightarrow> u16 \<Rightarrow> nat \<Rightarrow> abuf list \<Rightarrow> abuf list" where
  "mark_missing now w gap bufs =
     foldl (\<lambda>bs i. bs[BUFIDX (w + of_nat i) := missing_slot now (bs ! BUFIDX (w + of_nat i))])
       bufs [0..<gap]"

definition locate_slot :: "u64 \<Rightarrow> u16 \<Rightarrow> u32 \<Rightarrow> player_conn \<Rightarrow> nat option \<times> player_conn" where
  "locate_slot now seqno ts conn =
     (let conn = (if ab_synced conn then conn
                  else conn\<lparr>ab_write := seqno, ab_read := seqno, ab_synced := True,
                            first_packet_timestamp := 0\<rparr>);
          gap = sint (seqno - ab_write conn)
      in if ab_write conn = seqno then
           (let conn =
              (if \<not> input_frame_rate_starting_point_is_valid conn
                  \<and> 500 \<le> packet_count_since_flush conn \<and> packet_count_since_flush conn \<le> 510
               then conn\<lparr>frames_inward_measurement_start_time := now,
                         frames_inward_frames_received_at_measurement_start_time := ts,
                         input_frame_rate_starting_point_is_valid := True\<rparr>
               else conn)
            in (Some (BUFIDX seqno),
                conn\<lparr>frames_inward_measurement_time := now,
                     frames_inward_frames_received_at_measurement_time := ts,
                     ab_write := seqno + 1\<rparr>))
         else if 0 < gap then
           (Some (BUFIDX seqno),
            conn\<lparr>audio_buffer := mark_missing now (ab_write conn) (nat gap) (audio_buffer conn),
                 ab_write := seqno + 1\<rparr>)
         else if 0 \<le> sint (seqno - ab_read conn) then
           (Some (BUFIDX seqno), conn\<lparr>late_packets := late_packets conn + 1\<rparr>)
         else (None, conn\<lparr>too_late_packets := too_late_packets conn + 1\<rparr>))"

section \<open>Asking for missing packets again\<close>

text \<open>
  The state of the scan: the slots, the first missing packet, the run of packets to ask for
  that is being built, the number of missing packets, and the requests made.
\<close>

record scan =
  slots :: "abuf list"
  first_possibly_missing_frame :: "u16 option"
  start_of_missing_frame_run :: "u16 option"
  missing_frame_run_count :: nat
  number_of_missing_frames :: nat
  requests :: "(u16 \<times> nat) list"

record resend_times =
  time_now :: u64
  minimum_wait_time :: u64
  resend_repeat_interval :: u64
  minimum_remaining_time :: u64
  latency_time :: u64

definition too_late :: "resend_times \<Rightarrow> abuf \<Rightarrow> bool" where
  "too_late t b \<longleftrightarrow> initialisation_time b < time_now t - latency_time t
     \<or> initialisation_time b - (time_now t - latency_time t) < minimum_remaining_time t"

definition too_early :: "resend_times \<Rightarrow> abuf \<Rightarrow> bool" where
  "too_early t b \<longleftrightarrow> time_now t - initialisation_time b < minimum_wait_time t"

definition too_soon_after_last_request :: "resend_times \<Rightarrow> abuf \<Rightarrow> bool" where
  "too_soon_after_last_request t b \<longleftrightarrow>
     resend_time b \<noteq> 0 \<and> time_now t - resend_time b < resend_repeat_interval t"

definition eligible :: "resend_times \<Rightarrow> abuf \<Rightarrow> bool" where
  "eligible t b \<longleftrightarrow> \<not> too_soon_after_last_request t b \<and> \<not> too_late t b \<and> \<not> too_early t b"

definition flag :: "nat \<Rightarrow> bool \<Rightarrow> u8 \<Rightarrow> u8" where
  "flag n b s = (if b then s OR push_bit n 1 else s AND (0xFF - push_bit n 1))"

definition mark_status :: "resend_times \<Rightarrow> abuf \<Rightarrow> abuf" where
  "mark_status t b = b\<lparr>status := flag 4 (too_soon_after_last_request t b)
     (flag 3 (too_early t b) (flag 2 (too_late t b) (status b)))\<rparr>"

text \<open>One turn of the scan, at the packet \<open>x\<close> of a buffer that ends before \<open>w\<close>.\<close>

definition check_frame :: "resend_times \<Rightarrow> u16 \<Rightarrow> u16 \<Rightarrow> scan \<Rightarrow> scan" where
  "check_frame t w x s =
     (let b = slots s ! BUFIDX x;
          s = (if ready b then s
               else
                 (let s = s\<lparr>first_possibly_missing_frame :=
                              (case first_possibly_missing_frame s of None \<Rightarrow> Some x | y \<Rightarrow> y),
                            number_of_missing_frames := Suc (number_of_missing_frames s)\<rparr>;
                      b = mark_status t b
                  in if eligible t b
                     then s\<lparr>start_of_missing_frame_run :=
                              (case start_of_missing_frame_run s of None \<Rightarrow> Some x | y \<Rightarrow> y),
                            missing_frame_run_count :=
                              (if start_of_missing_frame_run s = None then 1
                               else Suc (missing_frame_run_count s)),
                            slots := (slots s)[BUFIDX x :=
                              b\<lparr>resend_time := time_now t,
                                resend_request_number := resend_request_number b + 1\<rparr>]\<rparr>
                     else s\<lparr>slots := (slots s)[BUFIDX x := b]\<rparr>))
      in if (ready b \<or> x + 1 = w) \<and> 0 < missing_frame_run_count s
         then s\<lparr>requests := requests s
                  @ [(the (start_of_missing_frame_run s), missing_frame_run_count s)],
                start_of_missing_frame_run := None, missing_frame_run_count := 0\<rparr>
         else s)"

function scan_frames :: "resend_times \<Rightarrow> u16 \<Rightarrow> u16 \<Rightarrow> scan \<Rightarrow> scan" where
  "scan_frames t w x s = (if x = w then s else scan_frames t w (x + 1) (check_frame t w x s))"
  by pat_completeness auto
termination
  by (relation "measure (\<lambda>(t, w, x, s). unat (w - x))") (auto simp: unat_distance_step)

declare scan_frames.simps [simp del]

definition resend_times_of :: "player_config \<Rightarrow> player_conn \<Rightarrow> u64 \<Rightarrow> resend_times" where
  "resend_times_of cfg conn now =
     \<lparr>time_now = now,
      minimum_wait_time = to_ns (resend_control_first_check_time cfg),
      resend_repeat_interval = to_ns (resend_control_check_interval_time cfg),
      minimum_remaining_time =
        to_ns (resend_control_last_check_time cfg + audio_backend_buffer_desired_length cfg),
      latency_time = ucast (latency conn) * 1000000000 div ucast (input_rate conn)\<rparr>"

text \<open>
  The scan starts at the first packet known to be missing when that is still in the buffer,
  and otherwise at the read end. When nothing is missing the next scan starts where this one
  ended. The requests are made unless they are disabled.
\<close>

definition scan_start :: "u16 option \<Rightarrow> player_conn \<Rightarrow> u16" where
  "scan_start fpm conn =
     (case fpm of
        None \<Rightarrow> ab_read conn
      | Some f \<Rightarrow>
          if 0 \<le> sint (ab_write conn - ab_read conn) \<and> 0 \<le> sint (f - ab_read conn)
             \<and> sint (f - ab_read conn) < sint (ab_write conn - ab_read conn)
          then f else ab_read conn)"

definition resend_checks ::
  "player_config \<Rightarrow> u64 \<Rightarrow> u16 option \<Rightarrow> player_conn \<Rightarrow> (u16 \<times> nat) list \<times> u16 option \<times> player_conn" where
  "resend_checks cfg now fpm conn =
     (let s = scan_frames (resend_times_of cfg conn now) (ab_write conn) (scan_start fpm conn)
                \<lparr>slots = audio_buffer conn, first_possibly_missing_frame = None,
                 start_of_missing_frame_run = None, missing_frame_run_count = 0,
                 number_of_missing_frames = 0, requests = []\<rparr>;
          fpm = (if number_of_missing_frames s = 0 then Some (ab_write conn)
                 else first_possibly_missing_frame s);
          conn = conn\<lparr>audio_buffer := slots s\<rparr>
      in if disable_resend_requests cfg then ([], fpm, conn)
         else (requests s, fpm,
               conn\<lparr>resend_requests := resend_requests conn + of_nat (length (requests s))\<rparr>))"

section \<open>The whole operation\<close>

text \<open>
  \<open>player_put_packet\<close>, with \<open>fpm\<close> the static \<open>first_possibly_missing_frame\<close> (\<open>None\<close>: -1):
  the number of input frames used, the requests for missing packets, and the new state.
\<close>

definition begin_put :: "u64 \<Rightarrow> player_conn \<Rightarrow> player_conn" where
  "begin_put now conn =
     (let conn = (if packet_count conn = 0
                  then conn\<lparr>flush_requested := False, flush_rtp_timestamp := 0\<rparr> else conn)
      in conn\<lparr>packet_count := packet_count conn + 1,
              packet_count_since_flush := packet_count_since_flush conn + 1,
              time_of_last_audio_packet := now\<rparr>)"

definition store_packet ::
  "codec \<Rightarrow> player_config \<Rightarrow> u64 \<Rightarrow> u32 \<Rightarrow> u16 \<Rightarrow> u32 \<Rightarrow> u8 list \<Rightarrow> bool \<Rightarrow> u32 \<Rightarrow> player_conn \<Rightarrow>
    (u32 \<times> player_conn) option" where
  "store_packet cd cfg now s seqno ts bs mute gap conn =
     (let (place, conn) = locate_slot now seqno ts conn in
      case place of
        None \<Rightarrow> Some (0, conn)
      | Some i \<Rightarrow>
          map_option (\<lambda>(used, b). (used, conn\<lparr>audio_buffer := (audio_buffer conn)[i := b]\<rparr>))
            (fill_slot cd cfg conn now s seqno ts bs mute gap (audio_buffer conn ! i)))"

definition player_put_packet ::
  "codec \<Rightarrow> player_config \<Rightarrow> u64 \<Rightarrow> u32 \<Rightarrow> u16 \<Rightarrow> u32 \<Rightarrow> u8 list \<Rightarrow> bool \<Rightarrow> u32 \<Rightarrow>
    u16 option \<Rightarrow> player_conn \<Rightarrow> (u32 \<times> (u16 \<times> nat) list \<times> u16 option \<times> player_conn) option" where
  "player_put_packet cd cfg now s seqno ts bs mute gap fpm conn =
     (let conn = begin_put now conn in
      if \<not> connection_state_to_output conn then Some (0, [], fpm, conn)
      else
        (case store_packet cd cfg now s seqno ts bs mute gap conn of
           None \<Rightarrow> None
         | Some (used, conn) \<Rightarrow>
             if input_rate conn = 0 then None
             else Some (used, resend_checks cfg now fpm conn)))"

section \<open>A new connection\<close>

text \<open>A connection as it is allocated, zeroed, with its buffer initialised.\<close>

definition blank :: abuf where
  "blank = \<lparr>ready = False, status = 0, resend_request_number = 0, data = None,
     sequence_number = 0, initialisation_time = 0, resend_time = 0, timestamp = 0,
     timestamp_gap = 0, frame_count = 0, ssrc = 0, avframe = None\<rparr>"

definition init_buffer :: "abuf list" where
  "init_buffer = replicate BUFFER_FRAMES (blank\<lparr>data := None, avframe := None, ssrc := SSRC_NONE\<rparr>)"

definition new_conn :: player_conn where
  "new_conn = \<lparr>timing_type = ts_ntp, input_rate = 0, anchor_remote_info_is_valid = False,
     anchor_clock = 0, anchor_time = 0, anchor_rtptime = 0, last_anchor_info_is_valid = False,
     last_anchor_rtptime = 0, last_anchor_local_time = 0, last_anchor_time_of_update = 0,
     last_anchor_validity_start_time = 0, clock_status = clock_no_anchor_info,
     local_to_remote_time_difference = 0, local_to_remote_time_difference_measurement_time = 0,
     local_to_remote_time_gradient = 0,
     audio_buffer = init_buffer, ab_read = 0, ab_write = 0, ab_synced = False,
     ab_buffering = False, connection_state_to_output = False, packet_count = 0,
     packet_count_since_flush = 0, time_of_last_audio_packet = 0, first_packet_timestamp = 0,
     first_packet_time_to_play = 0, time_since_play_started = 0, late_packets = 0,
     too_late_packets = 0, missing_packets = 0, resend_requests = 0, last_seqno_valid = False,
     last_seqno_read = 0, flush_requested = False, flush_rtp_timestamp = 0,
     flush_output_flushed = False, latency = 0, frames_per_packet = 0, input_bytes_per_frame = 0,
     input_format_is_valid = False, stream_encrypted = False, stream_type = ast_unknown,
     play_number_after_flush = 0, initial_reference_time = 0, initial_reference_timestamp = 0,
     input_frame_rate_starting_point_is_valid = False, frames_inward_measurement_start_time = 0,
     frames_inward_frames_received_at_measurement_start_time = 0,
     frames_inward_measurement_time = 0, frames_inward_frames_received_at_measurement_time = 0\<rparr>"

end
