(* ===== verification/Jitter_Proofs.thy ===== *)
theory Jitter_Proofs
  imports Jitter_Buffer
begin

text \<open>
  What the jitter buffer promises. Abstractly it is a window of sequence numbers with a partial
  map from them to decoded packets; putting a packet updates the map, whatever the order in
  which packets arrive and wherever the 16-bit numbers wrap, as long as the window fits the
  1024 slots. The second part is about the requests for missing packets.
\<close>

section \<open>Sequence numbers and slots\<close>

lemma BUFIDX_less [simp]: "BUFIDX s < BUFFER_FRAMES"
  by (simp add: BUFIDX_def BUFFER_FRAMES_def)

lemma BUFIDX_offset: "BUFIDX s = (unat r + unat (s - r)) mod 1024" for s r :: u16
proof -
  have "unat s = (unat (s - r) + unat r) mod 65536"
    using unat_word_ariths(1) [of "s - r" r] by simp
  then have "unat s mod 1024 = (unat (s - r) + unat r) mod 65536 mod 1024" by simp
  also have "\<dots> = (unat (s - r) + unat r) mod 1024"
    by (rule mod_mod_cancel) simp
  finally show ?thesis by (simp add: BUFIDX_def BUFFER_FRAMES_def add.commute)
qed

lemma BUFIDX_inj:
  assumes "unat (s - r) < 1024" "unat (t - r) < 1024" "s \<noteq> (t::u16)"
  shows "BUFIDX s \<noteq> BUFIDX t"
proof -
  have "s - r \<noteq> t - r" using assms(3) by simp
  then have "unat (s - r) \<noteq> unat (t - r)" by (simp add: word_unat_eq_iff)
  then show ?thesis
    using mod_add_neq [of "unat (s - r)" "unat (t - r)" 1024 "unat r"]
      mod_add_neq [of "unat (t - r)" "unat (s - r)" 1024 "unat r"] assms(1,2)
    by (metis BUFIDX_offset linorder_neqE_nat)
qed

lemma unat_minus_u16:
  "unat (a - b) = (if unat b \<le> unat a then unat a - unat b else 65536 + unat a - unat (b::u16))"
  by (auto simp: unat_sub_if' )

text \<open>With \<open>d\<close> the distance of a packet from the read end and \<open>n\<close> the size of the window.\<close>

lemma gap_cases:
  fixes s r w :: u16
  defines "d \<equiv> unat (s - r)" and "n \<equiv> unat (w - r)"
  assumes "n \<le> 1024"
  shows "w = s \<longleftrightarrow> d = n"
    and "d < 1024 \<or> 33792 \<le> d \<Longrightarrow> 0 < sint (s - w) \<longleftrightarrow> n < d \<and> d < 1024"
    and "n < d \<Longrightarrow> d < 1024 \<Longrightarrow> sint (s - w) = int (d - n)"
    and "d < 1024 \<Longrightarrow> 0 \<le> sint (s - r)"
    and "33792 \<le> d \<Longrightarrow> sint (s - r) < 0"
proof -
  have eq: "s - w = (s - r) - (w - r)" by simp
  show "w = s \<longleftrightarrow> d = n"
    unfolding d_def n_def by (metis diff_add_cancel word_unat_eq_iff)
  have d: "d < 65536" unfolding d_def by (rule unat_u16)
  have u: "unat (s - w) = (if n \<le> d then d - n else 65536 + d - n)"
    unfolding eq unat_minus_u16 [of "s - r"] d_def n_def ..
  show "d < 1024 \<or> 33792 \<le> d \<Longrightarrow> 0 < sint (s - w) \<longleftrightarrow> n < d \<and> d < 1024"
    "n < d \<Longrightarrow> d < 1024 \<Longrightarrow> sint (s - w) = int (d - n)"
    using assms(3) d unfolding sint_u16 u by auto
  show "d < 1024 \<Longrightarrow> 0 \<le> sint (s - r)" "33792 \<le> d \<Longrightarrow> sint (s - r) < 0"
    unfolding sint_u16 d_def [symmetric] using d by auto
qed

section \<open>The abstract buffer\<close>

text \<open>
  The packets a connection holds: the time stamp, its gap, and the decoded sound of every
  packet between the read and the write end that is ready.
\<close>

type_synonym packet = "u32 \<times> u32 \<times> u16 list option \<times> avframe option \<times> u32"

definition view :: "abuf \<Rightarrow> packet" where
  "view b = (timestamp b, timestamp_gap b, data b, avframe b, frame_count b)"

definition width :: "player_conn \<Rightarrow> nat" where
  "width conn = unat (ab_write conn - ab_read conn)"

definition in_window :: "player_conn \<Rightarrow> u16 \<Rightarrow> bool" where
  "in_window conn s \<longleftrightarrow> unat (s - ab_read conn) < width conn"

definition held :: "player_conn \<Rightarrow> u16 \<Rightarrow> packet option" where
  "held conn s = (if ab_synced conn \<and> in_window conn s \<and> ready (slot conn s)
                  then Some (view (slot conn s)) else None)"

definition jb_ok :: "player_conn \<Rightarrow> bool" where
  "jb_ok conn \<longleftrightarrow> length (audio_buffer conn) = BUFFER_FRAMES
     \<and> (ab_synced conn \<longrightarrow> width conn \<le> 1024
         \<and> (\<forall>s. in_window conn s \<longrightarrow> ready (slot conn s) \<longrightarrow> sequence_number (slot conn s) = s))"

text \<open>The packet fits the slots, or it is older than the read end (up to 31744 packets).\<close>

definition fits :: "player_conn \<Rightarrow> u16 \<Rightarrow> bool" where
  "fits conn s \<longleftrightarrow> ab_synced conn
     \<longrightarrow> unat (s - ab_read conn) < 1024 \<or> 33792 \<le> unat (s - ab_read conn)"

definition is_late :: "player_conn \<Rightarrow> u16 \<Rightarrow> bool" where
  "is_late conn s \<longleftrightarrow> ab_synced conn \<and> 1024 \<le> unat (s - ab_read conn)"

text \<open>What a packet decodes to, whatever the slot it is put in.\<close>

definition decoded ::
  "codec \<Rightarrow> player_config \<Rightarrow> player_conn \<Rightarrow> u32 \<Rightarrow> u32 \<Rightarrow> u8 list \<Rightarrow> bool \<Rightarrow> u32 \<Rightarrow> (u32 \<times> packet) option" where
  "decoded cd cfg conn s ts bs mute gap =
     map_option (\<lambda>(n, b). (n, view b)) (fill_slot cd cfg conn 0 s 0 ts bs mute gap blank)"

lemma ffmpeg_payload_view:
  assumes "data b = data b'" "frame_count b = frame_count b'"
  shows "map_option (\<lambda>(n, b). (n, data b, avframe b, frame_count b)) (ffmpeg_payload cd s bs mute b)
    = map_option (\<lambda>(n, b). (n, data b, avframe b, frame_count b)) (ffmpeg_payload cd s bs mute b')"
  using assms by (auto simp: ffmpeg_payload_def Let_def split: option.splits)

lemma decode_payload_view:
  assumes "data b = None" "avframe b = None" "frame_count b = 0"
    "data b' = None" "avframe b' = None" "frame_count b' = 0"
    "stream_encrypted conn' = stream_encrypted conn" "stream_type conn' = stream_type conn"
    "frames_per_packet conn' = frames_per_packet conn"
    "input_bytes_per_frame conn' = input_bytes_per_frame conn"
  shows "map_option (\<lambda>(n, b). (n, data b, avframe b, frame_count b)) (decode_payload cd cfg conn' s bs mute b)
    = map_option (\<lambda>(n, b). (n, data b, avframe b, frame_count b)) (decode_payload cd cfg conn s bs mute b')"
  using assms ffmpeg_payload_view [of b b' cd s]
  by (auto simp: decode_payload_def Let_def split: option.splits)

lemma freed [simp]:
  "data (snd (free_audio_buffer_payload b)) = None"
  "avframe (snd (free_audio_buffer_payload b)) = None"
  "ready (snd (free_audio_buffer_payload b)) = ready b"
  "sequence_number (snd (free_audio_buffer_payload b)) = sequence_number b"
  "timestamp (snd (free_audio_buffer_payload b)) = timestamp b"
  by (simp_all add: free_audio_buffer_payload_def)

lemma fill_slot_decoded:
  assumes "fill_slot cd cfg conn' now s seqno ts bs mute gap b = Some (n, b')"
    "stream_encrypted conn' = stream_encrypted conn" "stream_type conn' = stream_type conn"
    "frames_per_packet conn' = frames_per_packet conn"
    "input_bytes_per_frame conn' = input_bytes_per_frame conn"
  shows "decoded cd cfg conn s ts bs mute gap = Some (n, view b') \<and> ready b' \<and> sequence_number b' = seqno"
proof -
  let ?p = "\<lambda>b now. (snd (free_audio_buffer_payload b))
    \<lparr>initialisation_time := now, resend_time := 0, frame_count := 0\<rparr>"
  have *: "map_option (\<lambda>(n, b). (n, data b, avframe b, frame_count b))
      (decode_payload cd cfg conn' s bs mute (?p b now))
    = map_option (\<lambda>(n, b). (n, data b, avframe b, frame_count b))
      (decode_payload cd cfg conn s bs mute (?p blank 0))"
    by (rule decode_payload_view) (simp_all add: assms(2-5))
  from assms(1) obtain b1 where b1:
    "decode_payload cd cfg conn' s bs mute (?p b now) = Some (n, b1)"
    "b' = b1\<lparr>ready := True, status := 0, timestamp := ts, timestamp_gap := gap, sequence_number := seqno\<rparr>"
    by (auto simp: fill_slot_def Let_def)
  with * obtain b2 where b2: "decode_payload cd cfg conn s bs mute (?p blank 0) = Some (n, b2)"
    "data b2 = data b1" "avframe b2 = avframe b1" "frame_count b2 = frame_count b1"
    by (cases "decode_payload cd cfg conn s bs mute (?p blank 0)") auto
  then show ?thesis
    using b1(2) by (simp add: decoded_def fill_slot_def Let_def view_def)
qed

section \<open>Marking slots missing\<close>

lemma missing_slot_idem [simp]: "missing_slot now (missing_slot now b) = missing_slot now b"
  by (simp add: missing_slot_def)

lemma not_ready_missing_slot [simp]: "\<not> ready (missing_slot now b)"
  by (simp add: missing_slot_def)

lemma length_mark_missing [simp]: "length (mark_missing now w n bufs) = length bufs"
  by (induction n) (simp_all add: mark_missing_def)

lemma nth_mark_missing:
  "length bufs = BUFFER_FRAMES \<Longrightarrow> j < BUFFER_FRAMES \<Longrightarrow>
    mark_missing now w n bufs ! j =
      (if \<exists>i<n. j = BUFIDX (w + of_nat i) then missing_slot now (bufs ! j) else bufs ! j)"
proof (induction n)
  case 0
  then show ?case by (simp add: mark_missing_def)
next
  case (Suc n)
  have "mark_missing now w (Suc n) bufs = (mark_missing now w n bufs)
      [BUFIDX (w + of_nat n) := missing_slot now (mark_missing now w n bufs ! BUFIDX (w + of_nat n))]"
    by (simp add: mark_missing_def)
  with Suc show ?case
    by (auto simp: nth_list_update less_Suc_eq)
qed

section \<open>Storing a packet\<close>

definition positioned :: "u16 \<Rightarrow> player_conn \<Rightarrow> player_conn" where
  "positioned seqno conn =
     (if ab_synced conn then conn
      else conn\<lparr>ab_write := seqno, ab_read := seqno, ab_synced := True, first_packet_timestamp := 0\<rparr>)"

lemma positioned_simps [simp]:
  "ab_synced (positioned s conn)"
  "audio_buffer (positioned s conn) = audio_buffer conn"
  "stream_encrypted (positioned s conn) = stream_encrypted conn"
  "stream_type (positioned s conn) = stream_type conn"
  "frames_per_packet (positioned s conn) = frames_per_packet conn"
  "input_bytes_per_frame (positioned s conn) = input_bytes_per_frame conn"
  "input_rate (positioned s conn) = input_rate conn"
  by (simp_all add: positioned_def)

lemma jb_ok_positioned: "jb_ok conn \<Longrightarrow> jb_ok (positioned s conn)"
  by (auto simp: jb_ok_def positioned_def in_window_def width_def)

lemma held_positioned: "held (positioned s conn) = held conn"
  by (auto simp: held_def positioned_def in_window_def width_def)

text \<open>\<open>locate_slot\<close>, by the distance of the packet from the read end.\<close>

lemma locate_slot_cases:
  assumes ok: "jb_ok conn" and fits: "fits conn seqno"
    and loc: "locate_slot now seqno ts conn = (place, conn')"
  defines "p \<equiv> positioned seqno conn"
  defines "d \<equiv> unat (seqno - ab_read p)"
  shows "ab_synced conn' \<and> ab_read conn' = ab_read p
    \<and> place = (if is_late conn seqno then None else Some (BUFIDX seqno))
    \<and> ab_write conn' = (if width p \<le> d \<and> d < 1024 then seqno + 1 else ab_write p)
    \<and> audio_buffer conn' =
        (if width p < d \<and> d < 1024
         then mark_missing now (ab_write p) (d - width p) (audio_buffer conn) else audio_buffer conn)
    \<and> stream_encrypted conn' = stream_encrypted conn \<and> stream_type conn' = stream_type conn
    \<and> frames_per_packet conn' = frames_per_packet conn
    \<and> input_bytes_per_frame conn' = input_bytes_per_frame conn \<and> input_rate conn' = input_rate conn"
proof -
  have w: "width p \<le> 1024" and len: "length (audio_buffer p) = BUFFER_FRAMES"
    using jb_ok_positioned [OF ok, of seqno] by (simp_all add: jb_ok_def p_def)
  have dd: "d < 1024 \<or> 33792 \<le> d"
    using fits by (auto simp: fits_def d_def p_def positioned_def)
  have late: "is_late conn seqno \<longleftrightarrow> \<not> d < 1024"
    by (auto simp: is_late_def d_def p_def positioned_def)
  note g = gap_cases [of "ab_write p" "ab_read p" seqno, folded width_def, OF w, folded d_def]
  have "locate_slot now seqno ts conn = locate_slot now seqno ts p"
    by (cases "ab_synced conn") (simp_all add: locate_slot_def p_def positioned_def)
  with loc have loc_p: "locate_slot now seqno ts p = (place, conn')" by simp
  have p: "ab_synced p" "audio_buffer p = audio_buffer conn"
    "stream_encrypted p = stream_encrypted conn" "stream_type p = stream_type conn"
    "frames_per_packet p = frames_per_packet conn" "input_rate p = input_rate conn"
    "input_bytes_per_frame p = input_bytes_per_frame conn"
    by (simp_all add: p_def)
  consider (expected) "d = width p" "ab_write p = seqno"
    | (ahead) "ab_write p \<noteq> seqno" "width p < d" "d < 1024"
    | (late) "d < width p" "ab_write p \<noteq> seqno" | (too_late) "33792 \<le> d" "ab_write p \<noteq> seqno"
    using dd g(1) w by fastforce
  then show ?thesis
  proof cases
    case expected
    then have "d < 1024" using dd w by linarith
    with expected show ?thesis using loc_p p
      by (auto simp: locate_slot_def Let_def late split: if_splits)
  next
    case ahead
    then have "nat (sint (seqno - ab_write p)) = d - width p" "0 < sint (seqno - ab_write p)"
      using g(2,3) by simp_all
    with ahead show ?thesis using loc_p w p
      by (auto simp: locate_slot_def Let_def late)
  next
    case late: late
    then have "\<not> 0 < sint (seqno - ab_write p)" "0 \<le> sint (seqno - ab_read p)"
      using g w by simp_all
    with late show ?thesis using loc_p w p \<open>is_late conn seqno \<longleftrightarrow> \<not> d < 1024\<close>
      by (auto simp: locate_slot_def Let_def)
  next
    case too_late
    then have "\<not> 0 < sint (seqno - ab_write p)" "\<not> 0 \<le> sint (seqno - ab_read p)"
      using g w by simp_all
    with too_late show ?thesis using loc_p w p late
      by (auto simp: locate_slot_def Let_def)
  qed
qed

text \<open>The slots between the write end and a packet further on, and no others, become missing.\<close>

lemma mark_missing_window:
  assumes "length bufs = BUFFER_FRAMES" "unat (w - r) = n" "n \<le> d" "d < 1024" "unat (s - r) < 1024"
  shows "mark_missing now w (d - n) bufs ! BUFIDX s =
    (if n \<le> unat (s - r) \<and> unat (s - r) < d then missing_slot now (bufs ! BUFIDX s)
     else bufs ! BUFIDX s)"
proof -
  have u: "unat (w + of_nat i - r) = n + i" if "i < d - n" for i
  proof -
    have "w + of_nat i - r = (w - r) + of_nat i" by simp
    moreover have "unat (of_nat i :: u16) = i" using that assms(4) by (simp add: unat_of_nat)
    ultimately show ?thesis
      using that assms(2,4) by (simp only: unat_word_ariths) simp
  qed
  have "(\<exists>i<d - n. BUFIDX s = BUFIDX (w + of_nat i)) \<longleftrightarrow> n \<le> unat (s - r) \<and> unat (s - r) < d"
    (is "?L \<longleftrightarrow> ?R")
  proof
    assume ?L
    then obtain i where i: "i < d - n" "BUFIDX s = BUFIDX (w + of_nat i)" by blast
    with BUFIDX_inj [of s r "w + of_nat i"] u [OF i(1)] assms(4,5) have "s = w + of_nat i"
      by fastforce
    with u [OF i(1)] i(1) show ?R by simp
  next
    assume r: ?R
    define i where "i = unat (s - r) - n"
    from r have "i < d - n" by (auto simp: i_def intro: diff_less_mono)
    moreover from u [OF this] r have "unat (w + of_nat i - r) = unat (s - r)"
      by (simp add: i_def)
    then have "s = w + of_nat i" by (metis diff_add_cancel word_unat_eq_iff)
    ultimately show ?L by blast
  qed
  then show ?thesis by (simp add: nth_mark_missing [OF assms(1)])
qed

text \<open>
  Storing refines an update of the map; the invariant is kept, and a packet that is too late
  changes nothing that is held.
\<close>

lemma store_packet_refines:
  assumes ok: "jb_ok conn" and fits: "fits conn seqno"
    and put: "store_packet cd cfg now s seqno ts bs mute gap conn = Some (used, conn')"
  shows "jb_ok conn' \<and> ab_synced conn'
    \<and> ab_read conn' = (if ab_synced conn then ab_read conn else seqno)
    \<and> (if is_late conn seqno then used = 0 \<and> held conn' = held conn
       else (\<exists>v. decoded cd cfg conn s ts bs mute gap = Some (used, v)
                  \<and> held conn' = (held conn)(seqno \<mapsto> v)))
    \<and> input_rate conn' = input_rate conn"
proof -
  define p where "p = positioned seqno conn"
  define d where "d = unat (seqno - ab_read p)"
  have okp: "jb_ok p" and hp: "held p = held conn" and syn: "ab_synced p"
    using jb_ok_positioned [OF ok] by (simp_all add: p_def held_positioned)
  have w: "width p \<le> 1024" and len: "length (audio_buffer p) = BUFFER_FRAMES"
    using okp syn by (simp_all add: jb_ok_def)
  obtain place c1 where loc: "locate_slot now seqno ts conn = (place, c1)" by force
  note L = locate_slot_cases [OF ok fits loc, folded p_def, folded d_def]
  have rd: "ab_read p = (if ab_synced conn then ab_read conn else seqno)"
    by (simp add: p_def positioned_def)
  have buf: "audio_buffer p = audio_buffer conn" by (simp add: p_def)
  show ?thesis
  proof (cases "is_late conn seqno")
    case True
    then have "\<not> d < 1024"
      by (auto simp: is_late_def d_def p_def positioned_def)
    with L have "ab_write c1 = ab_write p" "audio_buffer c1 = audio_buffer p" "ab_read c1 = ab_read p"
      "ab_synced c1"
      by (simp_all add: buf)
    then have "held c1 = held p" "jb_ok c1"
      using okp syn by (auto simp: held_def jb_ok_def in_window_def width_def)
    with True put L loc hp rd show ?thesis by (auto simp: store_packet_def)
  next
    case False
    then have d: "d < 1024"
      using fits by (auto simp: is_late_def d_def p_def positioned_def)
    from put loc L False obtain b where
      b: "fill_slot cd cfg c1 now s seqno ts bs mute gap (audio_buffer c1 ! BUFIDX seqno) = Some (used, b)"
      and c': "conn' = c1\<lparr>audio_buffer := (audio_buffer c1)[BUFIDX seqno := b]\<rparr>"
      by (auto simp: store_packet_def)
    from fill_slot_decoded [OF b, of conn] L have
      dec: "decoded cd cfg conn s ts bs mute gap = Some (used, view b)"
      and rb: "ready b" "sequence_number b = seqno" by auto
    define n' where "n' = (if width p \<le> d then Suc d else width p)"
    have r': "ab_read conn' = ab_read p" and syn': "ab_synced conn'" using L c' by simp_all
    have w': "width conn' = n'"
    proof (cases "width p \<le> d")
      case True
      have "unat (seqno + 1 - ab_read p) = Suc d"
      proof -
        have "seqno + 1 - ab_read p = (seqno - ab_read p) + 1" by simp
        then show ?thesis using d by (simp only: unat_word_ariths d_def) simp
      qed
      with True L c' d show ?thesis by (simp add: width_def n'_def)
    next
      case False
      with L c' show ?thesis by (simp add: width_def n'_def)
    qed
    have len1: "length (audio_buffer c1) = BUFFER_FRAMES" using L len by (simp add: buf)
    have slot': "slot conn' q =
        (if q = seqno then b
         else if width p \<le> unat (q - ab_read p) \<and> unat (q - ab_read p) < d
         then missing_slot now (slot p q) else slot p q)"
      if q: "unat (q - ab_read p) < 1024" for q
    proof (cases "q = seqno")
      case True
      then show ?thesis by (simp add: c' len1)
    next
      case ne: False
      have "BUFIDX seqno \<noteq> BUFIDX q"
        using BUFIDX_inj [of seqno "ab_read p" q] d q ne by (auto simp: d_def)
      then have "slot conn' q = audio_buffer c1 ! BUFIDX q" by (simp add: c')
      also have "\<dots> = (if width p \<le> unat (q - ab_read p) \<and> unat (q - ab_read p) < d
         then missing_slot now (slot p q) else slot p q)"
      proof (cases "width p < d")
        case True
        with L d have "audio_buffer c1 = mark_missing now (ab_write p) (d - width p) (audio_buffer p)"
          by (simp add: buf)
        then show ?thesis
          using mark_missing_window [OF len _ less_imp_le [OF True] d q] by (simp add: width_def)
      next
        case False
        with L d have "audio_buffer c1 = audio_buffer p" by (simp add: buf)
        with False show ?thesis by auto
      qed
      finally show ?thesis using ne by simp
    qed
    have win: "in_window conn' q \<longleftrightarrow> unat (q - ab_read p) < n'" for q
      by (simp add: in_window_def r' w')
    have winp: "in_window p q \<longleftrightarrow> unat (q - ab_read p) < width p" for q
      by (simp add: in_window_def)
    have n': "n' \<le> 1024" using w d by (simp add: n'_def)
    have dist: "unat (q - ab_read p) \<noteq> d" if "q \<noteq> seqno" for q
      using that unfolding d_def by (metis diff_add_cancel word_unat_eq_iff)
    have "held conn' q = ((held p)(seqno \<mapsto> view b)) q" for q
    proof (cases "unat (q - ab_read p) < n'")
      case True
      then have "unat (q - ab_read p) < 1024" using n' by simp
      from slot' [OF this] True show ?thesis
        using rb(1) syn syn' dist [of q]
        by (auto simp: held_def win winp n'_def split: if_splits)
    next
      case False
      moreover have "d < n'" by (simp add: n'_def)
      ultimately have "q \<noteq> seqno" by (auto simp: d_def)
      with False show ?thesis by (auto simp: held_def win winp n'_def split: if_splits)
    qed
    then have h: "held conn' = (held conn)(seqno \<mapsto> view b)" using hp by auto
    have "sequence_number (slot conn' q) = q" if "in_window conn' q" "ready (slot conn' q)" for q
    proof -
      from that(1) have q: "unat (q - ab_read p) < n'" by (simp add: win)
      with slot' [of q] n' that(2) rb(2) okp syn dist [of q] show ?thesis
        by (auto simp: jb_ok_def winp n'_def split: if_splits)
    qed
    moreover have "length (audio_buffer conn') = BUFFER_FRAMES" by (simp add: c' len1)
    ultimately have "jb_ok conn'"
      using n' by (auto simp: jb_ok_def w')
    with h dec False syn' r' rd L c' show ?thesis by auto
  qed
qed

section \<open>The scan for missing packets\<close>

text \<open>The scan leaves every ready slot as it is, and makes no other slot ready.\<close>

definition same_ready :: "abuf list \<Rightarrow> abuf list \<Rightarrow> bool" where
  "same_ready xs ys \<longleftrightarrow> length ys = length xs
     \<and> (\<forall>j<length xs. ready (ys ! j) = ready (xs ! j) \<and> (ready (xs ! j) \<longrightarrow> ys ! j = xs ! j))"

lemma same_ready_refl [simp]: "same_ready xs xs"
  by (simp add: same_ready_def)

lemma same_ready_trans: "same_ready xs ys \<Longrightarrow> same_ready ys zs \<Longrightarrow> same_ready xs zs"
  by (simp add: same_ready_def)

lemma same_ready_update:
  "\<not> ready (xs ! i) \<Longrightarrow> \<not> ready b \<Longrightarrow> same_ready xs (xs[i := b])"
  unfolding same_ready_def by (metis length_list_update nth_list_update_eq nth_list_update_neq)

lemma ready_mark_status [simp]: "ready (mark_status t b) = ready b"
  by (simp add: mark_status_def)

lemma check_frame_same_ready: "same_ready (slots s) (slots (check_frame t w x s))"
  by (auto simp: check_frame_def Let_def intro!: same_ready_update)

lemma scan_frames_same_ready: "same_ready (slots s) (slots (scan_frames t w x s))"
proof (induction t w x s rule: scan_frames.induct)
  case (1 t w x s)
  then show ?case
    by (subst scan_frames.simps) (auto intro: same_ready_trans check_frame_same_ready)
qed

lemma resend_checks_held:
  assumes "resend_checks cfg now fpm conn = (reqs, fpm', conn')" "jb_ok conn"
  shows "held conn' = held conn \<and> jb_ok conn' \<and> ab_read conn' = ab_read conn
    \<and> ab_write conn' = ab_write conn \<and> ab_synced conn' = ab_synced conn"
proof -
  let ?s = "scan_frames (resend_times_of cfg conn now) (ab_write conn) (scan_start fpm conn)
                \<lparr>slots = audio_buffer conn, first_possibly_missing_frame = None,
                 start_of_missing_frame_run = None, missing_frame_run_count = 0,
                 number_of_missing_frames = 0, requests = []\<rparr>"
  have same: "same_ready (audio_buffer conn) (slots ?s)"
    using scan_frames_same_ready by (metis scan.select_convs(1))
  have c': "audio_buffer conn' = slots ?s" "ab_read conn' = ab_read conn"
    "ab_write conn' = ab_write conn" "ab_synced conn' = ab_synced conn"
    using assms(1) by (auto simp: resend_checks_def Let_def split: if_splits)
  have win: "in_window conn' q = in_window conn q" "width conn' = width conn" for q
    by (simp_all add: in_window_def width_def c')
  have "ready (slot conn' q) = ready (slot conn q)"
    "ready (slot conn q) \<Longrightarrow> slot conn' q = slot conn q" for q
    using same assms(2) by (simp_all add: same_ready_def jb_ok_def c')
  then show ?thesis
    using assms(2) same by (auto simp: held_def jb_ok_def win c' same_ready_def)
qed

section \<open>Putting a packet refines an update of the map\<close>

lemma begin_put_simps [simp]:
  "audio_buffer (begin_put now conn) = audio_buffer conn"
  "ab_read (begin_put now conn) = ab_read conn"
  "ab_write (begin_put now conn) = ab_write conn"
  "ab_synced (begin_put now conn) = ab_synced conn"
  "connection_state_to_output (begin_put now conn) = connection_state_to_output conn"
  "stream_encrypted (begin_put now conn) = stream_encrypted conn"
  "stream_type (begin_put now conn) = stream_type conn"
  "frames_per_packet (begin_put now conn) = frames_per_packet conn"
  "input_bytes_per_frame (begin_put now conn) = input_bytes_per_frame conn"
  by (simp_all add: begin_put_def)

lemma begin_put_view:
  "jb_ok (begin_put now conn) = jb_ok conn" "held (begin_put now conn) = held conn"
  "fits (begin_put now conn) = fits conn" "is_late (begin_put now conn) = is_late conn"
  "decoded cd cfg (begin_put now conn) = decoded cd cfg conn"
  by (auto simp: jb_ok_def held_def in_window_def width_def fits_def is_late_def decoded_def
      fill_slot_def decode_payload_def Let_def fun_eq_iff cong: option.case_cong)

lemma put_packet_held:
  assumes "jb_ok conn" and "fits conn seqno" and "connection_state_to_output conn"
    and "player_put_packet cd cfg now s seqno ts bs mute gap fpm conn = Some (used, reqs, fpm', conn')"
  shows "jb_ok conn' \<and> ab_synced conn'
    \<and> ab_read conn' = (if ab_synced conn then ab_read conn else seqno)
    \<and> (if is_late conn seqno then used = 0 \<and> held conn' = held conn
       else (\<exists>v. decoded cd cfg conn s ts bs mute gap = Some (used, v)
                  \<and> held conn' = (held conn)(seqno \<mapsto> v)))"
proof -
  from assms(3,4) obtain c1 where
    st: "store_packet cd cfg now s seqno ts bs mute gap (begin_put now conn) = Some (used, c1)"
    and re: "resend_checks cfg now fpm c1 = (reqs, fpm', conn')"
    by (auto simp: player_put_packet_def Let_def split: option.splits if_splits)
  note S = store_packet_refines [OF _ _ st, unfolded begin_put_view begin_put_simps, OF assms(1,2)]
  from S resend_checks_held [OF re] show ?thesis by auto
qed

text \<open>
  C1. The jitter buffer puts packets in order whatever order they arrive in: as long as the
  window fits the 1024 slots, putting a packet adds exactly its decoded sound under its
  sequence number and keeps every other packet, across the wrap of the numbers and whatever
  requests for missing packets are made; a packet from before the read end changes nothing.
\<close>

theorem put_packet_refines:
  assumes "jb_ok conn" and "fits conn seqno" and "connection_state_to_output conn"
    and "player_put_packet cd cfg now s seqno ts bs mute gap fpm conn = Some (used, reqs, fpm', conn')"
  shows "jb_ok conn' \<and> ab_synced conn'
    \<and> ab_read conn' = (if ab_synced conn then ab_read conn else seqno)
    \<and> (if is_late conn seqno then used = 0 \<and> held conn' = held conn
       else (\<exists>v. decoded cd cfg conn s ts bs mute gap = Some (used, v)
                  \<and> held conn' = (held conn)(seqno \<mapsto> v)))"
  by (rule put_packet_held [OF assms])

text \<open>A connection that plays uncompressed stereo at 44100 frames a second.\<close>

definition pcm_conn :: player_conn where
  "pcm_conn = new_conn\<lparr>input_rate := 44100, connection_state_to_output := True,
     frames_per_packet := 352, input_bytes_per_frame := 4, stream_type := ast_uncompressed\<rparr>"

definition pcm_codec :: codec where
  "pcm_codec = \<lparr>aes_decrypt_cbc = (\<lambda>bs. bs), alac_decoder = (\<lambda>bs. Some []),
     block_to_avframe = (\<lambda>s bs. None)\<rparr>"

definition pcm_config :: player_config where
  "pcm_config = \<lparr>decoder_in_use = decoder_hammerton, resend_control_first_check_time = 1/10,
     resend_control_check_interval_time = 1/4, resend_control_last_check_time = 1/10,
     audio_backend_buffer_desired_length = 1/5, disable_resend_requests = False\<rparr>"

lemma jb_ok_pcm_conn [simp]: "jb_ok pcm_conn"
  by (simp add: jb_ok_def pcm_conn_def new_conn_def init_buffer_def)

lemma pcm_conn_simps [simp]:
  "\<not> ab_synced pcm_conn" "connection_state_to_output pcm_conn" "input_rate pcm_conn = 44100"
  "frames_per_packet pcm_conn = 352" "input_bytes_per_frame pcm_conn = 4"
  "stream_type pcm_conn = ast_uncompressed" "\<not> stream_encrypted pcm_conn"
  by (simp_all add: pcm_conn_def new_conn_def)

lemma pcm_decoded:
  "decoded pcm_codec pcm_config pcm_conn ALAC_44100_S16_2 ts [0, 1, 0, 2] False 0
    = Some (352, ts, 0, Some [1, 2], None, 352)"
proof -
  have "nctohs [0, 1, 0, 2] 0 = 1" "nctohs [0, 1, 0, 2] 2 = 2"
    by (simp_all add: nctohs_def)
  then have "uncompressed_samples [0, 1, 0, 2] = [1, 2]"
    by (simp add: uncompressed_samples_def upt_rec)
  then show ?thesis
    by (simp add: decoded_def fill_slot_def decode_payload_def unencrypted_packet_decode_def
        decrypt_packet_def pcm_conn_def new_conn_def pcm_config_def Let_def view_def)
qed

theorem put_packet_refines_witness:
  "\<exists>reqs fpm' conn'. player_put_packet pcm_codec pcm_config 5 ALAC_44100_S16_2 65535 1000
       [0, 1, 0, 2] False 0 None pcm_conn = Some (352, reqs, fpm', conn')
     \<and> jb_ok conn' \<and> ab_read conn' = 65535
     \<and> held conn' = [65535 \<mapsto> (1000, 0, Some [1, 2], None, 352)]"
proof -
  let ?put = "player_put_packet pcm_codec pcm_config 5 ALAC_44100_S16_2 65535 1000
       [0, 1, 0, 2] False 0 None pcm_conn"
  have fits: "fits pcm_conn 65535" and out: "connection_state_to_output pcm_conn"
    and fresh: "held pcm_conn = (\<lambda>_. None)" "\<not> is_late pcm_conn 65535" "\<not> ab_synced pcm_conn"
    by (auto simp: fits_def is_late_def pcm_conn_def new_conn_def held_def)
  let ?store = "store_packet pcm_codec pcm_config 5 ALAC_44100_S16_2 65535 1000 [0, 1, 0, 2] False 0
      (begin_put 5 pcm_conn)"
  have "?store \<noteq> None"
    by (simp add: store_packet_def locate_slot_def fill_slot_def
        decode_payload_def unencrypted_packet_decode_def decrypt_packet_def Let_def begin_put_def
        pcm_conn_def new_conn_def pcm_config_def uncompressed_samples_def)
  then obtain used c1 where st: "?store = Some (used, c1)" by auto
  from store_packet_refines [OF _ _ st, unfolded begin_put_view begin_put_simps, OF jb_ok_pcm_conn fits]
  have "input_rate c1 = 44100" by (simp add: begin_put_def pcm_conn_def)
  with out st have "?put = Some (used, resend_checks pcm_config 5 None c1)"
    by (simp add: player_put_packet_def)
  then obtain used reqs fpm' conn' where put: "?put = Some (used, reqs, fpm', conn')"
    by (metis prod_cases3)
  from put_packet_refines [OF jb_ok_pcm_conn fits out put] show ?thesis
    using put fresh by (auto simp: pcm_decoded)
qed

end
