(* ===== verification/Jitter_Resend.thy ===== *)
theory Jitter_Resend
  imports Jitter_Proofs
begin

text \<open>
  Which packets the player asks for again, and the packets that break it: the runs of sequence
  numbers in the requests against the missing packets of the buffer, and the two ways in which
  a packet leads to undefined behaviour.
\<close>

section \<open>Runs\<close>

text \<open>The sequence numbers from \<open>x\<close> up to \<open>w\<close>, and those a list of requests asks for.\<close>

function seqs :: "u16 \<Rightarrow> u16 \<Rightarrow> u16 list" where
  "seqs x w = (if x = w then [] else x # seqs (x + 1) w)"
  by pat_completeness auto
termination
  by (relation "measure (\<lambda>(x, w). unat (w - x))") (auto simp: unat_distance_step)

declare seqs.simps [simp del]

definition run :: "u16 \<Rightarrow> nat \<Rightarrow> u16 list" where
  "run f n = map (\<lambda>i. f + of_nat i) [0..<n]"

definition asked :: "(u16 \<times> nat) list \<Rightarrow> u16 list" where
  "asked reqs = concat (map (\<lambda>(f, n). run f n) reqs)"

lemma run_Suc: "run f (Suc n) = run f n @ [f + of_nat n]"
  by (simp add: run_def)

lemma asked_append [simp]: "asked (xs @ [(f, n)]) = asked xs @ run f n"
  by (simp add: asked_def)

lemma seqs_offset: "s \<in> set (seqs x w) \<Longrightarrow> unat (s - x) < unat (w - x)"
proof (induction x w rule: seqs.induct)
  case (1 x w)
  show ?case
  proof (cases "x = w \<or> s = x")
    case True
    with 1 show ?thesis
      by (subst (asm) (2) seqs.simps) (auto simp: unat_gt_0 split: if_splits)
  next
    case False
    with 1 have "unat (s - (x + 1)) < unat (w - (x + 1))"
      by (subst (asm) (2) seqs.simps) (auto split: if_splits)
    moreover have "unat (s - x) \<le> Suc (unat (s - (x + 1)))"
      by (cases "s = x") (simp_all add: unat_succ_distance [of x s])
    ultimately show ?thesis
      using unat_succ_distance [of x w] False by linarith
  qed
qed

text \<open>The packets of a window that are missing.\<close>

definition missing_in :: "abuf list \<Rightarrow> u16 \<Rightarrow> u16 \<Rightarrow> u16 list" where
  "missing_in bufs x w = filter (\<lambda>s. \<not> ready (bufs ! BUFIDX s)) (seqs x w)"

text \<open>The run being built, which ends just before \<open>x\<close>.\<close>

definition pending_run :: "u16 \<Rightarrow> scan \<Rightarrow> u16 list" where
  "pending_run x s = (case start_of_missing_frame_run s of
     None \<Rightarrow> [] | Some f \<Rightarrow> run f (missing_frame_run_count s))"

definition run_ok :: "u16 \<Rightarrow> scan \<Rightarrow> bool" where
  "run_ok x s \<longleftrightarrow> (case start_of_missing_frame_run s of
       None \<Rightarrow> missing_frame_run_count s = 0
     | Some f \<Rightarrow> 0 < missing_frame_run_count s \<and> f + of_nat (missing_frame_run_count s) = x)"

lemma check_frame_step:
  assumes "run_ok x s" and "x \<noteq> w"
    and "\<not> ready (slots s ! BUFIDX x) \<Longrightarrow> eligible t (slots s ! BUFIDX x)"
  shows "run_ok (x + 1) (check_frame t w x s)"
    and "asked (requests (check_frame t w x s)) @ pending_run (x + 1) (check_frame t w x s)
      = asked (requests s) @ pending_run x s @ (if ready (slots s ! BUFIDX x) then [] else [x])"
    and "x + 1 = w \<Longrightarrow> start_of_missing_frame_run (check_frame t w x s) = None"
    and "\<forall>j. j \<noteq> BUFIDX x \<longrightarrow> slots (check_frame t w x s) ! j = slots s ! j"
proof -
  have el: "eligible t (mark_status t b) = eligible t b" for b
    by (simp add: eligible_def too_late_def too_early_def too_soon_after_last_request_def mark_status_def)
  show "run_ok (x + 1) (check_frame t w x s)"
    "asked (requests (check_frame t w x s)) @ pending_run (x + 1) (check_frame t w x s)
      = asked (requests s) @ pending_run x s @ (if ready (slots s ! BUFIDX x) then [] else [x])"
    "x + 1 = w \<Longrightarrow> start_of_missing_frame_run (check_frame t w x s) = None"
    using assms
    by (cases "ready (slots s ! BUFIDX x)"; cases "start_of_missing_frame_run s";
        simp add: check_frame_def Let_def run_ok_def pending_run_def el run_Suc;
        simp add: run_def algebra_simps)+
  show "\<forall>j. j \<noteq> BUFIDX x \<longrightarrow> slots (check_frame t w x s) ! j = slots s ! j"
    by (auto simp: check_frame_def Let_def)
qed

lemma scan_frames_exact:
  assumes "run_ok x s" and "unat (w - x) \<le> 1024"
    and "\<forall>q\<in>set (seqs x w). slots s ! BUFIDX q = bufs ! BUFIDX q"
    and "\<forall>q\<in>set (missing_in bufs x w). eligible t (bufs ! BUFIDX q)"
    and "x = w \<Longrightarrow> start_of_missing_frame_run s = None"
  shows "asked (requests (scan_frames t w x s)) = asked (requests s) @ pending_run x s @ missing_in bufs x w"
  using assms
proof (induction t w x s rule: scan_frames.induct)
  case (1 t w x s)
  show ?case
  proof (cases "x = w")
    case True
    with 1 show ?thesis
      by (simp add: scan_frames.simps [of t w w s] missing_in_def seqs.simps [of w w] pending_run_def)
  next
    case False
    have seqs: "seqs x w = x # seqs (x + 1) w" using False by (simp add: seqs.simps [of x w])
    have same: "slots s ! BUFIDX x = bufs ! BUFIDX x" using 1(4) by (simp add: seqs)
    have el: "\<not> ready (slots s ! BUFIDX x) \<Longrightarrow> eligible t (slots s ! BUFIDX x)"
      using 1(5) by (simp add: same missing_in_def seqs)
    note step = check_frame_step [OF 1(2) False, of t, OF el]
    let ?s = "check_frame t w x s"
    have "slots ?s ! BUFIDX q = bufs ! BUFIDX q" if q: "q \<in> set (seqs (x + 1) w)" for q
    proof -
      from seqs_offset [OF q] have "unat (q - (x + 1)) < unat (w - (x + 1))" .
      moreover have ne: "q \<noteq> x"
      proof
        assume "q = x"
        then have "q - (x + 1) = 65535" by simp
          then have "unat (q - (x + 1)) = 65535" by (simp only:) simp
        with \<open>unat (q - (x + 1)) < unat (w - (x + 1))\<close> unat_u16 [of "w - (x + 1)"] show False by simp
      qed
      moreover from seqs_offset [of q x w] q have "unat (q - x) < unat (w - x)" by (simp add: seqs)
      ultimately have "BUFIDX q \<noteq> BUFIDX x"
        using BUFIDX_inj [of q x x] 1(3) by simp
      then show ?thesis using step(4) 1(4) q by (simp add: seqs)
    qed
    then have "asked (requests (scan_frames t w (x + 1) ?s))
        = asked (requests ?s) @ pending_run (x + 1) ?s @ missing_in bufs (x + 1) w"
      using 1(1) [OF False step(1)] 1(3,5) step(3) unat_succ_distance [OF False]
      by (simp add: missing_in_def seqs)
    then show ?thesis
      using step(2) False same
      by (simp add: scan_frames.simps [of t w x s] missing_in_def seqs)
  qed
qed

text \<open>
  C7. When every missing packet from the start of the scan is due to be asked for, the requests
  the player makes name exactly the missing packets, each once and in order.
\<close>

theorem resend_requests_exact:
  assumes "jb_ok conn" and "ab_synced conn" and "scan_start fpm conn = ab_read conn"
    and "\<not> disable_resend_requests cfg"
    and "\<forall>q\<in>set (missing_in (audio_buffer conn) (ab_read conn) (ab_write conn)).
      eligible (resend_times_of cfg conn now) (slot conn q)"
  shows "asked (fst (resend_checks cfg now fpm conn))
    = missing_in (audio_buffer conn) (ab_read conn) (ab_write conn)"
proof -
  let ?s = "\<lparr>slots = audio_buffer conn, first_possibly_missing_frame = None,
                 start_of_missing_frame_run = None, missing_frame_run_count = 0,
                 number_of_missing_frames = 0, requests = []\<rparr>"
  have "asked (requests (scan_frames (resend_times_of cfg conn now) (ab_write conn) (ab_read conn) ?s))
    = asked (requests ?s) @ pending_run (ab_read conn) ?s
      @ missing_in (audio_buffer conn) (ab_read conn) (ab_write conn)"
    by (rule scan_frames_exact) (use assms in \<open>simp_all add: run_ok_def jb_ok_def width_def\<close>)
  then show ?thesis
    using assms(3,4) by (simp add: resend_checks_def Let_def asked_def pending_run_def)
qed

text \<open>
  A run is only a start and a count: a missing packet that is not yet due, in the middle of
  a run, is asked for in the place of the last packet of the run, which is not asked for
  although the time of a request is recorded for it.
\<close>

theorem resend_run_skips:
  assumes "length (slots s) = BUFFER_FRAMES"
    and "requests s = []" "start_of_missing_frame_run s = None" "missing_frame_run_count s = 0"
    and "\<forall>q\<in>set [a, a + 1, a + 2]. \<not> ready (slots s ! BUFIDX q)"
    and "eligible t (slots s ! BUFIDX a)" "\<not> eligible t (slots s ! BUFIDX (a + 1))"
    and "eligible t (slots s ! BUFIDX (a + 2))"
  shows "asked (requests (scan_frames t (a + 3) a s)) = [a, a + 1]
    \<and> resend_time (slots (scan_frames t (a + 3) a s) ! BUFIDX (a + 2)) = time_now t"
proof -
  have ne: "BUFIDX a \<noteq> BUFIDX (a + 1)" "BUFIDX a \<noteq> BUFIDX (a + 2)" "BUFIDX (a + 1) \<noteq> BUFIDX (a + 2)"
    using BUFIDX_inj [of a a "a + 1"] BUFIDX_inj [of a a "a + 2"] BUFIDX_inj [of "a + 1" a "a + 2"]
    by simp_all
  have len: "BUFIDX q < length (slots s)" for q using assms(1) by simp
  have el: "eligible t (mark_status t b) = eligible t b" for b
    by (simp add: eligible_def too_late_def too_early_def too_soon_after_last_request_def mark_status_def)
  have w: "a + 1 \<noteq> a + 3" "a + 2 \<noteq> a + 3" "a \<noteq> a + 3" by simp_all
  let ?s1 = "check_frame t (a + 3) a s"
  let ?s2 = "check_frame t (a + 3) (a + 1) ?s1"
  let ?s3 = "check_frame t (a + 3) (a + 2) ?s2"
  have s1: "requests ?s1 = []" "start_of_missing_frame_run ?s1 = Some a" "missing_frame_run_count ?s1 = 1"
    "slots ?s1 ! BUFIDX (a + 1) = slots s ! BUFIDX (a + 1)"
    "slots ?s1 ! BUFIDX (a + 2) = slots s ! BUFIDX (a + 2)" "length (slots ?s1) = BUFFER_FRAMES"
    using assms ne w by (simp_all add: check_frame_def Let_def el)
  have s2: "requests ?s2 = []" "start_of_missing_frame_run ?s2 = Some a" "missing_frame_run_count ?s2 = 1"
    "slots ?s2 ! BUFIDX (a + 2) = slots s ! BUFIDX (a + 2)" "length (slots ?s2) = BUFFER_FRAMES"
    using assms ne w s1 by (simp_all add: check_frame_def Let_def el add.assoc)
  have s3: "requests ?s3 = [(a, 2)]" "resend_time (slots ?s3 ! BUFIDX (a + 2)) = time_now t"
    using assms s2 by (simp_all add: check_frame_def Let_def el add.assoc)
  have "scan_frames t (a + 3) a s = ?s3"
    by (simp add: scan_frames.simps [of t "a + 3" a] scan_frames.simps [of t "a + 3" "a + 1"]
        scan_frames.simps [of t "a + 3" "a + 2"] scan_frames.simps [of t "a + 3" "a + 3"] add.assoc)
  with s3 show ?thesis by (simp add: asked_def run_def upt_rec numeral_2_eq_2)
qed

lemma wrap_u16: "(65536 :: u16) = 0" "(65537 :: u16) = 1" "(65538 :: u16) = 2"
  by simp_all

text \<open>A buffer whose packets were all noticed missing at the same time.\<close>

definition gap_buffer :: "abuf list" where
  "gap_buffer = replicate BUFFER_FRAMES (blank\<lparr>initialisation_time := 9500000000\<rparr>)"

lemma gap_buffer_nth [simp]: "gap_buffer ! BUFIDX q = blank\<lparr>initialisation_time := 9500000000\<rparr>"
  by (simp add: gap_buffer_def)

lemma length_gap_buffer [simp]: "length gap_buffer = BUFFER_FRAMES"
  by (simp add: gap_buffer_def)

definition gap_conn :: player_conn where
  "gap_conn = pcm_conn\<lparr>audio_buffer := gap_buffer, ab_read := 65535, ab_write := 1,
     ab_synced := True, latency := 88200\<rparr>"

definition gap_times :: resend_times where
  "gap_times = \<lparr>time_now = 10000000000, minimum_wait_time = 100000000,
     resend_repeat_interval = 250000000, minimum_remaining_time = 300000000, latency_time = 2000000000\<rparr>"

lemma gap_conn_times: "resend_times_of pcm_config gap_conn 10000000000 = gap_times"
  by (simp add: resend_times_of_def gap_conn_def pcm_conn_def pcm_config_def gap_times_def to_ns_def)

lemma gap_eligible: "eligible gap_times (blank\<lparr>initialisation_time := 9500000000\<rparr>)"
  by (simp add: eligible_def too_late_def too_early_def too_soon_after_last_request_def
      gap_times_def blank_def)

theorem resend_requests_exact_witness:
  "asked (fst (resend_checks pcm_config 10000000000 None gap_conn)) = [65535, 0]"
proof -
  have "missing_in gap_buffer 65535 1 = [65535, 0]"
    by (simp add: missing_in_def seqs.simps [of 65535] seqs.simps [of 0] seqs.simps [of 1] blank_def wrap_u16)
  moreover have "jb_ok gap_conn" "ab_synced gap_conn" "scan_start None gap_conn = ab_read gap_conn"
    by (auto simp: jb_ok_def gap_conn_def width_def scan_start_def blank_def)
  moreover have "audio_buffer gap_conn = gap_buffer" "ab_read gap_conn = 65535" "ab_write gap_conn = 1"
    "\<not> disable_resend_requests pcm_config"
    by (simp_all add: gap_conn_def pcm_config_def)
  ultimately show ?thesis
    using resend_requests_exact [of gap_conn None pcm_config 10000000000] gap_eligible
    by (simp add: gap_conn_times)
qed

theorem resend_run_skips_witness:
  "asked (requests (scan_frames gap_times 2 65535
     \<lparr>slots = gap_buffer[BUFIDX 0 := blank\<lparr>initialisation_time := 9500000000, resend_time := 9900000000\<rparr>],
      first_possibly_missing_frame = None, start_of_missing_frame_run = None,
      missing_frame_run_count = 0, number_of_missing_frames = 0, requests = []\<rparr>)) = [65535, 0]"
proof -
  let ?s = "\<lparr>slots = gap_buffer[BUFIDX 0 := blank\<lparr>initialisation_time := 9500000000, resend_time := 9900000000\<rparr>],
      first_possibly_missing_frame = None, start_of_missing_frame_run = None,
      missing_frame_run_count = 0, number_of_missing_frames = 0, requests = []\<rparr>"
  have ne: "BUFIDX 65535 \<noteq> BUFIDX 0" "BUFIDX 1 \<noteq> BUFIDX 0"
    by (simp_all add: BUFIDX_def BUFFER_FRAMES_def)
  have "\<not> eligible gap_times (blank\<lparr>initialisation_time := 9500000000, resend_time := 9900000000\<rparr>)"
    by (simp add: eligible_def too_soon_after_last_request_def gap_times_def)
  then have "asked (requests (scan_frames gap_times (65535 + 3) 65535 ?s)) = [65535, 65535 + 1]"
    using resend_run_skips [of ?s 65535 gap_times] ne gap_eligible
    by (simp add: wrap_u16 blank_def)
  then show ?thesis by (simp add: wrap_u16)
qed

section \<open>Packets that break the player\<close>

lemma positioned_not_late:
  "\<not> is_late conn seqno \<Longrightarrow> jb_ok conn \<Longrightarrow> fits conn seqno \<Longrightarrow>
    fst (locate_slot now seqno ts conn) = Some (BUFIDX seqno)"
  using locate_slot_cases [of conn seqno now ts] by (metis prod.collapse)

text \<open>
  Uncompressed samples are copied into an allocation of the size of a regular packet
  without a check: a longer packet that is not too late writes past the end of the allocation.
\<close>

theorem uncompressed_packet_overrun:
  assumes "jb_ok conn" and "fits conn seqno" and "\<not> is_late conn seqno"
    and "connection_state_to_output conn"
    and "stream_type conn = ast_uncompressed" and "\<not> stream_encrypted conn"
    and "decoder_in_use cfg \<in> {decoder_hammerton, decoder_apple_alac}"
    and "unat (frames_per_packet conn * input_bytes_per_frame conn) div 2 < length bs div 2"
  shows "player_put_packet cd cfg now ALAC_44100_S16_2 seqno ts bs mute gap fpm conn = None"
proof -
  let ?c = "begin_put now conn"
  obtain c1 where loc: "locate_slot now seqno ts ?c = (Some (BUFIDX seqno), c1)"
    using positioned_not_late [of ?c seqno now ts] assms(1-3)
    by (metis begin_put_view(1,3,4) prod.collapse)
  from locate_slot_cases [OF _ _ loc] assms(1,2)
  have "stream_encrypted c1 = stream_encrypted conn" "stream_type c1 = stream_type conn"
    "frames_per_packet c1 = frames_per_packet conn"
    "input_bytes_per_frame c1 = input_bytes_per_frame conn"
    by (simp_all add: begin_put_view)
  then have "store_packet cd cfg now ALAC_44100_S16_2 seqno ts bs mute gap ?c = None"
    using loc assms(5-8)
    by (auto simp: store_packet_def fill_slot_def decode_payload_def unencrypted_packet_decode_def
        decrypt_packet_def uncompressed_samples_def Let_def)
  with assms(4) show ?thesis by (simp add: player_put_packet_def Let_def)
qed

definition silence :: "nat \<Rightarrow> u8 list" where
  "silence n = replicate n 0"

theorem uncompressed_packet_overrun_witness:
  "player_put_packet pcm_codec pcm_config 5 ALAC_44100_S16_2 7 1000 (silence 1410) False 0 None
     pcm_conn = None"
  by (rule uncompressed_packet_overrun)
    (simp_all add: fits_def is_late_def pcm_config_def silence_def)

text \<open>
  A muted AirPlay 2 packet that FFmpeg cannot decode is dereferenced all the same: the player
  reads the length of a frame that does not exist.
\<close>

theorem undecodable_muted_packet:
  assumes "jb_ok conn" and "fits conn seqno" and "\<not> is_late conn seqno"
    and "connection_state_to_output conn"
    and "s \<noteq> ALAC_44100_S16_2" and "block_to_avframe cd s bs = None"
  shows "player_put_packet cd cfg now s seqno ts bs True gap fpm conn = None"
proof -
  let ?c = "begin_put now conn"
  obtain c1 where loc: "locate_slot now seqno ts ?c = (Some (BUFIDX seqno), c1)"
    using positioned_not_late [of ?c seqno now ts] assms(1-3)
    by (metis begin_put_view(1,3,4) prod.collapse)
  then have "store_packet cd cfg now s seqno ts bs True gap ?c = None"
    using assms(5,6)
    by (simp add: store_packet_def fill_slot_def decode_payload_def ffmpeg_payload_def Let_def)
  with assms(4) show ?thesis by (simp add: player_put_packet_def Let_def)
qed

theorem undecodable_muted_packet_witness:
  "player_put_packet pcm_codec pcm_config 5 AAC_44100_F24_2 7 1000 [1, 2, 3] True 0 None pcm_conn = None"
  by (rule undecodable_muted_packet)
    (simp_all add: fits_def is_late_def pcm_codec_def AAC_44100_F24_2_def ALAC_44100_S16_2_def)

end
