(* ===== verification/Frame_Release.thy ===== *)
theory Frame_Release
  imports Jitter_Proofs
begin

text \<open>
  How the player takes packets out of the jitter buffer (\<open>buffer_get_frame\<close> and the flush
  requests of \<open>player.c\<close>): the turns of its loop in the order of the code -- flush requests,
  packets that are out of date, the first packet and the lead-in silence, the decision to wait
  or release -- and the release itself. What a turn reads from outside (clocks, the output
  device, the requested state) is the record \<open>get_env\<close>; what it does to the output device
  is a list of effects. \<open>None\<close> is undefined behaviour of the C code or a loop without end.
\<close>

section \<open>What a turn reads and does\<close>

record get_env =
  have_clock :: clock_env
  skip_clock :: "nat \<Rightarrow> clock_env"  \<comment> \<open>the clock at each packet looked at\<close>
  check_clock :: clock_env
  first_clock :: clock_env
  readjust_clock :: clock_env
  release_have_clock :: clock_env
  release_clock :: clock_env
  requested_state :: bool
  backend_not_running :: bool
  time_to_aim_for :: u64
  lead_now :: u64
  gap_now :: u64
  release_now :: u64
  sanity_now :: u64
  has_delay :: bool
  prime_delay :: "int \<times> int"  \<comment> \<open>result and frames of the first call of \<open>delay\<close>\<close>
  release_delay :: "int \<times> int"
  output_rate :: u32
  output_channels :: u32  \<comment> \<open>0: the device gives no configuration\<close>

record release_config =
  desired_buffer_length :: real  \<comment> \<open>\<open>audio_backend_buffer_desired_length\<close>\<close>
  silent_lead_in_time_auto :: bool
  silent_lead_in_time :: real

datatype effect = Flush_Output | Play_Silence int

text \<open>The variables of \<open>buffer_get_frame\<close> that live across its turns.\<close>

record get_state =
  pconn :: player_conn
  curframe :: "nat option"
  primed :: bool  \<comment> \<open>\<open>output_device_has_been_primed\<close>\<close>
  effects :: "effect list"

section \<open>Flush requests\<close>

definition do_flush :: "u32 \<Rightarrow> player_conn \<Rightarrow> player_conn" where
  "do_flush ts c = reset_input_flow_metrics (c\<lparr>flush_requested := True, flush_rtp_timestamp := ts\<rparr>)"

definition note_output_state :: "get_env \<Rightarrow> player_conn \<Rightarrow> player_conn" where
  "note_output_state e c =
     (let c = (if connection_state_to_output c \<noteq> requested_state e
               then (let c = c\<lparr>connection_state_to_output := requested_state e\<rparr>
                     in if requested_state e then c
                        else c\<lparr>flush_requested := True, flush_rtp_timestamp := 0\<rparr>)
               else c)
      in if backend_not_running e then c\<lparr>flush_requested := True, flush_rtp_timestamp := 0\<rparr> else c)"

definition flush_output :: "player_conn \<Rightarrow> effect list \<times> player_conn" where
  "flush_output c =
     (if flush_requested c
      then (if flush_output_flushed c then [] else [Flush_Output], c\<lparr>flush_output_flushed := True\<rparr>)
      else ([], c))"

text \<open>
  Drop the packets that end before the flush frame. After 1024 turns the slots repeat, so a
  loop that has not ended by then never does.
\<close>

definition last_frame_of :: "abuf \<Rightarrow> u32" where
  "last_frame_of b = timestamp b + frame_count b - 1"

fun skip_packets :: "nat \<Rightarrow> player_conn \<Rightarrow> player_conn option" where
  "skip_packets 0 c = None"
| "skip_packets (Suc n) c =
     (if 0 < sint (flush_rtp_timestamp c - last_frame_of (slot c (ab_read c)))
      then skip_packets n (c\<lparr>ab_read := ab_read c + 1\<rparr>)
      else Some c)"

text \<open>
  Remove the frames before the flush frame from the packet that holds it: a \<open>memmove\<close> within
  its samples, 16 bits each.
\<close>

definition trim_packet :: "player_conn \<Rightarrow> player_conn option" where
  "trim_packet c =
     (let b = slot c (ab_read c);
          frames_to_remove = flush_rtp_timestamp c - timestamp b;
          remaining = frame_count b - frames_to_remove;
          per_frame = unat (input_bytes_per_frame c)
      in if sint frames_to_remove \<le> 0 then Some c
         else (case data b of
             None \<Rightarrow> None
           | Some out \<Rightarrow>
               (let from = per_frame * unat frames_to_remove div 2;
                    len = unat remaining * per_frame div 2
                in if length out < from + len then None
                   else Some (c\<lparr>audio_buffer := (audio_buffer c)[BUFIDX (ab_read c) :=
                     b\<lparr>data := Some (mem_write 0 (mem_read from len out) out),
                       timestamp := flush_rtp_timestamp c, frame_count := remaining\<rparr>]\<rparr>))))"

text \<open>
  Whether a flush is needed and whether the request is done with. The buffer counts as empty
  when the difference of the two 16-bit ends, as an \<open>int\<close>, is not positive.
\<close>

definition buffer_not_empty :: "player_conn \<Rightarrow> bool" where
  "buffer_not_empty c \<longleftrightarrow> ab_synced c \<and> 0 < uint (ab_write c) - uint (ab_read c)"

definition flush_decision :: "player_conn \<Rightarrow> (bool \<times> bool \<times> player_conn) option" where
  "flush_decision c =
     (let ts = flush_rtp_timestamp c; first = slot c (ab_read c); last = slot c (ab_write c - 1) in
      if \<not> flush_requested c then Some (False, False, c)
      else if ts = 0 then Some (True, True, c)
      else if \<not> buffer_not_empty c then Some (False, False, c\<lparr>flush_requested := False\<rparr>)
      else if \<not> ready first \<or> \<not> ready last then Some (False, False, c)
      else if sint (ts - timestamp first) \<le> 0 then Some (False, True, c)
      else if 0 \<le> sint (last_frame_of last - ts) then
        map_option (\<lambda>c. (False, True, c)) (Option.bind (skip_packets BUFFER_FRAMES c) trim_packet)
      else Some (True, ts = last_frame_of last + 1, c))"

definition handle_flush :: "get_env \<Rightarrow> get_state \<Rightarrow> get_state option" where
  "handle_flush e g =
     (let (fx, c) = flush_output (note_output_state e (pconn g)) in
      case flush_decision c of
        None \<Rightarrow> None
      | Some (flush_needed, drop_request, c) \<Rightarrow>
          (let c = (if flush_needed
                    then (ab_resync c)\<lparr>first_packet_timestamp := 0, first_packet_time_to_play := 0,
                                        time_since_play_started := 0\<rparr>
                    else c);
               c = (if drop_request
                    then c\<lparr>flush_requested := False, flush_rtp_timestamp := 0,
                           flush_output_flushed := False\<rparr>
                    else c)
           in Some (g\<lparr>pconn := c, effects := effects g @ fx,
                      primed := (if flush_needed then False else primed g)\<rparr>)))"

section \<open>Packets that are out of date\<close>

text \<open>
  Drop packets that are missing or whose time has passed. \<open>i\<close> counts the readings of the clock;
  a clock that gives no frame leaves \<open>should_be_frame\<close> undefined.
\<close>

lemma uint_succ_distance:
  assumes "uint (r::u16) < uint (w::u16)"
  shows "uint (r + 1) = uint r + 1"
proof -
  have "uint (r + 1) = (uint r + 1) mod 65536" by (simp add: uint_word_ariths)
  with assms uint_u16 [of w] uint_ge_0 [of r] show ?thesis by (simp add: mod_pos_pos_trivial)
qed

lemma more_player:
  assumes "clock_conn.more c' = clock_conn.more (c :: player_conn)"
  shows "audio_buffer c' = audio_buffer c" "ab_read c' = ab_read c" "ab_write c' = ab_write c"
    "ab_synced c' = ab_synced c" "ab_buffering c' = ab_buffering c"
    "first_packet_timestamp c' = first_packet_timestamp c"
    "flush_requested c' = flush_requested c"
    "connection_state_to_output c' = connection_state_to_output c"
    "last_seqno_read c' = last_seqno_read c"
  using assms by (cases c; cases c'; simp)+

lemma clock_player [simp]:
  "audio_buffer (snd (local_time_to_frame e t c)) = audio_buffer c"
  "ab_read (snd (local_time_to_frame e t c)) = ab_read c"
  "ab_write (snd (local_time_to_frame e t c)) = ab_write c"
  "ab_synced (snd (local_time_to_frame e t c)) = ab_synced c"
  "audio_buffer (snd (frame_to_local_time e ts c)) = audio_buffer c"
  "ab_read (snd (frame_to_local_time e ts c)) = ab_read c"
  "ab_write (snd (frame_to_local_time e ts c)) = ab_write c"
  "ab_synced (snd (frame_to_local_time e ts c)) = ab_synced c"
  "ab_buffering (snd (frame_to_local_time e ts c)) = ab_buffering c"
  "first_packet_timestamp (snd (frame_to_local_time e ts c)) = first_packet_timestamp c"
  for c :: player_conn
  by (simp_all only: more_player [OF clock_more(1)] more_player [OF clock_more(2)])

function skip_out_of_date :: "get_env \<Rightarrow> nat \<Rightarrow> player_conn \<Rightarrow> player_conn option" where
  "skip_out_of_date e i c =
     (if \<not> buffer_not_empty c then Some c
      else (let b = slot c (ab_read c) in
        if ready b then
          (case local_time_to_frame (skip_clock e i) (time_to_aim_for e) c of
             (Converted should_be_frame, c') \<Rightarrow>
               if sint (timestamp b - should_be_frame) < 0
               then skip_out_of_date e (Suc i)
                 (c'\<lparr>audio_buffer := (audio_buffer c')
                        [BUFIDX (ab_read c') := snd (free_audio_buffer_payload b)],
                     last_seqno_read := ab_read c', ab_read := ab_read c' + 1\<rparr>)
               else Some c'
           | _ \<Rightarrow> None)
        else skip_out_of_date e i
          (c\<lparr>ab_read := ab_read c + 1, last_seqno_read := last_seqno_read c + 1\<rparr>)))"
  by pat_completeness auto
termination
proof (relation "measure (\<lambda>(e, i, c). nat (uint (ab_write c) - uint (ab_read c)))", goal_cases)
  case 1
  show ?case by simp
next
  case (2 e i c b r c' f)
  then have "c' = snd (local_time_to_frame (skip_clock e i) (time_to_aim_for e) c)" by (metis snd_conv)
  with 2(1) show ?case by (simp add: buffer_not_empty_def uint_succ_distance [of "ab_read c" "ab_write c"])
next
  case (3 e i c b)
  from 3(1) show ?case by (simp add: buffer_not_empty_def uint_succ_distance [of "ab_read c" "ab_write c"])
qed

declare skip_out_of_date.simps [simp del]

section \<open>The packet at the read end\<close>

text \<open>A local time that the code uses: a failed conversion leaves the variable undefined.\<close>

definition local_time :: "clock_env \<Rightarrow> u32 \<Rightarrow> player_conn \<Rightarrow> (u64 \<times> player_conn) option" where
  "local_time e ts c =
     (case frame_to_local_time e ts c of (Converted t, c) \<Rightarrow> Some (t, c) | _ \<Rightarrow> None)"

text \<open>
  Take the packet at the read end, start afresh if a resynchronisation is requested, and follow
  a slot whose packet has a sequence number one or more rounds of the buffer away.
\<close>

definition pick_frame :: "get_env \<Rightarrow> bool \<Rightarrow> get_state \<Rightarrow> get_state option" where
  "pick_frame e resync g =
     (let c = pconn g; i = BUFIDX (ab_read c); b = slot c (ab_read c);
          c = (if resync then c\<lparr>ab_buffering := True, first_packet_timestamp := 0,
                                first_packet_time_to_play := 0\<rparr> else c);
          g = g\<lparr>curframe := Some i, primed := (if resync then True else primed g)\<rparr>
      in case frame_to_local_time (check_clock e) (timestamp b) c of
           (Division_By_Zero, _) \<Rightarrow> None
         | (_, c) \<Rightarrow>
             Some (g\<lparr>pconn :=
               (if ab_read c \<noteq> ab_write c \<and> ready b \<and> sequence_number b \<noteq> ab_read c
                   \<and> BUFIDX (sequence_number b) = BUFIDX (ab_read c)
                then c\<lparr>ab_read := sequence_number b\<rparr> else c)\<rparr>))"

section \<open>The first packet and the lead-in silence\<close>

text \<open>
  What \<open>setup_software_resampler\<close> sets of the connection: the rate and the packet length of
  the stream, and the size of a frame on the way to the output.
\<close>

definition setup_stream :: "get_env \<Rightarrow> u32 \<Rightarrow> player_conn \<Rightarrow> player_conn" where
  "setup_stream e s c =
     c\<lparr>input_rate := (if s = ALAC_44100_S16_2 \<or> s = AAC_44100_F24_2 then 44100 else 48000),
       frames_per_packet := (if s = ALAC_44100_S16_2 \<or> s = ALAC_48000_S24_2 then 352 else 1024),
       input_bytes_per_frame :=
         (if output_channels e = 0 then 4
          else if s = ALAC_44100_S16_2 then 2 * output_channels e else 4 * output_channels e)\<rparr>"

definition note_first_packet :: "get_env \<Rightarrow> abuf \<Rightarrow> player_conn \<Rightarrow> player_conn option" where
  "note_first_packet e b c =
     (if first_packet_timestamp c \<noteq> 0 then Some c
      else map_option (\<lambda>(t, c). c\<lparr>first_packet_time_to_play := t\<rparr>)
        (local_time (first_clock e) (timestamp b)
          (setup_stream e (ssrc b) (c\<lparr>first_packet_timestamp := timestamp b\<rparr>))))"

text \<open>
  With an output device that reports its delay: send silence, a tenth of a second at a time,
  until the first packet is less than that away. The gap is computed in unsigned 64-bit
  arithmetic.
\<close>

definition gross_frame_gap :: "u64 \<Rightarrow> u64 \<Rightarrow> u32 \<Rightarrow> int" where
  "gross_frame_gap first now rate = uint ((first - now) * ucast rate) div 1000000000"

definition prime_with_delay :: "release_config \<Rightarrow> get_env \<Rightarrow> get_state \<Rightarrow> get_state option" where
  "prime_with_delay cfg e g =
     map_option (\<lambda>(t, c).
       (let c = c\<lparr>first_packet_time_to_play := t\<rparr>;
            lead_time = sint (t - lead_now e);
            (resp, dac_delay) = (if primed g then prime_delay e else (0, 0))
        in if lead_time < 0 then g\<lparr>pconn := c\<lparr>ab_buffering := False\<rparr>\<rparr>
           else if \<not> (silent_lead_in_time_auto cfg
                       \<or> lead_time \<le> \<lfloor>silent_lead_in_time cfg * 1000000000\<rfloor>)
              \<or> resp \<noteq> 0 then g\<lparr>pconn := c\<rparr>
           else
             (let exact_frame_gap = gross_frame_gap t (gap_now e) (output_rate e) - dac_delay;
                  fs = uint (output_rate e * 100) div 1000;
                  (fs, c) = (if exact_frame_gap < fs then (exact_frame_gap, c\<lparr>ab_buffering := False\<rparr>)
                             else (fs, c))
              in if 0 < fs
                 then g\<lparr>pconn := c, effects := effects g @ [Play_Silence fs], primed := True\<rparr>
                 else g\<lparr>pconn := c\<rparr>)))
       (local_time (readjust_clock e) (first_packet_timestamp (pconn g)) (pconn g))"

text \<open>Without one: send the whole lead-in. With a rate below ten the loop has no end.\<close>

function silence_chunks :: "int \<Rightarrow> int \<Rightarrow> int list option" where
  "silence_chunks chunk gap =
     (if gap \<le> 0 then Some []
      else if chunk \<le> 0 then None
      else map_option ((#) (min chunk gap)) (silence_chunks chunk (gap - min chunk gap)))"
  by pat_completeness auto
termination
  by (relation "measure (\<lambda>(chunk, gap). nat gap)") auto

declare silence_chunks.simps [simp del]

definition prime_without_delay :: "get_env \<Rightarrow> get_state \<Rightarrow> get_state option" where
  "prime_without_delay e g =
     (let c = pconn g;
          frame_gap = (sint (first_packet_time_to_play c - gap_now e) * uint (output_rate e)) sdiv 1000000000
      in map_option (\<lambda>fss. g\<lparr>pconn := c\<lparr>ab_buffering := False\<rparr>,
                              effects := effects g @ map Play_Silence fss\<rparr>)
           (silence_chunks (uint (output_rate e) div 10) frame_gap))"

definition lead_in :: "release_config \<Rightarrow> get_env \<Rightarrow> get_state \<Rightarrow> get_state option" where
  "lead_in cfg e g =
     (let c = pconn g in
      case curframe g of
        None \<Rightarrow> Some g
      | Some i \<Rightarrow>
          (let b = audio_buffer c ! i in
           if \<not> (ready b \<and> ab_buffering c) then Some g
           else
             (case note_first_packet e b c of
                None \<Rightarrow> None
              | Some c \<Rightarrow>
                  (let g = g\<lparr>pconn := c\<rparr> in
                   if first_packet_time_to_play c = 0 then Some g
                   else if has_delay e then prime_with_delay cfg e g
                   else prime_without_delay e g))))"

definition examine_head ::
  "release_config \<Rightarrow> bool \<Rightarrow> get_env \<Rightarrow> get_state \<Rightarrow> get_state option" where
  "examine_head cfg resync e g =
     (if ab_synced (pconn g) \<and> 0 < sint (ab_write (pconn g) - ab_read (pconn g))
      then Option.bind (pick_frame e resync g) (lead_in cfg e)
      else Some g)"

section \<open>Waiting and releasing\<close>

text \<open>
  A packet is released when its time has come, for the first one or without a working delay
  function, and otherwise when the device's buffer is below the desired length; a packet whose
  time is more than ten seconds away is let go.
\<close>

definition hold_packet ::
  "release_config \<Rightarrow> get_env \<Rightarrow> abuf \<Rightarrow> player_conn \<Rightarrow> (bool \<times> player_conn) option" where
  "hold_packet cfg e b c =
     (let (have, c) = have_timestamp_timing_information (release_have_clock e) c in
      if \<not> have then Some (True, c)
      else
        (let desired = word_of_int \<lfloor>desired_buffer_length cfg * real_of_int (uint (input_rate c))\<rfloor> :: u32;
             (resp, delay) = (if has_delay e then release_delay e else (-1, 0));
             buffered = (if resp = 0 \<and> 0 \<le> delay then delay else 0);
             is_first = (first_packet_timestamp c = timestamp b)
         in map_option (\<lambda>(time_to_play, c).
              (let do_wait = \<not> ((is_first \<or> resp \<noteq> 0) \<and> time_to_play \<le> release_now e
                               \<or> \<not> is_first \<and> resp = 0 \<and> buffered < uint desired);
                   off = sint (sanity_now e - time_to_play)
               in (do_wait \<and> \<not> (off > 10000000000 \<or> off < - 10000000000), c)))
              (local_time (release_clock e) (timestamp b - desired) c)))"

definition decide_wait :: "release_config \<Rightarrow> get_env \<Rightarrow> get_state \<Rightarrow> (bool \<times> get_state) option" where
  "decide_wait cfg e g =
     (let c = pconn g;
          held = (case curframe g of
              None \<Rightarrow> Some (False, c)
            | Some i \<Rightarrow>
                (let b = audio_buffer c ! i in
                 if ab_synced c \<and> ready b \<and> timestamp b \<noteq> 0 then hold_packet cfg e b c
                 else Some (False, c)))
      in map_option (\<lambda>(do_wait, c).
           (ab_buffering c \<or> do_wait \<or> ab_synced c \<and> ab_read c = ab_write c \<or> \<not> ab_synced c,
            g\<lparr>pconn := c\<rparr>)) held)"

text \<open>One turn of the loop: whether to wait for the next one, and the state.\<close>

definition get_turn ::
  "release_config \<Rightarrow> bool \<Rightarrow> get_env \<Rightarrow> get_state \<Rightarrow> (bool \<times> get_state) option" where
  "get_turn cfg resync e g =
     (let (have, c) = have_timestamp_timing_information (have_clock e) (pconn g); g = g\<lparr>pconn := c\<rparr> in
      if \<not> (have \<and> input_format_is_valid c) then Some (True, g)
      else
        Option.bind (handle_flush e g) (\<lambda>g.
        Option.bind (skip_out_of_date e 0 (pconn g)) (\<lambda>c.
        Option.bind (examine_head cfg resync e (g\<lparr>pconn := c\<rparr>)) (decide_wait cfg e))))"

text \<open>
  The release: a packet that is not ready is counted as missing and marked to be played as
  silence; the slot is given up and the read end moves on.
\<close>

definition release_frame :: "get_state \<Rightarrow> abuf option \<times> get_state" where
  "release_frame g =
     (let c = pconn g in
      case curframe g of
        None \<Rightarrow> (None, g\<lparr>pconn := c\<lparr>ab_read := ab_read c + 1\<rparr>\<rparr>)
      | Some i \<Rightarrow>
          (let b = audio_buffer c ! i;
               c = (if ready b then c else c\<lparr>missing_packets := missing_packets c + 1\<rparr>);
               b = (if ready b then b else b\<lparr>timestamp := 0\<rparr>)\<lparr>ready := False\<rparr>
           in (Some b, g\<lparr>pconn := c\<lparr>audio_buffer := (audio_buffer c)[i := b], ab_read := ab_read c + 1\<rparr>\<rparr>)))"

definition check_sequence :: "abuf option \<Rightarrow> player_conn \<Rightarrow> player_conn" where
  "check_sequence b c =
     (case b of
        None \<Rightarrow> c
      | Some b \<Rightarrow> c\<lparr>last_seqno_valid := True, last_seqno_read := sequence_number b\<rparr>)"

text \<open>The whole call, for the turns it takes; with no turn left it still waits.\<close>

datatype got = Waiting | Undefined | Got "abuf option" player_conn "effect list"

fun get_turns :: "release_config \<Rightarrow> bool \<Rightarrow> get_env list \<Rightarrow> get_state \<Rightarrow> got" where
  "get_turns cfg resync [] g = Waiting"
| "get_turns cfg resync (e # es) g =
     (case get_turn cfg resync e g of
        None \<Rightarrow> Undefined
      | Some (wait, g) \<Rightarrow>
          if wait then get_turns cfg resync es g
          else (case release_frame g of (b, g) \<Rightarrow> Got b (check_sequence b (pconn g)) (effects g)))"

definition buffer_get_frame :: "release_config \<Rightarrow> bool \<Rightarrow> get_env list \<Rightarrow> player_conn \<Rightarrow> got" where
  "buffer_get_frame cfg resync es c =
     get_turns cfg resync es \<lparr>pconn = c, curframe = None, primed = False, effects = []\<rparr>"

section \<open>What a turn keeps\<close>

text \<open>
  Near the wrap of the 16-bit sequence numbers a flush request is lost: while the write end
  has wrapped and the read end has not, a buffer that is full of packets counts as empty, so
  the request is removed and no packet is flushed.
\<close>

theorem flush_lost_at_wrap:
  assumes "ab_synced c" and "0 < width c" and "uint (ab_write c) < uint (ab_read c)"
    and "ts \<noteq> 0"
  shows "flush_decision (do_flush ts c) = Some (False, False, (do_flush ts c)\<lparr>flush_requested := False\<rparr>)
    \<and> held ((do_flush ts c)\<lparr>flush_requested := False\<rparr>) = held c"
  using assms
  by (auto simp: flush_decision_def do_flush_def reset_input_flow_metrics_def buffer_not_empty_def
      held_def in_window_def width_def)

text \<open>
  When that happens the note that the output device has been flushed stays set, so the next
  request, however much later, does not flush the output device.
\<close>

theorem flushed_note_sticks:
  assumes "\<not> ab_synced c" and "ts \<noteq> 0"
    and "flush_output (do_flush ts c) = (fx, c1)"
    and "flush_decision c1 = Some (needed, dropped, c2)"
  shows "\<not> flush_requested c2 \<and> \<not> dropped \<and> fst (flush_output (do_flush ts' c2)) = []"
proof -
  have "flush_requested c1" "flush_output_flushed c1" "flush_rtp_timestamp c1 = ts" "\<not> ab_synced c1"
    using assms(1,3) by (auto simp: flush_output_def do_flush_def reset_input_flow_metrics_def)
  with assms(2,4) show ?thesis
    by (auto simp: flush_decision_def buffer_not_empty_def flush_output_def do_flush_def
        reset_input_flow_metrics_def)
qed

text \<open>The late packets are dropped, and only they, as long as the write end has not wrapped.\<close>

lemma local_ntp_time_to_frame_player [simp]:
  "local_ntp_time_to_frame n t (c\<lparr>audio_buffer := x\<rparr>) = local_ntp_time_to_frame n t c"
  "local_ntp_time_to_frame n t (c\<lparr>ab_read := r\<rparr>) = local_ntp_time_to_frame n t c"
  "local_ntp_time_to_frame n t (c\<lparr>last_seqno_read := q\<rparr>) = local_ntp_time_to_frame n t c"
  for c :: player_conn
  by (simp_all add: local_ntp_time_to_frame_def local_to_remote_time_difference_now_def Let_def)

text \<open>Giving up the packet at the read end.\<close>

definition advanced :: "player_conn \<Rightarrow> player_conn \<Rightarrow> bool" where
  "advanced c c' \<longleftrightarrow> ab_read c' = ab_read c + 1 \<and> ab_write c' = ab_write c \<and> ab_synced c' = ab_synced c
     \<and> length (audio_buffer c') = length (audio_buffer c)
     \<and> (\<forall>s. unat (s - ab_read c) < 1024 \<longrightarrow> s \<noteq> ab_read c \<longrightarrow> slot c' s = slot c s)"

lemma advanced_window:
  assumes adv: "advanced c c'" and ok: "jb_ok c" and syn: "ab_synced c" and w: "0 < width c"
  shows "jb_ok c'" "held c' = (held c)(ab_read c := None)" "width c = Suc (width c')"
proof -
  have rw: "ab_read c \<noteq> ab_write c" using w by (auto simp: width_def)
  show width: "width c = Suc (width c')"
    using unat_succ_distance [OF rw] adv by (simp add: width_def advanced_def)
  have n: "width c \<le> 1024" using ok syn by (simp add: jb_ok_def)
  have win: "in_window c' s \<longleftrightarrow> in_window c s \<and> s \<noteq> ab_read c" for s
  proof (cases "s = ab_read c")
    case True
    have "s - ab_read c' = 65535" using True adv by (simp add: advanced_def)
    then have "unat (s - ab_read c') = 65535" by (simp only:) simp
    with True width n show ?thesis by (simp add: in_window_def)
  next
    case False
    then have "unat (s - ab_read c) = Suc (unat (s - (ab_read c + 1)))"
      using unat_succ_distance [of "ab_read c" s] by simp
    with False width adv show ?thesis by (simp add: in_window_def advanced_def)
  qed
  have slot: "slot c' s = slot c s" if "in_window c' s" for s
    using adv that n win by (auto simp: advanced_def in_window_def)
  have "held c' s = ((held c)(ab_read c := None)) s" for s
    using slot [of s] win [of s] adv
    by (cases "in_window c s \<and> s \<noteq> ab_read c") (simp_all add: held_def advanced_def)
  then show "held c' = (held c)(ab_read c := None)" by auto
  show "jb_ok c'"
    using ok slot win width n adv by (auto simp: jb_ok_def advanced_def)
qed

lemma buffer_not_empty_width:
  assumes "buffer_not_empty c" shows "ab_synced c" "0 < width c"
proof -
  show "ab_synced c" using assms by (simp add: buffer_not_empty_def)
  have "ab_write c \<noteq> ab_read c" using assms by (auto simp: buffer_not_empty_def)
  then show "0 < width c" by (simp add: width_def unat_gt_0)
qed

lemma advanced_skip:
  assumes "jb_ok c"
  shows "advanced c (c\<lparr>audio_buffer := (audio_buffer c)[BUFIDX (ab_read c) := b],
      last_seqno_read := q, ab_read := ab_read c + 1\<rparr>)"
    and "advanced c (c\<lparr>ab_read := ab_read c + 1, last_seqno_read := q\<rparr>)"
proof -
  have "BUFIDX (ab_read c) \<noteq> BUFIDX s" if "unat (s - ab_read c) < 1024" "s \<noteq> ab_read c" for s
    using BUFIDX_inj [of "ab_read c" "ab_read c" s] that by simp
  then show "advanced c (c\<lparr>audio_buffer := (audio_buffer c)[BUFIDX (ab_read c) := b],
      last_seqno_read := q, ab_read := ab_read c + 1\<rparr>)"
    and "advanced c (c\<lparr>ab_read := ab_read c + 1, last_seqno_read := q\<rparr>)"
    by (simp_all add: advanced_def)
qed

definition late_for :: "u32 \<Rightarrow> packet \<Rightarrow> bool" where
  "late_for frame v \<longleftrightarrow> sint (fst v - frame) < 0"

text \<open>
  Skipping drops exactly the leading packets that are missing or out of date: every packet
  that leaves the buffer was late for the frame that is due, everything after the first packet
  on time stays, and when the skip stops before the write end the packet there is on time.
\<close>

theorem skip_drops_late_packets:
  assumes "skip_out_of_date e i c = Some c'"
    and "jb_ok c" and "timing_type c = ts_ntp"
    and "\<forall>i. clk1 (skip_clock e i) = now"
    and "local_ntp_time_to_frame now (time_to_aim_for e) c = Converted frame"
  shows "jb_ok c' \<and> ab_write c' = ab_write c \<and> held c' \<subseteq>\<^sub>m held c
    \<and> (\<forall>s v. held c s = Some v \<and> held c' s = None \<longrightarrow> late_for frame v)
    \<and> (buffer_not_empty c' \<longrightarrow>
        (\<exists>v. held c' (ab_read c') = Some v \<and> \<not> late_for frame v))"
  using assms
proof (induction e i c rule: skip_out_of_date.induct)
  case (1 e i c)
  let ?b = "slot c (ab_read c)"
  have ltf: "local_time_to_frame (skip_clock e i) (time_to_aim_for e) c = (Converted frame, c)"
    using "1.prems"(3-5) by (simp add: local_time_to_frame_def)
  show ?case
  proof (cases "buffer_not_empty c")
    case False
    with "1.prems"(1,2) show ?thesis by (auto simp: skip_out_of_date.simps [of e i c] map_le_def)
  next
    case ne: True
    note w = buffer_not_empty_width [OF ne]
    have head: "held c (ab_read c) = (if ready ?b then Some (view ?b) else None)"
      using w by (simp add: held_def in_window_def)
    have step: ?thesis if adv: "advanced c c1" and rec: "skip_out_of_date e k c1 = Some c'"
      and IH: "jb_ok c1 \<and> ab_write c1 = ab_write c \<Longrightarrow> jb_ok c' \<and> ab_write c' = ab_write c1 \<and> held c' \<subseteq>\<^sub>m held c1
        \<and> (\<forall>s v. held c1 s = Some v \<and> held c' s = None \<longrightarrow> late_for frame v)
        \<and> (buffer_not_empty c' \<longrightarrow> (\<exists>v. held c' (ab_read c') = Some v \<and> \<not> late_for frame v))"
      and gone: "ready ?b \<Longrightarrow> late_for frame (view ?b)"
      for c1 k
    proof -
      note A = advanced_window [OF adv "1.prems"(2) w]
      have w1: "ab_write c1 = ab_write c" using adv by (simp add: advanced_def)
      with IH A(1) have I: "jb_ok c' \<and> ab_write c' = ab_write c1 \<and> held c' \<subseteq>\<^sub>m held c1
        \<and> (\<forall>s v. held c1 s = Some v \<and> held c' s = None \<longrightarrow> late_for frame v)
        \<and> (buffer_not_empty c' \<longrightarrow> (\<exists>v. held c' (ab_read c') = Some v \<and> \<not> late_for frame v))" by blast
      have le: "held c1 \<subseteq>\<^sub>m held c" using A(2) by (simp add: map_le_def)
      have "late_for frame v" if "held c s = Some v" "held c' s = None" for s v
      proof (cases "s = ab_read c")
        case True
        with that head gone show ?thesis by (auto split: if_splits)
      next
        case False
        with that(1) A(2) have "held c1 s = Some v" by simp
        with that(2) I show ?thesis by blast
      qed
      with I w1 le show ?thesis by (auto intro: map_le_trans)
    qed
    show ?thesis
    proof (cases "ready ?b")
      case r: True
      show ?thesis
      proof (cases "sint (timestamp ?b - frame) < 0")
        case True
        let ?c1 = "c\<lparr>audio_buffer := (audio_buffer c)
            [BUFIDX (ab_read c) := snd (free_audio_buffer_payload ?b)],
            last_seqno_read := ab_read c, ab_read := ab_read c + 1\<rparr>"
        have rec: "skip_out_of_date e (Suc i) ?c1 = Some c'"
          using "1.prems"(1) ne r True by (simp add: skip_out_of_date.simps [of e i c] ltf)
        show ?thesis
          by (rule step [OF advanced_skip(1) [OF "1.prems"(2)] rec])
            (use "1.IH"(1) [OF _ refl r ltf [symmetric] refl True rec] ne "1.prems" True
              in \<open>simp_all add: late_for_def view_def\<close>)
      next
        case False
        then have "c' = c"
          using "1.prems"(1) ne r by (simp add: skip_out_of_date.simps [of e i c] ltf)
        with "1.prems"(2) head r False show ?thesis
          by (auto simp: map_le_def late_for_def view_def)
      qed
    next
      case nr: False
      let ?c1 = "c\<lparr>ab_read := ab_read c + 1, last_seqno_read := last_seqno_read c + 1\<rparr>"
      have rec: "skip_out_of_date e i ?c1 = Some c'"
        using "1.prems"(1) ne nr by (simp add: skip_out_of_date.simps [of e i c])
      show ?thesis
        by (rule step [OF advanced_skip(2) [OF "1.prems"(2)] rec])
          (use "1.IH"(2) [OF _ refl nr rec] ne "1.prems" nr in simp_all)
    qed
  qed
qed

section \<open>Release in order\<close>

definition same_window :: "player_conn \<Rightarrow> player_conn \<Rightarrow> bool" where
  "same_window c c' \<longleftrightarrow> audio_buffer c' = audio_buffer c \<and> ab_read c' = ab_read c
     \<and> ab_write c' = ab_write c \<and> ab_synced c' = ab_synced c"

lemma same_window_refl [simp]: "same_window c c"
  by (simp add: same_window_def)

lemma same_window_trans [trans]: "same_window a b \<Longrightarrow> same_window b c \<Longrightarrow> same_window a c"
  by (simp add: same_window_def)

lemma same_window_view:
  "same_window c c' \<Longrightarrow> jb_ok c' = jb_ok c \<and> held c' = held c \<and> width c' = width c"
  by (auto simp: same_window_def jb_ok_def held_def in_window_def width_def fun_eq_iff)

lemma same_window_clock:
  "frame_to_local_time e ts c = (r, c') \<Longrightarrow> same_window c c'"
  "have_timestamp_timing_information e c = (h, c') \<Longrightarrow> same_window c c'"
  "local_time_to_frame e t c = (r', c') \<Longrightarrow> same_window c c'"
  using more_player [OF clock_more(1), of e ts c] more_player [OF clock_more(2), of e t c] more_player [OF clock_more(3), of e c]
  by (simp_all add: same_window_def)

lemma same_window_fields [simp]:
  "same_window c (c'\<lparr>first_packet_time_to_play := t\<rparr>) = same_window c c'"
  "same_window c (c'\<lparr>ab_buffering := b\<rparr>) = same_window c c'"
  "same_window c (c'\<lparr>first_packet_timestamp := ts\<rparr>) = same_window c c'"
  "same_window c (setup_stream e s c') = same_window c c'"
  by (simp_all add: same_window_def setup_stream_def)

lemma local_time_window: "local_time e ts c = Some (t, c') \<Longrightarrow> same_window c c'"
  by (auto simp: local_time_def dest: same_window_clock split: prod.splits conversion.splits)

lemma note_first_packet_window: "note_first_packet e b c = Some c' \<Longrightarrow> same_window c c'"
  by (auto simp: note_first_packet_def split: if_splits dest!: local_time_window)
    (auto simp: same_window_def setup_stream_def)

lemma prime_with_delay_window:
  assumes "prime_with_delay cfg e g = Some g'"
  shows "same_window (pconn g) (pconn g') \<and> curframe g' = curframe g"
proof -
  from assms obtain t c where
    "local_time (readjust_clock e) (first_packet_timestamp (pconn g)) (pconn g) = Some (t, c)"
    by (auto simp: prime_with_delay_def)
  note lt = this local_time_window [OF this]
  obtain resp delay where d: "(if primed g then prime_delay e else (0, 0)) = (resp, delay)" by force
  show ?thesis
    using assms lt by (auto simp: prime_with_delay_def lt(1) d Let_def split: if_splits)
qed

lemma prime_without_delay_window:
  "prime_without_delay e g = Some g' \<Longrightarrow> same_window (pconn g) (pconn g') \<and> curframe g' = curframe g"
  by (auto simp: prime_without_delay_def Let_def)

lemmas prime_window = prime_with_delay_window prime_without_delay_window

lemma lead_in_window:
  "lead_in cfg e g = Some g' \<Longrightarrow> same_window (pconn g) (pconn g') \<and> curframe g' = curframe g"
  by (auto simp: lead_in_def Let_def split: option.splits if_splits
      dest!: note_first_packet_window prime_window intro: same_window_trans)

lemma hold_packet_window: "hold_packet cfg e b c = Some (w, c') \<Longrightarrow> same_window c c'"
proof -
  assume h: "hold_packet cfg e b c = Some (w, c')"
  obtain have1 c1 where 1: "have_timestamp_timing_information (release_have_clock e) c = (have1, c1)"
    by force
  obtain resp delay where 2: "(if has_delay e then release_delay e else (-1, 0)) = (resp, delay)"
    by force
  show "same_window c c'"
  proof (cases have1)
    case True
    with h 1 2 obtain t where
      "local_time (release_clock e) (timestamp b - word_of_int
        \<lfloor>desired_buffer_length cfg * real_of_int (uint (input_rate c1))\<rfloor>) c1 = Some (t, c')"
      by (auto simp: hold_packet_def Let_def)
    with 1 show ?thesis by (blast intro: same_window_trans same_window_clock local_time_window)
  next
    case False
    with h 1 show ?thesis by (auto simp: hold_packet_def dest: same_window_clock)
  qed
qed

lemma decide_wait_window:
  assumes "decide_wait cfg e g = Some (w, g')"
  shows "same_window (pconn g) (pconn g') \<and> curframe g' = curframe g
    \<and> (\<not> w \<longrightarrow> ab_synced (pconn g') \<and> ab_read (pconn g') \<noteq> ab_write (pconn g'))"
  using assms
  by (auto simp: decide_wait_def Let_def split: option.splits if_splits dest!: hold_packet_window)

lemma pick_frame_window:
  assumes "pick_frame e False g = Some g'" and "jb_ok (pconn g)" "ab_synced (pconn g)"
    "0 < width (pconn g)"
  shows "same_window (pconn g) (pconn g') \<and> curframe g' = Some (BUFIDX (ab_read (pconn g)))"
proof -
  let ?c = "pconn g" and ?b = "slot (pconn g) (ab_read (pconn g))"
  obtain r c where f: "frame_to_local_time (check_clock e) (timestamp ?b) ?c = (r, c)" by force
  then have c: "same_window ?c c" by (rule same_window_clock)
  have "ready ?b \<Longrightarrow> sequence_number ?b = ab_read ?c"
    using assms(2-4) by (simp add: jb_ok_def in_window_def)
  then have nc: "\<not> (ab_read c \<noteq> ab_write c \<and> ready ?b \<and> sequence_number ?b \<noteq> ab_read c
      \<and> BUFIDX (sequence_number ?b) = BUFIDX (ab_read c))"
    using c by (auto simp: same_window_def)
  have "g' = g\<lparr>curframe := Some (BUFIDX (ab_read ?c)), pconn :=
      (if ab_read c \<noteq> ab_write c \<and> ready ?b \<and> sequence_number ?b \<noteq> ab_read c
          \<and> BUFIDX (sequence_number ?b) = BUFIDX (ab_read c)
       then c\<lparr>ab_read := sequence_number ?b\<rparr> else c)\<rparr>"
    using assms(1) by (cases r) (simp_all add: pick_frame_def f Let_def)
  then have "g' = g\<lparr>curframe := Some (BUFIDX (ab_read ?c)), pconn := c\<rparr>"
    by (simp only: if_not_P [OF nc])
  then show ?thesis using c by simp
qed

lemma handle_flush_none:
  assumes "handle_flush e g = Some g'" "\<not> flush_requested (pconn g)"
    "requested_state e = connection_state_to_output (pconn g)" "\<not> backend_not_running e"
  shows "g' = g"
  using assms
  by (auto simp: handle_flush_def note_output_state_def flush_output_def flush_decision_def Let_def)

text \<open>Skipping keeps the invariant with any clock, and only takes packets away.\<close>

lemma skip_out_of_date_keeps:
  assumes "skip_out_of_date e i c = Some c'" and "jb_ok c"
  shows "jb_ok c' \<and> held c' \<subseteq>\<^sub>m held c"
  using assms
proof (induction e i c rule: skip_out_of_date.induct)
  case (1 e i c)
  let ?b = "slot c (ab_read c)"
  show ?case
  proof (cases "buffer_not_empty c")
    case False
    with 1 show ?thesis by (simp add: skip_out_of_date.simps [of e i c])
  next
    case ne: True
    note w = buffer_not_empty_width [OF ne]
    have step: "jb_ok c1 \<and> held c1 \<subseteq>\<^sub>m held c" if "advanced c0 c1" "same_window c c0" for c0 c1
      using advanced_window [OF that(1)] same_window_view [OF that(2)] w "1.prems"(2) that(2)
      by (auto simp: map_le_def same_window_def)
    show ?thesis
    proof (cases "ready ?b")
      case r: True
      from "1.prems"(1) ne r obtain f c0 where
        l: "local_time_to_frame (skip_clock e i) (time_to_aim_for e) c = (Converted f, c0)"
        by (auto simp: skip_out_of_date.simps [of e i c] Let_def split: prod.splits conversion.splits)
      then have same: "same_window c c0" by (rule same_window_clock)
      show ?thesis
      proof (cases "sint (timestamp ?b - f) < 0")
        case True
        let ?c1 = "c0\<lparr>audio_buffer := (audio_buffer c0)
            [BUFIDX (ab_read c0) := snd (free_audio_buffer_payload ?b)],
            last_seqno_read := ab_read c0, ab_read := ab_read c0 + 1\<rparr>"
        have rec: "skip_out_of_date e (Suc i) ?c1 = Some c'"
          using "1.prems"(1) ne r True by (simp add: skip_out_of_date.simps [of e i c] l)
        have "jb_ok c0" using same_window_view [OF same] "1.prems"(2) by simp
        note st = step [OF advanced_skip(1) [OF this] same]
        from "1.IH"(1) [OF _ refl r l [symmetric] refl True rec] ne st show ?thesis
          by (blast intro: map_le_trans)
      next
        case False
        with "1.prems" ne r l have "c' = c0" by (simp add: skip_out_of_date.simps [of e i c])
        with same_window_view [OF same] "1.prems"(2) show ?thesis by simp
      qed
    next
      case nr: False
      let ?c1 = "c\<lparr>ab_read := ab_read c + 1, last_seqno_read := last_seqno_read c + 1\<rparr>"
      have rec: "skip_out_of_date e i ?c1 = Some c'"
        using "1.prems"(1) ne nr by (simp add: skip_out_of_date.simps [of e i c])
      from "1.IH"(2) [OF _ refl nr rec] ne step [OF advanced_skip(2) [OF "1.prems"(2)] same_window_refl]
      show ?thesis by (blast intro: map_le_trans)
    qed
  qed
qed

lemma examine_head_window:
  assumes "examine_head cfg False e g = Some g'" "jb_ok (pconn g)"
  shows "same_window (pconn g) (pconn g')
    \<and> (ab_synced (pconn g) \<and> 0 < width (pconn g) \<longrightarrow> curframe g' = Some (BUFIDX (ab_read (pconn g))))"
proof (cases "ab_synced (pconn g) \<and> 0 < width (pconn g)")
  case True
  with assms(2) have "0 < sint (ab_write (pconn g) - ab_read (pconn g))"
    by (simp add: sint_pos_u16 jb_ok_def width_def)
  with True assms(1) obtain g1 where
    g1: "pick_frame e False g = Some g1" "lead_in cfg e g1 = Some g'"
    by (auto simp: examine_head_def bind_eq_Some_conv)
  from pick_frame_window [OF g1(1) assms(2)] lead_in_window [OF g1(2)] True
  show ?thesis by (auto intro: same_window_trans)
next
  case False
  then have "\<not> (ab_synced (pconn g) \<and> 0 < sint (ab_write (pconn g) - ab_read (pconn g)))"
    by (auto simp: sint_pos_u16 width_def)
  with assms(1) False show ?thesis by (auto simp: examine_head_def)
qed

text \<open>The packet at the read end is released, and nothing else changes.\<close>

lemma release_frame_head:
  assumes "release_frame g = (b, g')" "curframe g = Some (BUFIDX (ab_read (pconn g)))"
    "jb_ok (pconn g)" "ab_synced (pconn g)" "0 < width (pconn g)"
  shows "jb_ok (pconn g') \<and> held (pconn g') = (held (pconn g))(ab_read (pconn g) := None)
    \<and> ab_read (pconn g') = ab_read (pconn g) + 1
    \<and> (\<exists>blk. b = Some blk \<and> (case held (pconn g) (ab_read (pconn g)) of
          Some v \<Rightarrow> view blk = v | None \<Rightarrow> timestamp blk = 0))"
proof -
  let ?c = "pconn g" and ?i = "BUFIDX (ab_read (pconn g))"
  have "BUFIDX (ab_read ?c) \<noteq> BUFIDX s" if "unat (s - ab_read ?c) < 1024" "s \<noteq> ab_read ?c" for s
    using BUFIDX_inj [of "ab_read ?c" "ab_read ?c" s] that by simp
  then have "advanced ?c (pconn g')"
    using assms(1,2)
    by (cases "ready (audio_buffer ?c ! ?i)") (auto simp: release_frame_def advanced_def Let_def)
  note A = advanced_window [OF this assms(3-5)]
  have "in_window ?c (ab_read ?c)" using assms(5) by (simp add: in_window_def)
  then show ?thesis
    using A(1,2) assms(1,2,4)
    by (cases "ready (audio_buffer ?c ! ?i)") (auto simp: release_frame_def Let_def held_def view_def)
qed

text \<open>
  C3. The player plays the packets in the order of their sequence numbers: when no flush or
  resynchronisation is asked for and a turn ends the wait, the packet released is the one at
  the read end -- its sound if it arrived, silence if it did not -- and exactly that packet
  leaves the buffer, whose other packets stay in place.
\<close>

theorem release_in_order:
  assumes "get_turn cfg False e g = Some (False, g1)" and "release_frame g1 = (b, g2)"
    and "jb_ok (pconn g)" and "\<not> flush_requested (pconn g)"
    and "requested_state e = connection_state_to_output (pconn g)" and "\<not> backend_not_running e"
  shows "held (pconn g1) \<subseteq>\<^sub>m held (pconn g) \<and> jb_ok (pconn g2)
    \<and> ab_read (pconn g2) = ab_read (pconn g1) + 1
    \<and> held (pconn g2) = (held (pconn g1))(ab_read (pconn g1) := None)
    \<and> (\<exists>blk. b = Some blk \<and> (case held (pconn g1) (ab_read (pconn g1)) of
          Some v \<Rightarrow> view blk = v | None \<Rightarrow> timestamp blk = 0))"
proof -
  obtain have0 c0 where h: "have_timestamp_timing_information (have_clock e) (pconn g) = (have0, c0)"
    by force
  note same0 = same_window_clock(2) [OF h]
  let ?g0 = "g\<lparr>pconn := c0\<rparr>"
  have c0: "\<not> flush_requested c0" "requested_state e = connection_state_to_output c0"
    using more_player [of c0 "pconn g"] clock_more(3) [of "have_clock e" "pconn g"] assms(4,5)
    by (simp_all add: h)
  from assms(1) h obtain gf c1 g3 where
    f: "handle_flush e ?g0 = Some gf" and s: "skip_out_of_date e 0 (pconn gf) = Some c1"
    and x: "examine_head cfg False e (gf\<lparr>pconn := c1\<rparr>) = Some g3"
    and d: "decide_wait cfg e g3 = Some (False, g1)"
    by (auto simp: get_turn_def Let_def bind_eq_Some_conv split: if_splits)
  from handle_flush_none [OF f] c0 assms(6) have gf: "gf = ?g0" by simp
  have "jb_ok c0" "held c0 = held (pconn g)" using same_window_view [OF same0] assms(3) by simp_all
  with skip_out_of_date_keeps [of e 0 c0 c1] s gf
  have c1: "jb_ok c1" "held c1 \<subseteq>\<^sub>m held (pconn g)" by auto
  from examine_head_window [OF x] c1(1) have g3: "same_window c1 (pconn g3)"
    "ab_synced c1 \<and> 0 < width c1 \<Longrightarrow> curframe g3 = Some (BUFIDX (ab_read c1))" by auto
  from decide_wait_window [OF d] have g1: "same_window (pconn g3) (pconn g1)" "curframe g1 = curframe g3"
    "ab_synced (pconn g1)" "ab_read (pconn g1) \<noteq> ab_write (pconn g1)" by auto
  have same: "same_window c1 (pconn g1)" by (rule same_window_trans [OF g3(1) g1(1)])
  have w: "0 < width (pconn g1)" using g1(4) by (simp add: width_def unat_gt_0)
  with same g3(2) g1(2,3) have cur: "curframe g1 = Some (BUFIDX (ab_read (pconn g1)))"
    using same_window_view [OF same] by (simp add: same_window_def)
  from release_frame_head [OF assms(2) cur _ g1(3) w] same_window_view [OF same] c1
  show ?thesis by simp
qed

lemma mod_pos_pos_eq: "0 < p \<Longrightarrow> p < m \<Longrightarrow> (- p) mod m = m - (p::int)"
  by (simp add: zmod_zminus1_eq_if mod_pos_pos_trivial)

text \<open>
  The gap to the first packet is computed without a sign: when its time passes while the
  turn is being computed, the gap comes out enormous, and the player sends another tenth of a
  second of silence and goes on buffering, instead of starting.
\<close>

theorem late_lead_in_silence:
  assumes "local_time (readjust_clock e) (first_packet_timestamp (pconn g)) (pconn g) = Some (t, c)"
    and "0 \<le> sint (t - lead_now e)" and "gap_now e = t + d"
    and "0 < uint d * uint (output_rate e)" and "uint d * uint (output_rate e) \<le> 9223372036854775808"
    and "\<not> primed g" and "silent_lead_in_time_auto cfg"
    and "0 < uint (output_rate e * 100) div 1000"
  shows "prime_with_delay cfg e g = Some (g\<lparr>pconn := c\<lparr>first_packet_time_to_play := t\<rparr>,
    effects := effects g @ [Play_Silence (uint (output_rate e * 100) div 1000)], primed := True\<rparr>)"
proof -
  let ?p = "uint d * uint (output_rate e)"
  have up: "uint (ucast (output_rate e) :: u64) = uint (output_rate e)"
    by (simp add: uint_up_ucast is_up)
  have "uint ((t - (t + d)) * ucast (output_rate e))
      = uint (- d) * uint (output_rate e) mod 18446744073709551616"
  proof -
    have "uint ((t - (t + d)) * ucast (output_rate e))
        = uint (t - (t + d)) * uint (output_rate e) mod 2 ^ LENGTH(64)"
      by (simp only: uint_word_ariths(3) up)
    then show ?thesis by simp
  qed
  also have "\<dots> = (- uint d) mod 18446744073709551616 * uint (output_rate e) mod 18446744073709551616"
    by (simp add: uint_word_ariths(4))
  also have "\<dots> = (- ?p) mod 18446744073709551616"
    by (simp add: mod_mult_left_eq)
  also have "\<dots> = 18446744073709551616 - ?p"
    by (rule mod_pos_pos_eq) (use assms(4,5) in auto)
  finally have g: "gross_frame_gap t (gap_now e) (output_rate e)
      = (18446744073709551616 - ?p) div 1000000000"
    by (simp add: gross_frame_gap_def assms(3))
  have "9223372036854775808 div 1000000000 \<le> (18446744073709551616 - ?p) div 1000000000"
    using assms(5) by (intro zdiv_mono1) simp_all
  moreover have "uint (output_rate e * 100) < 4294967296"
  proof -
    have "uint (output_rate e * 100) < 2 ^ LENGTH(32)" by (rule unsigned_less)
    then show ?thesis by simp
  qed
  then have "uint (output_rate e * 100) div 1000 < 4294968" by simp
  ultimately have "\<not> gross_frame_gap t (gap_now e) (output_rate e) < uint (output_rate e * 100) div 1000"
    unfolding g by linarith
  with assms show ?thesis
    by (simp add: prime_with_delay_def Let_def)
qed

section \<open>Examples\<close>

text \<open>
  A connection in classic timing that started at frame 0 at time 0, with two packets at the
  given sequence number, and a turn without a delay function.
\<close>

definition packet_at :: "u16 \<Rightarrow> u32 \<Rightarrow> abuf" where
  "packet_at q ts = blank\<lparr>ready := True, sequence_number := q, timestamp := ts,
     data := Some [1, 2], frame_count := 352\<rparr>"

lemma packet_at_simps [simp]:
  "ready (packet_at q ts)" "timestamp (packet_at q ts) = ts" "sequence_number (packet_at q ts) = q"
  by (simp_all add: packet_at_def)

definition two_packets :: "u16 \<Rightarrow> u32 \<Rightarrow> u32 \<Rightarrow> player_conn" where
  "two_packets q ts ts' = pcm_conn\<lparr>
     audio_buffer := (init_buffer[BUFIDX q := packet_at q ts])[BUFIDX (q + 1) := packet_at (q + 1) ts'],
     ab_read := q, ab_write := q + 2, ab_synced := True, ab_buffering := False,
     anchor_remote_info_is_valid := True, local_to_remote_time_gradient := 1,
     input_format_is_valid := True, first_packet_timestamp := ts\<rparr>"

definition a_clock :: clock_env where
  "a_clock = \<lparr>clk1 = 0, clk2 = 0, shm = None\<rparr>"

definition a_turn :: get_env where
  "a_turn = \<lparr>have_clock = a_clock, skip_clock = (\<lambda>_. a_clock), check_clock = a_clock,
     first_clock = a_clock, readjust_clock = a_clock, release_have_clock = a_clock,
     release_clock = a_clock, requested_state = True, backend_not_running = False,
     time_to_aim_for = 1000000000, lead_now = 1000000000, gap_now = 1000000000,
     release_now = 1000000000, sanity_now = 1000000000, has_delay = False, prime_delay = (0, 0),
     release_delay = (0, 0), output_rate = 44100, output_channels = 2\<rparr>"

lemma two_packets_simps [simp]:
  "ab_read (two_packets q ts ts') = q" "ab_write (two_packets q ts ts') = q + 2"
  "ab_synced (two_packets q ts ts')" "\<not> ab_buffering (two_packets q ts ts')"
  "timing_type (two_packets q ts ts') = ts_ntp" "input_rate (two_packets q ts ts') = 44100"
  "anchor_remote_info_is_valid (two_packets q ts ts')" "anchor_rtptime (two_packets q ts ts') = 0"
  "anchor_time (two_packets q ts ts') = 0" "local_to_remote_time_gradient (two_packets q ts ts') = 1"
  "local_to_remote_time_difference (two_packets q ts ts') = 0"
  "input_format_is_valid (two_packets q ts ts')" "first_packet_timestamp (two_packets q ts ts') = ts"
  "connection_state_to_output (two_packets q ts ts')" "\<not> flush_requested (two_packets q ts ts')"
  by (simp_all add: two_packets_def pcm_conn_def new_conn_def)

lemma two_packets_slots [simp]:
  "slot (two_packets q ts ts') q = packet_at q ts"
  "slot (two_packets q ts ts') (q + 1) = packet_at (q + 1) ts'"
proof -
  have "BUFIDX (q + 1) \<noteq> BUFIDX q" using BUFIDX_inj [of q q "q + 1"] by simp
  then show "slot (two_packets q ts ts') q = packet_at q ts"
    "slot (two_packets q ts ts') (q + 1) = packet_at (q + 1) ts'"
    by (simp_all add: two_packets_def init_buffer_def)
qed

lemma width_two_packets [simp]: "width (two_packets q ts ts') = 2"
  by (simp add: width_def)

lemma jb_ok_two_packets [simp]: "jb_ok (two_packets q ts ts')"
proof -
  have "s = q \<or> s = q + 1" if "unat (s - q) < 2" for s
  proof -
    from that have "unat (s - q) = 0 \<or> unat (s - q) = 1" by linarith
    then have "s - q = 0 \<or> s - q = 1" by (simp add: word_unat_eq_iff)
    then show ?thesis by (auto simp: algebra_simps)
  qed
  then have "sequence_number (slot (two_packets q ts ts') s) = s" if "unat (s - q) < 2" for s
    using that by (auto simp: packet_at_def dest!: \<open>\<And>s. unat (s - q) < 2 \<Longrightarrow> s = q \<or> s = q + 1\<close>)
  moreover have "length (audio_buffer (two_packets q ts ts')) = BUFFER_FRAMES"
    by (simp add: two_packets_def init_buffer_def)
  ultimately show ?thesis by (simp add: jb_ok_def in_window_def)
qed

theorem flush_lost_at_wrap_witness:
  "flush_decision (do_flush 44500 (two_packets 65535 44100 44452))
    = Some (False, False, (do_flush 44500 (two_packets 65535 44100 44452))\<lparr>flush_requested := False\<rparr>)
   \<and> held (two_packets 65535 44100 44452) 65535 \<noteq> None"
  using flush_lost_at_wrap [of "two_packets 65535 44100 44452" 44500]
  by (simp add: held_def in_window_def packet_at_def)

theorem flushed_note_sticks_witness:
  "\<exists>c2. flush_decision (snd (flush_output (do_flush 5 pcm_conn))) = Some (False, False, c2)
    \<and> fst (flush_output (do_flush 5 pcm_conn)) = [Flush_Output]
    \<and> fst (flush_output (do_flush 6 c2)) = []"
proof -
  let ?c1 = "snd (flush_output (do_flush 5 pcm_conn))"
  have fo: "flush_output (do_flush 5 pcm_conn) = ([Flush_Output], ?c1)"
    by (simp add: flush_output_def do_flush_def reset_input_flow_metrics_def pcm_conn_def new_conn_def)
  have "flush_decision ?c1 = Some (False, False, ?c1\<lparr>flush_requested := False\<rparr>)"
    by (simp add: flush_output_def do_flush_def reset_input_flow_metrics_def pcm_conn_def new_conn_def
        flush_decision_def buffer_not_empty_def)
  then show ?thesis
    using flushed_note_sticks [OF _ _ fo, of _ _ _ 6] by (subst fo) auto
qed

lemma two_packets_frame:
  "local_ntp_time_to_frame 0 1000000000 (two_packets q ts ts') = Converted 44100"
  by (simp add: local_ntp_time_to_frame_def local_to_remote_time_difference_now_def
      ns_to_frames_def sdiv_pos)

theorem skip_drops_late_packets_witness:
  "\<exists>c'. skip_out_of_date a_turn 0 (two_packets 10 44000 44352) = Some c'
    \<and> held c' 10 = None \<and> ab_read c' = 11 \<and> held c' \<subseteq>\<^sub>m held (two_packets 10 44000 44352)
    \<and> (\<exists>v. held c' 11 = Some v \<and> \<not> late_for 44100 v)"
proof -
  let ?c = "two_packets 10 44000 44352"
  have t: "time_to_aim_for a_turn = 1000000000" "\<forall>i. clk1 (skip_clock a_turn i) = 0"
    by (simp_all add: a_turn_def a_clock_def)
  have l: "local_time_to_frame (skip_clock a_turn i) 1000000000 c = (local_ntp_time_to_frame 0 1000000000 c, c)"
    if "timing_type c = ts_ntp" for i and c :: player_conn
    using that t by (simp add: local_time_to_frame_def)
  let ?c1 = "?c\<lparr>audio_buffer := (audio_buffer ?c)
      [BUFIDX 10 := snd (free_audio_buffer_payload (packet_at 10 44000))],
      last_seqno_read := 10, ab_read := 11\<rparr>"
  have ne: "BUFIDX 10 \<noteq> BUFIDX 11" by (simp add: BUFIDX_def BUFFER_FRAMES_def)
  have b: "slot ?c 10 = packet_at 10 44000" "slot ?c1 11 = packet_at 11 44352"
    using two_packets_slots [of 10 44000 44352] ne by simp_all
  have "skip_out_of_date a_turn (Suc 0) ?c1 = Some ?c1"
    using b(2) by (subst skip_out_of_date.simps)
      (simp add: buffer_not_empty_def l two_packets_frame t packet_at_def)
  then have c': "skip_out_of_date a_turn 0 ?c = Some ?c1"
    using b(1) by (subst skip_out_of_date.simps)
      (simp add: buffer_not_empty_def l two_packets_frame t packet_at_def)
  from skip_drops_late_packets [OF c' _ _ t(2)] t(1)
  have "held ?c1 \<subseteq>\<^sub>m held ?c" "\<exists>v. held ?c1 11 = Some v \<and> \<not> late_for 44100 v"
    by (simp_all add: two_packets_frame buffer_not_empty_def)
  moreover have "held ?c1 10 = None"
    by (simp add: held_def in_window_def width_def unat_minus_one_u16)
  ultimately show ?thesis using c' by auto
qed

definition a_config :: release_config where
  "a_config = \<lparr>desired_buffer_length = 0, silent_lead_in_time_auto = True, silent_lead_in_time = 0\<rparr>"

definition a_state :: "player_conn \<Rightarrow> get_state" where
  "a_state c = \<lparr>pconn = c, curframe = None, primed = False, effects = []\<rparr>"

lemma a_clock_conversions:
  assumes "timing_type c = ts_ntp" "input_rate c = 44100" "anchor_remote_info_is_valid c"
    "anchor_rtptime c = 0" "anchor_time c = 0" "local_to_remote_time_gradient c = 1"
    "local_to_remote_time_difference c = 0"
  shows "frame_to_local_time a_clock 44100 c = (Converted 1000000000, c)"
    and "have_timestamp_timing_information a_clock c = (True, c)"
  using assms
  by (simp_all add: frame_to_local_time_def frame_to_ntp_local_time_def
      have_timestamp_timing_information_def have_ntp_timing_information_def
      local_to_remote_time_difference_now_def frames_to_ns_def sdiv_pos)

text \<open>At the wrap the packet of frame 44100 is released at one second, and the next one kept.\<close>

theorem release_in_order_witness:
  "\<exists>g1 g2 blk. get_turn a_config False a_turn (a_state (two_packets 65535 44100 44452)) = Some (False, g1)
    \<and> release_frame g1 = (Some blk, g2) \<and> view blk = view (packet_at 65535 44100)
    \<and> ab_read (pconn g2) = 0 \<and> held (pconn g2) 65535 = None"
proof -
  let ?c = "two_packets 65535 44100 44452" and ?g = "a_state (two_packets 65535 44100 44452)"
  note conv = a_clock_conversions [of ?c, simplified]
  let ?g1 = "?g\<lparr>curframe := Some (BUFIDX 65535)\<rparr>"
  have e: "have_clock a_turn = a_clock" "check_clock a_turn = a_clock" "release_have_clock a_turn = a_clock"
    "release_clock a_turn = a_clock" "requested_state a_turn" "\<not> backend_not_running a_turn"
    "\<not> has_delay a_turn" "release_now a_turn = 1000000000" "sanity_now a_turn = 1000000000"
    by (simp_all add: a_turn_def)
  have slot: "slot ?c 65535 = packet_at 65535 44100" by simp
  have p: "pconn ?g = ?c" "\<not> primed ?g" "effects ?g = []" "curframe ?g = None"
    by (simp_all add: a_state_def)
  have same: "?g\<lparr>pconn := ?c\<rparr> = ?g" by (simp add: a_state_def)
  have f: "handle_flush a_turn ?g = Some ?g"
    by (simp add: handle_flush_def note_output_state_def flush_output_def flush_decision_def p e)
  have s: "skip_out_of_date a_turn 0 ?c = Some ?c"
    by (subst skip_out_of_date.simps) (simp add: buffer_not_empty_def)
  have "pick_frame a_turn False ?g = Some ?g1"
    by (simp add: pick_frame_def p e Let_def packet_at_def conv slot)
  moreover have "lead_in a_config a_turn ?g1 = Some ?g1"
    by (simp add: lead_in_def p)
  ultimately have x: "examine_head a_config False a_turn ?g = Some ?g1"
    by (simp add: examine_head_def p)
  have h: "hold_packet a_config a_turn (packet_at 65535 44100) ?c = Some (False, ?c)"
    by (simp add: hold_packet_def e conv packet_at_def a_config_def local_time_def)
  have "decide_wait a_config a_turn ?g1 = Some (False, ?g1)"
    by (simp add: decide_wait_def p slot h Let_def)
  with f s x have t: "get_turn a_config False a_turn ?g = Some (False, ?g1)"
    by (simp add: get_turn_def p e conv same)
  obtain b g2 where r: "release_frame ?g1 = (b, g2)" by force
  have "jb_ok (pconn ?g)" "\<not> flush_requested (pconn ?g)"
    "requested_state a_turn = connection_state_to_output (pconn ?g)"
    by (simp_all add: p e)
  from release_in_order [OF t r this] e(6)
  have "ab_read (pconn g2) = 65535 + 1" "held (pconn g2) 65535 = None"
    "\<exists>blk. b = Some blk \<and> (case held ?c 65535 of Some v \<Rightarrow> view blk = v | None \<Rightarrow> timestamp blk = 0)"
    by (simp_all add: p)
  moreover have "held ?c 65535 = Some (view (packet_at 65535 44100))"
    by (simp add: held_def in_window_def slot)
  ultimately show ?thesis using t r by auto
qed

theorem late_lead_in_silence_witness:
  "\<exists>g'. prime_with_delay a_config (a_turn\<lparr>gap_now := 1000000001\<rparr>) (a_state (two_packets 10 44100 44452)) = Some g'
    \<and> effects g' = [Play_Silence 4410]"
proof -
  let ?c = "two_packets 10 44100 44452" and ?e = "a_turn\<lparr>gap_now := 1000000001\<rparr>"
  have "local_time (readjust_clock ?e) (first_packet_timestamp (pconn (a_state ?c))) (pconn (a_state ?c))
      = Some (1000000000, ?c)"
    by (simp add: local_time_def a_state_def a_turn_def a_clock_conversions)
  from late_lead_in_silence [OF this, where d = 1 and cfg = a_config] show ?thesis
    by (simp add: a_turn_def a_state_def a_config_def)
qed

end
