(* ===== verification/Alac_Bits.thy ===== *)
theory Alac_Bits
  imports Prelude
begin

text \<open>
  The bit reader and the entropy decoder of the ALAC decoder (\<open>alac.c\<close>). Every access to
  memory is checked: the result is an error where the C code would read past the input,
  write past a buffer, or shift or count in a way that C leaves undefined. The input is the
  memory that may be read from the packet's first byte on.
\<close>

section \<open>Results\<close>

datatype alac_error = Read_Overrun | Write_Overrun | Undefined_Shift | Undefined_Clz

type_synonym 'a res = "alac_error + 'a"

definition and_then :: "'a res \<Rightarrow> ('a \<Rightarrow> 'b res) \<Rightarrow> 'b res" where
  "and_then m f = (case m of Inl e \<Rightarrow> Inl e | Inr x \<Rightarrow> f x)"

lemma and_then_simps [simp]:
  "and_then (Inl e) f = Inl e" "and_then (Inr x) f = f x"
  by (simp_all add: and_then_def)

lemma and_then_Inr:
  "and_then m f = Inr y \<longleftrightarrow> (\<exists>x. m = Inr x \<and> f x = Inr y)"
  by (cases m) simp_all

section \<open>Reading bits\<close>

record bitreader =
  inbuf :: "u8 list"
  byte_pos :: int  \<comment> \<open>\<open>input_buffer\<close>, from the start of the packet\<close>
  bitaccumulator :: int

definition move_bits :: "int \<Rightarrow> bitreader \<Rightarrow> bitreader" where
  "move_bits bits s =
     (let new_accumulator = bitaccumulator s + bits
      in s\<lparr>byte_pos := byte_pos s + new_accumulator div 8, bitaccumulator := new_accumulator mod 8\<rparr>)"

definition readbits_16 :: "int \<Rightarrow> bitreader \<Rightarrow> (u32 \<times> bitreader) res" where
  "readbits_16 bits s =
     (let i = nat (byte_pos s) in
      if byte_pos s < 0 \<or> length (inbuf s) < i + 3 then Inl Read_Overrun
      else if bits < -7 \<or> 24 < bits then Inl Undefined_Shift
      else
        (let result = push_bit 16 (ucast (inbuf s ! i)) OR push_bit 8 (ucast (inbuf s ! (i + 1)))
               OR ucast (inbuf s ! (i + 2)) :: u32;
             result = push_bit (nat (bitaccumulator s)) result AND 0x00ffffff
         in Inr (drop_bit (nat (24 - bits)) result, move_bits bits s)))"

definition readbits :: "int \<Rightarrow> bitreader \<Rightarrow> (u32 \<times> bitreader) res" where
  "readbits bits s =
     (if 16 < bits then
        and_then (readbits_16 16 s) (\<lambda>(high, s).
        and_then (readbits_16 (bits - 16) s) (\<lambda>(low, s).
          Inr (push_bit (nat (bits - 16)) high OR low, s)))
      else readbits_16 bits s)"

definition readbit :: "bitreader \<Rightarrow> (bool \<times> bitreader) res" where
  "readbit s =
     (let i = nat (byte_pos s) in
      if byte_pos s < 0 \<or> length (inbuf s) \<le> i then Inl Read_Overrun
      else Inr (bit (push_bit (nat (bitaccumulator s)) (ucast (inbuf s ! i) :: u32)) 7, move_bits 1 s))"

definition unreadbits :: "int \<Rightarrow> bitreader \<Rightarrow> bitreader" where
  "unreadbits bits s = move_bits (- bits) s"

section \<open>Leading zeros\<close>

text \<open>
  \<open>__builtin_clz\<close>, undefined at zero, and the portable routine for other compilers, which
  looks at the bytes from the top and then at the two halves of the first one that is not zero.
\<close>

definition clz :: "u32 \<Rightarrow> int res" where
  "clz x = (if x = 0 then Inl Undefined_Clz
            else Inr (int (length (takeWhile (\<lambda>i. \<not> bit x (31 - i)) [0..<32]))))"

definition count_in_byte :: "int \<Rightarrow> u32 \<Rightarrow> int" where
  "count_in_byte output curbyte =
     (let (output, curbyte) = (if curbyte AND 0xf0 = 0 then (output + 4, curbyte)
                               else (output, signed_drop_bit 4 curbyte))
      in if curbyte AND 8 \<noteq> 0 then output
         else if curbyte AND 4 \<noteq> 0 then output + 1
         else if curbyte AND 2 \<noteq> 0 then output + 2
         else if curbyte AND 1 \<noteq> 0 then output + 3
         else output + 4)"

definition portable_clz :: "u32 \<Rightarrow> int" where
  "portable_clz x =
     (let b3 = signed_drop_bit 24 x; b2 = signed_drop_bit 16 x; b1 = signed_drop_bit 8 x in
      if b3 \<noteq> 0 then count_in_byte 0 b3
      else if b2 AND 0xff \<noteq> 0 then count_in_byte 8 b2
      else if b1 AND 0xff \<noteq> 0 then count_in_byte 16 b1
      else if x AND 0xff \<noteq> 0 then count_in_byte 24 x
      else 32)"

section \<open>Entropy decoding\<close>

definition RICE_THRESHOLD :: nat where "RICE_THRESHOLD = 8"

text \<open>The number of ones before the first zero, at most nine.\<close>

fun rice_prefix :: "nat \<Rightarrow> bitreader \<Rightarrow> (nat \<times> bitreader) res" where
  "rice_prefix 0 s = Inr (0, s)"
| "rice_prefix (Suc n) s =
     and_then (readbit s) (\<lambda>(b, s).
       if b then and_then (rice_prefix n s) (\<lambda>(x, s). Inr (Suc x, s)) else Inr (0, s))"

definition entropy_decode_value ::
  "int \<Rightarrow> int \<Rightarrow> u32 \<Rightarrow> bitreader \<Rightarrow> (u32 \<times> bitreader) res" where
  "entropy_decode_value readSampleSize k rice_kmodifier_mask s =
     and_then (rice_prefix (Suc RICE_THRESHOLD) s) (\<lambda>(x, s).
       if RICE_THRESHOLD < x then
         and_then (readbits readSampleSize s) (\<lambda>(v, s).
           if readSampleSize < 1 \<or> 32 < readSampleSize then Inl Undefined_Shift
           else Inr (v AND drop_bit (nat (32 - readSampleSize)) 0xffffffff, s))
       else if k \<noteq> 1 then
         and_then (readbits k s) (\<lambda>(extraBits, s).
           if k < 0 \<or> 31 < k then Inl Undefined_Shift
           else
             (let x = of_nat x * ((push_bit (nat k) 1 - 1) AND rice_kmodifier_mask)
              in if 1 < sint extraBits then Inr (x + (extraBits - 1), s)
                 else Inr (x, unreadbits 1 s)))
       else Inr (of_nat x, s))"

text \<open>
  One sample of \<open>entropy_rice_decode\<close>, at index \<open>i\<close> of \<open>n\<close>, with the history, the sign
  modifier and the buffer; a small history is followed by a run of zeros.
\<close>

record rice_state =
  outputCount :: nat
  history :: u32
  signModifier :: u32
  outputBuffer :: "u32 list"
  reader :: bitreader

record rice_params =
  outputSize :: nat
  readSampleSize :: int
  rice_kmodifier :: int
  rice_historymult :: u32
  rice_kmodifier_mask :: u32

definition signed_half :: "u32 \<Rightarrow> u32" where
  "signed_half d =
     (let finalValue = word_of_int (sint (d + 1) sdiv 2) in if bit d 0 then - finalValue else finalValue)"

definition next_history :: "u32 \<Rightarrow> u32 \<Rightarrow> u32 \<Rightarrow> u32" where
  "next_history h d mult =
     (if 0xFFFF < sint d then 0xFFFF else h + (d * mult - signed_drop_bit 9 (h * mult)))"

definition zero_block :: "rice_params \<Rightarrow> rice_state \<Rightarrow> rice_state res" where
  "zero_block p st =
     and_then (clz (history st)) (\<lambda>z.
     and_then (entropy_decode_value 16 (z + sint (history st + 16) sdiv 64 - 24)
                 (rice_kmodifier_mask p) (reader st)) (\<lambda>(blk, s).
       (let blockSize = sint blk; i = outputCount st;
            st = st\<lparr>history := 0, reader := s, signModifier := (if 0xFFFF < blockSize then 0 else 1)\<rparr>
        in if blockSize \<le> 0 then Inr st
           else if length (outputBuffer st) < i + nat blockSize then Inl Write_Overrun
           else Inr (st\<lparr>outputBuffer := mem_write i (replicate (nat blockSize) 0) (outputBuffer st),
                        outputCount := i + nat blockSize\<rparr>))))"

definition rice_sample :: "rice_params \<Rightarrow> rice_state \<Rightarrow> rice_state res" where
  "rice_sample p st =
     and_then (clz (signed_drop_bit 9 (history st) + 3)) (\<lambda>z.
       (let k = 31 - rice_kmodifier p - z;
            k = (if k < 0 then k + rice_kmodifier p else rice_kmodifier p)
        in and_then (entropy_decode_value (readSampleSize p) k 0xFFFFFFFF (reader st)) (\<lambda>(d, s).
          (let d = d + signModifier st; i = outputCount st in
           if length (outputBuffer st) \<le> i then Inl Write_Overrun
           else
             (let st = st\<lparr>outputBuffer := (outputBuffer st)[i := signed_half d], reader := s,
                          history := next_history (history st) d (rice_historymult p),
                          signModifier := 0, outputCount := i + 1\<rparr>
              in if sint (history st) < 128 \<and> i + 1 < outputSize p then zero_block p st
                 else Inr st)))))"

text \<open>Every sample takes at least one place, so as many turns as there are samples are enough.\<close>

fun rice_samples :: "nat \<Rightarrow> rice_params \<Rightarrow> rice_state \<Rightarrow> rice_state res" where
  "rice_samples 0 p st = Inr st"
| "rice_samples (Suc fuel) p st =
     (if outputCount st < outputSize p then and_then (rice_sample p st) (rice_samples fuel p)
      else Inr st)"

definition entropy_rice_decode ::
  "rice_params \<Rightarrow> u32 \<Rightarrow> u32 list \<Rightarrow> bitreader \<Rightarrow> (u32 list \<times> bitreader) res" where
  "entropy_rice_decode p rice_initialhistory buf s =
     and_then (rice_samples (outputSize p) p
        \<lparr>outputCount = 0, history = rice_initialhistory, signModifier = 0, outputBuffer = buf, reader = s\<rparr>)
       (\<lambda>st. Inr (outputBuffer st, reader st))"

end
