(* ===== verification/Alac_Entropy.thy ===== *)
theory Alac_Entropy
  imports Alac_Bits
begin

text \<open>
  What the bit reader and the entropy decoder compute: the reader delivers the bits of the
  packet in order, and the decoder is the inverse of the adaptive Rice coder written here,
  which is the one an ALAC encoder uses.
\<close>

section \<open>The bits of a packet\<close>

definition bits_of_byte :: "u8 \<Rightarrow> bool list" where
  "bits_of_byte b = map (\<lambda>i. bit b (7 - i)) [0..<8]"

definition bits_of :: "u8 list \<Rightarrow> bool list" where
  "bits_of bs = concat (map bits_of_byte bs)"

definition val :: "bool list \<Rightarrow> nat" where
  "val xs = foldl (\<lambda>a b. 2 * a + of_bool b) 0 xs"

definition bitpos :: "bitreader \<Rightarrow> int" where
  "bitpos s = 8 * byte_pos s + bitaccumulator s"

definition reader_ok :: "bitreader \<Rightarrow> bool" where
  "reader_ok s \<longleftrightarrow> 0 \<le> byte_pos s \<and> 0 \<le> bitaccumulator s \<and> bitaccumulator s < 8"

text \<open>The bits that are left, which the reader is said to be at.\<close>

definition bits_left :: "bitreader \<Rightarrow> bool list" where
  "bits_left s = drop (nat (bitpos s)) (bits_of (inbuf s))"

definition moved :: "nat \<Rightarrow> bitreader \<Rightarrow> bitreader" where
  "moved n s = move_bits (int n) s"

lemma val_simps [simp]: "val [] = 0" "val (xs @ [b]) = 2 * val xs + of_bool b"
  by (simp_all add: val_def)

lemma val_append: "val (xs @ ys) = val xs * 2 ^ length ys + val ys"
proof (induction ys rule: rev_induct)
  case (snoc y ys)
  then show ?case by (simp add: algebra_simps flip: append_assoc)
qed simp

lemma val_Cons: "val (b # xs) = of_bool b * 2 ^ length xs + val xs"
  using val_append [of "[b]" xs] val_simps(2) [of "[]" b] by simp

lemma val_less: "val xs < 2 ^ length xs"
  by (induction xs) (auto simp: val_Cons)

lemma val_take: "n \<le> length xs \<Longrightarrow> val (take n xs) = val xs div 2 ^ (length xs - n)"
  using val_append [of "take n xs" "drop n xs"] val_less [of "drop n xs"] by simp

lemma val_drop: "n \<le> length xs \<Longrightarrow> val (drop n xs) = val xs mod 2 ^ (length xs - n)"
  using val_append [of "take n xs" "drop n xs"] val_less [of "drop n xs"] by simp

lemma val_replicate_False [simp]: "val (replicate n False) = 0"
  by (induction n) (simp_all add: val_Cons)

text \<open>A number on a given count of bits, most significant first.\<close>

definition to_bits :: "nat \<Rightarrow> nat \<Rightarrow> bool list" where
  "to_bits n x = map (\<lambda>i. odd (x div 2 ^ (n - 1 - i))) [0..<n]"

lemma length_to_bits [simp]: "length (to_bits n x) = n"
  by (simp add: to_bits_def)

lemma to_bits_Suc: "to_bits (Suc n) x = to_bits n (x div 2) @ [odd x]"
proof -
  have "\<And>i. i < n \<Longrightarrow> odd (x div 2 ^ (n - i)) = odd (x div 2 div 2 ^ (n - 1 - i))"
    by (metis Suc_diff_Suc diff_Suc_1' diff_diff_left div_mult2_eq plus_1_eq_Suc power_Suc)
  then show ?thesis by (auto simp: to_bits_def)
qed

lemma val_to_bits [simp]: "val (to_bits n x) = x mod 2 ^ n"
proof (induction n arbitrary: x)
  case 0
  then show ?case by (simp add: to_bits_def)
next
  case (Suc n)
  show ?case
    by (simp add: to_bits_Suc Suc mod_mult2_eq [of x 2] of_bool_odd_eq_mod_2)
qed

lemma length_bits_of_byte [simp]: "length (bits_of_byte b) = 8"
  by (simp add: bits_of_byte_def)

lemma length_bits_of [simp]: "length (bits_of bs) = 8 * length bs"
  by (induction bs) (simp_all add: bits_of_def)

lemma bits_of_simps [simp]:
  "bits_of [] = []" "bits_of (b # bs) = bits_of_byte b @ bits_of bs"
  by (simp_all add: bits_of_def)

lemma drop_bits_of: "drop (8 * n) (bits_of bs) = bits_of (drop n bs)"
proof (induction n arbitrary: bs)
  case (Suc n)
  show ?case
  proof (cases bs)
    case (Cons b bs')
    then show ?thesis using Suc by (simp flip: drop_drop)
  qed simp
qed simp

lemma odd_unat_div: "odd (unat b div 2 ^ j) \<longleftrightarrow> bit b j"
  for b :: "'a::len word"
  by (simp flip: bit_iff_odd add: bit_unsigned_iff)

lemma bits_of_byte_eq: "bits_of_byte b = to_bits 8 (unat b)"
  by (simp add: bits_of_byte_def to_bits_def odd_unat_div)

lemma val_bits_of_byte [simp]: "val (bits_of_byte b) = unat b"
  using unsigned_less [of b, where ?'a = nat] by (simp add: bits_of_byte_eq)

section \<open>Reading\<close>

lemma moved_simps [simp]:
  assumes "reader_ok s"
  shows "inbuf (moved n s) = inbuf s" "bitpos (moved n s) = bitpos s + int n" "reader_ok (moved n s)"
  using assms by (auto simp: moved_def move_bits_def bitpos_def reader_ok_def Let_def)

lemma bitpos_nonneg: "reader_ok s \<Longrightarrow> 0 \<le> bitpos s"
  by (simp add: reader_ok_def bitpos_def)

lemma bits_left_moved [simp]: "reader_ok s \<Longrightarrow> bits_left (moved n s) = drop n (bits_left s)"
  using bitpos_nonneg [of s] by (simp add: bits_left_def nat_add_distrib add.commute)

lemma move_bits_move_bits: "move_bits b (move_bits a s) = move_bits (a + b) s"
proof -
  have "x + (a + b) = ((x + a) mod 8 + b) + 8 * ((x + a) div 8)" for x
    using mult_div_mod_eq [of 8 "x + a"] by linarith
  then have "(x + a) div 8 + ((x + a) mod 8 + b) div 8 = (x + (a + b)) div 8" for x
    by (metis add.commute div_mult_self2 zero_neq_numeral)
  moreover have "((x + a) mod 8 + b) mod 8 = (x + (a + b)) mod 8" for x
    by (simp add: mod_add_left_eq add.assoc)
  ultimately show ?thesis by (simp add: move_bits_def Let_def add.assoc)
qed

lemma moved_moved [simp]: "moved m (moved n s) = moved (n + m) s"
  by (simp add: moved_def move_bits_move_bits)

lemma moved_0 [simp]: "reader_ok s \<Longrightarrow> moved 0 s = s"
  by (simp add: moved_def move_bits_def reader_ok_def)

lemma unread_moved:
  assumes "0 < n"
  shows "unreadbits 1 (moved n s) = moved (n - 1) s"
  using assms by (simp add: moved_def unreadbits_def move_bits_move_bits of_nat_diff)

text \<open>The bits from the reader's byte on.\<close>

lemma bits_left_split:
  assumes "reader_ok s" "nat (byte_pos s) + 3 \<le> length (inbuf s)"
  defines "i \<equiv> nat (byte_pos s)"
  shows "bits_left s = drop (nat (bitaccumulator s))
           (bits_of_byte (inbuf s ! i) @ bits_of_byte (inbuf s ! (i + 1)) @ bits_of_byte (inbuf s ! (i + 2)))
           @ bits_of (drop (i + 3) (inbuf s))"
proof -
  have d: "drop i (inbuf s) = inbuf s ! i # inbuf s ! (i + 1) # inbuf s ! (i + 2) # drop (i + 3) (inbuf s)"
    using assms(2) unfolding i_def [symmetric]
    by (simp add: Cons_nth_drop_Suc [of i] Cons_nth_drop_Suc [of "Suc i"]
        Cons_nth_drop_Suc [of "Suc (Suc i)"] numeral_3_eq_3)
  have "nat (bitpos s) = nat (bitaccumulator s) + 8 * i" "nat (bitaccumulator s) < 8"
    using assms(1) by (auto simp: bitpos_def reader_ok_def i_def nat_add_distrib nat_mult_distrib)
  then show ?thesis
    by (simp add: bits_left_def drop_bits_of d flip: drop_drop)
qed

lemma bytes24:
  fixes a b c :: u8
  shows "unat (push_bit 16 (ucast a) OR push_bit 8 (ucast b) OR ucast c :: u32)
           = unat a * 2 ^ 16 + unat b * 2 ^ 8 + unat c"
proof -
  have u: "unat a < 256" "unat b < 256" "unat c < 256"
    using unsigned_less [of a, where ?'a = nat] unsigned_less [of b, where ?'a = nat]
      unsigned_less [of c, where ?'a = nat] by simp_all
  have "push_bit 8 (ucast b) AND ucast c = (0::u32)"
    by (rule bit_word_eqI) (auto simp: bit_simps dest: bit_imp_le_length)
  moreover have "push_bit 16 (ucast a) AND (push_bit 8 (ucast b) OR ucast c) = (0::u32)"
    by (rule bit_word_eqI) (auto simp: bit_simps dest: bit_imp_le_length)
  ultimately have "push_bit 16 (ucast a) OR push_bit 8 (ucast b) OR ucast c
      = (push_bit 16 (ucast a) + (push_bit 8 (ucast b) + ucast c) :: u32)"
    by (metis disjunctive_add_eq_or)
  also have "unat \<dots> = unat a * 2 ^ 16 + unat b * 2 ^ 8 + unat c"
    using u by (simp add: push_bit_eq_mult unat_word_ariths unsigned_ucast_eq take_bit_nat_eq_self)
  finally show ?thesis .
qed

text \<open>Bits \<open>a\<close> to \<open>a + n\<close> of 24, the way the C code cuts them out and the way they are defined.\<close>

lemma cut_24:
  fixes w :: u32
  assumes "a < 8" "n + a \<le> 24" "unat w < 2 ^ 24"
  shows "unat (drop_bit (24 - n) (push_bit a w AND 0x00ffffff))
           = unat w mod 2 ^ (24 - a) div 2 ^ (24 - a - n)"
proof -
  have m: "(0x00ffffff :: u32) = mask 24" by (simp add: mask_eq_exp_minus_1)
  have p: "unat w * 2 ^ a < 2 ^ 32"
  proof -
    have "(2::nat) ^ a < 2 ^ 8" using assms(1) by (rule power_strict_increasing) simp
    then have "unat w * 2 ^ a < 2 ^ 24 * 2 ^ 8"
      by (rule mult_strict_mono [OF assms(3)]) simp_all
    then show ?thesis by simp
  qed
  have "unat (push_bit a w) = unat w * 2 ^ a"
    unfolding unsigned_push_bit_eq using p by (simp add: push_bit_eq_mult take_bit_nat_eq_self)
  moreover have "push_bit a w AND 0x00ffffff = take_bit 24 (push_bit a w)"
    by (simp only: m take_bit_eq_mask)
  ultimately have "unat (push_bit a w AND 0x00ffffff) = unat w * 2 ^ a mod 2 ^ 24"
    by (metis unsigned_take_bit_eq take_bit_eq_mod)
  also have "(2::nat) ^ 24 = 2 ^ (24 - a) * 2 ^ a"
    using assms(1) by (simp flip: power_add)
  finally have "unat (push_bit a w AND 0x00ffffff) = unat w mod 2 ^ (24 - a) * 2 ^ a"
    by (simp only: mult_mod_left)
  moreover have "(2::nat) ^ (24 - n) = 2 ^ (24 - a - n) * 2 ^ a"
    using assms(2) by (simp flip: power_add)
  ultimately show ?thesis
    unfolding unat_drop_bit_eq by (simp add: drop_bit_eq_div)
qed

lemma readbits_16_correct:
  assumes ok: "reader_ok s" and n: "n \<le> 16" and room: "24 \<le> length (bits_left s)"
  shows "readbits_16 (int n) s = Inr (of_nat (val (take n (bits_left s))), moved n s)"
proof -
  let ?a = "nat (bitaccumulator s)" and ?i = "nat (byte_pos s)"
  have a: "?a < 8" "0 \<le> bitaccumulator s" using ok by (auto simp: reader_ok_def)
  have "nat (bitpos s) + 24 \<le> 8 * length (inbuf s)"
    using room by (simp add: bits_left_def)
  then have i: "?i + 3 \<le> length (inbuf s)" "0 \<le> byte_pos s"
    using ok by (auto simp: bitpos_def reader_ok_def nat_add_distrib nat_mult_distrib)
  let ?w = "push_bit 16 (ucast (inbuf s ! ?i)) OR push_bit 8 (ucast (inbuf s ! (?i + 1)))
              OR ucast (inbuf s ! (?i + 2)) :: u32"
  let ?b = "bits_of_byte (inbuf s ! ?i) @ bits_of_byte (inbuf s ! (?i + 1)) @ bits_of_byte (inbuf s ! (?i + 2))"
  have w: "unat ?w = val ?b"
    unfolding bytes24 by (simp add: val_append algebra_simps)
  have "val ?b < 2 ^ 24" using val_less [of ?b] by simp
  then have "unat (drop_bit (24 - n) (push_bit ?a ?w AND 0x00ffffff))
      = val ?b mod 2 ^ (24 - ?a) div 2 ^ (24 - ?a - n)"
    using cut_24 [of ?a n ?w] a n w by simp
  also have "\<dots> = val (take n (drop ?a ?b))"
  proof -
    have "n \<le> 24 - ?a" "?a \<le> 24" using a n by linarith+
    then show ?thesis
      using val_take [of n "drop ?a ?b"] val_drop [of ?a ?b] by (simp del: drop_append)
  qed
  also have "take n (drop ?a ?b) = take n (bits_left s)"
    using a n by (subst bits_left_split [OF ok i(1)]) simp
  finally have "drop_bit (24 - n) (push_bit ?a ?w AND 0x00ffffff) = of_nat (val (take n (bits_left s)))"
    by (rule word_eq_of_nat)
  moreover have "nat (24 - int n) = 24 - n" using n by simp
  ultimately show ?thesis
    using i n by (simp add: readbits_16_def moved_def Let_def)
qed

lemma readbits_correct:
  assumes ok: "reader_ok s" and n: "n \<le> 32" and room: "n + 24 \<le> length (bits_left s)"
  shows "readbits (int n) s = Inr (of_nat (val (take n (bits_left s))), moved n s)"
proof (cases "n \<le> 16")
  case True
  then show ?thesis using readbits_16_correct [of s n] assms by (simp add: readbits_def)
next
  case False
  define m where "m = n - 16"
  let ?x = "take 16 (bits_left s)" and ?y = "take m (drop 16 (bits_left s))"
  have m: "m \<le> 16" "int n - 16 = int m" "n = 16 + m" using False n by (auto simp: m_def)
  have low: "readbits_16 (int m) (moved 16 s) = Inr (of_nat (val ?y), moved n s)"
    using readbits_16_correct [of "moved 16 s" m] ok room m by simp
  have high: "readbits_16 16 s = Inr (of_nat (val ?x), moved 16 s)"
    using readbits_16_correct [of s 16] ok room by simp
  have y: "val ?y < 2 ^ m" using val_less [of ?y] room m by simp
  have "push_bit m (of_nat (val ?x)) AND of_nat (val ?y) = (0 :: u32)"
  proof (rule bit_word_eqI)
    fix j
    have "bit (val ?y) j \<Longrightarrow> j < m"
      using y by (metis take_bit_nat_eq_self bit_take_bit_iff)
    then show "bit (push_bit m (of_nat (val ?x)) AND of_nat (val ?y) :: u32) j = bit (0::u32) j"
      by (auto simp: bit_simps)
  qed
  then have "push_bit m (of_nat (val ?x)) OR of_nat (val ?y)
      = (push_bit m (of_nat (val ?x)) + of_nat (val ?y) :: u32)"
    by (metis disjunctive_add_eq_or)
  also have "\<dots> = of_nat (val ?x * 2 ^ m + val ?y)"
    by (simp add: push_bit_eq_mult)
  also have "val ?x * 2 ^ m + val ?y = val (take n (bits_left s))"
    using val_append [of ?x ?y] room m by (simp add: take_add)
  finally show ?thesis
    using m high low by (simp add: readbits_def)
qed

lemma readbit_correct:
  assumes ok: "reader_ok s" and left: "bits_left s = b # bs"
  shows "readbit s = Inr (b, moved 1 s)"
proof -
  let ?i = "nat (byte_pos s)" and ?a = "nat (bitaccumulator s)"
  have a: "?a < 8" using ok by (auto simp: reader_ok_def)
  have p: "nat (bitpos s) = 8 * ?i + ?a"
    using ok by (auto simp: bitpos_def reader_ok_def nat_add_distrib nat_mult_distrib)
  have "nat (bitpos s) < 8 * length (inbuf s)"
    using left by (metis bits_left_def drop_eq_Nil2 length_bits_of list.distinct(1) not_le)
  then have i: "?i < length (inbuf s)" using p by simp
  have "bits_of (drop ?i (inbuf s)) = bits_of_byte (inbuf s ! ?i) @ bits_of (drop (Suc ?i) (inbuf s))"
    using i by (simp flip: Cons_nth_drop_Suc)
  then have "b # bs = drop ?a (bits_of_byte (inbuf s ! ?i)) @ bits_of (drop (Suc ?i) (inbuf s))"
    using left a p by (simp add: bits_left_def add.commute drop_bits_of flip: drop_drop)
  then have "b = bits_of_byte (inbuf s ! ?i) ! ?a"
    using a by (metis Cons_nth_drop_Suc append_Cons length_bits_of_byte list.inject)
  also have "\<dots> = bit (inbuf s ! ?i) (7 - ?a)"
    using a by (simp add: bits_of_byte_def)
  also have "\<dots> = bit (push_bit ?a (ucast (inbuf s ! ?i) :: u32)) 7"
    using a by (auto simp: bit_simps)
  finally show ?thesis
    using i ok by (simp add: readbit_def moved_def Let_def reader_ok_def)
qed

section \<open>Leading zeros\<close>

fun ilog2 :: "nat \<Rightarrow> nat" where
  "ilog2 n = (if n < 2 then 0 else Suc (ilog2 (n div 2)))"

declare ilog2.simps [simp del]

lemma ilog2_bounds: "0 < n \<Longrightarrow> 2 ^ ilog2 n \<le> n \<and> n < 2 ^ Suc (ilog2 n)"
proof (induction n rule: ilog2.induct)
  case (1 n)
  show ?case
  proof (cases "n < 2")
    case False
    then have "2 ^ ilog2 (n div 2) \<le> n div 2 \<and> n div 2 < 2 ^ Suc (ilog2 (n div 2))"
      using 1 by simp
    then have b: "2 ^ ilog2 (n div 2) \<le> n div 2" "n div 2 < 2 * 2 ^ ilog2 (n div 2)" by simp_all
    have "2 * (n div 2) \<le> n" "n < 2 * Suc (n div 2)" by presburger+
    then have "2 * 2 ^ ilog2 (n div 2) \<le> n" "n < 2 * (2 * 2 ^ ilog2 (n div 2))"
      using b by linarith+
    moreover have "ilog2 n = Suc (ilog2 (n div 2))" using False by (subst ilog2.simps) simp
    ultimately show ?thesis by (simp only: power_Suc)
  next
    case True
    then have "ilog2 n = 0" by (subst ilog2.simps) simp
    then show ?thesis using 1(2) True by simp
  qed
qed

lemma ilog2_unique: "2 ^ m \<le> n \<Longrightarrow> n < 2 ^ Suc m \<Longrightarrow> ilog2 n = m"
proof -
  assume n: "2 ^ m \<le> n" "n < 2 ^ Suc m"
  then have "0 < n" by (metis less_le_trans zero_less_numeral zero_less_power)
  then have l: "2 ^ ilog2 n \<le> n" "n < 2 ^ Suc (ilog2 n)" using ilog2_bounds by auto
  then have "(2::nat) ^ ilog2 n < 2 ^ Suc m" "(2::nat) ^ m < 2 ^ Suc (ilog2 n)"
    using n by linarith+
  then have "ilog2 n < Suc m" "m < Suc (ilog2 n)"
    by (auto intro: power_less_imp_less_exp [of "2::nat", rotated] simp del: power_Suc)
  then show ?thesis by simp
qed

lemma ilog2_less: "0 < n \<Longrightarrow> n < 2 ^ m \<Longrightarrow> ilog2 n < m"
  using ilog2_bounds [of n] power_less_imp_less_exp [of "2::nat" "ilog2 n" m] by linarith

text \<open>The count stops at the highest bit.\<close>

lemma clz_ilog2: "x \<noteq> 0 \<Longrightarrow> clz x = Inr (31 - int (ilog2 (unat x)))"
proof -
  assume x: "x \<noteq> 0"
  let ?m = "ilog2 (unat x)"
  have b: "2 ^ ?m \<le> unat x" "unat x < 2 ^ Suc ?m"
    using ilog2_bounds [of "unat x"] x by (simp_all add: unat_gt_0)
  have m: "?m < 32" using ilog2_less [of "unat x" 32] unat_u32 [of x] x by (simp add: unat_gt_0)
  have top: "bit x ?m"
  proof -
    have "unat x div 2 ^ ?m = 1" using b by (simp add: div_nat_eqI)
    then show ?thesis by (simp flip: odd_unat_div)
  qed
  have above: "\<not> bit x j" if "?m < j" for j
  proof -
    have "unat x < 2 ^ j"
      using b(2) that by (meson less_le_trans Suc_leI one_le_numeral power_increasing)
    then show ?thesis by (simp flip: odd_unat_div)
  qed
  have "takeWhile (\<lambda>i. \<not> bit x (31 - i)) [0..<32] = [0..<31 - ?m]"
  proof -
    have "[0..<32] = [0..<31 - ?m] @ (31 - ?m) # [Suc (31 - ?m)..<32]"
      using m upt_add_eq_append [of 0 "31 - ?m" "Suc ?m"] by (simp add: upt_conv_Cons)
    moreover have "takeWhile (\<lambda>i. \<not> bit x (31 - i)) ([0..<31 - ?m] @ ys)
        = [0..<31 - ?m] @ takeWhile (\<lambda>i. \<not> bit x (31 - i)) ys" for ys
      by (rule takeWhile_append2) (use above m in simp)
    moreover have "31 - (31 - ?m) = ?m" using m by simp
    ultimately show ?thesis
      using top by simp
  qed
  then show ?thesis using x m by (simp add: clz_def)
qed

section \<open>One Rice code\<close>

text \<open>
  The encoder's side: \<open>x\<close> with parameter \<open>k\<close> and divisor \<open>m\<close>, or as it is on \<open>n\<close> bits
  when the quotient is above the threshold.
\<close>

definition rice_code :: "nat \<Rightarrow> nat \<Rightarrow> nat \<Rightarrow> nat \<Rightarrow> bool list" where
  "rice_code n k m x =
     (let q = x div m; r = x mod m in
      if RICE_THRESHOLD < q then replicate (Suc RICE_THRESHOLD) True @ to_bits n x
      else replicate q True @ [False]
             @ (if k = 1 then [] else if r = 0 then replicate (k - 1) False else to_bits k (r + 1)))"

lemma rice_prefix_correct:
  assumes "reader_ok s" "bits_left s = replicate q True @ bs"
    and "q < n \<and> (\<exists>bs'. bs = False # bs') \<or> q = n"
  shows "rice_prefix n s = Inr (q, moved (if q < n then Suc q else n) s)"
  using assms
proof (induction n arbitrary: s q)
  case 0
  then show ?case by auto
next
  case (Suc n)
  show ?case
  proof (cases q)
    case 0
    then obtain bs' where "bits_left s = False # bs'" using Suc.prems by auto
    then show ?thesis using readbit_correct [OF Suc.prems(1), of False bs'] 0 by simp
  next
    case (Suc p)
    have b: "bits_left s = True # replicate p True @ bs"
      using Suc.prems Suc by simp
    have "rice_prefix n (moved 1 s) = Inr (p, moved (if p < n then Suc p else n) (moved 1 s))"
      by (rule Suc.IH) (use Suc.prems Suc b in auto)
    then show ?thesis using readbit_correct [OF Suc.prems(1) b] Suc by simp
  qed
qed

lemma unat_of_nat_32: "x < 2 ^ 32 \<Longrightarrow> unat (of_nat x :: u32) = x"
  by (simp add: unsigned_of_nat take_bit_nat_eq_self)

lemma exp_minus_one_32: "k < 32 \<Longrightarrow> (push_bit k 1 - 1 :: u32) = of_nat (2 ^ k - 1)"
  by (simp add: push_bit_eq_mult of_nat_diff)

lemma rice_code_raw:
  assumes ok: "reader_ok s" and left: "bits_left s = rice_code n k m x @ bs" and room: "24 \<le> length bs"
    and n: "0 < n" "n \<le> 32" "x < 2 ^ n" and q: "RICE_THRESHOLD < x div m"
  shows "entropy_decode_value (int n) K msk s = Inr (of_nat x, moved (length (rice_code n k m x)) s)"
proof -
  let ?t = "moved 9 s"
  have b: "bits_left s = replicate 9 True @ (to_bits n x @ bs)"
    using left q by (simp add: rice_code_def RICE_THRESHOLD_def Let_def)
  have "rice_prefix (Suc RICE_THRESHOLD) s = Inr (9, ?t)"
    using rice_prefix_correct [OF ok b, of 9] by (simp add: RICE_THRESHOLD_def)
  moreover have "bits_left ?t = to_bits n x @ bs" using ok b by simp
  then have "readbits (int n) ?t = Inr (of_nat x, moved (9 + n) s)"
    using readbits_correct [of ?t n] ok n room by (simp add: take_bit_nat_eq_self)
  moreover have "(of_nat x :: u32) AND drop_bit (nat (32 - int n)) 0xffffffff = of_nat x"
  proof -
    have "(0xffffffff :: u32) = mask 32" by (simp add: mask_eq_exp_minus_1)
    moreover have "drop_bit (nat (32 - int n)) (mask 32) = (mask n :: u32)"
      using n(1,2) by (auto intro!: bit_word_eqI simp: bit_simps)
    ultimately have "drop_bit (nat (32 - int n)) 0xffffffff = (mask n :: u32)" by simp
    moreover have "take_bit n (of_nat x :: u32) = of_nat x"
      using n(3) by (simp add: take_bit_of_nat take_bit_nat_eq_self)
    ultimately show ?thesis by (simp flip: take_bit_eq_mask)
  qed
  moreover have "length (rice_code n k m x) = 9 + n"
    using q by (simp add: rice_code_def RICE_THRESHOLD_def Let_def)
  ultimately show ?thesis using n by (simp add: entropy_decode_value_def RICE_THRESHOLD_def)
qed

text \<open>A code that is not raw: the quotient in unary, and the rest on \<open>k\<close> or \<open>k - 1\<close> bits.\<close>

lemma rice_code_split:
  assumes ok: "reader_ok s" and left: "bits_left s = rice_code n k m x @ bs" and room: "25 \<le> length bs"
    and k: "0 < k" "k < 32" and m: "of_nat m = (push_bit k 1 - 1) AND msk" "0 < m" "m < 2 ^ k"
    and q: "x div m \<le> RICE_THRESHOLD"
  shows "entropy_decode_value sz (int k) msk s = Inr (of_nat x, moved (length (rice_code n k m x)) s)"
proof -
  let ?q = "x div m" and ?r = "x mod m"
  let ?t = "moved (Suc ?q) s"
  define tl where "tl = (if k = 1 then [] else if ?r = 0 then replicate (k - 1) False else to_bits k (?r + 1))"
  have code: "rice_code n k m x = replicate ?q True @ [False] @ tl"
    using q by (simp add: rice_code_def tl_def Let_def)
  have b: "bits_left s = replicate ?q True @ False # tl @ bs" using left code by simp
  have "rice_prefix (Suc RICE_THRESHOLD) s = Inr (?q, ?t)"
    using rice_prefix_correct [OF ok b, of "Suc RICE_THRESHOLD"] q by simp
  then have pre: "rice_prefix (Suc RICE_THRESHOLD) s = Inr (x div m, moved (Suc (x div m)) s)" .
  have t: "bits_left ?t = tl @ bs" "reader_ok ?t" using ok b by simp_all
  have len: "length (rice_code n k m x) = Suc ?q + length tl" using code by simp
  show ?thesis
  proof (cases "k = 1")
    case True
    then have "m = 1" using m by simp
    then show ?thesis
      using True pre q len by (simp add: entropy_decode_value_def tl_def)
  next
    case False
    have rd: "readbits (int k) ?t = Inr (of_nat (val (take k (tl @ bs))), moved (Suc ?q + k) s)"
      using readbits_correct [of ?t k] t k False room by (simp add: tl_def split: if_splits)
    show ?thesis
    proof (cases "?r = 0")
      case True
      obtain b bs' where bs: "bs = b # bs'" using room by (cases bs) auto
      have v: "val (take k (tl @ bs)) = of_bool b"
        using True False k by (simp add: tl_def bs take_Cons' val_append val_Cons)
      have "sint (of_nat (of_bool b) :: u32) \<le> 1" by (cases b) simp_all
      moreover have "x = x div m * m" using True by (metis add_0_right div_mult_mod_eq)
      ultimately show ?thesis
        using True False pre rd v k q len m(1) [symmetric]
        by (simp add: entropy_decode_value_def tl_def unread_moved of_nat_mult [symmetric] del: of_nat_mult)
    next
      case nz: False
      have r: "?r + 1 < 2 ^ k" using m(3) mod_less_divisor [OF m(2), of x] by linarith
      then have v: "val (take k (tl @ bs)) = ?r + 1"
        using nz False by (simp add: tl_def)
      have "(2::nat) ^ k \<le> 2 ^ 31" using k by (intro power_increasing) simp_all
      then have "sint (of_nat (?r + 1) :: u32) = int (?r + 1)"
        using r by (intro sint_of_nat_32) linarith
      moreover have "of_nat (x div m) * of_nat m + (of_nat (?r + 1) - 1) = (of_nat x :: u32)"
        by (simp flip: of_nat_mult of_nat_add)
      ultimately show ?thesis
        using nz False pre rd v k q len m(1) [symmetric]
        by (simp add: entropy_decode_value_def tl_def)
    qed
  qed
qed

lemmas rice_value_roundtrip = rice_code_raw rice_code_split

section \<open>The adaptive coder\<close>

text \<open>Samples as numbers, with the sign in the low bit.\<close>

definition zigzag :: "int \<Rightarrow> nat" where
  "zigzag x = (if 0 \<le> x then nat (2 * x) else nat (- 2 * x - 1))"

definition coder_k :: "nat \<Rightarrow> nat \<Rightarrow> nat" where
  "coder_k kmod h = min (ilog2 (h div 512 + 3)) kmod"

definition coder_zero_k :: "nat \<Rightarrow> nat" where
  "coder_zero_k h = 7 - ilog2 h + (h + 16) div 64"

definition coder_history :: "nat \<Rightarrow> nat \<Rightarrow> nat \<Rightarrow> nat" where
  "coder_history mult h d = (if 0xFFFF < d then 0xFFFF else h + d * mult - h * mult div 512)"

text \<open>
  The codes of a channel, for samples of \<open>n\<close> bits. A sample that follows a run of zeros is not
  zero itself, so its code is one less.
\<close>

function rice_encode :: "nat \<Rightarrow> nat \<Rightarrow> nat \<Rightarrow> nat \<Rightarrow> nat \<Rightarrow> int list \<Rightarrow> bool list" where
  "rice_encode n kmod mult h sm [] = []"
| "rice_encode n kmod mult h sm (x # xs) =
     (let d = zigzag x; k = coder_k kmod h; h' = coder_history mult h d;
          z = length (takeWhile (\<lambda>x. x = 0) xs); k' = coder_zero_k h'
      in rice_code n k (2 ^ k - 1) (d - sm)
         @ (if h' < 128 \<and> xs \<noteq> []
            then rice_code 16 k' (2 ^ min k' kmod - 1) z @ rice_encode n kmod mult 0 1 (drop z xs)
            else rice_encode n kmod mult h' 0 xs))"
  by pat_completeness auto
termination by (relation "measure (\<lambda>(_, _, _, _, _, xs). length xs)") auto

text \<open>The history stays positive and below \<open>2\<^sup>2\<^sup>5\<close>, so that nothing wraps in the decoder.\<close>

definition history_ok :: "nat \<Rightarrow> nat \<Rightarrow> bool" where
  "history_ok h sm \<longleftrightarrow> h \<le> 2 ^ 25 \<and> (sm = 0 \<and> 0 < h \<or> sm = 1)"

lemma coder_history_bounds:
  assumes "history_ok h sm" "0 < mult" "mult < 64" "sm \<le> d"
  shows "0 < coder_history mult h d" "coder_history mult h d \<le> 2 ^ 25"
proof -
  define r where "r = h * mult div 512"
  have r: "512 * r \<le> h * mult" "h * mult < 512 * r + 512" 
  proof -
    show "512 * r \<le> h * mult" unfolding r_def by (rule times_div_less_eq_dividend)
    show "h * mult < 512 * r + 512"
      using dividend_less_div_times [of 512 "h * mult"] unfolding r_def by linarith
  qed
  have hm: "h * mult \<le> h * 63" using assms by (intro mult_left_mono) auto
  have "8 * r \<le> h" using r hm by linarith
  then have rh: "r \<le> h" "0 < h \<Longrightarrow> r < h" by linarith+
  show "0 < coder_history mult h d"
  proof (cases "h = 0")
    case True
    then have "0 < d * mult" using assms by (auto simp: history_ok_def)
    then show ?thesis using True by (simp add: coder_history_def)
  next
    case False
    then show ?thesis using rh by (simp add: coder_history_def flip: r_def)
  qed
  show "coder_history mult h d \<le> 2 ^ 25"
  proof (cases "0xFFFF < d")
    case False
    have d: "d * mult \<le> 65535 * mult" using False by (intro mult_right_mono) auto
    obtain g where g: "2 ^ 25 = h + g" using assms(1) by (metis history_ok_def le_Suc_ex)
    have "512 * (65536 * mult) = (h + g) * mult" using g by simp
    also have "\<dots> \<le> 512 * r + 512 + g * mult" using r by (simp add: algebra_simps)
    also have "g * mult \<le> g * 512" using assms by (intro mult_left_mono) auto
    finally have "512 * (65536 * mult) \<le> 512 * r + 512 + 512 * g" by linarith
    then have "65536 * mult \<le> r + 1 + g" by linarith
    then have "d * mult \<le> r + g" using d assms(2) by linarith
    then have "h + d * mult - r \<le> 2 ^ 25" using g by linarith
    then show ?thesis using False by (simp add: coder_history_def flip: r_def)
  qed (simp add: coder_history_def)
qed

text \<open>The word arithmetic of the decoder, on the coder's numbers.\<close>

lemma signed_drop_bit_of_nat:
  assumes "x < 2 ^ 31"
  shows "signed_drop_bit n (of_nat x :: u32) = of_nat (x div 2 ^ n)"
proof -
  have "x div 2 ^ n < 2 ^ 31" using assms by (meson div_le_dividend le_less_trans)
  then have "sint (signed_drop_bit n (of_nat x :: u32)) = sint (of_nat (x div 2 ^ n) :: u32)"
    using assms by (simp add: sint_signed_drop_bit_eq sint_of_nat_32 drop_bit_eq_div zdiv_int)
  then show ?thesis by (simp only: signed_word_eqI)
qed

lemma next_history_correct:
  assumes "history_ok h sm" "0 < mult" "mult < 64" "d < 2 ^ 31"
  shows "next_history (of_nat h) (of_nat d) (of_nat mult) = of_nat (coder_history mult h d)"
proof (cases "0xFFFF < d")
  case True
  then show ?thesis using assms(4) by (simp add: next_history_def coder_history_def sint_of_nat_32)
next
  case False
  have "h * mult \<le> 2 ^ 25 * 63" using assms by (intro mult_mono) (auto simp: history_ok_def)
  then have "h * mult < 2 ^ 31" by simp
  then have "signed_drop_bit 9 (of_nat h * of_nat mult :: u32) = of_nat (h * mult div 512)"
    using signed_drop_bit_of_nat [of "h * mult" 9] by simp
  moreover have "h * mult div 512 \<le> h + d * mult"
  proof -
    have "h * mult div 512 \<le> h * 512 div 512"
      using assms(3) by (intro div_le_mono mult_left_mono) simp_all
    then show ?thesis by simp
  qed
  ultimately show ?thesis using False assms(4)
    by (simp add: next_history_def coder_history_def sint_of_nat_32 of_nat_diff)
qed

lemma coder_k_correct:
  assumes "h \<le> 2 ^ 25"
  shows "clz (signed_drop_bit 9 (of_nat h) + 3) = Inr (31 - int (ilog2 (h div 512 + 3)))"
proof -
  have "signed_drop_bit 9 (of_nat h :: u32) + 3 = of_nat (h div 512 + 3)"
    using assms signed_drop_bit_of_nat [of h 9] by simp
  moreover have "h div 512 \<le> 2 ^ 25" using assms by (meson div_le_dividend order_trans)
  then have "unat (of_nat (h div 512 + 3) :: u32) = h div 512 + 3"
    by (intro unat_of_nat_32) simp
  ultimately show ?thesis
    using clz_ilog2 [of "of_nat (h div 512 + 3)"] by (metis Zero_not_Suc add_is_0 unat_0 zero_neq_numeral)
qed

lemma coder_zero_k_correct:
  assumes "0 < h" "h < 128"
  shows "\<exists>z. clz (of_nat h) = Inr z \<and> z + sint (of_nat h + 16 :: u32) sdiv 64 - 24 = int (coder_zero_k h)"
    and "0 < coder_zero_k h" "coder_zero_k h < 32"
proof -
  have l: "ilog2 h < 7" using ilog2_less [of h 7] assms by simp
  have u: "unat (of_nat h :: u32) = h" using assms by (intro unat_of_nat_32) simp
  then have "clz (of_nat h) = Inr (31 - int (ilog2 h))"
    using clz_ilog2 [of "of_nat h"] assms by (metis less_irrefl unat_0)
  moreover have "sint (of_nat h + 16 :: u32) = int (h + 16)"
    using sint_of_nat_32 [of "h + 16"] assms by simp
  then have "sint (of_nat h + 16 :: u32) sdiv 64 = int ((h + 16) div 64)"
    by (simp add: sdiv_pos zdiv_int)
  ultimately show "\<exists>z. clz (of_nat h) = Inr z
      \<and> z + sint (of_nat h + 16 :: u32) sdiv 64 - 24 = int (coder_zero_k h)"
    using l by (simp add: coder_zero_k_def of_nat_diff)
  show "0 < coder_zero_k h" "coder_zero_k h < 32"
    using l assms by (simp_all add: coder_zero_k_def)
qed

lemma rice_value:
  assumes "reader_ok s" "bits_left s = rice_code n k m x @ bs" "25 \<le> length bs"
    and "0 < k" "k < 32" "of_nat m = (push_bit k 1 - 1) AND msk" "0 < m" "m < 2 ^ k"
    and "0 < n" "n \<le> 32" "x < 2 ^ n"
  shows "entropy_decode_value (int n) (int k) msk s = Inr (of_nat x, moved (length (rice_code n k m x)) s)"
proof (cases "RICE_THRESHOLD < x div m")
  case True
  show ?thesis by (rule rice_code_raw [OF assms(1,2)]) (use assms True in simp_all)
next
  case False
  then show ?thesis by (intro rice_code_split [OF assms(1-8)]) simp
qed

lemma divisor_correct:
  assumes "0 < k" "k < 32" "0 < kmod" "kmod < 32"
  shows "of_nat (2 ^ min k kmod - 1) = (push_bit k 1 - 1 :: u32) AND of_nat (2 ^ kmod - 1)"
    and "of_nat (2 ^ k - 1) = (push_bit k 1 - 1 :: u32) AND 0xffffffff"
    and "0 < (2::nat) ^ min k kmod - 1" "(2::nat) ^ min k kmod - 1 < 2 ^ k" "0 < (2::nat) ^ k - 1"
proof -
  have m: "of_nat (2 ^ j - 1) = (mask j :: u32)" for j
    by (simp add: of_nat_diff mask_eq_exp_minus_1)
  show "of_nat (2 ^ min k kmod - 1) = (push_bit k 1 - 1 :: u32) AND of_nat (2 ^ kmod - 1)"
    unfolding exp_minus_one_32 [OF assms(2)] m by (rule bit_word_eqI) (auto simp: bit_simps)
  have "(0xffffffff :: u32) = mask 32" by (simp add: mask_eq_exp_minus_1)
  moreover have "mask k = (mask k AND mask 32 :: u32)" by (rule bit_word_eqI) (auto simp: bit_simps)
  ultimately show "of_nat (2 ^ k - 1) = (push_bit k 1 - 1 :: u32) AND 0xffffffff"
    unfolding exp_minus_one_32 [OF assms(2)] m by simp
  have "(1::nat) < 2 ^ min k kmod" "(1::nat) < 2 ^ k" using assms by (auto intro!: one_less_power simp del: One_nat_def)
  moreover have "(2::nat) ^ min k kmod \<le> 2 ^ k" by (intro power_increasing) simp_all
  ultimately show "0 < (2::nat) ^ min k kmod - 1" "(2::nat) ^ min k kmod - 1 < 2 ^ k" "0 < (2::nat) ^ k - 1"
    by linarith+
qed

lemma zigzag_bound: "- (2 ^ (n - 1)) \<le> x \<Longrightarrow> x < 2 ^ (n - 1) \<Longrightarrow> 0 < n \<Longrightarrow> zigzag x < 2 ^ n"
proof -
  assume x: "- (2 ^ (n - 1)) \<le> x" "x < 2 ^ (n - 1)" "0 < n"
  have "(2::int) ^ n = 2 * 2 ^ (n - 1)" using x(3) by (simp flip: power_Suc)
  then have "int (zigzag x) < int (2 ^ n)" using x by (auto simp: zigzag_def)
  then show ?thesis by (simp only: of_nat_less_iff)
qed

lemma signed_half_zigzag:
  assumes "zigzag x < 2 ^ 30"
  shows "signed_half (of_nat (zigzag x)) = word_of_int x"
proof -
  have s: "sint (of_nat (zigzag x) + 1 :: u32) = int (zigzag x + 1)"
    using sint_of_nat_32 [of "zigzag x + 1"] assms by (simp add: add.commute)
  have b: "bit (of_nat (zigzag x) :: u32) 0 \<longleftrightarrow> odd (zigzag x)"
    by (simp add: bit_0)
  show ?thesis
  proof (cases "0 \<le> x")
    case True
    then obtain y where y: "x = int y" by (metis nat_0_le)
    then have "zigzag x = 2 * y" by (simp add: zigzag_def nat_mult_distrib)
    moreover have "(1 + 2 * int y) sdiv 2 = int y" by (simp add: sdiv_pos)
    ultimately show ?thesis using s b y by (simp add: signed_half_def)
  next
    case False
    then obtain y where "zigzag x + 1 = 2 * y" "x = - int y" "zigzag x = 2 * y - 1" "0 < y"
      by (intro that [of "nat (- x)"]) (simp_all add: zigzag_def)
    then show ?thesis using s b by (simp add: signed_half_def sdiv_pos)
  qed
qed

text \<open>What the decoder is set up with, and what its state is against the coder's.\<close>

definition params_ok :: "nat \<Rightarrow> nat \<Rightarrow> nat \<Rightarrow> rice_params \<Rightarrow> bool" where
  "params_ok n kmod mult p \<longleftrightarrow> 0 < n \<and> n \<le> 30 \<and> 0 < kmod \<and> kmod < 32 \<and> 0 < mult \<and> mult < 64
     \<and> readSampleSize p = int n \<and> rice_kmodifier p = int kmod \<and> rice_historymult p = of_nat mult
     \<and> rice_kmodifier_mask p = of_nat (2 ^ kmod - 1)"

definition after_sample :: "int \<Rightarrow> nat \<Rightarrow> nat \<Rightarrow> rice_state \<Rightarrow> rice_state" where
  "after_sample x h' l st =
     st\<lparr>outputBuffer := (outputBuffer st)[outputCount st := word_of_int x], reader := moved l (reader st),
        history := of_nat h', signModifier := 0, outputCount := outputCount st + 1\<rparr>"

lemma rice_sample_correct:
  assumes p: "params_ok n kmod mult p" and h: "history_ok h sm"
    and st: "reader_ok (reader st)" "history st = of_nat h" "signModifier st = of_nat sm"
    and code: "bits_left (reader st) = rice_code n k (2 ^ k - 1) (d - sm) @ bs" "25 \<le> length bs"
    and d: "d = zigzag x" "sm \<le> d" "d < 2 ^ n" "k = coder_k kmod h"
    and room: "outputCount st < length (outputBuffer st)"
  defines "st1 \<equiv> after_sample x (coder_history mult h d) (length (rice_code n k (2 ^ k - 1) (d - sm))) st"
  shows "rice_sample p st = (if coder_history mult h d < 128 \<and> outputCount st + 1 < outputSize p
           then zero_block p st1 else Inr st1)"
proof -
  note p' = p [unfolded params_ok_def]
  have rp: "readSampleSize p = int n" "rice_kmodifier p = int kmod" "rice_historymult p = of_nat mult"
    using p' by simp_all
  have h25: "h \<le> 2 ^ 25" using h by (simp add: history_ok_def)
  have l3: "1 \<le> ilog2 (h div 512 + 3)" "ilog2 (h div 512 + 3) < 32"
  proof -
    have "h div 512 \<le> 2 ^ 25" using h25 by (meson div_le_dividend order_trans)
    then show "ilog2 (h div 512 + 3) < 32" by (intro ilog2_less) simp_all
    show "1 \<le> ilog2 (h div 512 + 3)" by (subst ilog2.simps) simp
  qed
  have k: "0 < k" "k < 32" using d(4) l3 p' by (auto simp: coder_k_def)
  have keq: "(if 31 - int kmod - (31 - int (ilog2 (h div 512 + 3))) < 0
      then 31 - int kmod - (31 - int (ilog2 (h div 512 + 3))) + int kmod else int kmod) = int k"
    using d(4) by (auto simp: coder_k_def min_def)
  have dn: "d - sm < 2 ^ n" using d by linarith
  have "(2::nat) ^ n \<le> 2 ^ 30" using p' by (intro power_increasing) simp_all
  then have d30: "d < 2 ^ 30" using d(3) by linarith
  have ev: "entropy_decode_value (int n) (int k) 0xFFFFFFFF (reader st)
      = Inr (of_nat (d - sm), moved (length (rice_code n k (2 ^ k - 1) (d - sm))) (reader st))"
    using rice_value [OF st(1) code k(1,2) divisor_correct(2) [OF k(1,2), of kmod] _ _ _ _ dn]
      divisor_correct(5) [OF k(1,2), of kmod] k p' by simp
  have dd: "of_nat (d - sm) + of_nat sm = (of_nat d :: u32)"
    using d(2) by (simp flip: of_nat_add)
  have nh: "next_history (of_nat h) (of_nat d) (of_nat mult) = of_nat (coder_history mult h d)"
    by (rule next_history_correct [OF h]) (use p' d30 in auto)
  have hb: "coder_history mult h d < 2 ^ 31"
    using coder_history_bounds(2) [OF h, of mult d] p' d(2) by simp
  have sh: "signed_half (of_nat d) = word_of_int x"
    using signed_half_zigzag d30 d(1) by simp
  have "rice_sample p st = and_then (entropy_decode_value (int n) (int k) 0xFFFFFFFF (reader st))
      (\<lambda>(v, s).
        (let v = v + of_nat sm; i = outputCount st in
         if length (outputBuffer st) \<le> i then Inl Write_Overrun
         else
           (let st = st\<lparr>outputBuffer := (outputBuffer st)[i := signed_half v], reader := s,
                        history := next_history (of_nat h) v (of_nat mult),
                        signModifier := 0, outputCount := i + 1\<rparr>
            in if sint (history st) < 128 \<and> i + 1 < outputSize p then zero_block p st
               else Inr st)))"
    by (simp only: rice_sample_def st(2,3) coder_k_correct [OF h25] and_then_simps Let_def rp keq)
  then show ?thesis
    using room by (simp add: Let_def ev dd sh nh sint_of_nat_32 [OF hb] st1_def after_sample_def)
qed

text \<open>A run of \<open>z\<close> zeros after a sample that brought the history below 128.\<close>

definition after_zeros :: "nat \<Rightarrow> nat \<Rightarrow> rice_state \<Rightarrow> rice_state" where
  "after_zeros z l st =
     st\<lparr>outputBuffer := mem_write (outputCount st) (replicate z 0) (outputBuffer st),
        reader := moved l (reader st), history := 0, signModifier := 1,
        outputCount := outputCount st + z\<rparr>"

lemma mem_write_Nil [simp]: "mem_write i [] xs = xs"
  by (simp add: mem_write_def)

lemma zero_block_value:
  assumes p: "params_ok n kmod mult p" and h: "0 < h" "h < 128"
    and st: "reader_ok (reader st)" "history st = of_nat h"
    and code: "bits_left (reader st) = rice_code 16 k (2 ^ min k kmod - 1) z @ bs" "25 \<le> length bs"
    and z: "z < 2 ^ 16" "k = coder_zero_k h" "outputCount st \<le> length (outputBuffer st)"
  shows "zero_block p st =
    (if outputCount st + z \<le> length (outputBuffer st)
     then Inr (after_zeros z (length (rice_code 16 k (2 ^ min k kmod - 1) z)) st) else Inl Write_Overrun)"
proof -
  note p' = p [unfolded params_ok_def]
  obtain c where c: "clz (of_nat h) = Inr c" "c + sint (of_nat h + 16 :: u32) sdiv 64 - 24 = int k"
    using coder_zero_k_correct(1) [OF h] z(2) by blast
  have k: "0 < k" "k < 32" using coder_zero_k_correct(2,3) [OF h] z(2) by simp_all
  have kmod: "0 < kmod" "kmod < 32" "rice_kmodifier_mask p = of_nat (2 ^ kmod - 1)" using p' by simp_all
  note d = divisor_correct [OF k kmod(1,2)]
  have "entropy_decode_value (int 16) (int k) (of_nat (2 ^ kmod - 1)) (reader st)
      = Inr (of_nat z, moved (length (rice_code 16 k (2 ^ min k kmod - 1) z)) (reader st))"
    by (rule rice_value [OF st(1) code k d(1) d(3) d(4)]) (use z in simp_all)
  then have e: "entropy_decode_value 16 (int k) (rice_kmodifier_mask p) (reader st)
      = Inr (of_nat z, moved (length (rice_code 16 k (2 ^ min k kmod - 1) z)) (reader st))"
    using kmod(3) by simp
  have s: "sint (of_nat z :: u32) = int z" using z(1) by (intro sint_of_nat_32) simp
  show ?thesis
    unfolding zero_block_def st(2) c and_then_simps e prod.case Let_def s
    using z by (simp add: after_zeros_def)
qed

lemma zero_block_correct:
  assumes p: "params_ok n kmod mult p" and h: "0 < h" "h < 128"
    and st: "reader_ok (reader st)" "history st = of_nat h"
    and code: "bits_left (reader st) = rice_code 16 k (2 ^ min k kmod - 1) z @ bs" "25 \<le> length bs"
    and z: "z < 2 ^ 16" "k = coder_zero_k h" "outputCount st + z \<le> length (outputBuffer st)"
  shows "zero_block p st = Inr (after_zeros z (length (rice_code 16 k (2 ^ min k kmod - 1) z)) st)"
  using zero_block_value [OF p h st code z(1,2)] z(3) by simp

lemma rice_samples_done [simp]: "outputSize p \<le> outputCount st \<Longrightarrow> rice_samples f p st = Inr st"
  by (cases f) simp_all

lemma rice_samples_step:
  "outputCount st < outputSize p \<Longrightarrow> 0 < f \<Longrightarrow>
   rice_samples f p st = and_then (rice_sample p st) (rice_samples (f - 1) p)"
  by (cases f) simp_all

lemma mem_write_Cons:
  "i < length m \<Longrightarrow> mem_write (Suc i) ys (m[i := v]) = mem_write i (v # ys) m"
  by (simp add: mem_write_def take_Suc_conv_app_nth upd_conv_take_nth_drop ac_simps)

lemma mem_write_mem_write:
  "i + length xs \<le> length m \<Longrightarrow> mem_write (i + length xs) ys (mem_write i xs m) = mem_write i (xs @ ys) m"
  by (simp add: mem_write_def ac_simps)

lemma zigzag_pos: "x \<noteq> 0 \<Longrightarrow> 0 < zigzag x"
  by (auto simp: zigzag_def)

lemma zeros_prefix:
  defines "z xs \<equiv> length (takeWhile (\<lambda>x. x = (0::int)) xs)"
  shows "xs = replicate (z xs) 0 @ drop (z xs) xs"
    and "drop (z xs) xs = [] \<or> (\<exists>y ys. drop (z xs) xs = y # ys \<and> y \<noteq> 0)"
proof -
  have "takeWhile (\<lambda>x. x = 0) xs = replicate (z xs) 0"
    unfolding z_def by (rule replicate_length_same [symmetric]) (auto dest: set_takeWhileD)
  moreover have d: "drop (z xs) xs = dropWhile (\<lambda>x. x = 0) xs"
    by (simp add: z_def dropWhile_eq_drop)
  ultimately show "xs = replicate (z xs) 0 @ drop (z xs) xs"
    by (metis takeWhile_dropWhile_id)
  show "drop (z xs) xs = [] \<or> (\<exists>y ys. drop (z xs) xs = y # ys \<and> y \<noteq> 0)"
    using hd_dropWhile [of "\<lambda>x. x = 0" xs] unfolding d by (cases "dropWhile (\<lambda>x. x = 0) xs") auto
qed

definition sample_range :: "nat \<Rightarrow> int set" where
  "sample_range n = {- (2 ^ (n - 1)) ..< 2 ^ (n - 1)}"

text \<open>The decoder's state is at the coder's: the rest of the samples is what is left to read.\<close>

definition decoding :: "nat \<Rightarrow> nat \<Rightarrow> nat \<Rightarrow> nat \<Rightarrow> nat \<Rightarrow> int list \<Rightarrow> bool list \<Rightarrow> rice_params \<Rightarrow> rice_state \<Rightarrow> bool" where
  "decoding n kmod mult h sm xs bs p st \<longleftrightarrow>
     reader_ok (reader st) \<and> bits_left (reader st) = rice_encode n kmod mult h sm xs @ bs
     \<and> history st = of_nat h \<and> signModifier st = of_nat sm
     \<and> outputSize p = outputCount st + length xs \<and> outputSize p \<le> length (outputBuffer st)"

lemma decoding_start:
  assumes d: "decoding n kmod mult h sm (x # xs) bs p st" and p: "params_ok n kmod mult p"
    and h: "history_ok h sm" and x: "x \<in> sample_range n" "sm = 0 \<or> x \<noteq> 0" and bs: "25 \<le> length bs"
  defines "h' \<equiv> coder_history mult h (zigzag x)"
    and "c \<equiv> rice_code n (coder_k kmod h) (2 ^ coder_k kmod h - 1) (zigzag x - sm)"
  shows "rice_sample p st = (if h' < 128 \<and> xs \<noteq> [] then zero_block p (after_sample x h' (length c) st)
           else Inr (after_sample x h' (length c) st))"
    and "0 < h'" "h' \<le> 2 ^ 25"
proof -
  note d' = d [unfolded decoding_def]
  obtain r where r: "bits_left (reader st) = c @ r @ bs"
    using d' by (force simp: c_def Let_def)
  have sm: "sm \<le> zigzag x" using x(2) h zigzag_pos [of x] by (auto simp: history_ok_def)
  have "zigzag x < 2 ^ n" using x(1) p zigzag_bound [of n x] by (simp add: sample_range_def params_ok_def)
  then show "rice_sample p st = (if h' < 128 \<and> xs \<noteq> [] then zero_block p (after_sample x h' (length c) st)
      else Inr (after_sample x h' (length c) st))"
    using rice_sample_correct [OF p h, of st "coder_k kmod h" "zigzag x" "r @ bs" x] d' r sm bs
    by (simp add: h'_def c_def)
  show "0 < h'" "h' \<le> 2 ^ 25"
    using coder_history_bounds [OF h _ _ sm, of mult] p by (simp_all add: h'_def params_ok_def)
qed

lemma rice_samples_correct:
  assumes bs: "25 \<le> length bs"
  shows "params_ok n kmod mult p \<Longrightarrow> history_ok h sm \<Longrightarrow> set xs \<subseteq> sample_range n \<Longrightarrow>
    length xs < 2 ^ 16 \<Longrightarrow> sm = 0 \<or> xs = [] \<or> hd xs \<noteq> 0 \<Longrightarrow> decoding n kmod mult h sm xs bs p st \<Longrightarrow>
    length xs \<le> f \<Longrightarrow>
    \<exists>st'. rice_samples f p st = Inr st'
      \<and> outputBuffer st' = mem_write (outputCount st) (map word_of_int xs) (outputBuffer st)
      \<and> reader st' = moved (length (rice_encode n kmod mult h sm xs)) (reader st)"
proof (induction n kmod mult h sm xs arbitrary: st f rule: rice_encode.induct)
  case (1 n kmod mult h sm)
  then show ?case by (simp add: decoding_def)
next
  case (2 n kmod mult h sm x xs)
  let ?h = "coder_history mult h (zigzag x)" and ?k = "coder_k kmod h"
  let ?z = "length (takeWhile (\<lambda>x. x = 0) xs)" and ?k' = "coder_zero_k (coder_history mult h (zigzag x))"
  let ?c = "rice_code n ?k (2 ^ ?k - 1) (zigzag x - sm)"
  let ?c' = "rice_code 16 ?k' (2 ^ min ?k' kmod - 1) ?z"
  define st1 where "st1 = after_sample x ?h (length ?c) st"
  have d: "reader_ok (reader st)" "outputSize p = outputCount st + Suc (length xs)"
      "outputSize p \<le> length (outputBuffer st)" "history st = of_nat h"
    and left: "bits_left (reader st) = rice_encode n kmod mult h sm (x # xs) @ bs"
    using 2(8) by (simp_all add: decoding_def)
  have x: "x \<in> sample_range n" "sm = 0 \<or> x \<noteq> 0" using 2(5,7) by simp_all
  note start = decoding_start [OF 2(8) 2(3) 2(4) x bs]
  have step: "rice_samples f p st = and_then (if ?h < 128 \<and> xs \<noteq> [] then zero_block p st1 else Inr st1)
      (rice_samples (f - 1) p)"
    using rice_samples_step [of st p f] d(2) 2(9) start(1) by (simp add: st1_def)
  show ?case
  proof (cases "?h < 128 \<and> xs \<noteq> []")
    case True
    define st2 where "st2 = after_zeros ?z (length ?c') st1"
    have left1: "bits_left (reader st1) = ?c' @ rice_encode n kmod mult 0 1 (drop ?z xs) @ bs"
      using left d(1) True by (simp add: st1_def after_sample_def Let_def)
    have ok1: "reader_ok (reader st1)" using d(1) by (simp add: st1_def after_sample_def)
    have left2: "bits_left (reader st2) = rice_encode n kmod mult 0 1 (drop ?z xs) @ bs"
      using left1 ok1 by (simp add: st2_def after_zeros_def)
    have z: "?z \<le> length xs" by (rule length_takeWhile_le)
    have "zero_block p st1 = Inr st2"
      unfolding st2_def
      by (rule zero_block_correct [OF 2(3) start(2) _ _ _ left1])
        (use True d 2(6) z bs in \<open>simp_all add: st1_def after_sample_def\<close>)
    moreover have "\<exists>st'. rice_samples (f - 1) p st2 = Inr st'
      \<and> outputBuffer st' = mem_write (outputCount st2) (map word_of_int (drop ?z xs)) (outputBuffer st2)
      \<and> reader st' = moved (length (rice_encode n kmod mult 0 1 (drop ?z xs))) (reader st2)"
    proof (rule 2(1) [OF refl refl refl refl refl True 2(3)])
      show "history_ok 0 1" by (simp add: history_ok_def)
      show "set (drop ?z xs) \<subseteq> sample_range n" using 2(5) by (auto dest: in_set_dropD)
      show "1 = 0 \<or> drop ?z xs = [] \<or> hd (drop ?z xs) \<noteq> 0" using zeros_prefix(2) [of xs] by auto
      show "decoding n kmod mult 0 1 (drop ?z xs) bs p st2"
        using left2 d z by (simp add: decoding_def st2_def st1_def after_zeros_def after_sample_def)
    qed (use 2(6,9) in simp_all)
    moreover have "mem_write (outputCount st2) (map word_of_int (drop ?z xs)) (outputBuffer st2)
        = mem_write (outputCount st) (map word_of_int (x # xs)) (outputBuffer st)"
    proof -
      have "(map word_of_int xs :: u32 list) = replicate ?z 0 @ map word_of_int (drop ?z xs)"
        by (subst zeros_prefix(1) [of xs]) (simp only: map_append map_replicate of_int_0)
      then show ?thesis
        using d z mem_write_mem_write [of "outputCount st" "(word_of_int x :: u32) # replicate ?z 0" "outputBuffer st"]
        by (simp add: st2_def st1_def after_zeros_def after_sample_def mem_write_Cons)
    qed
    ultimately show ?thesis
      using True by (auto simp: step st2_def st1_def after_zeros_def after_sample_def Let_def d(1) add.assoc)
  next
    case False
    have "\<exists>st'. rice_samples (f - 1) p st1 = Inr st'
      \<and> outputBuffer st' = mem_write (outputCount st1) (map word_of_int xs) (outputBuffer st1)
      \<and> reader st' = moved (length (rice_encode n kmod mult ?h 0 xs)) (reader st1)"
    proof (rule 2(2) [OF refl refl refl refl refl False 2(3)])
      show "history_ok ?h 0" using start by (simp add: history_ok_def)
      show "decoding n kmod mult ?h 0 xs bs p st1"
        using left d False by (simp add: decoding_def st1_def after_sample_def Let_def)
    qed (use 2(5,6,9) in simp_all)
    then show ?thesis
      using False d mem_write_Cons [of "outputCount st" "outputBuffer st"]
      by (auto simp: step st1_def after_sample_def Let_def)
  qed
qed

section \<open>Channels\<close>

lemma rice_channel:
  assumes "params_ok n kmod mult p" "0 < h" "h \<le> 255"
    and "set xs \<subseteq> sample_range n" "length xs < 2 ^ 16"
    and "outputSize p = length xs" "length xs \<le> length buf"
    and "reader_ok s" "bits_left s = rice_encode n kmod mult h 0 xs @ bs" "25 \<le> length bs"
  shows "entropy_rice_decode p (of_nat h) buf s
           = Inr (mem_write 0 (map word_of_int xs) buf, moved (length (rice_encode n kmod mult h 0 xs)) s)"
proof -
  let ?st = "\<lparr>outputCount = 0, history = of_nat h, signModifier = 0, outputBuffer = buf, reader = s\<rparr>"
  have "history_ok h 0" using assms(2,3) by (simp add: history_ok_def)
  moreover have "decoding n kmod mult h 0 xs bs p ?st" using assms by (simp add: decoding_def)
  ultimately show ?thesis
    using rice_samples_correct [OF assms(10) assms(1), of h 0 xs ?st "length xs"] assms(4-6)
    by (auto simp: entropy_rice_decode_def)
qed

text \<open>
  A channel that the encoder has written is read back: for any samples of up to 30 bits and
  up to 65535 of them, with runs of zeros or without, the decoder puts exactly the samples in
  the first places of its buffer and stops at the first bit after the codes. The encoder is
  the adaptive Rice coder of the format with the parameters of the stream; the multiplier is
  below 64, where the arithmetic of the C code does not overflow (the usual value is 40).
\<close>

theorem entropy_roundtrip:
  assumes "params_ok n kmod mult p" "0 < h" "h \<le> 255"
    and "set xs \<subseteq> sample_range n" "length xs < 2 ^ 16"
    and "outputSize p = length xs" "length xs \<le> length buf"
    and "reader_ok s" "bits_left s = rice_encode n kmod mult h 0 xs @ bs" "25 \<le> length bs"
  shows "entropy_rice_decode p (of_nat h) buf s
           = Inr (mem_write 0 (map word_of_int xs) buf, moved (length (rice_encode n kmod mult h 0 xs)) s)"
  using assms by (rule rice_channel)

text \<open>A channel of three samples, the last two of them in a run of zeros.\<close>

lemma ilog2_examples: "ilog2 3 = 1" "ilog2 90 = 6"
  by (rule ilog2_unique; simp)+

lemma replicate_two: "replicate 2 x = [x, x]"
  by (simp add: numeral_2_eq_2)

lemma encode_example: "rice_encode 16 14 40 10 0 [1, 0, 0] = [True, True, False, False, True, True]"
  by (simp add: rice_code_def to_bits_def coder_k_def coder_zero_k_def coder_history_def zigzag_def
      ilog2_examples RICE_THRESHOLD_def Let_def upt_rec replicate_two)

definition example_params :: rice_params where
  "example_params = \<lparr>outputSize = 3, readSampleSize = 16, rice_kmodifier = 14, rice_historymult = 40,
     rice_kmodifier_mask = 0x3FFF\<rparr>"

definition example_reader :: bitreader where
  "example_reader = \<lparr>inbuf = [0xCC, 0, 0, 0], byte_pos = 0, bitaccumulator = 0\<rparr>"

lemma bits_example: "bits_left example_reader
    = rice_encode 16 14 40 10 0 [1, 0, 0] @ replicate 26 False"
  unfolding encode_example
  by (simp add: example_reader_def bits_left_def bitpos_def bits_of_byte_def upt_rec
      numeral_eq_Suc)

theorem entropy_roundtrip_witness:
  "entropy_rice_decode example_params 10 [7, 7, 7, 7] example_reader
     = Inr ([1, 0, 0, 7], \<lparr>inbuf = [0xCC, 0, 0, 0], byte_pos = 0, bitaccumulator = 6\<rparr>)"
  using entropy_roundtrip [OF _ _ _ _ _ _ _ _ bits_example, of example_params "[7, 7, 7, 7]"]
  unfolding encode_example
  by (simp add: params_ok_def Let_def example_params_def sample_range_def example_reader_def reader_ok_def
      encode_example mem_write_def moved_def move_bits_def)
end
