(* ===== verification/Alac_Clz.thy ===== *)
theory Alac_Clz
  imports Alac_Entropy
begin

text \<open>
  The two versions of the count of leading zeros in \<open>alac.c\<close> agree: the compiler's one, and the
  unrolled one that is used with other compilers.
\<close>

section \<open>Masks\<close>

lemma and_0_iff: "c AND w = 0 \<longleftrightarrow> (\<forall>n<32. \<not> (bit c n \<and> bit w n))" for c w :: u32
  by (auto simp: bit_eq_iff bit_and_iff dest: bit_imp_le_length)

lemma and_nibble: "c AND 0xf0 = 0 \<longleftrightarrow> \<not> bit c 4 \<and> \<not> bit c 5 \<and> \<not> bit c 6 \<and> \<not> bit c 7" for c :: u32
proof -
  have f0: "(0xf0 :: u32) = push_bit 4 (mask 4)" by (simp add: mask_eq_exp_minus_1)
  have "(n < 32 \<and> 4 \<le> n \<and> n - 4 < 4) \<longleftrightarrow> n = 4 \<or> n = 5 \<or> n = 6 \<or> n = 7" for n :: nat
  proof -
    have "{4..<8} = {4, 5, 6, 7::nat}" by auto
    then have "n \<in> {4..<8} \<longleftrightarrow> n = 4 \<or> n = 5 \<or> n = 6 \<or> n = 7" by blast
    moreover have "(n < 32 \<and> 4 \<le> n \<and> n - 4 < 4) \<longleftrightarrow> n \<in> {4..<8}" by auto
    ultimately show ?thesis by simp
  qed
  moreover have "n < 32 \<and> bit (0xf0 :: u32) n \<longleftrightarrow> n < 32 \<and> 4 \<le> n \<and> n - 4 < 4" for n
    unfolding f0 bit_push_bit_iff bit_mask_iff
    by (cases "n < 32"; cases "4 \<le> n") (simp_all, rule iffI, blast, rule conjI, linarith, assumption)
  ultimately have w: "(n < 32 \<and> bit (0xf0 :: u32) n) = (n = 4 \<or> n = 5 \<or> n = 6 \<or> n = 7)" for n
    by (simp only:)
  have "c AND 0xf0 = 0 \<longleftrightarrow> (\<forall>n. (n < 32 \<and> bit (0xf0 :: u32) n) \<longrightarrow> \<not> bit c n)"
    unfolding and_0_iff by blast
  then show ?thesis unfolding w by (simp only: disj_imp) blast
qed

lemma and_byte: "c AND 0xff = 0 \<longleftrightarrow> (\<forall>i<8. \<not> bit c i)" for c :: u32
proof -
  have ff: "(0xff :: u32) = mask 8" by (simp add: mask_eq_exp_minus_1)
  have "n < 32 \<and> bit (0xff :: u32) n \<longleftrightarrow> n < 8" for n unfolding ff bit_mask_iff by auto
  then show ?thesis unfolding and_0_iff by blast
qed

lemma and_one_bit: "c AND 8 = 0 \<longleftrightarrow> \<not> bit c 3" "c AND 4 = 0 \<longleftrightarrow> \<not> bit c 2" "c AND 2 = 0 \<longleftrightarrow> \<not> bit c 1"
  "c AND 1 = 0 \<longleftrightarrow> \<not> bit c 0" for c :: u32
  using and_exp_eq_0_iff_not_bit [of c 3] and_exp_eq_0_iff_not_bit [of c 2]
    and_exp_eq_0_iff_not_bit [of c 1] and_exp_eq_0_iff_not_bit [of c 0] by simp_all

lemma less_8_cases: "j < 8 \<Longrightarrow> j = 0 \<or> j = 1 \<or> j = 2 \<or> j = 3 \<or> j = 4 \<or> j = 5 \<or> j = 6 \<or> j = (7::nat)"
  by linarith

lemma count_in_byte_correct:
  assumes "j < 8" "bit c j" "\<And>i. j < i \<Longrightarrow> i < 8 \<Longrightarrow> \<not> bit c i"
  shows "count_in_byte n c = n + 7 - int j"
  using less_8_cases [OF assms(1)] assms(2,3)
  by (elim disjE) (auto simp: count_in_byte_def and_nibble and_one_bit bit_signed_drop_bit_iff)

lemma top_bit:
  fixes x :: u32
  assumes "x \<noteq> 0"
  shows "ilog2 (unat x) < 32" "bit x (ilog2 (unat x))" "\<And>j. ilog2 (unat x) < j \<Longrightarrow> \<not> bit x j"
proof -
  let ?m = "ilog2 (unat x)"
  have b: "2 ^ ?m \<le> unat x" "unat x < 2 ^ Suc ?m"
    using ilog2_bounds [of "unat x"] assms by (simp_all add: unat_gt_0)
  show "?m < 32" using ilog2_less [of "unat x" 32] unat_u32 [of x] assms by (simp add: unat_gt_0)
  have "unat x div 2 ^ ?m = 1" using b by (simp add: div_nat_eqI)
  then show "bit x ?m" by (simp flip: odd_unat_div)
  fix j assume "?m < j"
  then have "unat x < 2 ^ j"
    using b(2) by (meson less_le_trans Suc_leI one_le_numeral power_increasing)
  then show "\<not> bit x j" by (simp flip: odd_unat_div)
qed

lemma shifted_byte:
  fixes x :: u32
  assumes "k \<le> 24" "i < 8"
  shows "bit (signed_drop_bit k x) i = bit x (k + i)"
  using assms by (auto simp: bit_signed_drop_bit_iff)

text \<open>
  The portable routine, which looks at the bytes from the top and then at the halves of the
  first that is not zero, gives the count of leading zeros of every number but zero.
\<close>

theorem portable_clz_correct:
  assumes x: "x \<noteq> 0"
  shows "clz x = Inr (portable_clz x)"
proof -
  let ?m = "ilog2 (unat x)"
  note t = top_bit [OF x]
  have found: "count_in_byte (24 - int k) (signed_drop_bit k x) = 31 - int ?m"
    if "k \<le> 24" "k \<le> ?m" "?m < k + 8" for k
    using count_in_byte_correct [of "?m - k" "signed_drop_bit k x" "24 - int k"] that t
    by (simp add: shifted_byte of_nat_diff)
  have at: "signed_drop_bit k x AND 0xff \<noteq> 0" if "k \<le> 24" "k \<le> ?m" "?m < k + 8" for k
    using t(2) that shifted_byte [of k "?m - k" x] unfolding and_byte 
    by (metis add.commute less_diff_conv2 le_add_diff_inverse)
  have below: "signed_drop_bit k x AND 0xff = 0" if "k \<le> 24" "?m < k" for k
    using t(3) that by (simp add: and_byte shifted_byte)
  have high: "signed_drop_bit 24 x \<noteq> 0 \<longleftrightarrow> 24 \<le> ?m"
  proof
    assume "24 \<le> ?m"
    then show "signed_drop_bit 24 x \<noteq> 0" using at [of 24] t(1) by auto
  next
    assume "signed_drop_bit 24 x \<noteq> 0"
    moreover have "signed_drop_bit 24 x = 0" if "?m < 24"
      by (rule bit_word_eqI) (use t(3) that in \<open>auto simp: bit_signed_drop_bit_iff\<close>)
    ultimately show "24 \<le> ?m" by linarith
  qed
  consider "24 \<le> ?m" | "16 \<le> ?m" "?m < 24" | "8 \<le> ?m" "?m < 16" | "?m < 8" by linarith
  then have "portable_clz x = 31 - int ?m"
  proof cases
    case 1
    then show ?thesis using high found [of 24] t(1) by (simp add: portable_clz_def Let_def)
  next
    case 2
    then show ?thesis using high found [of 16] at [of 16] by (simp add: portable_clz_def Let_def)
  next
    case 3
    then show ?thesis using high found [of 8] at [of 8] below [of 16] by (simp add: portable_clz_def Let_def)
  next
    case 4
    then show ?thesis using high found [of 0] at [of 0] below [of 16] below [of 8]
      by (simp add: portable_clz_def Let_def)
  qed
  then show ?thesis using clz_ilog2 [OF x] by simp
qed

theorem portable_clz_correct_witness: "clz 0x00012345 = Inr 15"
  using portable_clz_correct [of "0x00012345"]
  by (simp add: portable_clz_def count_in_byte_def)

end
