(* ===== verification/Alac_Decode.thy ===== *)
theory Alac_Decode
  imports Alac_Bits
begin

text \<open>
  The rest of the ALAC decoder (\<open>alac.c\<close>): the adaptive predictor, the joining of the two
  channels, and the frame. Buffers are lists of their allocated length, and an access past the
  end is an error value. Shifts of negative values are those of the compilers in use.
\<close>

section \<open>The adaptive predictor\<close>

text \<open>\<open>SIGN_EXTENDED32\<close> and \<open>SIGN_ONLY\<close>.\<close>

definition SIGN_EXTENDED32 :: "u32 \<Rightarrow> int \<Rightarrow> u32 res" where
  "SIGN_EXTENDED32 v bits =
     (if bits < 1 \<or> 32 < bits then Inl Undefined_Shift
      else Inr (signed_drop_bit (nat (32 - bits)) (push_bit (nat (32 - bits)) v)))"

definition SIGN_ONLY :: "u32 \<Rightarrow> u32" where
  "SIGN_ONLY v = (if sint v < 0 then - 1 else if 0 < sint v then 1 else 0)"

text \<open>Reads and writes of a buffer.\<close>

definition get_at :: "'a list \<Rightarrow> nat \<Rightarrow> 'a res" where
  "get_at xs i = (if i < length xs then Inr (xs ! i) else Inl Read_Overrun)"

definition put_at :: "'a list \<Rightarrow> nat \<Rightarrow> 'a \<Rightarrow> 'a list res" where
  "put_at xs i x = (if i < length xs then Inr (xs[i := x]) else Inl Write_Overrun)"

text \<open>
  The samples that are one more than the one before them (all of them when the count of
  coefficients is 31, else the warm-up): \<open>n\<close> of them from index \<open>i + 1\<close> on.
\<close>

fun add_differences :: "int \<Rightarrow> u32 list \<Rightarrow> nat \<Rightarrow> nat \<Rightarrow> u32 list \<Rightarrow> u32 list res" where
  "add_differences bits error_buffer i 0 out = Inr out"
| "add_differences bits error_buffer i (Suc n) out =
     and_then (get_at out i) (\<lambda>prev.
     and_then (get_at error_buffer (i + 1)) (\<lambda>error_value.
     and_then (SIGN_EXTENDED32 (prev + error_value) bits) (\<lambda>v.
     and_then (put_at out (i + 1) v) (add_differences bits error_buffer (i + 1) n))))"

text \<open>
  The two loops that move the coefficients, towards the sign of the error: \<open>p\<close> counts down
  from the number of coefficients, and \<open>b\<close> is where \<open>buffer_out\<close> points.
\<close>

fun adapt :: "bool \<Rightarrow> nat \<Rightarrow> nat \<Rightarrow> nat \<Rightarrow> u32 list \<Rightarrow> nat \<Rightarrow> u32 \<Rightarrow> u16 list \<Rightarrow> u16 list" where
  "adapt neg quant num b out 0 error_val tbl = tbl"
| "adapt neg quant num b out (Suc p) error_val tbl =
     (if if neg then sint error_val < 0 else 0 < sint error_val then
        let val = out ! b - out ! (b + num - p);
            sign = if neg then - SIGN_ONLY val else SIGN_ONLY val;
            tbl = tbl[p := tbl ! p - ucast sign];
            val = val * sign;
            error_val = error_val - signed_drop_bit quant val * of_nat (num - p)
        in adapt neg quant num b out p error_val tbl
      else tbl)"

definition fir_sum :: "nat \<Rightarrow> nat \<Rightarrow> u32 list \<Rightarrow> u16 list \<Rightarrow> u32" where
  "fir_sum num b out tbl =
     sum_list (map (\<lambda>j. (out ! (b + num - j) - out ! b) * scast (tbl ! j)) [0..<num])"

text \<open>One sample of the general case, at index \<open>b + num + 1\<close>.\<close>

definition fir_step ::
  "int \<Rightarrow> nat \<Rightarrow> nat \<Rightarrow> u32 list \<Rightarrow> nat \<Rightarrow> u32 list \<times> u16 list \<Rightarrow> (u32 list \<times> u16 list) res" where
  "fir_step bits num quant error_buffer b = (\<lambda>(out, tbl).
     and_then (get_at error_buffer (b + num + 1)) (\<lambda>error_val.
     if quant = 0 then Inl Undefined_Shift
     else if length out \<le> b + num then Inl Read_Overrun
     else
       (let outval = push_bit (quant - 1) 1 + fir_sum num b out tbl;
            outval = signed_drop_bit quant outval;
            outval = outval + out ! b + error_val
        in and_then (SIGN_EXTENDED32 outval bits) (\<lambda>outval.
           and_then (put_at out (b + num + 1) outval) (\<lambda>out.
             Inr (out,
               if 0 < sint error_val then adapt False quant num b out num error_val tbl
               else if sint error_val < 0 then adapt True quant num b out num error_val tbl
               else tbl))))))"

fun fir_loop ::
  "int \<Rightarrow> nat \<Rightarrow> nat \<Rightarrow> u32 list \<Rightarrow> nat \<Rightarrow> nat \<Rightarrow> u32 list \<times> u16 list \<Rightarrow> (u32 list \<times> u16 list) res" where
  "fir_loop bits num quant error_buffer b 0 s = Inr s"
| "fir_loop bits num quant error_buffer b (Suc n) s =
     and_then (fir_step bits num quant error_buffer b s)
       (fir_loop bits num quant error_buffer (b + 1) n)"

definition predictor_decompress_fir_adapt ::
  "u32 list \<Rightarrow> u32 list \<Rightarrow> int \<Rightarrow> int \<Rightarrow> u16 list \<Rightarrow> nat \<Rightarrow> nat \<Rightarrow> u32 list res" where
  "predictor_decompress_fir_adapt error_buffer out output_size readsamplesize tbl num quant =
     (let n = nat output_size in
      and_then (get_at error_buffer 0) (\<lambda>first.
      and_then (put_at out 0 first) (\<lambda>out.
        if num = 0 then
          if output_size \<le> 1 then Inr out
          else if length error_buffer < n then Inl Read_Overrun
          else if length out < n then Inl Write_Overrun
          else Inr (mem_write 1 (take (n - 1) (tl error_buffer)) out)
        else if num = 31 then
          if output_size \<le> 1 then Inr out
          else add_differences readsamplesize error_buffer 0 (n - 1) out
        else
          and_then (add_differences readsamplesize error_buffer 0 num out) (\<lambda>out.
            map_sum id fst
              (fir_loop readsamplesize num quant error_buffer 0 (n - (num + 1)) (out, tbl))))))"

section \<open>Joining the channels\<close>

text \<open>\<open>for (i = 0; i < n; i++)\<close> with a body that may fail.\<close>

fun loop_res :: "nat \<Rightarrow> nat \<Rightarrow> (nat \<Rightarrow> 's \<Rightarrow> 's res) \<Rightarrow> 's \<Rightarrow> 's res" where
  "loop_res i 0 f s = Inr s"
| "loop_res i (Suc n) f s = and_then (f i s) (loop_res (i + 1) n f)"

definition put_bytes :: "u8 list \<Rightarrow> nat \<Rightarrow> u8 list \<Rightarrow> u8 list res" where
  "put_bytes out i bs = (if i + length bs \<le> length out then Inr (mem_write i bs out) else Inl Write_Overrun)"

text \<open>Samples are stored with the low byte first.\<close>

definition bytes_16 :: "u16 \<Rightarrow> u8 list" where
  "bytes_16 v = [ucast v, ucast (drop_bit 8 v)]"

definition bytes_24 :: "u32 \<Rightarrow> u8 list" where
  "bytes_24 v = [ucast v, ucast (drop_bit 8 v), ucast (drop_bit 16 v)]"

text \<open>The weighted pair: \<open>midright\<close> and \<open>difference\<close> to left and right.\<close>

definition right_of :: "u32 \<Rightarrow> u32 \<Rightarrow> nat \<Rightarrow> u8 \<Rightarrow> u32 res" where
  "right_of midright difference shift weight =
     (if 32 \<le> shift then Inl Undefined_Shift
      else Inr (midright - signed_drop_bit shift (difference * ucast weight)))"

definition deinterlace_16 ::
  "u32 list \<Rightarrow> u32 list \<Rightarrow> u8 list \<Rightarrow> nat \<Rightarrow> nat \<Rightarrow> nat \<Rightarrow> u8 \<Rightarrow> u8 list res" where
  "deinterlace_16 buffer_a buffer_b out channels n shift weight =
     loop_res 0 n (\<lambda>i out.
       and_then (get_at buffer_a i) (\<lambda>a.
       and_then (get_at buffer_b i) (\<lambda>b.
       and_then
         (if weight \<noteq> 0 then
            and_then (right_of a b shift weight) (\<lambda>r.
              let right = ucast r :: u16; left = ucast (scast right + b) :: u16 in Inr (left, right))
          else Inr (ucast a, ucast b))
         (\<lambda>(left, right).
       and_then (put_bytes out (2 * (i * channels)) (bytes_16 left)) (\<lambda>out.
         put_bytes out (2 * (i * channels + 1)) (bytes_16 right)))))) out"

text \<open>The bytes that were not compressed go below the others.\<close>

definition append_bytes :: "nat \<Rightarrow> u32 list \<Rightarrow> nat \<Rightarrow> u32 \<Rightarrow> u32 res" where
  "append_bytes uncompressed_bytes buf i v =
     (if uncompressed_bytes = 0 then Inr v
      else and_then (get_at buf i) (\<lambda>u.
        Inr (push_bit (8 * uncompressed_bytes) v
             OR (u AND NOT (push_bit (8 * uncompressed_bytes) 0xFFFFFFFF)))))"

definition deinterlace_24 ::
  "u32 list \<Rightarrow> u32 list \<Rightarrow> nat \<Rightarrow> u32 list \<Rightarrow> u32 list \<Rightarrow> u8 list \<Rightarrow> nat \<Rightarrow> nat \<Rightarrow> nat \<Rightarrow> u8 \<Rightarrow> u8 list res" where
  "deinterlace_24 buffer_a buffer_b uncompressed_bytes bytes_a bytes_b out channels n shift weight =
     loop_res 0 n (\<lambda>i out.
       and_then (get_at buffer_a i) (\<lambda>a.
       and_then (get_at buffer_b i) (\<lambda>b.
       and_then
         (if weight \<noteq> 0 then
            and_then (right_of a b shift weight) (\<lambda>right. Inr (right + b, right))
          else Inr (a, b))
         (\<lambda>(left, right).
       and_then (append_bytes uncompressed_bytes bytes_a i left) (\<lambda>left.
       and_then (append_bytes uncompressed_bytes bytes_b i right) (\<lambda>right.
       and_then (put_bytes out (i * channels * 3) (bytes_24 left)) (\<lambda>out.
         put_bytes out (i * channels * 3 + 3) (bytes_24 right)))))))) out"

section \<open>The decoder's state\<close>

text \<open>Without the input, which is a reader of its own, and the last fields of the set-up, which nothing reads.\<close>

record alac_file =
  samplesize :: int
  numchannels :: int
  bytespersample :: int
  predicterror_buffer_a :: "u32 list"
  predicterror_buffer_b :: "u32 list"
  outputsamples_buffer_a :: "u32 list"
  outputsamples_buffer_b :: "u32 list"
  uncompressed_bytes_buffer_a :: "u32 list"
  uncompressed_bytes_buffer_b :: "u32 list"
  setinfo_max_samples_per_frame :: u32
  setinfo_7a :: u8
  setinfo_sample_size :: u8
  setinfo_rice_historymult :: u8
  setinfo_rice_initialhistory :: u8
  setinfo_rice_kmodifier :: u8
  setinfo_7f :: u8
  setinfo_80 :: u16
  setinfo_82 :: u32
  setinfo_86 :: u32
  setinfo_8a_rate :: u32

definition alac_create :: "int \<Rightarrow> int \<Rightarrow> alac_file" where
  "alac_create bits channels =
     \<lparr>samplesize = bits, numchannels = channels, bytespersample = (bits sdiv 8) * channels,
      predicterror_buffer_a = [], predicterror_buffer_b = [], outputsamples_buffer_a = [],
      outputsamples_buffer_b = [], uncompressed_bytes_buffer_a = [], uncompressed_bytes_buffer_b = [],
      setinfo_max_samples_per_frame = 0, setinfo_7a = 0, setinfo_sample_size = 0,
      setinfo_rice_historymult = 0, setinfo_rice_initialhistory = 0, setinfo_rice_kmodifier = 0,
      setinfo_7f = 0, setinfo_80 = 0, setinfo_82 = 0, setinfo_86 = 0, setinfo_8a_rate = 0\<rparr>"

text \<open>
  Six buffers of as many words as the product of the frame's length and four has, which is taken
  on 32 bits. \<open>fresh\<close> gives what \<open>malloc\<close> leaves in the words of a new block.
\<close>

definition alac_allocate_buffers :: "(nat \<Rightarrow> u32 list) \<Rightarrow> alac_file \<Rightarrow> alac_file" where
  "alac_allocate_buffers fresh alac =
     (let words = fresh (unat (setinfo_max_samples_per_frame alac * 4) div 4) in
      alac\<lparr>predicterror_buffer_a := words, predicterror_buffer_b := words,
           outputsamples_buffer_a := words, outputsamples_buffer_b := words,
           uncompressed_bytes_buffer_a := words, uncompressed_bytes_buffer_b := words\<rparr>)"

definition Swap32 :: "u32 \<Rightarrow> u32" where
  "Swap32 v = push_bit 0x18 (v AND 0x000000FF) OR push_bit 0x08 (v AND 0x0000FF00)
     OR drop_bit 0x08 (v AND 0x00FF0000) OR drop_bit 0x18 (v AND 0xFF000000)"

definition Swap16 :: "u16 \<Rightarrow> u16" where
  "Swap16 v = push_bit 0x08 (v AND 0x00FF) OR drop_bit 0x08 (v AND 0xFF00)"

text \<open>A load of the machine, low byte first.\<close>

definition load_16 :: "u8 list \<Rightarrow> nat \<Rightarrow> u16" where
  "load_16 m i = ucast (m ! i) OR push_bit 8 (ucast (m ! (i + 1)))"

definition load_32 :: "u8 list \<Rightarrow> nat \<Rightarrow> u32" where
  "load_32 m i = ucast (m ! i) OR push_bit 8 (ucast (m ! (i + 1)))
     OR push_bit 16 (ucast (m ! (i + 2))) OR push_bit 24 (ucast (m ! (i + 3)))"

definition alac_set_info :: "(nat \<Rightarrow> u32 list) \<Rightarrow> u8 list \<Rightarrow> alac_file \<Rightarrow> alac_file option" where
  "alac_set_info fresh inputbuffer alac =
     (if length inputbuffer < 48 then None
      else Some (alac_allocate_buffers fresh
        (alac\<lparr>setinfo_max_samples_per_frame := Swap32 (load_32 inputbuffer 24),
              setinfo_7a := inputbuffer ! 28, setinfo_sample_size := inputbuffer ! 29,
              setinfo_rice_historymult := inputbuffer ! 30,
              setinfo_rice_initialhistory := inputbuffer ! 31,
              setinfo_rice_kmodifier := inputbuffer ! 32, setinfo_7f := inputbuffer ! 33,
              setinfo_80 := Swap16 (load_16 inputbuffer 34),
              setinfo_82 := Swap32 (load_32 inputbuffer 36),
              setinfo_86 := Swap32 (load_32 inputbuffer 40),
              setinfo_8a_rate := Swap32 (load_32 inputbuffer 44)\<rparr>)))"

text \<open>The set-up from the numbers of the SDP line, in \<open>player.c\<close>.\<close>

definition init_alac_decoder ::
  "(nat \<Rightarrow> u32 list) \<Rightarrow> u32 list \<Rightarrow> int \<Rightarrow> int \<Rightarrow> u32 \<Rightarrow> alac_file" where
  "init_alac_decoder fresh fmtp input_bit_depth input_num_channels frames_per_packet =
     alac_allocate_buffers fresh
       ((alac_create input_bit_depth input_num_channels)
          \<lparr>setinfo_max_samples_per_frame := frames_per_packet, setinfo_7a := ucast (fmtp ! 2),
           setinfo_sample_size := word_of_int input_bit_depth,
           setinfo_rice_historymult := ucast (fmtp ! 4),
           setinfo_rice_initialhistory := ucast (fmtp ! 5),
           setinfo_rice_kmodifier := ucast (fmtp ! 6), setinfo_7f := ucast (fmtp ! 7),
           setinfo_80 := ucast (fmtp ! 8), setinfo_82 := fmtp ! 9, setinfo_86 := fmtp ! 10,
           setinfo_8a_rate := fmtp ! 11\<rparr>)"

section \<open>A frame\<close>

text \<open>The fields before the samples; the first 16 bits are skipped.\<close>

record frame_header =
  hassize :: bool
  uncompressed_bytes :: nat
  isnotcompressed :: bool

definition read_header :: "bitreader \<Rightarrow> (frame_header \<times> bitreader) res" where
  "read_header s =
     and_then (readbits 4 s) (\<lambda>(_, s).
     and_then (readbits 12 s) (\<lambda>(_, s).
     and_then (readbits 1 s) (\<lambda>(size, s).
     and_then (readbits 2 s) (\<lambda>(bytes, s).
     and_then (readbits 1 s) (\<lambda>(raw, s).
       Inr (\<lparr>hassize = (size \<noteq> 0), uncompressed_bytes = unat bytes, isnotcompressed = (raw \<noteq> 0)\<rparr>, s))))))"

text \<open>
  The size of the output, in an \<open>int\<close>: the samples and the size, or \<open>None\<close> when it does not
  fit what the caller has allocated.
\<close>

definition output_bytes :: "alac_file \<Rightarrow> u32 \<Rightarrow> int" where
  "output_bytes alac outputsamples = sint (outputsamples * word_of_int (bytespersample alac))"

definition read_size ::
  "alac_file \<Rightarrow> int \<Rightarrow> bool \<Rightarrow> u32 \<Rightarrow> bitreader \<Rightarrow> ((u32 \<times> int) option \<times> bitreader) res" where
  "read_size alac allocated has outputsamples s =
     (if has then
        and_then (readbits 32 s) (\<lambda>(n, s).
          Inr (if allocated < output_bytes alac n then None else Some (n, output_bytes alac n), s))
      else Inr (Some (outputsamples, output_bytes alac outputsamples), s))"

text \<open>What describes the prediction of a channel.\<close>

record channel_params =
  prediction_type :: nat
  prediction_quantitization :: nat
  ricemodifier :: nat
  predictor_coef_table :: "u16 list"

fun read_table :: "nat \<Rightarrow> bitreader \<Rightarrow> (u16 list \<times> bitreader) res" where
  "read_table 0 s = Inr ([], s)"
| "read_table (Suc n) s =
     and_then (readbits 16 s) (\<lambda>(c, s).
     and_then (read_table n s) (\<lambda>(cs, s). Inr (ucast c # cs, s)))"

definition read_channel_params :: "bitreader \<Rightarrow> (channel_params \<times> bitreader) res" where
  "read_channel_params s =
     and_then (readbits 4 s) (\<lambda>(type, s).
     and_then (readbits 4 s) (\<lambda>(quant, s).
     and_then (readbits 3 s) (\<lambda>(rice, s).
     and_then (readbits 5 s) (\<lambda>(num, s).
     and_then (read_table (unat num) s) (\<lambda>(tbl, s).
       Inr (\<lparr>prediction_type = unat type, prediction_quantitization = unat quant,
             ricemodifier = unat rice, predictor_coef_table = tbl\<rparr>, s))))))"

text \<open>The entropy decoder and the predictor on one channel: the errors and the samples.\<close>

definition rice_params_of :: "alac_file \<Rightarrow> int \<Rightarrow> int \<Rightarrow> nat \<Rightarrow> rice_params res" where
  "rice_params_of alac outputsamples readsamplesize modifier =
     (if 32 \<le> setinfo_rice_kmodifier alac then Inl Undefined_Shift
      else Inr \<lparr>outputSize = nat outputsamples, readSampleSize = readsamplesize,
                rice_kmodifier = uint (setinfo_rice_kmodifier alac),
                rice_historymult = of_nat (modifier * unat (setinfo_rice_historymult alac) div 4),
                rice_kmodifier_mask = push_bit (unat (setinfo_rice_kmodifier alac)) 1 - 1\<rparr>)"

definition decode_channel ::
  "alac_file \<Rightarrow> int \<Rightarrow> int \<Rightarrow> channel_params \<Rightarrow> u32 list \<Rightarrow> u32 list \<Rightarrow> bitreader
     \<Rightarrow> (u32 list \<times> u32 list \<times> bitreader) res" where
  "decode_channel alac outputsamples readsamplesize cp errors out s =
     and_then (rice_params_of alac outputsamples readsamplesize (ricemodifier cp)) (\<lambda>p.
     and_then (entropy_rice_decode p (ucast (setinfo_rice_initialhistory alac)) errors s) (\<lambda>(errors, s).
     and_then
       (if prediction_type cp = 0 then
          predictor_decompress_fir_adapt errors out outputsamples readsamplesize
            (predictor_coef_table cp) (length (predictor_coef_table cp)) (prediction_quantitization cp)
        else Inr out)
       (\<lambda>out. Inr (errors, out, s))))"

text \<open>A sample that is not compressed; above 16 bits it is read in two parts.\<close>

definition SignExtend24 :: "u32 \<Rightarrow> u32" where
  "SignExtend24 v = signed_drop_bit 8 (push_bit 8 v)"

definition read_raw_sample :: "alac_file \<Rightarrow> bitreader \<Rightarrow> (u32 \<times> bitreader) res" where
  "read_raw_sample alac s =
     (let bits = uint (setinfo_sample_size alac) in
      if bits \<le> 16 then
        and_then (readbits bits s) (\<lambda>(v, s).
        and_then (SIGN_EXTENDED32 v bits) (\<lambda>v. Inr (v, s)))
      else
        and_then (readbits 16 s) (\<lambda>(v, s).
          if 32 \<le> bits - 16 then Inl Undefined_Shift
          else
            and_then (readbits (bits - 16) s) (\<lambda>(low, s).
              Inr (SignExtend24 (push_bit (nat (bits - 16)) v OR low), s))))"

text \<open>One channel: the samples, and then the output in the sample size of the stream.\<close>

definition mono_samples ::
  "frame_header \<Rightarrow> int \<Rightarrow> alac_file \<Rightarrow> bitreader \<Rightarrow> (nat \<times> alac_file) res" where
  "mono_samples h outputsamples alac s =
     (let n = nat outputsamples; ub = uncompressed_bytes h;
          readsamplesize = uint (setinfo_sample_size alac) - int (ub * 8) in
      if \<not> isnotcompressed h then
        and_then (readbits 8 s) (\<lambda>(_, s).
        and_then (readbits 8 s) (\<lambda>(_, s).
        and_then (read_channel_params s) (\<lambda>(cp, s).
        and_then
          (if ub \<noteq> 0 then
             loop_res 0 n (\<lambda>i (a, s).
               and_then (readbits (int (ub * 8)) s) (\<lambda>(v, s).
               and_then (put_at a i v) (\<lambda>a. Inr (a, s))))
               (uncompressed_bytes_buffer_a alac, s)
           else Inr (uncompressed_bytes_buffer_a alac, s))
          (\<lambda>(bytes, s).
        and_then (decode_channel alac outputsamples readsamplesize cp
                    (predicterror_buffer_a alac) (outputsamples_buffer_a alac) s)
          (\<lambda>(errors, out, s).
          Inr (ub, alac\<lparr>uncompressed_bytes_buffer_a := bytes, predicterror_buffer_a := errors,
                        outputsamples_buffer_a := out\<rparr>))))))
      else
        and_then
          (loop_res 0 n (\<lambda>i (out, s).
             and_then (read_raw_sample alac s) (\<lambda>(v, s).
             and_then (put_at out i v) (\<lambda>out. Inr (out, s))))
             (outputsamples_buffer_a alac, s))
          (\<lambda>(out, s). Inr (0, alac\<lparr>outputsamples_buffer_a := out\<rparr>)))"

definition mono_output :: "nat \<Rightarrow> nat \<Rightarrow> alac_file \<Rightarrow> u8 list \<Rightarrow> u8 list res" where
  "mono_output ub n alac outbuffer =
     (let channels = nat (numchannels alac) in
      if setinfo_sample_size alac = 16 then
        loop_res 0 n (\<lambda>i out.
          and_then (get_at (outputsamples_buffer_a alac) i) (\<lambda>v.
            put_bytes out (2 * (i * channels)) (bytes_16 (ucast v)))) outbuffer
      else if setinfo_sample_size alac = 24 then
        loop_res 0 n (\<lambda>i out.
          and_then (get_at (outputsamples_buffer_a alac) i) (\<lambda>v.
          and_then (append_bytes ub (uncompressed_bytes_buffer_a alac) i v) (\<lambda>v.
            put_bytes out (i * channels * 3) (bytes_24 v)))) outbuffer
      else Inr outbuffer)"

text \<open>Two channels; the weights are those of the frame, or none when it is not compressed.\<close>

record interlacing =
  interlacing_shift :: nat
  interlacing_leftweight :: u8

definition read_both_bytes ::
  "nat \<Rightarrow> nat \<Rightarrow> alac_file \<Rightarrow> bitreader \<Rightarrow> (u32 list \<times> u32 list \<times> bitreader) res" where
  "read_both_bytes ub n alac s =
     (if ub \<noteq> 0 then
        loop_res 0 n (\<lambda>i (a, b, s).
          and_then (readbits (int (ub * 8)) s) (\<lambda>(v, s).
          and_then (put_at a i v) (\<lambda>a.
          and_then (readbits (int (ub * 8)) s) (\<lambda>(w, s).
          and_then (put_at b i w) (\<lambda>b. Inr (a, b, s))))))
          (uncompressed_bytes_buffer_a alac, uncompressed_bytes_buffer_b alac, s)
      else Inr (uncompressed_bytes_buffer_a alac, uncompressed_bytes_buffer_b alac, s))"

definition stereo_compressed ::
  "frame_header \<Rightarrow> int \<Rightarrow> alac_file \<Rightarrow> bitreader \<Rightarrow> (nat \<times> interlacing \<times> alac_file) res" where
  "stereo_compressed h outputsamples alac s =
     (let n = nat outputsamples; ub = uncompressed_bytes h;
          readsamplesize = uint (setinfo_sample_size alac) - int (ub * 8) + 1
      in and_then (readbits 8 s) (\<lambda>(shift, s).
         and_then (readbits 8 s) (\<lambda>(weight, s).
         and_then (read_channel_params s) (\<lambda>(cp_a, s).
         and_then (read_channel_params s) (\<lambda>(cp_b, s).
         and_then (read_both_bytes ub n alac s) (\<lambda>(bytes_a, bytes_b, s).
         and_then (decode_channel alac outputsamples readsamplesize cp_a
                     (predicterror_buffer_a alac) (outputsamples_buffer_a alac) s)
           (\<lambda>(errors_a, out_a, s).
         and_then (decode_channel alac outputsamples readsamplesize cp_b
                     (predicterror_buffer_b alac) (outputsamples_buffer_b alac) s)
           (\<lambda>(errors_b, out_b, s).
           Inr (ub, \<lparr>interlacing_shift = unat shift, interlacing_leftweight = ucast weight\<rparr>,
                alac\<lparr>uncompressed_bytes_buffer_a := bytes_a, uncompressed_bytes_buffer_b := bytes_b,
                     predicterror_buffer_a := errors_a, outputsamples_buffer_a := out_a,
                     predicterror_buffer_b := errors_b, outputsamples_buffer_b := out_b\<rparr>)))))))))"

definition stereo_raw ::
  "int \<Rightarrow> alac_file \<Rightarrow> bitreader \<Rightarrow> (nat \<times> interlacing \<times> alac_file) res" where
  "stereo_raw outputsamples alac s =
     and_then
       (loop_res 0 (nat outputsamples) (\<lambda>i (a, b, s).
          and_then (read_raw_sample alac s) (\<lambda>(v, s).
          and_then (read_raw_sample alac s) (\<lambda>(w, s).
          and_then (put_at a i v) (\<lambda>a.
          and_then (put_at b i w) (\<lambda>b. Inr (a, b, s))))))
          (outputsamples_buffer_a alac, outputsamples_buffer_b alac, s))
       (\<lambda>(a, b, s). Inr (0, \<lparr>interlacing_shift = 0, interlacing_leftweight = 0\<rparr>,
          alac\<lparr>outputsamples_buffer_a := a, outputsamples_buffer_b := b\<rparr>))"

definition stereo_output :: "nat \<Rightarrow> interlacing \<Rightarrow> nat \<Rightarrow> alac_file \<Rightarrow> u8 list \<Rightarrow> u8 list res" where
  "stereo_output ub w n alac outbuffer =
     (let channels = nat (numchannels alac) in
      if setinfo_sample_size alac = 16 then
        deinterlace_16 (outputsamples_buffer_a alac) (outputsamples_buffer_b alac) outbuffer
          channels n (interlacing_shift w) (interlacing_leftweight w)
      else if setinfo_sample_size alac = 24 then
        deinterlace_24 (outputsamples_buffer_a alac) (outputsamples_buffer_b alac) ub
          (uncompressed_bytes_buffer_a alac) (uncompressed_bytes_buffer_b alac) outbuffer
          channels n (interlacing_shift w) (interlacing_leftweight w)
      else Inr outbuffer)"

text \<open>
  The frame: the decoder, the output and its size in bytes. The size is set before the channels
  are looked at, and a frame with another number of channels writes nothing.
\<close>

definition alac_decode_frame ::
  "alac_file \<Rightarrow> u8 list \<Rightarrow> u8 list \<Rightarrow> int \<Rightarrow> (alac_file \<times> u8 list \<times> int) res" where
  "alac_decode_frame alac inbuffer outbuffer allocated =
     and_then (readbits 3 \<lparr>inbuf = inbuffer, byte_pos = 0, bitaccumulator = 0\<rparr>) (\<lambda>(channels, s).
       (let outputsamples = setinfo_max_samples_per_frame alac;
            outputsize = output_bytes alac outputsamples in
        if allocated < outputsize then Inr (alac, outbuffer, 0)
        else if channels = 0 \<or> channels = 1 then
          and_then (read_header s) (\<lambda>(h, s).
          and_then (read_size alac allocated (hassize h) outputsamples s) (\<lambda>(size, s).
            case size of None \<Rightarrow> Inr (alac, outbuffer, 0)
            | Some (n, outputsize) \<Rightarrow>
                if channels = 0 then
                  and_then (mono_samples h (sint n) alac s) (\<lambda>(ub, alac).
                  and_then (mono_output ub (nat (sint n)) alac outbuffer) (\<lambda>out.
                    Inr (alac, out, outputsize)))
                else
                  and_then (if isnotcompressed h then stereo_raw (sint n) alac s
                            else stereo_compressed h (sint n) alac s) (\<lambda>(ub, w, alac).
                  and_then (stereo_output ub w (nat (sint n)) alac outbuffer) (\<lambda>out.
                    Inr (alac, out, outputsize)))))
        else Inr (alac, outbuffer, outputsize)))"

end
