(* ===== verification/Alac_Lossless.thy ===== *)
theory Alac_Lossless
  imports Alac_Entropy Alac_Decode
begin

text \<open>
  The decoder gives back what an encoder was given: the predictor, the joining of the channels,
  and a whole frame of two channels.
\<close>

section \<open>Sign extension\<close>

definition sext :: "nat \<Rightarrow> u32 \<Rightarrow> u32" where
  "sext bits v = signed_drop_bit (32 - bits) (push_bit (32 - bits) v)"

lemma SIGN_EXTENDED32_sext [simp]:
  "0 < bits \<Longrightarrow> bits \<le> 32 \<Longrightarrow> SIGN_EXTENDED32 v (int bits) = Inr (sext bits v)"
  by (simp add: SIGN_EXTENDED32_def sext_def nat_diff_distrib)

lemma push_sext: "0 < bits \<Longrightarrow> bits \<le> 32 \<Longrightarrow> push_bit (32 - bits) (sext bits v) = push_bit (32 - bits) v"
  unfolding sext_def by (rule bit_word_eqI) (auto simp: bit_simps)

text \<open>What is known of the low bits is enough.\<close>

lemma sext_add_sext: "0 < bits \<Longrightarrow> bits \<le> 32 \<Longrightarrow> sext bits (a + sext bits v) = sext bits (a + v)"
  using push_sext [of bits v] by (simp add: sext_def push_bit_eq_mult distrib_right)

lemma sext_of_int:
  assumes "0 < bits" "bits \<le> 32" "x \<in> sample_range bits"
  shows "sext bits (word_of_int x) = word_of_int x"
proof -
  let ?k = "32 - bits"
  have x: "- (2 ^ (bits - 1)) \<le> x" "x < 2 ^ (bits - 1)" using assms(3) by (auto simp: sample_range_def)
  have p: "(2::int) ^ (bits - 1) * 2 ^ ?k = 2 ^ 31" using assms(1,2) by (simp flip: power_add)
  have "- (2 ^ (bits - 1)) * 2 ^ ?k \<le> x * 2 ^ ?k" by (rule mult_right_mono [OF x(1)]) simp
  then have "- (2 ^ 31) \<le> x * 2 ^ ?k" by (simp only: mult_minus_left p)
  moreover have "x * 2 ^ ?k < 2 ^ (bits - 1) * 2 ^ ?k" by (rule mult_strict_right_mono [OF x(2)]) simp
  then have "x * 2 ^ ?k < 2 ^ 31" by (simp only: p)
  ultimately have "- (2 ^ 31) \<le> x * 2 ^ ?k" "x * 2 ^ ?k < 2 ^ 31" by simp_all
  then have "sint (word_of_int (x * 2 ^ ?k) :: u32) = x * 2 ^ ?k"
    by (intro sint_word_of_int_32) simp_all
  then have "sint (sext bits (word_of_int x)) = x"
    by (simp add: sext_def sint_signed_drop_bit_eq push_bit_eq_mult drop_bit_eq_div)
  moreover have "(2::int) ^ (bits - 1) \<le> 2 ^ 31" using assms(2) by (intro power_increasing) auto
  then have "sint (word_of_int x :: u32) = x" using x by (intro sint_word_of_int_32) simp_all
  ultimately have "sint (sext bits (word_of_int x)) = sint (word_of_int x :: u32)" by simp
  then show ?thesis by (rule signed_word_eqI)
qed

section \<open>The predictor\<close>

text \<open>The encoder's side, over the samples: the errors it writes, adapting as the decoder does.\<close>

definition predicted :: "nat \<Rightarrow> nat \<Rightarrow> nat \<Rightarrow> u32 list \<Rightarrow> u16 list \<Rightarrow> u32" where
  "predicted num quant b xs tbl =
     signed_drop_bit quant (push_bit (quant - 1) 1 + fir_sum num b xs tbl) + xs ! b"

definition adapted :: "nat \<Rightarrow> nat \<Rightarrow> nat \<Rightarrow> u32 list \<Rightarrow> u32 \<Rightarrow> u16 list \<Rightarrow> u16 list" where
  "adapted num quant b xs e tbl =
     (if 0 < sint e then adapt False quant num b xs num e tbl
      else if sint e < 0 then adapt True quant num b xs num e tbl else tbl)"

fun fir_errors :: "nat \<Rightarrow> nat \<Rightarrow> nat \<Rightarrow> u32 list \<Rightarrow> nat \<Rightarrow> nat \<Rightarrow> u16 list \<Rightarrow> u32 list" where
  "fir_errors bits num quant xs b 0 tbl = []"
| "fir_errors bits num quant xs b (Suc n) tbl =
     (let e = sext bits (xs ! (b + num + 1) - predicted num quant b xs tbl)
      in e # fir_errors bits num quant xs (b + 1) n (adapted num quant b xs e tbl))"

definition differences :: "nat \<Rightarrow> u32 list \<Rightarrow> nat \<Rightarrow> u32 list" where
  "differences bits xs n = map (\<lambda>i. sext bits (xs ! (i + 1) - xs ! i)) [0..<n]"

definition predictor_errors :: "nat \<Rightarrow> nat \<Rightarrow> u16 list \<Rightarrow> u32 list \<Rightarrow> u32 list" where
  "predictor_errors bits quant tbl xs =
     (let num = length tbl; n = length xs in
      if num = 0 then xs
      else if num = 31 then hd xs # differences bits xs (n - 1)
      else hd xs # differences bits xs num @ fir_errors bits num quant xs 0 (n - (num + 1)) tbl)"

text \<open>A buffer whose first \<open>m\<close> places hold the samples.\<close>

definition filled :: "nat \<Rightarrow> u32 list \<Rightarrow> u32 list \<Rightarrow> u32 list" where
  "filled m xs out = take m xs @ drop m out"

lemma nth_filled [simp]: "i < m \<Longrightarrow> m \<le> length xs \<Longrightarrow> filled m xs out ! i = xs ! i"
  by (simp add: filled_def nth_append)

lemma length_filled [simp]: "m \<le> length xs \<Longrightarrow> length xs \<le> length out \<Longrightarrow> length (filled m xs out) = length out"
  by (simp add: filled_def)

lemma put_at_filled:
  "m < length xs \<Longrightarrow> length xs \<le> length out \<Longrightarrow> put_at (filled m xs out) m (xs ! m) = Inr (filled (Suc m) xs out)"
  by (simp add: put_at_def filled_def list_update_append take_Suc_conv_app_nth
      flip: Cons_nth_drop_Suc)

lemma filled_all: "filled (length xs) xs out = mem_write 0 xs out"
  by (simp add: filled_def mem_write_def)

lemma fir_sum_filled:
  "b + num < m \<Longrightarrow> m \<le> length xs \<Longrightarrow> fir_sum num b (filled m xs out) tbl = fir_sum num b xs tbl"
  by (auto simp: fir_sum_def intro!: arg_cong [of _ _ sum_list])

lemma adapt_filled:
  "b + num < m \<Longrightarrow> m \<le> length xs \<Longrightarrow> p \<le> num \<Longrightarrow>
   adapt neg quant num b (filled m xs out) p e tbl = adapt neg quant num b xs p e tbl"
  by (induction p arbitrary: neg e tbl) (simp_all add: Let_def)

lemma add_differences_correct:
  assumes "0 < bits" "bits \<le> 32" "\<forall>x\<in>set xs. sext bits x = x" "length xs \<le> length out"
    and "i + n < length xs" "length xs \<le> length err"
    and "\<forall>j. i \<le> j \<and> j < i + n \<longrightarrow> err ! (j + 1) = sext bits (xs ! (j + 1) - xs ! j)"
  shows "add_differences (int bits) err i n (filled (i + 1) xs out) = Inr (filled (i + 1 + n) xs out)"
  using assms(5,7)
proof (induction n arbitrary: i)
  case (Suc n)
  have x: "sext bits (xs ! i + err ! (i + 1)) = xs ! (i + 1)"
    using Suc.prems assms(1-3) by (simp add: sext_add_sext)
  have "add_differences (int bits) err (i + 1) n (filled (i + 1 + 1) xs out) = Inr (filled (i + 1 + 1 + n) xs out)"
    by (rule Suc.IH) (use Suc.prems in auto)
  then show ?case
    using Suc.prems assms x put_at_filled [of "i + 1" xs out] by (simp add: get_at_def)
qed simp

lemma fir_step_correct:
  assumes "0 < bits" "bits \<le> 32" "sext bits (xs ! (b + num + 1)) = xs ! (b + num + 1)" "0 < quant"
    and "b + num + 1 < length xs" "length xs \<le> length out" "length xs \<le> length err"
    and "err ! (b + num + 1) = sext bits (xs ! (b + num + 1) - predicted num quant b xs tbl)"
  shows "fir_step (int bits) num quant err b (filled (b + num + 1) xs out, tbl)
           = Inr (filled (b + num + 2) xs out, adapted num quant b xs (err ! (b + num + 1)) tbl)"
proof -
  let ?e = "err ! (b + num + 1)"
  have "signed_drop_bit quant (push_bit (quant - 1) 1 + fir_sum num b xs tbl) + xs ! b + ?e
      = predicted num quant b xs tbl + ?e"
    by (simp add: predicted_def)
  moreover have "sext bits (predicted num quant b xs tbl + ?e) = xs ! (b + num + 1)"
    using assms by (simp add: sext_add_sext)
  ultimately show ?thesis
    using assms put_at_filled [of "b + num + 1" xs out]
    by (simp add: fir_step_def get_at_def fir_sum_filled adapt_filled adapted_def Let_def
        del: push_bit_of_1)
qed

lemma fir_loop_correct:
  assumes "0 < bits" "bits \<le> 32" "\<forall>x\<in>set xs. sext bits x = x" "0 < quant" "length xs \<le> length out"
    and "length xs \<le> length err" "b + num + 1 + n = length xs"
    and "\<forall>i<n. err ! (b + num + 1 + i) = fir_errors bits num quant xs b n tbl ! i"
  shows "\<exists>tbl'. fir_loop (int bits) num quant err b n (filled (b + num + 1) xs out, tbl)
           = Inr (filled (length xs) xs out, tbl')"
  using assms(7,8)
proof (induction n arbitrary: b tbl)
  case (Suc n)
  let ?e = "sext bits (xs ! (b + num + 1) - predicted num quant b xs tbl)"
  have e: "err ! (b + num + 1) = ?e" using Suc.prems(2) [rule_format, of 0] by (simp add: Let_def)
  have step: "fir_step (int bits) num quant err b (filled (b + num + 1) xs out, tbl)
      = Inr (filled (b + 1 + num + 1) xs out, adapted num quant b xs ?e tbl)"
    using fir_step_correct [of bits xs b num quant out err tbl] assms(1-6) Suc.prems(1) e by simp
  have "\<forall>i<n. err ! (b + 1 + num + 1 + i)
      = fir_errors bits num quant xs (b + 1) n (adapted num quant b xs ?e tbl) ! i"
  proof (intro allI impI)
    fix i assume "i < n"
    then show "err ! (b + 1 + num + 1 + i)
        = fir_errors bits num quant xs (b + 1) n (adapted num quant b xs ?e tbl) ! i"
      using Suc.prems(2) [rule_format, of "Suc i"] by (simp add: Let_def)
  qed
  then have "\<exists>tbl'. fir_loop (int bits) num quant err (b + 1) n
      (filled (b + 1 + num + 1) xs out, adapted num quant b xs ?e tbl) = Inr (filled (length xs) xs out, tbl')"
    by (intro Suc.IH) (use Suc.prems(1) in simp_all)
  then show ?case using step by (simp only: fir_loop.simps and_then_simps)
qed simp

lemma predictor_undone:
  assumes "0 < bits" "bits \<le> 32" "0 < quant" "set xs \<subseteq> word_of_int ` sample_range bits"
    and "xs \<noteq> []" "length tbl = 31 \<or> length tbl < length xs"
    and "length xs \<le> length out"
  shows "predictor_decompress_fir_adapt (predictor_errors bits quant tbl xs @ rest) out
           (int (length xs)) (int bits) tbl (length tbl) quant = Inr (mem_write 0 xs out)"
proof -
  let ?num = "length tbl" and ?n = "length xs"
  let ?err = "predictor_errors bits quant tbl xs @ rest"
  have r: "\<forall>x\<in>set xs. sext bits x = x" using assms(1,2,4) by (auto simp: sext_of_int)
  have len: "length (fir_errors bits num quant xs b n tb) = n" for num b n tb
    by (induction n arbitrary: b tb) (simp_all add: Let_def)
  have hd: "?err ! 0 = xs ! 0" using assms(5) by (auto simp: predictor_errors_def Let_def hd_conv_nth nth_append)
  have l: "?n \<le> length ?err" "0 < ?n" using assms(5,6) by (auto simp: predictor_errors_def Let_def len differences_def)
  have f: "put_at out 0 (xs ! 0) = Inr (filled 1 xs out)"
    using put_at_filled [of 0 xs out] l(2) assms(7) by (simp add: filled_def)
  have d: "?err ! (j + 1) = sext bits (xs ! (j + 1) - xs ! j)"
    if "?num = 31 \<and> j < ?n - 1 \<or> ?num \<noteq> 31 \<and> j < ?num" for j
    using that by (auto simp: predictor_errors_def Let_def differences_def nth_append)
  consider "?num = 0" | "?num = 31" | "?num \<noteq> 0" "?num \<noteq> 31" "?num < ?n" using assms(6) by blast
  then show ?thesis
  proof cases
    case 1
    obtain y ys where xs: "xs = y # ys" using assms(5) by (cases xs) auto
    have "predictor_errors bits quant tbl xs = xs" using 1 by (simp add: predictor_errors_def)
    moreover have "nat (2 + int k) = Suc (Suc k)" for k by simp
    ultimately show ?thesis
      using 1 f assms(7) unfolding xs
      by (cases ys) (simp_all add: predictor_decompress_fir_adapt_def get_at_def Let_def filled_def mem_write_def)
  next
    case 2
    have "add_differences (int bits) ?err 0 (?n - 1) (filled 1 xs out) = Inr (filled ?n xs out)"
      using add_differences_correct [of bits xs out 0 "?n - 1" ?err] assms(1,2,7) r l d 2 by simp
    then show ?thesis
      using 2 l f hd by (cases "?n = 1") (auto simp: predictor_decompress_fir_adapt_def get_at_def Let_def
          filled_all nat_diff_distrib simp flip: filled_all)
  next
    case 3
    have "add_differences (int bits) ?err 0 ?num (filled 1 xs out) = Inr (filled (?num + 1) xs out)"
      using add_differences_correct [of bits xs out 0 ?num ?err] assms(1,2,7) r l d 3 by simp
    moreover have "\<exists>tbl'. fir_loop (int bits) ?num quant ?err 0 (?n - (?num + 1)) (filled (?num + 1) xs out, tbl)
        = Inr (filled ?n xs out, tbl')"
    proof -
      have "\<forall>i<?n - (?num + 1). ?err ! (0 + ?num + 1 + i)
          = fir_errors bits ?num quant xs 0 (?n - (?num + 1)) tbl ! i"
        using 3 by (auto simp: predictor_errors_def Let_def differences_def nth_append len)
      then show ?thesis
        using fir_loop_correct [of bits xs quant out ?err 0 ?num "?n - (?num + 1)" tbl] assms(1-3,7) r l(1) 3
        by simp
    qed
    ultimately show ?thesis
      using 3 l f hd by (auto simp: predictor_decompress_fir_adapt_def get_at_def Let_def filled_all)
  qed
qed

text \<open>
  The predictor undoes the encoder's: whatever the coefficients, the shift (from one on) and
  the samples, of any width up to 32 bits, the samples written are those that were encoded,
  also when there are no coefficients, with the 31 that stand for plain differences, and while
  the coefficients adapt.
\<close>

theorem predictor_lossless:
  assumes "0 < bits" "bits \<le> 32" "0 < quant" "set xs \<subseteq> word_of_int ` sample_range bits"
    and "xs \<noteq> []" "length tbl = 31 \<or> length tbl < length xs"
    and "length xs \<le> length out"
  shows "predictor_decompress_fir_adapt (predictor_errors bits quant tbl xs @ rest) out
           (int (length xs)) (int bits) tbl (length tbl) quant = Inr (mem_write 0 xs out)"
  using assms by (rule predictor_undone)

section \<open>Reading the fields of a frame\<close>

text \<open>The reader is before the bits \<open>bs\<close>.\<close>

definition before :: "bitreader \<Rightarrow> bool list \<Rightarrow> bool" where
  "before s bs \<longleftrightarrow> reader_ok s \<and> bits_left s = bs"

lemma before_moved: "before s (xs @ bs) \<Longrightarrow> length xs = n \<Longrightarrow> before (moved n s) bs"
  by (auto simp: before_def)

lemma readbits_field:
  assumes "before s (to_bits n x @ bs)" "x < 2 ^ n" "n \<le> 32" "24 \<le> length bs"
  shows "\<exists>s'. readbits (int n) s = Inr (of_nat x, s') \<and> before s' bs"
  using readbits_correct [of s n] assms before_moved [OF assms(1), of n]
  by (auto simp: before_def)

lemma read_table_field:
  assumes "24 \<le> length bs"
  shows "before s (concat (map (\<lambda>c. to_bits 16 (unat c)) tbl) @ bs) \<Longrightarrow>
    \<exists>s'. read_table (length tbl) s = Inr (tbl, s') \<and> before s' bs"
proof (induction tbl arbitrary: s)
  case (Cons c tbl)
  have c: "unat c < 2 ^ 16" using unat_u16 [of c] by simp
  obtain s1 where s1: "readbits 16 s = Inr (of_nat (unat c), s1)"
      "before s1 (concat (map (\<lambda>c. to_bits 16 (unat c)) tbl) @ bs)"
    using readbits_field [of s 16 "unat c" "concat (map (\<lambda>c. to_bits 16 (unat c)) tbl) @ bs"] Cons.prems c assms
    by auto
  obtain s2 where "read_table (length tbl) s1 = Inr (tbl, s2)" "before s2 bs"
    using Cons.IH [OF s1(2)] by auto
  moreover have "ucast (of_nat (unat c) :: u32) = c"
    by (rule bit_word_eqI) (auto simp: bit_simps)
  ultimately show ?case using s1 by auto
qed simp

definition channel_bits :: "nat \<Rightarrow> nat \<Rightarrow> u16 list \<Rightarrow> bool list" where
  "channel_bits quant rice tbl =
     to_bits 4 0 @ to_bits 4 quant @ to_bits 3 rice @ to_bits 5 (length tbl)
     @ concat (map (\<lambda>c. to_bits 16 (unat c)) tbl)"

lemma read_channel_params_field:
  assumes "before s (channel_bits quant rice tbl @ bs)" "24 \<le> length bs"
    and "quant < 16" "rice < 8" "length tbl < 32"
  shows "\<exists>s'. read_channel_params s = Inr (\<lparr>prediction_type = 0, prediction_quantitization = quant,
      ricemodifier = rice, predictor_coef_table = tbl\<rparr>, s') \<and> before s' bs"
proof -
  let ?t = "concat (map (\<lambda>c. to_bits 16 (unat c)) tbl)"
  obtain s1 where s1: "readbits 4 s = Inr (0, s1)"
      "before s1 (to_bits 4 quant @ to_bits 3 rice @ to_bits 5 (length tbl) @ ?t @ bs)"
    using readbits_field [of s 4 0 "to_bits 4 quant @ to_bits 3 rice @ to_bits 5 (length tbl) @ ?t @ bs"] assms
    by (auto simp: channel_bits_def)
  obtain s2 where s2: "readbits 4 s1 = Inr (of_nat quant, s2)"
      "before s2 (to_bits 3 rice @ to_bits 5 (length tbl) @ ?t @ bs)"
    using readbits_field [OF s1(2)] assms by auto
  obtain s3 where s3: "readbits 3 s2 = Inr (of_nat rice, s3)" "before s3 (to_bits 5 (length tbl) @ ?t @ bs)"
    using readbits_field [OF s2(2)] assms by auto
  obtain s4 where s4: "readbits 5 s3 = Inr (of_nat (length tbl), s4)" "before s4 (?t @ bs)"
    using readbits_field [OF s3(2)] assms by auto
  obtain s5 where s5: "read_table (length tbl) s4 = Inr (tbl, s5)" "before s5 bs"
    using read_table_field [OF assms(2) s4(2)] by auto
  have "unat (of_nat quant :: u32) = quant" "unat (of_nat rice :: u32) = rice"
      "unat (of_nat (length tbl) :: u32) = length tbl"
    using assms by (auto intro!: unat_of_nat_32)
  then show ?thesis using s1 s2 s3 s4 s5 by (simp add: read_channel_params_def)
qed

lemma sint_sext: "0 < bits \<Longrightarrow> bits \<le> 32 \<Longrightarrow> sint (sext bits v) \<in> sample_range bits"
proof -
  assume b: "0 < bits" "bits \<le> 32"
  let ?w = "push_bit (32 - bits) v" and ?k = "32 - bits"
  have p: "(2::int) ^ (bits - 1) * 2 ^ ?k = 2 ^ 31" using b by (simp flip: power_add)
  have "sint (sext bits v) = sint ?w div 2 ^ ?k"
    by (simp add: sext_def sint_signed_drop_bit_eq drop_bit_eq_div)
  moreover have "sint ?w div 2 ^ ?k < 2 ^ (bits - 1)"
  proof -
    have "sint ?w div 2 ^ ?k * 2 ^ ?k \<le> sint ?w" by (simp flip: minus_mod_eq_div_mult)
    also have "sint ?w < 2 ^ (bits - 1) * 2 ^ ?k" using sint_bounds_32(2) [of ?w] unfolding p by simp
    finally show ?thesis by (rule mult_right_less_imp_less) simp
  qed
  moreover have "- (2 ^ (bits - 1)) \<le> sint ?w div 2 ^ ?k"
  proof -
    have "- (2 ^ (bits - 1)) * 2 ^ ?k \<le> sint ?w"
      using sint_bounds_32(1) [of ?w] unfolding mult_minus_left p by simp
    then have "- (2 ^ (bits - 1)) * 2 ^ ?k div 2 ^ ?k \<le> sint ?w div 2 ^ ?k" by (rule zdiv_mono1) simp
    then show ?thesis by (simp only: nonzero_mult_div_cancel_right power_not_zero zero_neq_numeral not_False_eq_True)
  qed
  ultimately show ?thesis by (simp add: sample_range_def)
qed

lemma predictor_errors_range:
  assumes "0 < bits" "bits \<le> 32" "set xs \<subseteq> word_of_int ` sample_range bits" "xs \<noteq> []"
  shows "set (map sint (predictor_errors bits quant tbl xs)) \<subseteq> sample_range bits"
proof -
  have x: "sint x \<in> sample_range bits" if "x \<in> set xs" for x
  proof -
    have "sext bits x = x" using that assms(3) sext_of_int [OF assms(1,2)] by auto
    then show ?thesis using sint_sext [OF assms(1,2), of x] by simp
  qed
  have e: "sint e \<in> sample_range bits" if "e \<in> set (fir_errors bits num quant xs b n tb)" for e num b n tb
    using that by (induction n arbitrary: b tb) (auto simp: Let_def sint_sext assms(1,2))
  show ?thesis
    using x e assms(4) sint_sext [OF assms(1,2)]
    by (auto simp: predictor_errors_def Let_def differences_def)
qed

section \<open>A channel\<close>

text \<open>What the decoder must be set up with, for frames of \<open>n\<close> samples.\<close>

definition setup_ok :: "nat \<Rightarrow> alac_file \<Rightarrow> bool" where
  "setup_ok n alac \<longleftrightarrow>
     0 < n \<and> n < 2 ^ 16 \<and> numchannels alac = 2 \<and> bytespersample alac = 4 \<and> setinfo_sample_size alac = 16
     \<and> 0 < setinfo_rice_initialhistory alac
     \<and> 0 < setinfo_rice_kmodifier alac \<and> setinfo_rice_kmodifier alac < 32
     \<and> n \<le> length (predicterror_buffer_a alac) \<and> n \<le> length (predicterror_buffer_b alac)
     \<and> n \<le> length (outputsamples_buffer_a alac) \<and> n \<le> length (outputsamples_buffer_b alac)"

record predictor =
  quant :: nat
  rice :: nat
  coefs :: "u16 list"

definition predictor_ok :: "nat \<Rightarrow> alac_file \<Rightarrow> predictor \<Rightarrow> bool" where
  "predictor_ok n alac q \<longleftrightarrow>
     0 < quant q \<and> quant q < 16 \<and> rice q < 8
     \<and> 0 < rice q * unat (setinfo_rice_historymult alac) div 4
     \<and> rice q * unat (setinfo_rice_historymult alac) div 4 < 64
     \<and> (length (coefs q) = 31 \<or> length (coefs q) < 31 \<and> length (coefs q) < n)"

text \<open>The codes of the prediction errors of a channel.\<close>

definition channel_codes :: "nat \<Rightarrow> alac_file \<Rightarrow> predictor \<Rightarrow> u32 list \<Rightarrow> bool list" where
  "channel_codes bits alac q xs =
     rice_encode bits (unat (setinfo_rice_kmodifier alac))
       (rice q * unat (setinfo_rice_historymult alac) div 4)
       (unat (setinfo_rice_initialhistory alac)) 0 (map sint (predictor_errors bits (quant q) (coefs q) xs))"

lemma length_predictor_errors:
  assumes "xs \<noteq> []" "length tbl = 31 \<or> length tbl < length xs"
  shows "length (predictor_errors bits q tbl xs) = length xs"
proof -
  have "length (fir_errors bits num q xs b n tb) = n" for num b n tb
    by (induction n arbitrary: b tb) (simp_all add: Let_def)
  then show ?thesis using assms by (cases xs) (auto simp: predictor_errors_def Let_def differences_def)
qed

lemma decode_channel_correct:
  assumes ok: "setup_ok (length xs) alac" "predictor_ok (length xs) alac q"
    and bits: "0 < bits" "bits \<le> 30" and xs: "set xs \<subseteq> word_of_int ` sample_range bits"
    and at: "before s (channel_codes bits alac q xs @ bs)" "25 \<le> length bs"
    and len: "length xs \<le> length errors" "length xs \<le> length out"
  shows "\<exists>errors' s'. decode_channel alac (int (length xs)) (int bits)
      \<lparr>prediction_type = 0, prediction_quantitization = quant q, ricemodifier = rice q,
       predictor_coef_table = coefs q\<rparr> errors out s
      = Inr (errors', mem_write 0 xs out, s') \<and> before s' bs"
proof -
  let ?e = "predictor_errors bits (quant q) (coefs q) xs"
  let ?k = "setinfo_rice_kmodifier alac"
  let ?m = "rice q * unat (setinfo_rice_historymult alac) div 4"
  define p where "p = \<lparr>outputSize = length xs, readSampleSize = int bits, rice_kmodifier = uint ?k,
    rice_historymult = of_nat ?m, rice_kmodifier_mask = push_bit (unat ?k) 1 - 1\<rparr>"
  have q: "length (coefs q) = 31 \<or> length (coefs q) < length xs" "xs \<noteq> []" "0 < quant q"
    using ok by (auto simp: predictor_ok_def setup_ok_def)
  have k: "0 < unat ?k" "unat ?k < 32"
    using ok(1) by (simp_all add: setup_ok_def word_less_nat_alt unat_gt_0)
  have p: "rice_params_of alac (int (length xs)) (int bits) (rice q) = Inr p"
    using ok(1) by (simp add: rice_params_of_def p_def setup_ok_def not_le)
  have "params_ok bits (unat ?k) ?m p"
    using k bits ok(2) exp_minus_one_32 [OF k(2)]
    by (simp add: params_ok_def p_def predictor_ok_def)
  moreover have "0 < unat (setinfo_rice_initialhistory alac)"
    using ok(1) by (auto simp: setup_ok_def word_less_nat_alt)
  moreover have "unat (setinfo_rice_initialhistory alac) \<le> 255"
    using unsigned_less [of "setinfo_rice_initialhistory alac", where ?'a = nat] by simp
  moreover have "set (map sint ?e) \<subseteq> sample_range bits"
    using predictor_errors_range [of bits xs] bits xs q by simp
  moreover have "length ?e = length xs" by (rule length_predictor_errors) (use q in auto)
  moreover have "length xs < 2 ^ 16" using ok(1) by (simp add: setup_ok_def)
  ultimately have "entropy_rice_decode p (of_nat (unat (setinfo_rice_initialhistory alac))) errors s
      = Inr (mem_write 0 (map word_of_int (map sint ?e)) errors, moved (length (channel_codes bits alac q xs)) s)"
    unfolding channel_codes_def
    by (intro rice_channel) (use at len in \<open>simp_all add: p_def before_def channel_codes_def\<close>)
  then have e: "entropy_rice_decode p (ucast (setinfo_rice_initialhistory alac)) errors s
      = Inr (?e @ drop (length xs) errors, moved (length (channel_codes bits alac q xs)) s)"
    using length_predictor_errors [OF q(2,1), of bits "quant q"] by (simp add: mem_write_def comp_def)
  have "predictor_decompress_fir_adapt (?e @ drop (length xs) errors) out (int (length xs)) (int bits)
      (coefs q) (length (coefs q)) (quant q) = Inr (mem_write 0 xs out)"
    by (rule predictor_undone) (use bits q xs len in auto)
  then show ?thesis
    using e p before_moved [OF at(1)] by (simp add: decode_channel_def)
qed

section \<open>Two channels\<close>

text \<open>
  The encoder's pair for a left and a right sample, with the weight of the frame: the middle and
  the difference, or the samples themselves.
\<close>

definition mix :: "nat \<Rightarrow> u8 \<Rightarrow> int \<times> int \<Rightarrow> int \<times> int" where
  "mix shift weight = (\<lambda>(l, r).
     if weight \<noteq> 0 then (r + (l - r) * uint weight div 2 ^ shift, l - r) else (l, r))"

definition pcm :: "(int \<times> int) list \<Rightarrow> u8 list" where
  "pcm lrs = concat (map (\<lambda>(l, r). bytes_16 (word_of_int l) @ bytes_16 (word_of_int r)) lrs)"

lemma length_pcm [simp]: "length (pcm lrs) = 4 * length lrs"
  by (induction lrs) (auto simp: pcm_def bytes_16_def)

lemma right_of_mix:
  assumes "l \<in> sample_range 16" "r \<in> sample_range 16" "shift < 32" "weight \<noteq> 0"
    and "mix shift weight (l, r) = (a, b)"
  shows "right_of (word_of_int a) (word_of_int b) shift weight = Inr (word_of_int r)"
    and "b = l - r"
proof -
  have b: "b = l - r" "a = r + (l - r) * uint weight div 2 ^ shift"
    using assms(4,5) by (auto simp: mix_def)
  have w: "0 \<le> uint weight" "uint weight \<le> 255"
    using uint_lt2p [of weight] by simp_all
  have d: "\<bar>l - r\<bar> \<le> 65535" using assms(1,2) by (auto simp: sample_range_def)
  have "\<bar>(l - r) * uint weight\<bar> \<le> 65535 * 255"
    unfolding abs_mult using d w by (intro mult_mono) auto
  then have "sint (word_of_int ((l - r) * uint weight) :: u32) = (l - r) * uint weight"
    by (intro sint_word_of_int_32) auto
  moreover have "word_of_int b * ucast weight = (word_of_int ((l - r) * uint weight) :: u32)"
    using b by simp
  ultimately have "signed_drop_bit shift (word_of_int b * ucast weight :: u32)
      = word_of_int ((l - r) * uint weight div 2 ^ shift)"
    by (metis drop_bit_eq_div of_int_sint scast_id sint_signed_drop_bit_eq)
  then show "right_of (word_of_int a) (word_of_int b) shift weight = Inr (word_of_int r)"
    using assms(3) b by (simp add: right_of_def)
  show "b = l - r" by (rule b)
qed

lemma ucast_of_int_16: "ucast (word_of_int x :: u32) = (word_of_int x :: u16)"
  by (rule bit_word_eqI) (auto simp: bit_simps)

lemma deinterlace_step:
  assumes lr: "l \<in> sample_range 16" "r \<in> sample_range 16" and "shift < 32" "mix shift weight (l, r) = (a, b)"
  shows "(if weight \<noteq> 0 then
            and_then (right_of (word_of_int a) (word_of_int b) shift weight) (\<lambda>r.
              let right = ucast r :: u16; left = ucast (scast right + (word_of_int b :: u32)) :: u16
              in Inr (left, right))
          else Inr (ucast (word_of_int a :: u32), ucast (word_of_int b :: u32)))
         = (Inr (word_of_int l, word_of_int r) :: (u16 \<times> u16) res)"
proof (cases "weight = 0")
  case True
  then show ?thesis using assms(4) by (simp add: mix_def ucast_of_int_16)
next
  case False
  have "sint (word_of_int r :: u16) = r"
    using lr(2) by (intro sint_word_of_int_16) (auto simp: sample_range_def)
  then have "scast (word_of_int r :: u16) = (word_of_int r :: u32)"
    by (metis of_int_sint)
  then show ?thesis
    using right_of_mix [OF lr assms(3) False assms(4)] False by (simp add: ucast_of_int_16)
qed

text \<open>The two buffers from index \<open>i\<close> on, and the output from there.\<close>

lemma deinterlace_loop:
  assumes "shift < 32"
    and "\<And>i out. f i out = (and_then (get_at buffer_a i) (\<lambda>a. and_then (get_at buffer_b i) (\<lambda>b.
       and_then
         (if weight \<noteq> 0 then
            and_then (right_of a b shift weight) (\<lambda>r.
              let right = ucast r :: u16; left = ucast (scast right + b) :: u16 in Inr (left, right))
          else Inr (ucast a, ucast b))
         (\<lambda>(left, right).
       and_then (put_bytes out (2 * (i * 2)) (bytes_16 left)) (\<lambda>out.
         put_bytes out (2 * (i * 2 + 1)) (bytes_16 right))))))"
  shows "set lrs \<subseteq> sample_range 16 \<times> sample_range 16 \<Longrightarrow>
    (\<forall>j<length lrs. i + j < length buffer_a \<and> i + j < length buffer_b
       \<and> buffer_a ! (i + j) = word_of_int (fst (mix shift weight (lrs ! j)))
       \<and> buffer_b ! (i + j) = word_of_int (snd (mix shift weight (lrs ! j)))) \<Longrightarrow>
    4 * (i + length lrs) \<le> length out \<Longrightarrow>
    loop_res i (length lrs) f out = Inr (mem_write (4 * i) (pcm lrs) out)"
proof (induction lrs arbitrary: i out)
  case (Cons lr lrs)
  obtain l r a b where lr: "lr = (l, r)" "mix shift weight (l, r) = (a, b)" by (cases lr) fastforce
  have r: "l \<in> sample_range 16" "r \<in> sample_range 16" using Cons.prems(1) lr by auto
  have hd: "i < length buffer_a" "i < length buffer_b" "buffer_a ! i = word_of_int a" "buffer_b ! i = word_of_int b"
    using Cons.prems(2) [rule_format, of 0] lr by auto
  have st: "f i out = Inr (mem_write (4 * i) (bytes_16 (word_of_int l) @ bytes_16 (word_of_int r)) out)"
    unfolding assms(2) get_at_def using hd deinterlace_step [OF r assms(1) lr(2)] Cons.prems(3)
      mem_write_mem_write [of "4 * i" "bytes_16 (word_of_int l)" out]
    by (simp add: put_bytes_def bytes_16_def)
  have "loop_res (i + 1) (length lrs) f (mem_write (4 * i) (bytes_16 (word_of_int l) @ bytes_16 (word_of_int r)) out)
      = Inr (mem_write (4 * (i + 1)) (pcm lrs)
          (mem_write (4 * i) (bytes_16 (word_of_int l) @ bytes_16 (word_of_int r)) out))"
  proof (rule Cons.IH)
    show "\<forall>j<length lrs. i + 1 + j < length buffer_a \<and> i + 1 + j < length buffer_b
       \<and> buffer_a ! (i + 1 + j) = word_of_int (fst (mix shift weight (lrs ! j)))
       \<and> buffer_b ! (i + 1 + j) = word_of_int (snd (mix shift weight (lrs ! j)))"
    proof (intro allI impI)
      fix j assume "j < length lrs"
      then show "i + 1 + j < length buffer_a \<and> i + 1 + j < length buffer_b
       \<and> buffer_a ! (i + 1 + j) = word_of_int (fst (mix shift weight (lrs ! j)))
       \<and> buffer_b ! (i + 1 + j) = word_of_int (snd (mix shift weight (lrs ! j)))"
        using Cons.prems(2) [rule_format, of "Suc j"] by simp
    qed
  qed (use Cons.prems in \<open>auto simp: bytes_16_def\<close>)
  moreover have "mem_write (4 * (i + 1)) (pcm lrs)
        (mem_write (4 * i) (bytes_16 (word_of_int l) @ bytes_16 (word_of_int r)) out)
      = mem_write (4 * i) (pcm (lr # lrs)) out"
  proof -
    let ?p = "bytes_16 (word_of_int l) @ bytes_16 (word_of_int r)"
    have len: "length ?p = 4" by (simp add: bytes_16_def)
    then have "4 * i + length ?p \<le> length out" using Cons.prems(3) by simp
    from mem_write_mem_write [OF this, of "pcm lrs"] show ?thesis
      using len by (simp add: lr(1) pcm_def add.commute)
  qed
  ultimately show ?case using st by simp
qed (simp add: pcm_def)

lemma deinterlace_16_correct:
  assumes "shift < 32" "set lrs \<subseteq> sample_range 16 \<times> sample_range 16" "4 * length lrs \<le> length out"
    and "mixed = map (mix shift weight) lrs"
  shows "deinterlace_16 (map (word_of_int \<circ> fst) mixed @ ra) (map (word_of_int \<circ> snd) mixed @ rb) out 2
           (length lrs) shift weight = Inr (mem_write 0 (pcm lrs) out)"
  unfolding deinterlace_16_def
  using deinterlace_loop [OF assms(1) refl assms(2), of 0 "map (word_of_int \<circ> fst) mixed @ ra"
      "map (word_of_int \<circ> snd) mixed @ rb" weight out] assms(3,4)
  by (simp add: nth_append)

section \<open>A frame\<close>

definition mids :: "nat \<Rightarrow> u8 \<Rightarrow> (int \<times> int) list \<Rightarrow> u32 list" where
  "mids shift weight lrs = map (word_of_int \<circ> fst) (map (mix shift weight) lrs)"

definition sides :: "nat \<Rightarrow> u8 \<Rightarrow> (int \<times> int) list \<Rightarrow> u32 list" where
  "sides shift weight lrs = map (word_of_int \<circ> snd) (map (mix shift weight) lrs)"

definition stereo_bits ::
  "alac_file \<Rightarrow> nat \<Rightarrow> u8 \<Rightarrow> predictor \<Rightarrow> predictor \<Rightarrow> (int \<times> int) list \<Rightarrow> bool list" where
  "stereo_bits alac shift weight qa qb lrs =
     to_bits 8 shift @ to_bits 8 (unat weight)
     @ channel_bits (quant qa) (rice qa) (coefs qa) @ channel_bits (quant qb) (rice qb) (coefs qb)
     @ channel_codes 17 alac qa (mids shift weight lrs) @ channel_codes 17 alac qb (sides shift weight lrs)"

definition header_bits :: "bool \<Rightarrow> nat \<Rightarrow> bool list" where
  "header_bits has n =
     to_bits 4 0 @ to_bits 12 0 @ to_bits 1 (of_bool has) @ to_bits 2 0 @ to_bits 1 0
     @ (if has then to_bits 32 n else [])"

definition frame_bits ::
  "alac_file \<Rightarrow> bool \<Rightarrow> nat \<Rightarrow> u8 \<Rightarrow> predictor \<Rightarrow> predictor \<Rightarrow> (int \<times> int) list \<Rightarrow> bool list" where
  "frame_bits alac has shift weight qa qb lrs =
     to_bits 3 1 @ header_bits has (length lrs) @ stereo_bits alac shift weight qa qb lrs"

text \<open>What an encoder must be given: 16-bit samples, and a middle that fits 17 bits.\<close>

definition encodable :: "alac_file \<Rightarrow> nat \<Rightarrow> u8 \<Rightarrow> predictor \<Rightarrow> predictor \<Rightarrow> (int \<times> int) list \<Rightarrow> bool" where
  "encodable alac shift weight qa qb lrs \<longleftrightarrow>
     setup_ok (length lrs) alac \<and> predictor_ok (length lrs) alac qa \<and> predictor_ok (length lrs) alac qb
     \<and> shift < 32 \<and> (\<forall>lr\<in>set lrs. fst lr \<in> sample_range 16 \<and> snd lr \<in> sample_range 16
         \<and> fst (mix shift weight lr) \<in> sample_range 17)"

lemma mids_sides_range:
  assumes "encodable alac shift weight qa qb lrs"
  shows "set (mids shift weight lrs) \<subseteq> word_of_int ` sample_range 17"
    and "set (sides shift weight lrs) \<subseteq> word_of_int ` sample_range 17"
    and "length (mids shift weight lrs) = length lrs" "length (sides shift weight lrs) = length lrs"
proof -
  have "snd (mix shift weight lr) \<in> sample_range 17" if "lr \<in> set lrs" for lr
    using assms that by (cases lr) (force simp: encodable_def mix_def sample_range_def)
  then show "set (sides shift weight lrs) \<subseteq> word_of_int ` sample_range 17" by (auto simp: sides_def)
  show "set (mids shift weight lrs) \<subseteq> word_of_int ` sample_range 17"
    using assms by (auto simp: mids_def encodable_def)
qed (simp_all add: mids_def sides_def)

text \<open>After the samples have been read the buffers start with the middles and the differences.\<close>

lemma stereo_compressed_correct:
  assumes e: "encodable alac shift weight qa qb lrs" and h: "uncompressed_bytes h = 0"
    and at: "before s (stereo_bits alac shift weight qa qb lrs @ bs)" "25 \<le> length bs"
  shows "\<exists>alac'. stereo_compressed h (int (length lrs)) alac s
        = Inr (0, \<lparr>interlacing_shift = shift, interlacing_leftweight = weight\<rparr>, alac')
      \<and> outputsamples_buffer_a alac' = mem_write 0 (mids shift weight lrs) (outputsamples_buffer_a alac)
      \<and> outputsamples_buffer_b alac' = mem_write 0 (sides shift weight lrs) (outputsamples_buffer_b alac)
      \<and> numchannels alac' = 2 \<and> setinfo_sample_size alac' = 16"
proof -
  note e' = e [unfolded encodable_def]
  note ok = e' [THEN conjunct1]
  note r = mids_sides_range [OF e]
  let ?cb = "\<lambda>q. channel_bits (quant q) (rice q) (coefs q)"
  let ?ca = "channel_codes 17 alac qa (mids shift weight lrs)" and ?cs = "channel_codes 17 alac qb (sides shift weight lrs)"
  have w: "unat weight < 2 ^ 8" using unsigned_less [of weight, where ?'a = nat] by simp
  obtain s1 where s1: "readbits 8 s = Inr (of_nat shift, s1)"
      "before s1 (to_bits 8 (unat weight) @ ?cb qa @ ?cb qb @ ?ca @ ?cs @ bs)"
    using readbits_field [of s 8 shift "to_bits 8 (unat weight) @ ?cb qa @ ?cb qb @ ?ca @ ?cs @ bs"] at e'
    by (auto simp: stereo_bits_def)
  obtain s2 where s2: "readbits 8 s1 = Inr (of_nat (unat weight), s2)" "before s2 (?cb qa @ ?cb qb @ ?ca @ ?cs @ bs)"
    using readbits_field [OF s1(2) w] at(2) by auto
  obtain s3 where s3: "read_channel_params s2 = Inr (\<lparr>prediction_type = 0, prediction_quantitization = quant qa,
      ricemodifier = rice qa, predictor_coef_table = coefs qa\<rparr>, s3)" "before s3 (?cb qb @ ?ca @ ?cs @ bs)"
    using read_channel_params_field [OF s2(2)] at(2) e' by (auto simp: predictor_ok_def)
  obtain s4 where s4: "read_channel_params s3 = Inr (\<lparr>prediction_type = 0, prediction_quantitization = quant qb,
      ricemodifier = rice qb, predictor_coef_table = coefs qb\<rparr>, s4)" "before s4 (?ca @ ?cs @ bs)"
    using read_channel_params_field [OF s3(2)] at(2) e' by (auto simp: predictor_ok_def)
  obtain ea s5 where s5: "decode_channel alac (int (length lrs)) 17 \<lparr>prediction_type = 0,
      prediction_quantitization = quant qa, ricemodifier = rice qa, predictor_coef_table = coefs qa\<rparr>
      (predicterror_buffer_a alac) (outputsamples_buffer_a alac) s4
      = Inr (ea, mem_write 0 (mids shift weight lrs) (outputsamples_buffer_a alac), s5)" "before s5 (?cs @ bs)"
    using decode_channel_correct [of "mids shift weight lrs" alac qa 17 s4 "?cs @ bs"
      "predicterror_buffer_a alac" "outputsamples_buffer_a alac"] r s4(2) at(2) e' ok
    by (auto simp: setup_ok_def)
  obtain eb s6 where s6: "decode_channel alac (int (length lrs)) 17 \<lparr>prediction_type = 0,
      prediction_quantitization = quant qb, ricemodifier = rice qb, predictor_coef_table = coefs qb\<rparr>
      (predicterror_buffer_b alac) (outputsamples_buffer_b alac) s5
      = Inr (eb, mem_write 0 (sides shift weight lrs) (outputsamples_buffer_b alac), s6)" "before s6 bs"
    using decode_channel_correct [of "sides shift weight lrs" alac qb 17 s5 bs
      "predicterror_buffer_b alac" "outputsamples_buffer_b alac"] r s5(2) at(2) e' ok
    by (auto simp: setup_ok_def)
  have "unat (of_nat shift :: u32) = shift" using e' by (intro unat_of_nat_32) simp
  moreover have "ucast (of_nat (unat weight) :: u32) = weight" by (rule bit_word_eqI) (auto simp: bit_simps)
  ultimately show ?thesis
    using s1(1) s2(1) s3(1) s4(1) s5(1) s6(1) ok h
    by (simp add: stereo_compressed_def read_both_bytes_def Let_def setup_ok_def)
qed

lemma read_header_field:
  assumes "before s (header_bits has n @ bs)" "24 \<le> length bs" "n < 2 ^ 31"
    and "has \<or> of_nat n = outputsamples" "output_bytes alac (of_nat n) \<le> allocated"
  shows "\<exists>s1 s'. read_header s
        = Inr (\<lparr>hassize = has, uncompressed_bytes = 0, isnotcompressed = False\<rparr>, s1)
      \<and> read_size alac allocated has outputsamples s1
        = Inr (Some (of_nat n, output_bytes alac (of_nat n)), s') \<and> before s' bs"
proof -
  let ?t = "(if has then to_bits 32 n else []) @ bs"
  obtain s1 where s1: "readbits 4 s = Inr (0, s1)"
      "before s1 (to_bits 12 0 @ to_bits 1 (of_bool has) @ to_bits 2 0 @ to_bits 1 0 @ ?t)"
    using readbits_field [of s 4 0 "to_bits 12 0 @ to_bits 1 (of_bool has) @ to_bits 2 0 @ to_bits 1 0 @ ?t"] assms
    by (auto simp: header_bits_def)
  obtain s2 where s2: "readbits 12 s1 = Inr (0, s2)"
      "before s2 (to_bits 1 (of_bool has) @ to_bits 2 0 @ to_bits 1 0 @ ?t)"
    using readbits_field [OF s1(2)] assms by auto
  obtain s3 where s3: "readbits 1 s2 = Inr (of_bool has, s3)" "before s3 (to_bits 2 0 @ to_bits 1 0 @ ?t)"
    using readbits_field [OF s2(2)] assms by (cases has) auto
  obtain s4 where s4: "readbits 2 s3 = Inr (0, s4)" "before s4 (to_bits 1 0 @ ?t)"
    using readbits_field [OF s3(2)] assms by auto
  obtain s5 where s5: "readbits 1 s4 = Inr (0, s5)" "before s5 ?t"
    using readbits_field [OF s4(2)] assms by auto
  have "read_header s = Inr (\<lparr>hassize = has, uncompressed_bytes = 0, isnotcompressed = False\<rparr>, s5)"
    using s1(1) s2(1) s3(1) s4(1) s5(1) by (cases has) (simp_all add: read_header_def)
  moreover have "\<exists>s'. read_size alac allocated has outputsamples s5
      = Inr (Some (of_nat n, output_bytes alac (of_nat n)), s') \<and> before s' bs"
  proof (cases has)
    case True
    obtain s6 where "readbits 32 s5 = Inr (of_nat n, s6)" "before s6 bs"
      using readbits_field [of s5 32 n bs] s5(2) True assms by auto
    then show ?thesis using True assms(5) by (auto simp: read_size_def)
  qed (use s5 assms in \<open>auto simp: read_size_def\<close>)
  ultimately show ?thesis by auto
qed

text \<open>
  C2. ALAC is lossless: for any stereo frame that the encoder writes, with or without its size,
  any two predictors, any weighting and any 16-bit samples, the decoder writes exactly the
  samples, interleaved with the low bytes first, from the start of its output, leaves the rest
  of the output as it was, and reports four bytes for each pair.
\<close>

theorem alac_frame_lossless:
  assumes e: "encodable alac shift weight qa qb lrs"
    and bits: "bits_of inbuffer = frame_bits alac has shift weight qa qb lrs @ pad" "25 \<le> length pad"
    and n: "has \<or> setinfo_max_samples_per_frame alac = of_nat (length lrs)"
    and room: "output_bytes alac (setinfo_max_samples_per_frame alac) \<le> allocated"
      "4 * int (length lrs) \<le> allocated" "4 * length lrs \<le> length out"
  shows "\<exists>alac'. alac_decode_frame alac inbuffer out allocated
           = Inr (alac', mem_write 0 (pcm lrs) out, 4 * int (length lrs))"
proof -
  let ?s = "\<lparr>inbuf = inbuffer, byte_pos = 0, bitaccumulator = 0\<rparr>" and ?n = "length lrs"
  note ok = e [unfolded encodable_def, THEN conjunct1, unfolded setup_ok_def]
  let ?t = "stereo_bits alac shift weight qa qb lrs @ pad"
  have "before ?s (to_bits 3 1 @ header_bits has ?n @ ?t)"
    using bits by (simp add: before_def reader_ok_def bits_left_def bitpos_def frame_bits_def)
  then obtain s1 where s1: "readbits 3 ?s = Inr (1, s1)" "before s1 (header_bits has ?n @ ?t)"
    using readbits_field [of ?s 3 1 "header_bits has ?n @ ?t"] bits(2) by auto
  have ob: "output_bytes alac (of_nat ?n) = 4 * int ?n"
    using sint_of_nat_32 [of "4 * ?n"] ok by (simp add: output_bytes_def mult.commute)
  obtain s2 s3 where s3: "read_header s1
        = Inr (\<lparr>hassize = has, uncompressed_bytes = 0, isnotcompressed = False\<rparr>, s2)"
      "read_size alac allocated has (setinfo_max_samples_per_frame alac) s2
        = Inr (Some (of_nat ?n, 4 * int ?n), s3)" "before s3 ?t"
    using read_header_field [OF s1(2), of "setinfo_max_samples_per_frame alac" alac allocated] bits(2) n ok room(2)
    by (auto simp: ob)
  have sn: "sint (of_nat ?n :: u32) = int ?n" using ok by (intro sint_of_nat_32) simp
  obtain alac' where a: "stereo_compressed \<lparr>hassize = has, uncompressed_bytes = 0, isnotcompressed = False\<rparr>
        (int ?n) alac s3 = Inr (0, \<lparr>interlacing_shift = shift, interlacing_leftweight = weight\<rparr>, alac')"
      "outputsamples_buffer_a alac' = mem_write 0 (mids shift weight lrs) (outputsamples_buffer_a alac)"
      "outputsamples_buffer_b alac' = mem_write 0 (sides shift weight lrs) (outputsamples_buffer_b alac)"
      "numchannels alac' = 2" "setinfo_sample_size alac' = 16"
    using stereo_compressed_correct [OF e _ s3(3) bits(2),
        of "\<lparr>hassize = has, uncompressed_bytes = 0, isnotcompressed = False\<rparr>"] by auto
  have "set lrs \<subseteq> sample_range 16 \<times> sample_range 16" "shift < 32"
    using e by (force simp: encodable_def)+
  then have "stereo_output 0 \<lparr>interlacing_shift = shift, interlacing_leftweight = weight\<rparr> ?n alac' out
      = Inr (mem_write 0 (pcm lrs) out)"
    using a deinterlace_16_correct [of shift lrs out "map (mix shift weight) lrs" weight] room(3)
    by (simp add: stereo_output_def mem_write_def mids_def sides_def)
  then show ?thesis
    using s1(1) s3(1,2) a(1) room(1) sn by (simp add: alac_decode_frame_def Let_def)
qed

section \<open>Examples\<close>

text \<open>Two pairs of samples in a frame of fourteen bytes, without coefficients and with weight 2/4.\<close>

definition example_alac :: alac_file where
  "example_alac = init_alac_decoder (\<lambda>n. replicate n 7) [96, 2, 0, 16, 40, 10, 14, 2, 255, 0, 0, 44100] 16 2 2"

definition example_predictor :: predictor where
  "example_predictor = \<lparr>quant = 9, rice = 4, coefs = []\<rparr>"

definition example_frame :: "u8 list" where
  "example_frame = [32, 0, 0, 4, 4, 19, 0, 19, 1, 237, 224, 0, 0, 0]"

lemmas example_alac_simps = example_alac_def init_alac_decoder_def alac_create_def
  alac_allocate_buffers_def Let_def

lemma replicate_four: "replicate 4 x = [x, x, x, x]"
  by (simp add: numeral_eq_Suc)

lemma example_codes:
  "rice_encode 17 14 40 10 0 [2, 1] = [True, True, True, True, False, True, True, False]"
  "rice_encode 17 14 40 10 0 [2, 0] = [True, True, True, True, False, False]"
  by (simp_all add: rice_code_def coder_k_def coder_history_def zigzag_def
      ilog2_examples RICE_THRESHOLD_def Let_def replicate_two replicate_four)

lemma example_channels:
  "channel_codes 17 example_alac example_predictor (mids 2 2 [(3, 1), (1, 1)])
     = [True, True, True, True, False, True, True, False]"
  "channel_codes 17 example_alac example_predictor (sides 2 2 [(3, 1), (1, 1)])
     = [True, True, True, True, False, False]"
  by (simp_all add: example_codes channel_codes_def mids_def sides_def mix_def predictor_errors_def
      example_predictor_def example_alac_simps del: rice_encode.simps)

lemma example_bits:
  "bits_of example_frame
     = frame_bits example_alac False 2 2 example_predictor example_predictor [(3, 1), (1, 1)]
       @ replicate 27 False"
  unfolding frame_bits_def stereo_bits_def example_channels
  by (simp add: example_frame_def bits_of_byte_def header_bits_def channel_bits_def to_bits_def upt_rec
      example_predictor_def) (simp add: numeral_eq_Suc)

lemma example_encodable: "encodable example_alac 2 2 example_predictor example_predictor [(3, 1), (1, 1)]"
  by (simp add: encodable_def setup_ok_def predictor_ok_def example_alac_simps example_predictor_def
      mix_def sample_range_def)

theorem alac_frame_lossless_witness:
  "\<exists>alac'. alac_decode_frame example_alac example_frame (replicate 9 5) 8
     = Inr (alac', [3, 0, 1, 0, 1, 0, 1, 0, 5], 8)"
  using alac_frame_lossless [OF example_encodable example_bits, of 8 "replicate 9 5"]
  by (simp add: pcm_def bytes_16_def mem_write_def output_bytes_def example_alac_simps)

lemma example_errors: "predictor_errors 16 9 [100] [5, 7, 6] = [5, 2, 1]"
  by (simp add: predictor_errors_def differences_def predicted_def fir_sum_def sext_def Let_def)

theorem predictor_lossless_witness:
  "predictor_decompress_fir_adapt [5, 2, 1, 77] [0, 0, 0, 0] 3 16 [100] 1 9 = Inr [5, 7, 6, 0]"
proof -
  have "set [5, 7, 6 :: u32] \<subseteq> word_of_int ` sample_range 16"
    by (auto simp: sample_range_def intro: rev_image_eqI [of "5::int"] rev_image_eqI [of "7::int"]
        rev_image_eqI [of "6::int"])
  then show ?thesis
    using predictor_lossless [of 16 9 "[5, 7, 6]" "[100]" "[0, 0, 0, 0]" "[77]"]
    by (simp add: example_errors mem_write_def)
qed
end
