(* ===== verification/Alac_Errors.thy ===== *)
theory Alac_Errors
  imports Alac_Lossless
begin

text \<open>
  What a packet that no encoder writes can do to the ALAC decoder: the size of a frame and the
  length of a run of zeros are taken as they are.
\<close>

section \<open>A frame that is too long\<close>

text \<open>A loop whose body cannot succeed from some index on does not reach its end.\<close>

lemma loop_res_stops:
  assumes "\<And>i s s'. P s \<Longrightarrow> f i s = Inr s' \<Longrightarrow> i < K \<and> P s'"
  shows "P s \<Longrightarrow> i \<le> K \<Longrightarrow> K < i + n \<Longrightarrow> \<exists>e. loop_res i n f s = Inl e"
proof (induction n arbitrary: i s)
  case (Suc n)
  show ?case
  proof (cases "f i s")
    case (Inr s')
    then have "i < K" "P s'" using assms [OF Suc.prems(1)] by auto
    then show ?thesis using Suc.IH [of s' "i + 1"] Suc.prems(3) Inr by simp
  qed simp
qed simp

lemma stereo_raw_stops:
  assumes "int (length (outputsamples_buffer_a alac)) < n"
  shows "\<exists>e. stereo_raw n alac s = Inl e"
proof -
  let ?K = "length (outputsamples_buffer_a alac)"
  have "\<exists>e. loop_res 0 (nat n) (\<lambda>i (a, b, s).
          and_then (read_raw_sample alac s) (\<lambda>(v, s).
          and_then (read_raw_sample alac s) (\<lambda>(w, s).
          and_then (put_at a i v) (\<lambda>a.
          and_then (put_at b i w) (\<lambda>b. Inr (a, b, s))))))
          (outputsamples_buffer_a alac, outputsamples_buffer_b alac, s) = Inl e"
    by (rule loop_res_stops [where K = ?K and P = "\<lambda>(a, b, s). length a = ?K"])
      (use assms in \<open>auto simp: and_then_Inr put_at_def split: if_splits\<close>)
  then show ?thesis by (auto simp: stereo_raw_def)
qed

text \<open>
  The size of a frame is checked in 32 bits: a frame that is not compressed and says that it
  has 0x40000001 samples of four bytes passes the check as one of four bytes, and the decoder
  then always leaves a buffer, whatever follows in the packet.
\<close>

theorem frame_size_overflow:
  assumes "bits_of inbuffer = to_bits 3 1 @ to_bits 4 0 @ to_bits 12 0 @ to_bits 1 1 @ to_bits 2 0
      @ to_bits 1 1 @ to_bits 32 0x40000001 @ bs" "24 \<le> length bs"
    and "bytespersample alac = 4" "4 \<le> allocated"
    and "output_bytes alac (setinfo_max_samples_per_frame alac) \<le> allocated"
    and "length (outputsamples_buffer_a alac) \<le> 0x40000000"
  shows "\<exists>e. alac_decode_frame alac inbuffer out allocated = Inl e"
proof -
  let ?s = "\<lparr>inbuf = inbuffer, byte_pos = 0, bitaccumulator = 0\<rparr>"
  have "before ?s (to_bits 3 1 @ to_bits 4 0 @ to_bits 12 0 @ to_bits 1 1 @ to_bits 2 0 @ to_bits 1 1
      @ to_bits 32 0x40000001 @ bs)"
    using assms(1) by (simp add: before_def reader_ok_def bits_left_def bitpos_def)
  then obtain s1 where s1: "readbits 3 ?s = Inr (1, s1)" "before s1 (to_bits 4 0 @ to_bits 12 0
      @ to_bits 1 1 @ to_bits 2 0 @ to_bits 1 1 @ to_bits 32 0x40000001 @ bs)"
    using readbits_field [of ?s 3 1 "to_bits 4 0 @ to_bits 12 0
      @ to_bits 1 1 @ to_bits 2 0 @ to_bits 1 1 @ to_bits 32 0x40000001 @ bs"] by auto
  obtain s2 where s2: "readbits 4 s1 = Inr (0, s2)" "before s2 (to_bits 12 0
      @ to_bits 1 1 @ to_bits 2 0 @ to_bits 1 1 @ to_bits 32 0x40000001 @ bs)"
    using readbits_field [OF s1(2)] by auto
  obtain s3 where s3: "readbits 12 s2 = Inr (0, s3)"
      "before s3 (to_bits 1 1 @ to_bits 2 0 @ to_bits 1 1 @ to_bits 32 0x40000001 @ bs)"
    using readbits_field [OF s2(2)] by auto
  obtain s4 where s4: "readbits 1 s3 = Inr (1, s4)" "before s4 (to_bits 2 0 @ to_bits 1 1 @ to_bits 32 0x40000001 @ bs)"
    using readbits_field [OF s3(2)] by auto
  obtain s5 where s5: "readbits 2 s4 = Inr (0, s5)" "before s5 (to_bits 1 1 @ to_bits 32 0x40000001 @ bs)"
    using readbits_field [OF s4(2)] by auto
  obtain s6 where s6: "readbits 1 s5 = Inr (1, s6)" "before s6 (to_bits 32 0x40000001 @ bs)"
    using readbits_field [OF s5(2)] by auto
  obtain s7 where s7: "readbits 32 s6 = Inr (0x40000001, s7)"
    using readbits_field [OF s6(2)] assms(2) by auto
  have "output_bytes alac 0x40000001 = 4" using assms(3) by (simp add: output_bytes_def)
  moreover have "\<exists>e. stereo_raw (sint (0x40000001 :: u32)) alac s7 = Inl e"
    by (rule stereo_raw_stops) (use assms(6) in simp)
  ultimately show ?thesis
    using s1(1) s2(1) s3(1) s4(1) s5(1) s6(1) s7 assms(4,5)
    by (auto simp: alac_decode_frame_def read_header_def read_size_def Let_def)
qed

section \<open>A run of zeros that is too long\<close>

text \<open>
  A run of zeros is cleared before its length is looked at: when the first sample of a channel
  is zero, the 16 bits that follow it may say that the run is longer than the buffer, and the
  decoder then writes past its end, although the frame itself fits.
\<close>

theorem zero_run_overrun:
  assumes p: "params_ok n kmod mult p" "outputSize p \<le> length buf" "2 \<le> outputSize p"
    and s: "reader_ok s" "bits_left s = rice_code n 1 1 0 @ rice_code 16 4 (2 ^ min 4 kmod - 1) z @ bs"
      "25 \<le> length bs"
    and z: "length buf \<le> z" "z < 2 ^ 16" and h: "h = 10"
  shows "entropy_rice_decode p h buf s = Inl Write_Overrun"
proof -
  let ?st = "\<lparr>outputCount = 0, history = of_nat 10, signModifier = of_nat 0, outputBuffer = buf, reader = s\<rparr>"
  let ?h = "coder_history mult 10 0" and ?c' = "rice_code 16 4 (2 ^ min 4 kmod - 1) z"
  let ?st1 = "after_sample 0 ?h (length (rice_code n 1 1 0)) ?st"
  have m: "0 < mult" "mult < 64" "0 < kmod" using p(1) by (simp_all add: params_ok_def)
  have h': "?h = 9 \<or> ?h = 10"
  proof -
    have "10 * mult div 512 \<le> 1" using m by simp
    then show ?thesis by (auto simp: coder_history_def)
  qed
  have k: "coder_zero_k ?h = 4"
    using h' ilog2_unique [of 3 9] ilog2_unique [of 3 10] by (auto simp: coder_zero_k_def)
  have k1: "coder_k kmod 10 = 1" using m(3) by (simp add: coder_k_def ilog2_examples)
  have ne: "buf \<noteq> []" using p(2,3) by auto
  have c: "bits_left (reader ?st) = rice_code n 1 (2 ^ 1 - 1) (0 - 0) @ (?c' @ bs)" using s by simp
  have "rice_sample p ?st = (if ?h < 128 \<and> outputCount ?st + 1 < outputSize p then zero_block p ?st1 else Inr ?st1)"
    using rice_sample_correct [OF p(1) _ _ _ _ c _ _ _ _ k1 [symmetric], of 0] s(1,3) p(2,3) ne
    by (simp add: history_ok_def zigzag_def cong: if_cong)
  then have "rice_sample p ?st = zero_block p ?st1" using h' p(3) by auto
  also have "\<dots> = Inl Write_Overrun"
  proof -
    have "bits_left (reader ?st1) = ?c' @ bs" using s by (simp add: after_sample_def)
    from zero_block_value [OF p(1) _ _ _ _ this s(3) z(2) k [symmetric]] show ?thesis
      using h' s(1) p(2,3) z(1) by (auto simp: after_sample_def)
  qed
  finally show ?thesis
    using rice_samples_step [of ?st p "outputSize p"] p(3) h by (simp add: entropy_rice_decode_def)
qed

section \<open>Examples\<close>

lemma overflowing_bits:
  "bits_of [32, 0, 18, 128, 0, 0, 2, 0, 0, 0] = to_bits 3 1 @ to_bits 4 0 @ to_bits 12 0 @ to_bits 1 1
     @ to_bits 2 0 @ to_bits 1 1 @ to_bits 32 0x40000001 @ replicate 25 False"
  by (simp add: bits_of_byte_def to_bits_def upt_rec) (simp add: numeral_eq_Suc)

theorem frame_size_overflow_witness:
  "\<exists>e. alac_decode_frame example_alac [32, 0, 18, 128, 0, 0, 2, 0, 0, 0] (replicate 8 0) 8 = Inl e"
  by (rule frame_size_overflow [OF overflowing_bits]) (simp_all add: example_alac_simps output_bytes_def)

lemma long_run_bits:
  "bits_left \<lparr>inbuf = [24, 0, 0, 0], byte_pos = 0, bitaccumulator = 0\<rparr>
     = rice_code 16 1 1 0 @ rice_code 16 4 (2 ^ min 4 14 - 1) 5 @ replicate 26 False"
  by (simp add: bits_left_def bitpos_def bits_of_byte_def rice_code_def RICE_THRESHOLD_def to_bits_def upt_rec)
    (simp add: numeral_eq_Suc)

theorem zero_run_overrun_witness:
  "entropy_rice_decode example_params 10 [7, 7, 7, 7] \<lparr>inbuf = [24, 0, 0, 0], byte_pos = 0, bitaccumulator = 0\<rparr>
     = Inl Write_Overrun"
  by (rule zero_run_overrun [OF _ _ _ _ long_run_bits, where mult = 40])
    (simp_all add: params_ok_def example_params_def reader_ok_def)

end
