(* ===== verification/Sample_Output.thy ===== *)
theory Sample_Output
  imports Prelude
begin

text \<open>
  From 32-bit samples to the bytes of the output device (\<open>player.c\<close>): the volume, the dither
  and the format of \<open>process_sample\<close>, the random numbers of \<open>common.c\<close> that the dither uses,
  and the two ways of adding or taking out frames without a library, \<open>stuff_buffer_basic_32\<close>
  and \<open>stuff_buffer_vernier\<close>.
\<close>

section \<open>Random numbers\<close>

record ranctx =
  ra :: u64
  rb :: u64
  rc :: u64
  rd :: u64

definition rot :: "u64 \<Rightarrow> nat \<Rightarrow> u64" where
  "rot x k = push_bit k x OR drop_bit (64 - k) x"

definition ranval :: "ranctx \<Rightarrow> u64 \<times> ranctx" where
  "ranval x =
     (let e = ra x - rot (rb x) 7;
          a = rb x XOR rot (rc x) 13;
          b = rc x + rot (rd x) 37;
          c = rd x + e;
          d = e + a
      in (d, \<lparr>ra = a, rb = b, rc = c, rd = d\<rparr>))"

definition raninit :: "u64 \<Rightarrow> ranctx" where
  "raninit seed = ((\<lambda>x. snd (ranval x)) ^^ 20) \<lparr>ra = 0xf1ea5eed, rb = seed, rc = seed, rd = seed\<rparr>"

definition r64u :: "ranctx \<Rightarrow> u64 \<times> ranctx" where
  "r64u x = ranval x"

definition r64i :: "ranctx \<Rightarrow> u64 \<times> ranctx" where
  "r64i x = (let (r, x) = ranval x in (drop_bit 1 r, x))"

text \<open>The linear congruential generator, with its static variable as the state.\<close>

definition rand_in_range :: "u32 \<Rightarrow> u32 \<Rightarrow> u32 \<times> u32" where
  "rand_in_range exclusive_range_limit lcg_prev =
     (ucast (signed_drop_bit 32 (ucast lcg_prev * scast exclusive_range_limit :: u64)),
      lcg_prev * 69069 + 3)"

section \<open>Output formats\<close>

datatype sps_format =
    SPS_FORMAT_UNKNOWN | SPS_FORMAT_S8 | SPS_FORMAT_U8 | SPS_FORMAT_S16_LE | SPS_FORMAT_S16_BE
  | SPS_FORMAT_S24_LE | SPS_FORMAT_S24_BE | SPS_FORMAT_S24_3LE | SPS_FORMAT_S24_3BE
  | SPS_FORMAT_S32_LE | SPS_FORMAT_S32_BE | SPS_FORMAT_S16 | SPS_FORMAT_S24 | SPS_FORMAT_S32
  | SPS_FORMAT_AUTO | SPS_FORMAT_INVALID

text \<open>The part of a connection that samples go through, and the state of the random numbers.\<close>

record sample_conn =
  do_loudness :: bool
  fix_volume :: u32
  previous_random_number :: u64
  input_num_channels :: nat
  rx :: ranctx

text \<open>The number of bits of a sample of the format; no bits is a format the program dies on.\<close>

definition format_bits :: "sps_format \<Rightarrow> nat option" where
  "format_bits f =
     (case f of
        SPS_FORMAT_S32 \<Rightarrow> Some 32 | SPS_FORMAT_S32_LE \<Rightarrow> Some 32 | SPS_FORMAT_S32_BE \<Rightarrow> Some 32
      | SPS_FORMAT_S24 \<Rightarrow> Some 24 | SPS_FORMAT_S24_LE \<Rightarrow> Some 24 | SPS_FORMAT_S24_BE \<Rightarrow> Some 24
      | SPS_FORMAT_S24_3LE \<Rightarrow> Some 24 | SPS_FORMAT_S24_3BE \<Rightarrow> Some 24
      | SPS_FORMAT_S16 \<Rightarrow> Some 16 | SPS_FORMAT_S16_LE \<Rightarrow> Some 16 | SPS_FORMAT_S16_BE \<Rightarrow> Some 16
      | SPS_FORMAT_S8 \<Rightarrow> Some 8 | SPS_FORMAT_U8 \<Rightarrow> Some 8
      | SPS_FORMAT_UNKNOWN \<Rightarrow> None | SPS_FORMAT_AUTO \<Rightarrow> None | SPS_FORMAT_INVALID \<Rightarrow> None)"

definition hyper_volume :: "u32 \<Rightarrow> sample_conn \<Rightarrow> u32 \<Rightarrow> u64" where
  "hyper_volume volume conn sample =
     (if do_loudness conn then push_bit 32 (scast sample)
      else scast sample * push_bit 16 (scast volume))"

text \<open>The sum of a sample and the dither, held at the ends of the range of \<open>int64_t\<close>.\<close>

definition add_clipped :: "u64 \<Rightarrow> u64 \<Rightarrow> u64" where
  "add_clipped h tpdf =
     (if 0 \<le> sint tpdf then
        if sint h \<le> sint (0x7FFFFFFFFFFFFFFF - tpdf) then h + tpdf else 0x7FFFFFFFFFFFFFFF
      else if sint (0x8000000000000000 - tpdf) \<le> sint h then h + tpdf else 0x8000000000000000)"

definition add_dither :: "nat \<Rightarrow> sample_conn \<Rightarrow> u64 \<Rightarrow> u64 \<times> sample_conn" where
  "add_dither bits conn h =
     (let dither_mask = push_bit (64 - bits) 1 - 1;
          (r, rx') = r64i (rx conn);
          tpdf = (r AND dither_mask) - (previous_random_number conn AND dither_mask)
      in (add_clipped h tpdf, conn\<lparr>previous_random_number := r, rx := rx'\<rparr>))"

definition low_bytes :: "nat \<Rightarrow> u64 \<Rightarrow> u8 list" where
  "low_bytes n h = map (\<lambda>i. ucast (signed_drop_bit (8 * i) h)) [0..<n]"

definition format_bytes :: "sps_format \<Rightarrow> u64 \<Rightarrow> u8 list" where
  "format_bytes f h =
     (let h32 = signed_drop_bit 32 h; h24 = signed_drop_bit 40 h; h16 = signed_drop_bit 48 h;
          h8 = signed_drop_bit 56 h in
      case f of
        SPS_FORMAT_S32_LE \<Rightarrow> low_bytes 4 h32
      | SPS_FORMAT_S32_BE \<Rightarrow> rev (low_bytes 4 h32)
      | SPS_FORMAT_S32 \<Rightarrow> low_bytes 4 h32
      | SPS_FORMAT_S24_3LE \<Rightarrow> low_bytes 3 h24
      | SPS_FORMAT_S24_3BE \<Rightarrow> rev (low_bytes 3 h24)
      | SPS_FORMAT_S24_LE \<Rightarrow> low_bytes 3 h24 @ [0]
      | SPS_FORMAT_S24_BE \<Rightarrow> 0 # rev (low_bytes 3 h24)
      | SPS_FORMAT_S24 \<Rightarrow> low_bytes 4 h24
      | SPS_FORMAT_S16_LE \<Rightarrow> low_bytes 2 h16
      | SPS_FORMAT_S16_BE \<Rightarrow> rev (low_bytes 2 h16)
      | SPS_FORMAT_S16 \<Rightarrow> low_bytes 2 h16
      | SPS_FORMAT_S8 \<Rightarrow> low_bytes 1 h8
      | SPS_FORMAT_U8 \<Rightarrow> low_bytes 1 (h8 + 128)
      | _ \<Rightarrow> [])"

definition process_sample ::
  "u32 \<Rightarrow> sps_format \<Rightarrow> u32 \<Rightarrow> bool \<Rightarrow> sample_conn \<Rightarrow> (u8 list \<times> sample_conn) option" where
  "process_sample sample format volume dither conn =
     (case format_bits format of None \<Rightarrow> None
      | Some bits \<Rightarrow>
          (let h = hyper_volume volume conn sample;
               (h, conn) = (if dither then add_dither bits conn h else (h, conn))
           in Some (format_bytes format h, conn)))"

text \<open>Samples in a row.\<close>

fun process_samples ::
  "sps_format \<Rightarrow> bool \<Rightarrow> u32 list \<Rightarrow> sample_conn \<Rightarrow> (u8 list \<times> sample_conn) option" where
  "process_samples format dither [] conn = Some ([], conn)"
| "process_samples format dither (x # xs) conn =
     (case process_sample x format (fix_volume conn) dither conn of None \<Rightarrow> None
      | Some (bs, conn) \<Rightarrow> map_option (apfst ((@) bs)) (process_samples format dither xs conn))"

section \<open>Adding and taking out a frame\<close>

definition mean_32 :: "u32 \<Rightarrow> u32 \<Rightarrow> u32" where
  "mean_32 a b = word_of_int ((sint a + sint b) sdiv 2)"

text \<open>
  The samples that \<open>stuff_buffer_basic_32\<close> hands to \<open>process_sample\<close>, for \<open>length\<close> frames of
  \<open>ch\<close> channels, and the number of frames it says it made. \<open>r\<close> is what \<open>rand\<close> returns.
\<close>

definition basic_samples :: "nat \<Rightarrow> u32 list \<Rightarrow> nat \<Rightarrow> int \<Rightarrow> nat \<Rightarrow> u32 list \<times> int" where
  "basic_samples ch inp n stuff r =
     (if n < 3 then ([], int n)
      else
        (let tstuff = (if n < 100 then 0 else stuff);
             stuff = max (- 1) (min 1 stuff);
             stuffsamp = (if tstuff \<noteq> 0 then r mod (n - 2) + 1 else n);
             before = take (stuffsamp * ch) inp;
             inptr = stuffsamp * ch;
             inserted = (if tstuff = 1 then replicate ch (mean_32 (inp ! (inptr - 2)) (inp ! inptr)) else []);
             inptr = (if tstuff \<noteq> 0 \<and> tstuff \<noteq> 1 \<and> stuff = - 1 then inptr + ch else inptr);
             remainder = (if tstuff < 0 then nat (int n + tstuff) else n);
             after = (if tstuff \<noteq> 0 then take ((remainder - stuffsamp) * ch) (List.drop inptr inp) else [])
         in (before @ inserted @ after, int n + tstuff)))"

definition stuff_buffer_basic_32 ::
  "u32 list \<Rightarrow> nat \<Rightarrow> sps_format \<Rightarrow> int \<Rightarrow> nat \<Rightarrow> bool \<Rightarrow> sample_conn
     \<Rightarrow> (u8 list \<times> sample_conn \<times> int) option" where
  "stuff_buffer_basic_32 inp n format stuff r dither conn =
     (let (xs, frames) = basic_samples (input_num_channels conn) inp n stuff r in
      map_option (\<lambda>(bs, conn). (bs, conn, frames)) (process_samples format dither xs conn))"

section \<open>Interpolation\<close>

definition INTERPOLATION_LIMIT :: int where "INTERPOLATION_LIMIT = 20"

definition one_fp :: int where "one_fp = 0x100000000"

definition step_size_fp :: "nat \<Rightarrow> int \<Rightarrow> int" where
  "step_size_fp n tstuff = (one_fp * (int n - 1)) sdiv (int n + tstuff - 1)"

text \<open>The frames before and after an index with 32 bits of fraction.\<close>

definition floor_index :: "nat \<Rightarrow> int \<Rightarrow> int" where
  "floor_index n ix = (if drop_bit 32 ix = int n then int n - 1 else drop_bit 32 ix)"

definition ceil_index :: "nat \<Rightarrow> int \<Rightarrow> int" where
  "ceil_index n ix =
     (let f = floor_index n ix in
      if f + 1 = int n then if f = int n - 1 then int n - 1 else f + 1 else f + 1)"

definition interpolated :: "u32 \<Rightarrow> u32 \<Rightarrow> int \<Rightarrow> u32" where
  "interpolated current next ix =
     (let offset_from_floor = ix AND 0xffffffff;
          v = word_of_int (sint current * (one_fp - offset_from_floor) + sint next * offset_from_floor) :: u64
      in word_of_int (sint v sdiv one_fp))"

text \<open>The frame at an index; \<open>None\<close> when it would be read outside the input.\<close>

definition interpolated_frame :: "nat \<Rightarrow> u32 list \<Rightarrow> nat \<Rightarrow> int \<Rightarrow> u32 list option" where
  "interpolated_frame ch inp n ix =
     (let f = floor_index n ix; c = ceil_index n ix in
      if f < 0 \<or> int n \<le> f \<or> int n \<le> c then None
      else Some (map (\<lambda>k. interpolated (inp ! (nat f * ch + k)) (inp ! (nat c * ch + k)) ix) [0..<ch]))"

fun interpolated_frames :: "nat \<Rightarrow> nat \<Rightarrow> u32 list \<Rightarrow> nat \<Rightarrow> int \<Rightarrow> int \<Rightarrow> u32 list option" where
  "interpolated_frames 0 ch inp n step ix = Some []"
| "interpolated_frames (Suc m) ch inp n step ix =
     (case interpolated_frame ch inp n ix of None \<Rightarrow> None
      | Some xs \<Rightarrow> map_option ((@) xs) (interpolated_frames m ch inp n step (ix + step)))"

definition vernier_samples :: "nat \<Rightarrow> u32 list \<Rightarrow> nat \<Rightarrow> int \<Rightarrow> (u32 list \<times> int) option" where
  "vernier_samples ch inp n stuff =
     (if n < 3 then Some ([], int n)
      else
        (let tstuff = (if INTERPOLATION_LIMIT < stuff \<or> stuff < - INTERPOLATION_LIMIT \<or> n < 100 then 0 else stuff) in
         if tstuff = 0 then Some (take (n * ch) inp, int n)
         else map_option (\<lambda>xs. (xs, int n + tstuff))
           (interpolated_frames (nat (int n + tstuff)) ch inp n (step_size_fp n tstuff) 0)))"

definition stuff_buffer_vernier ::
  "u32 list \<Rightarrow> nat \<Rightarrow> sps_format \<Rightarrow> int \<Rightarrow> bool \<Rightarrow> sample_conn \<Rightarrow> (u8 list \<times> sample_conn \<times> int) option" where
  "stuff_buffer_vernier inp n format stuff dither conn =
     (case vernier_samples (input_num_channels conn) inp n stuff of None \<Rightarrow> None
      | Some (xs, frames) \<Rightarrow>
          map_option (\<lambda>(bs, conn). (bs, conn, frames)) (process_samples format dither xs conn))"

end
