(* ===== verification/Sample_Proofs.thy ===== *)
theory Sample_Proofs
  imports Sample_Output
begin

text \<open>
  What reaches the device: the value of an output sample in every format, with and without
  dither, and the frames that interpolation and stuffing make.
\<close>

section \<open>Values of output samples\<close>

text \<open>The signed number that some bytes, low byte first, stand for.\<close>

fun le_value :: "u8 list \<Rightarrow> int" where
  "le_value [] = 0"
| "le_value (b # bs) = uint b + 256 * le_value bs"

definition signed_value :: "u8 list \<Rightarrow> int" where
  "signed_value bs =
     (let v = le_value bs in if v < 2 ^ (8 * length bs - 1) then v else v - 2 ^ (8 * length bs))"

definition output_value :: "sps_format \<Rightarrow> u8 list \<Rightarrow> int" where
  "output_value f bs =
     (if f \<in> {SPS_FORMAT_S32_BE, SPS_FORMAT_S24_3BE, SPS_FORMAT_S16_BE} then signed_value (rev bs)
      else if f = SPS_FORMAT_S24_LE then signed_value (take 3 bs)
      else if f = SPS_FORMAT_S24_BE then signed_value (rev (drop 1 bs))
      else if f = SPS_FORMAT_U8 then le_value bs - 128
      else signed_value bs)"

lemma le_value_low_bytes: "le_value (low_bytes n h) = sint h mod 256 ^ n"
proof -
  have byte: "uint (ucast (signed_drop_bit j h) :: u8) = sint h div 2 ^ j mod 256" for j
  proof -
    have "uint (ucast (signed_drop_bit j h) :: u8) = take_bit 8 (uint (signed_drop_bit j h))"
      by (simp add: unsigned_ucast_eq)
    also have "\<dots> = take_bit 8 (take_bit 64 (sint (signed_drop_bit j h)))"
      by (simp only: uint_sint len_num1 len_bit0 len_num0 numeral_times_numeral semiring_norm mult_1_right mult_2_right)
    also have "\<dots> = take_bit 8 (sint (signed_drop_bit j h))" by simp
    finally show ?thesis by (simp add: sint_signed_drop_bit_eq take_bit_eq_mod drop_bit_eq_div)
  qed
  have "le_value (map (\<lambda>i. ucast (signed_drop_bit (8 * (k + i)) h)) [0..<n]) = sint h div 256 ^ k mod 256 ^ n" for k
  proof (induction n arbitrary: k)
    case (Suc n)
    have "[0..<Suc n] = 0 # map Suc [0..<n]" by (simp add: map_Suc_upt upt_conv_Cons)
    then have "le_value (map (\<lambda>i. ucast (signed_drop_bit (8 * (k + i)) h)) [0..<Suc n])
        = uint (ucast (signed_drop_bit (8 * k) h) :: u8)
          + 256 * le_value (map (\<lambda>i. ucast (signed_drop_bit (8 * (Suc k + i)) h)) [0..<n])"
      by (simp add: comp_def ac_simps)
    also have "\<dots> = sint h div 256 ^ k mod 256 + 256 * (sint h div 256 ^ k div 256 mod 256 ^ n)"
    proof -
      have "(2::int) ^ (8 * k) = 256 ^ k" by (simp add: power_mult)
      then show ?thesis unfolding byte Suc.IH by (simp add: zdiv_zmult2_eq [symmetric] mult.commute)
    qed
    also have "\<dots> = sint h div 256 ^ k mod (256 * 256 ^ n)"
      by (subst zmod_zmult2_eq) simp_all
    finally show ?case by simp
  qed simp
  from this [of 0] show ?thesis by (simp add: low_bytes_def)
qed

lemma length_low_bytes [simp]: "length (low_bytes n h) = n"
  by (simp add: low_bytes_def)

lemma signed_mod:
  fixes s :: int
  assumes "- m \<le> s" "s < m"
  shows "(if s mod (2 * m) < m then s mod (2 * m) else s mod (2 * m) - 2 * m) = s"
proof (cases "0 \<le> s")
  case False
  then have "s mod (2 * m) = s + 2 * m" using assms mod_pos_pos_trivial [of "s + 2 * m" "2 * m"] by simp
  then show ?thesis using False assms by auto
qed (use assms in auto)

lemma signed_value_low_bytes:
  assumes "0 < n" "- (2 ^ (8 * n - 1)) \<le> sint h" "sint h < 2 ^ (8 * n - 1)"
  shows "signed_value (low_bytes n h) = sint h"
proof -
  have e: "(2::int) ^ (8 * n) = 2 * 2 ^ (8 * n - 1)"
    using assms(1) by (simp flip: power_Suc)
  have "(256::int) ^ n = 2 ^ (8 * n)" by (simp add: power_mult)
  then have "le_value (low_bytes n h) = sint h mod (2 * 2 ^ (8 * n - 1))"
    by (simp add: le_value_low_bytes e)
  then show ?thesis
    using signed_mod [OF assms(2,3)] by (simp add: signed_value_def Let_def e cong: if_cong)
qed

lemma sint_shifted:
  fixes h :: u64
  assumes "k < 64"
  shows "sint (signed_drop_bit k h) = sint h div 2 ^ k"
    and "- (2 ^ (63 - k)) \<le> sint h div 2 ^ k" "sint h div 2 ^ k < 2 ^ (63 - k)"
proof -
  have p: "(2::int) ^ (63 - k) * 2 ^ k = 2 ^ 63" using assms by (simp flip: power_add)
  have h: "- (2 ^ 63) \<le> sint h" "sint h < 2 ^ 63"
    using sint_greater_eq [of h] sint_less [of h] by simp_all
  show "sint (signed_drop_bit k h) = sint h div 2 ^ k"
    by (simp add: sint_signed_drop_bit_eq drop_bit_eq_div)
  have "- (2 ^ (63 - k)) * 2 ^ k \<le> sint h" using h(1) unfolding mult_minus_left p .
  then have "- (2 ^ (63 - k)) * 2 ^ k div 2 ^ k \<le> sint h div 2 ^ k" by (rule zdiv_mono1) simp
  then show "- (2 ^ (63 - k)) \<le> sint h div 2 ^ k"
    by (simp only: nonzero_mult_div_cancel_right power_not_zero zero_neq_numeral not_False_eq_True)
  have "sint h div 2 ^ k * 2 ^ k \<le> sint h" by (simp flip: minus_mod_eq_div_mult)
  then have "sint h div 2 ^ k * 2 ^ k < 2 ^ (63 - k) * 2 ^ k" using h(2) p by linarith
  then show "sint h div 2 ^ k < 2 ^ (63 - k)" by (rule mult_right_less_imp_less) simp
qed

lemma signed_value_shifted:
  assumes "0 < n" "k < 64" "64 \<le> 8 * n + k"
  shows "signed_value (low_bytes n (signed_drop_bit k h)) = sint h div 2 ^ k"
proof -
  note h = sint_shifted [OF assms(2), of h]
  have "(2::int) ^ (63 - k) \<le> 2 ^ (8 * n - 1)" by (rule power_increasing) (use assms in simp_all)
  then have "- (2 ^ (8 * n - 1)) \<le> sint (signed_drop_bit k h)" "sint (signed_drop_bit k h) < 2 ^ (8 * n - 1)"
    unfolding h(1) using h(2,3) by linarith+
  from signed_value_low_bytes [OF assms(1) this] show ?thesis unfolding h(1) .
qed

lemma output_value_format_bytes:
  assumes "format_bits f = Some b"
  shows "output_value f (format_bytes f h) = sint h div 2 ^ (64 - b)"
proof -
  have "56 < (64::nat)" by simp
  note s = sint_shifted [OF this, of h]
  have v: "signed_value (low_bytes 4 (signed_drop_bit 32 h)) = sint h div 2 ^ 32"
      "signed_value (low_bytes 3 (signed_drop_bit 40 h)) = sint h div 2 ^ 40"
      "signed_value (low_bytes 4 (signed_drop_bit 40 h)) = sint h div 2 ^ 40"
      "signed_value (low_bytes 2 (signed_drop_bit 48 h)) = sint h div 2 ^ 48"
      "signed_value (low_bytes (Suc 0) (signed_drop_bit 56 h)) = sint h div 2 ^ 56"
    by (rule signed_value_shifted; simp)+
  have "le_value (low_bytes 1 (signed_drop_bit 56 h + 128)) - 128 = sint h div 2 ^ 56"
  proof -
    have "signed_drop_bit 56 h + 128 = word_of_int (sint h div 2 ^ 56 + 128)"
    proof -
      have "signed_drop_bit 56 h = word_of_int (sint h div 2 ^ 56)" 
        using s(1) by (metis of_int_sint scast_id)
      then show ?thesis by simp
    qed
    moreover have "- 128 \<le> sint h div 2 ^ 56" "sint h div 2 ^ 56 < 128" using s by simp_all
    ultimately have "sint (signed_drop_bit 56 h + 128) = sint h div 2 ^ 56 + 128"
      using sint_word_of_int_64 [of "sint h div 2 ^ 56 + 128"] by simp
    then show ?thesis
      using \<open>- 128 \<le> sint h div 2 ^ 56\<close> \<open>sint h div 2 ^ 56 < 128\<close> by (simp add: le_value_low_bytes)
  qed
  then show ?thesis
    using assms
    by (cases f) (simp_all add: format_bits_def output_value_def format_bytes_def Let_def v)
qed

section \<open>Volume and dither\<close>

lemma sint_bounds_64: "- 9223372036854775808 \<le> sint (d::u64)" "sint (d::u64) < 9223372036854775808"
  using sint_greater_eq [of d] sint_less [of d] by simp_all

lemma sint_of_sint_64: "w = word_of_int i \<Longrightarrow> - (2 ^ 63) \<le> i \<Longrightarrow> i < 2 ^ 63 \<Longrightarrow> sint (w :: u64) = i"
  using sint_word_of_int_64 [of i] by simp

text \<open>The gain, 65536 for a volume of one; the loudness filter has already applied its own.\<close>

definition gain :: "u32 \<Rightarrow> sample_conn \<Rightarrow> int" where
  "gain volume conn = (if do_loudness conn then 65536 else sint volume)"

lemma sint_hyper_volume:
  assumes "0 \<le> gain volume conn" "gain volume conn \<le> 65536"
  shows "sint (hyper_volume volume conn sample) = sint sample * gain volume conn * 65536"
proof -
  have s: "- 2147483648 \<le> sint sample" "sint sample \<le> 2147483647" using sint_bounds_32 [of sample] by simp_all
  have "\<bar>sint sample * gain volume conn\<bar> \<le> \<bar>sint sample\<bar> * 65536"
    unfolding abs_mult using assms by (intro mult_left_mono) auto
  moreover have "sint sample * gain volume conn \<le> 2147483647 * 65536"
  proof (cases "0 \<le> sint sample")
    case True
    then show ?thesis using assms s by (intro mult_mono) auto
  next
    case False
    then have "sint sample * gain volume conn \<le> 0" using assms by (simp add: mult_nonpos_nonneg)
    then show ?thesis by simp
  qed
  ultimately
  have b: "- (2 ^ 63) \<le> sint sample * gain volume conn * 65536"
      "sint sample * gain volume conn * 65536 < 2 ^ 63"
  proof -
    have "\<bar>sint sample\<bar> \<le> 2147483648" using s by simp
    with \<open>\<bar>sint sample * gain volume conn\<bar> \<le> \<bar>sint sample\<bar> * 65536\<close>
    have "- (2147483648 * 65536) \<le> sint sample * gain volume conn" by linarith
    then show "- (2 ^ 63) \<le> sint sample * gain volume conn * 65536" by simp
    show "sint sample * gain volume conn * 65536 < 2 ^ 63"
      using \<open>sint sample * gain volume conn \<le> 2147483647 * 65536\<close> by simp
  qed
  have "hyper_volume volume conn sample = word_of_int (sint sample * gain volume conn * 65536)"
    by (simp add: hyper_volume_def gain_def push_bit_eq_mult mult.assoc)
  then show ?thesis by (rule sint_of_sint_64) (use b in auto)
qed

lemma sint_add_clipped:
  assumes "- (2 ^ 62) \<le> sint t" "sint t \<le> 2 ^ 62"
  shows "sint (add_clipped h t) = max (- (2 ^ 63)) (min (2 ^ 63 - 1) (sint h + sint t))"
proof -
  note h = sint_bounds_64 [of h]
  have w: "h + t = word_of_int (sint h + sint t)" "0x7FFFFFFFFFFFFFFF - t = word_of_int (2 ^ 63 - 1 - sint t)"
    "0x8000000000000000 - t = word_of_int (- (2 ^ 63) - sint t)" by simp_all
  show ?thesis
  proof (cases "0 \<le> sint t")
    case True
    then have "sint (0x7FFFFFFFFFFFFFFF - t) = 2 ^ 63 - 1 - sint t"
      using assms by (intro sint_of_sint_64 [OF w(2)]) simp_all
    moreover have "sint (h + t) = sint h + sint t" if "sint h \<le> 2 ^ 63 - 1 - sint t"
      using that True h by (intro sint_of_sint_64 [OF w(1)]) simp_all
    ultimately show ?thesis using True h by (auto simp: add_clipped_def)
  next
    case False
    then have "sint (0x8000000000000000 - t) = - (2 ^ 63) - sint t"
      using assms by (intro sint_of_sint_64 [OF w(3)]) simp_all
    moreover have "sint (h + t) = sint h + sint t" if "- (2 ^ 63) - sint t \<le> sint h"
      using that False h by (intro sint_of_sint_64 [OF w(1)]) simp_all
    ultimately show ?thesis using False h by (auto simp: add_clipped_def)
  qed
qed

lemma div_close:
  fixes a b d :: int
  assumes "0 < d" "\<bar>a - b\<bar> < d"
  shows "\<bar>a div d - b div d\<bar> \<le> 1"
proof -
  have "a div d \<le> (b + d) div d" "b div d \<le> (a + d) div d"
    using assms by (auto intro!: zdiv_mono1)
  moreover have "(b + d) div d = b div d + 1" "(a + d) div d = a div d + 1"
    using assms(1) div_add_self2 [of d b] div_add_self2 [of d a] by auto
  ultimately show ?thesis by linarith
qed

lemma dither_close:
  assumes b: "8 \<le> b" "b \<le> 32"
  shows "\<bar>sint (fst (add_dither b conn h)) div 2 ^ (64 - b) - sint h div 2 ^ (64 - b)\<bar> \<le> 1"
proof -
  let ?k = "64 - b"
  let ?u = "\<lambda>w :: u64. uint w mod 2 ^ ?k"
  obtain r x where r: "r64i (rx conn) = (r, x)" by (cases "r64i (rx conn)")
  define t where "t = (r AND (push_bit ?k 1 - 1)) - (previous_random_number conn AND (push_bit ?k 1 - 1))"
  have m: "w AND (push_bit ?k 1 - 1) = word_of_int (?u w)" for w :: u64
  proof -
    have "push_bit ?k 1 - 1 = (mask ?k :: u64)" by (simp add: push_bit_eq_mult mask_eq_exp_minus_1)
    then have "w AND (push_bit ?k 1 - 1) = take_bit ?k w" by (simp add: take_bit_eq_mask)
    also have "\<dots> = word_of_int (take_bit ?k (uint w))" by (rule bit_word_eqI) (simp add: bit_simps)
    finally show ?thesis by (simp add: take_bit_eq_mod)
  qed
  have k: "(2::int) ^ ?k \<le> 2 ^ 56" by (rule power_increasing) (use b in simp_all)
  have u: "0 \<le> ?u w" "?u w < 2 ^ ?k" for w :: u64 by simp_all
  have d: "- (2 ^ ?k) < ?u r - ?u (previous_random_number conn)" "?u r - ?u (previous_random_number conn) < 2 ^ ?k"
    using u [of r] u [of "previous_random_number conn"] by linarith+
  have t: "sint t = ?u r - ?u (previous_random_number conn)"
  proof (rule sint_of_sint_64)
    show "t = word_of_int (?u r - ?u (previous_random_number conn))" by (simp only: t_def m of_int_diff)
    have "(2::int) ^ 56 \<le> 2 ^ 63" by simp
    then show "- (2 ^ 63) \<le> ?u r - ?u (previous_random_number conn)"
        "?u r - ?u (previous_random_number conn) < 2 ^ 63"
      using d k by linarith+
  qed
  then have tb: "\<bar>sint t\<bar> < 2 ^ ?k" using d by linarith
  then have "- (2 ^ 62) \<le> sint t" "sint t \<le> 2 ^ 62" using k by simp_all
  then have c: "sint (add_clipped h t) = max (- (2 ^ 63)) (min (2 ^ 63 - 1) (sint h + sint t))"
    by (rule sint_add_clipped)
  have "\<bar>sint (add_clipped h t) - sint h\<bar> < 2 ^ ?k"
    unfolding c using tb sint_bounds_64 [of h] by (auto simp: max_def min_def)
  then have "\<bar>sint (add_clipped h t) div 2 ^ ?k - sint h div 2 ^ ?k\<bar> \<le> 1"
    by (intro div_close) simp_all
  then show ?thesis by (simp add: add_dither_def r t_def Let_def)
qed

text \<open>
  C11. What a sample becomes: for every format, the bytes stand for the sample times the gain,
  rounded down to the bits of the format, exactly without dither and within one step with it;
  nothing wraps, at either end of the range. At a gain of one the top bits of the sample come out
  unchanged.
\<close>

theorem process_sample_value:
  assumes "format_bits f = Some b" "0 \<le> gain volume conn" "gain volume conn \<le> 65536"
  shows "\<exists>bs conn'. process_sample x f volume dither conn = Some (bs, conn')
    \<and> \<bar>output_value f bs - sint x * gain volume conn div 2 ^ (48 - b)\<bar> \<le> of_bool dither"
proof -
  let ?h = "hyper_volume volume conn x"
  have b: "8 \<le> b" "b \<le> 32" using assms(1) by (auto simp: format_bits_def split: sps_format.splits)
  have "64 - b = 48 - b + 16" using b by simp
  then have "(2::int) ^ (64 - b) = 2 ^ (48 - b) * 65536" by (simp only: power_add) simp
  then have h: "sint ?h div 2 ^ (64 - b) = sint x * gain volume conn div 2 ^ (48 - b)"
    by (simp add: sint_hyper_volume [OF assms(2,3)])
  show ?thesis
    using dither_close [OF b, of conn ?h]
    by (cases dither) (auto simp: process_sample_def assms(1) Let_def output_value_format_bytes [OF assms(1)] h
        split: prod.splits)
qed

definition quiet_conn :: sample_conn where
  "quiet_conn = \<lparr>do_loudness = False, fix_volume = 32768, previous_random_number = 0, input_num_channels = 2,
     rx = \<lparr>ra = 1, rb = 2, rc = 3, rd = 4\<rparr>\<rparr>"

theorem process_sample_value_witness:
  "\<exists>bs conn'. process_sample 0x12345678 SPS_FORMAT_S16_LE 32768 False quiet_conn = Some (bs, conn')
    \<and> output_value SPS_FORMAT_S16_LE bs = 0x91A"
  using process_sample_value [of SPS_FORMAT_S16_LE 16 32768 quiet_conn "0x12345678" False]
  by (simp add: format_bits_def gain_def quiet_conn_def)

section \<open>Interpolation\<close>

lemma sdiv_between:
  fixes d v :: int
  assumes "0 < d" "lo * d \<le> v" "v \<le> hi * d"
  shows "lo \<le> v sdiv d" "v sdiv d \<le> hi"
proof -
  have k: "x * d div d = x" for x using assms(1) by simp
  show "lo \<le> v sdiv d"
  proof (cases "0 \<le> v")
    case True
    then show ?thesis using zdiv_mono1 [OF assms(2,1)] assms(1) by (simp add: sdiv_pos)
  next
    case False
    have "- v \<le> - lo * d" using assms(2) by simp
    then have "- v div d \<le> - lo" using zdiv_mono1 [of "- v" "- lo * d" d] assms(1) k [of "- lo"] by simp
    then show ?thesis using sdiv_neg [of "- v" d] False assms(1) by simp
  qed
  show "v sdiv d \<le> hi"
  proof (cases "0 \<le> v")
    case True
    then show ?thesis using zdiv_mono1 [OF assms(3,1)] assms(1) by (simp add: sdiv_pos)
  next
    case False
    have "- hi * d \<le> - v" using assms(3) by simp
    then have "- hi \<le> - v div d" using zdiv_mono1 [of "- hi * d" "- v" d] assms(1) k [of "- hi"] by simp
    then show ?thesis using sdiv_neg [of "- v" d] False assms(1) by simp
  qed
qed

lemma interpolated_between:
  assumes "lo \<le> sint c" "sint c \<le> hi" "lo \<le> sint d" "sint d \<le> hi"
  shows "lo \<le> sint (interpolated c d ix)" "sint (interpolated c d ix) \<le> hi"
proof -
  let ?o = "ix AND 0xffffffff"
  have m: "(0xffffffff :: int) = mask 32" by (simp add: mask_eq_exp_minus_1)
  have o: "0 \<le> ?o" "?o < one_fp"
    unfolding m take_bit_eq_mask [symmetric] by (simp_all add: one_fp_def take_bit_eq_mod)
  let ?v = "sint c * (one_fp - ?o) + sint d * ?o"
  have lu: "x * one_fp \<le> ?v" if "x \<le> sint c" "x \<le> sint d" for x
  proof -
    have "x * (one_fp - ?o) + x * ?o \<le> ?v"
      using that o by (intro add_mono mult_right_mono) auto
    then show ?thesis by (simp add: algebra_simps)
  qed
  have ul: "?v \<le> x * one_fp" if "sint c \<le> x" "sint d \<le> x" for x
  proof -
    have "?v \<le> x * (one_fp - ?o) + x * ?o"
      using that o by (intro add_mono mult_right_mono) auto
    then show ?thesis by (simp add: algebra_simps)
  qed
  have "- 2147483648 * one_fp \<le> ?v" "?v \<le> 2147483647 * one_fp"
    using lu [of "- 2147483648"] ul [of 2147483647] sint_bounds_32 [of c] sint_bounds_32 [of d] by auto
  then have v: "sint (word_of_int ?v :: u64) = ?v"
    by (intro sint_of_sint_64 [OF refl]) (simp_all add: one_fp_def)
  have f: "0 < one_fp" by (simp add: one_fp_def)
  have r: "x \<le> ?v sdiv one_fp" "?v sdiv one_fp \<le> y" if "x * one_fp \<le> ?v" "?v \<le> y * one_fp" for x y
    using sdiv_between [OF f that] by simp_all
  have "- 2147483648 \<le> ?v sdiv one_fp" "?v sdiv one_fp \<le> 2147483647"
    using r \<open>- 2147483648 * one_fp \<le> ?v\<close> \<open>?v \<le> 2147483647 * one_fp\<close> by blast+
  then have i: "sint (interpolated c d ix) = ?v sdiv one_fp"
    unfolding interpolated_def Let_def v by (intro sint_word_of_int_32) simp_all
  show "lo \<le> sint (interpolated c d ix)" "sint (interpolated c d ix) \<le> hi"
    unfolding i using r [OF lu ul] assms by blast+
qed

lemma interpolated_first [simp]: "interpolated c d 0 = c"
proof -
  have "sint (word_of_int (sint c * one_fp) :: u64) = sint c * one_fp"
    using sint_bounds_32 [of c] by (intro sint_of_sint_64 [OF refl]) (simp_all add: one_fp_def)
  moreover have "sint c * one_fp sdiv one_fp = sint c"
    using sdiv_between [of one_fp "sint c" "sint c * one_fp" "sint c"] by (simp add: one_fp_def)
  ultimately show ?thesis by (simp add: interpolated_def one_fp_def Let_def)
qed

text \<open>An index within the frame reads within the frame.\<close>

lemma index_in_frame:
  assumes "0 \<le> ix" "ix \<le> one_fp * (int n - 1)" "0 < n"
  shows "0 \<le> floor_index n ix" "floor_index n ix < int n" "0 \<le> ceil_index n ix" "ceil_index n ix < int n"
proof -
  have d: "drop_bit 32 ix = ix div one_fp" by (simp add: drop_bit_eq_div one_fp_def)
  have "ix div one_fp \<le> one_fp * (int n - 1) div one_fp"
    using assms(2) by (intro zdiv_mono1) (simp_all add: one_fp_def)
  then have "0 \<le> ix div one_fp" "ix div one_fp \<le> int n - 1"
    using assms(1) by (simp_all add: one_fp_def pos_imp_zdiv_nonneg_iff)
  then show "0 \<le> floor_index n ix" "floor_index n ix < int n" "0 \<le> ceil_index n ix" "ceil_index n ix < int n"
    by (auto simp: floor_index_def ceil_index_def d Let_def)
qed

definition within :: "int \<Rightarrow> int \<Rightarrow> u32 list \<Rightarrow> bool" where
  "within lo hi xs \<longleftrightarrow> (\<forall>x\<in>set xs. lo \<le> sint x \<and> sint x \<le> hi)"

lemma interpolated_frame_ok:
  assumes "0 \<le> ix" "ix \<le> one_fp * (int n - 1)" "0 < n" "length inp = n * ch"
  shows "\<exists>xs. interpolated_frame ch inp n ix = Some xs \<and> length xs = ch
    \<and> (\<forall>lo hi. within lo hi inp \<longrightarrow> within lo hi xs)"
proof -
  note i = index_in_frame [OF assms(1-3)]
  have m: "inp ! (nat j * ch + k) \<in> set inp" if "0 \<le> j" "j < int n" "k < ch" for j k
  proof -
    have "nat j + 1 \<le> n" using that by simp
    then have "(nat j + 1) * ch \<le> n * ch" by (rule mult_right_mono) simp
    then have "nat j * ch + k < length inp" using that(3) assms(4) by simp
    then show ?thesis by simp
  qed
  have "within lo hi (map (\<lambda>k. interpolated (inp ! (nat (floor_index n ix) * ch + k))
      (inp ! (nat (ceil_index n ix) * ch + k)) ix) [0..<ch])" if "within lo hi inp" for lo hi
  proof -
    have "lo \<le> sint (inp ! (nat j * ch + k)) \<and> sint (inp ! (nat j * ch + k)) \<le> hi"
      if "0 \<le> j" "j < int n" "k < ch" for j k
      using \<open>within lo hi inp\<close> m [OF that] by (simp add: within_def)
    note fc = this [OF i(1,2)] this [OF i(3,4)]
    show ?thesis
      unfolding within_def
    proof (rule ballI)
      fix x
      assume "x \<in> set (map (\<lambda>k. interpolated (inp ! (nat (floor_index n ix) * ch + k))
          (inp ! (nat (ceil_index n ix) * ch + k)) ix) [0..<ch])"
      then obtain k where k: "k < ch" "x = interpolated (inp ! (nat (floor_index n ix) * ch + k))
          (inp ! (nat (ceil_index n ix) * ch + k)) ix"
        by auto
      show "lo \<le> sint x \<and> sint x \<le> hi"
        using interpolated_between [of lo "inp ! (nat (floor_index n ix) * ch + k)" hi
            "inp ! (nat (ceil_index n ix) * ch + k)" ix] fc [OF k(1)] k(2) by blast
    qed
  qed
  then show ?thesis using i by (simp add: interpolated_frame_def Let_def)
qed

lemma interpolated_frames_ok:
  assumes "0 < n" "length inp = n * ch" "0 \<le> step" "int M * step \<le> one_fp * (int n - 1)"
  shows "m \<le> M + 1 \<Longrightarrow> ix = int (M + 1 - m) * step \<Longrightarrow>
    \<exists>xs. interpolated_frames m ch inp n step ix = Some xs \<and> length xs = m * ch
      \<and> (\<forall>lo hi. within lo hi inp \<longrightarrow> within lo hi xs)"
proof (induction m arbitrary: ix)
  case (Suc m)
  have "int (M + 1 - Suc m) * step \<le> int M * step"
    using assms(3) by (intro mult_right_mono) auto
  then have "0 \<le> ix" "ix \<le> one_fp * (int n - 1)" using Suc.prems assms(3,4) by auto
  from interpolated_frame_ok [OF this assms(1,2)] obtain xs where
    xs: "interpolated_frame ch inp n ix = Some xs" "length xs = ch"
      "\<forall>lo hi. within lo hi inp \<longrightarrow> within lo hi xs" by blast
  have "M + 1 - m = Suc (M + 1 - Suc m)" using Suc.prems(1) by simp
  then have "ix + step = int (M + 1 - m) * step"
    unfolding Suc.prems(2) by (simp add: distrib_right)
  from Suc.IH [OF Suc_leD [OF Suc.prems(1)] this] obtain ys where
    ys: "interpolated_frames m ch inp n step (ix + step) = Some ys \<and> length ys = m * ch
      \<and> (\<forall>lo hi. within lo hi inp \<longrightarrow> within lo hi ys)" by (rule exE)
  have "within lo hi (xs @ ys)" if "within lo hi inp" for lo hi
    using xs(3) ys that unfolding within_def set_append by blast
  then show ?case using xs(1,2) ys by simp
qed (simp add: within_def)

lemma step_size:
  assumes "100 \<le> n" "- 20 \<le> s" "s \<le> 20"
  shows "0 \<le> step_size_fp n s" "(int n + s - 1) * step_size_fp n s \<le> one_fp * (int n - 1)"
proof -
  have a: "0 < int n + s - 1" using assms by linarith
  have b: "0 \<le> one_fp * (int n - 1)"
    using assms by (intro mult_nonneg_nonneg) (simp_all add: one_fp_def)
  have e: "step_size_fp n s = one_fp * (int n - 1) div (int n + s - 1)"
    unfolding step_size_fp_def by (rule sdiv_pos [OF b a])
  show "0 \<le> step_size_fp n s" unfolding e using b pos_imp_zdiv_nonneg_iff [OF a] by blast
  show "(int n + s - 1) * step_size_fp n s \<le> one_fp * (int n - 1)"
    unfolding e using mult_div_mod_eq [of "int n + s - 1" "one_fp * (int n - 1)"]
      pos_mod_sign [OF a, of "one_fp * (int n - 1)"] by linarith
qed

text \<open>
  C12. Interpolation stays in its frame: for any request to add or take out frames, the reads never
  leave the input, the number of frames made is the length plus the request (or the length alone,
  when the packet is shorter than 100 frames or the request above 20), and no sample made is below
  the lowest or above the highest of the packet, so that nothing wraps.
\<close>

theorem vernier_in_frame:
  assumes "length inp = n * ch" "3 \<le> n"
  shows "\<exists>xs frames. vernier_samples ch inp n stuff = Some (xs, frames) \<and> length xs = nat frames * ch
    \<and> frames = (if - 20 \<le> stuff \<and> stuff \<le> 20 \<and> 100 \<le> n then int n + stuff else int n)
    \<and> (\<forall>lo hi. within lo hi inp \<longrightarrow> within lo hi xs)"
proof (cases "- 20 \<le> stuff \<and> stuff \<le> 20 \<and> 100 \<le> n \<and> stuff \<noteq> 0")
  case True
  define M where "M = nat (int n + stuff - 1)"
  have M: "nat (int n + stuff) = M + 1" "int M = int n + stuff - 1" using True unfolding M_def by linarith+
  have "\<exists>xs. interpolated_frames (M + 1) ch inp n (step_size_fp n stuff) 0 = Some xs
      \<and> length xs = (M + 1) * ch \<and> (\<forall>lo hi. within lo hi inp \<longrightarrow> within lo hi xs)"
    by (rule interpolated_frames_ok [of n inp ch "step_size_fp n stuff" M])
      (use True assms step_size [of n stuff] M(2) in auto)
  then show ?thesis
    using True M(1) assms(2) by (auto simp: vernier_samples_def INTERPOLATION_LIMIT_def Let_def)
next
  case False
  then show ?thesis
    using assms by (auto simp: vernier_samples_def INTERPOLATION_LIMIT_def Let_def within_def not_le)
qed

theorem vernier_in_frame_witness:
  "\<exists>xs. vernier_samples 2 (replicate 704 (5 :: u32)) 352 (- 1) = Some (xs, 351)
    \<and> length xs = 702 \<and> within 5 5 xs"
  using vernier_in_frame [of "replicate 704 5" 352 2 "- 1"] by (auto simp: within_def)

section \<open>One frame more or less\<close>

text \<open>
  Adding a frame puts one frame at a place inside the packet and leaves all others in order;
  taking one out removes exactly that frame. The frame added holds in every channel the mean of the
  samples of the first channel on either side, when there are two channels: the pointer it is
  computed from does not move on with the channel.
\<close>

theorem basic_stuffs_one_frame:
  assumes "length inp = n * 2" "100 \<le> n" "stuff \<in> {- 1, 1}"
  shows "\<exists>k. 0 < k \<and> k < n \<and> basic_samples 2 inp n stuff r =
    (if stuff = 1
     then take (k * 2) inp @ replicate 2 (mean_32 (inp ! ((k - 1) * 2)) (inp ! (k * 2))) @ List.drop (k * 2) inp
     else take (k * 2) inp @ List.drop ((k + 1) * 2) inp, int n + stuff)"
proof -
  let ?k = "Suc (r mod (n - 2))"
  have k: "0 < ?k" "?k < n" using assms(2) mod_less_divisor [of "n - 2" r] by linarith+
  have "2 * ?k - 2 = (?k - 1) * 2" by simp
  then show ?thesis
    using k assms by (intro exI [of _ ?k]) (auto simp: basic_samples_def Let_def max_def min_def nat_diff_distrib)
qed

theorem basic_stuffs_one_frame_witness:
  "\<exists>k. 0 < k \<and> k < (100 :: nat) \<and> fst (basic_samples 2 (replicate 200 7) 100 (- 1) 5) =
    take (k * 2) (replicate 200 7) @ List.drop ((k + 1) * 2) (replicate 200 (7 :: u32))"
  using basic_stuffs_one_frame [of "replicate 200 (7 :: u32)" 100 "- 1" 5] by auto

text \<open>
  A request for two frames or more, which the player makes for packets of 700 frames and more,
  adds none, but the number of frames reported is as if they had been added: the output is then
  played from memory that was not written.
\<close>

theorem basic_overcount:
  assumes "length inp = n * ch" "100 \<le> n" "2 \<le> stuff"
  shows "basic_samples ch inp n stuff r = (inp, int n + stuff)"
proof -
  let ?k = "Suc (r mod (n - 2))"
  have k: "?k < n" using assms(2) mod_less_divisor [of "n - 2" r] by linarith
  have l: "length (List.drop (?k * ch) inp) \<le> (n - ?k) * ch"
    using assms(1) by (simp add: diff_mult_distrib)
  have "take (?k * ch) inp @ take ((n - ?k) * ch) (List.drop (?k * ch) inp) = inp"
    unfolding take_all [OF l] by (rule append_take_drop_id)
  then show ?thesis
    using assms by (simp add: basic_samples_def Let_def)
qed

theorem basic_overcount_witness:
  "basic_samples 2 (replicate 2048 7) 1024 2 5 = (replicate 2048 (7 :: u32), 1026)"
  using basic_overcount [of "replicate 2048 (7 :: u32)" 1024 2 2 5] by simp

end
