(* ===== verification/Rtp_Receivers.thy ===== *)
theory Rtp_Receivers
  imports Jitter_Buffer
begin

text \<open>
  The threads of \<open>rtp.c\<close> that receive datagrams: audio, control and, for AirPlay 2, control and
  realtime audio; and \<open>rtp_request_resend\<close>, which asks for packets again. Each handler is one turn
  of its thread's loop. A thread receives into one buffer, which it never clears, so that a
  datagram replaces only the first bytes of it. The readings of the clock and what the sockets
  return are arguments, as is the authenticated decryption of libsodium. The local variables that
  only serve debug messages (the interval statistics, \<open>last_seqno\<close>) are left out.
\<close>

section \<open>Connection, configuration and surroundings\<close>

record rtp_conn =
  player :: player_conn
  first_missing :: "u16 option"  \<comment> \<open>the static variable of \<open>player_put_packet\<close>\<close>
  rtp_running :: bool
  rtp_time_of_last_resend_request_error_ns :: u64
  airplay_2 :: bool  \<comment> \<open>\<open>airplay_type == ap_2\<close>\<close>
  remote_control_socket_known :: bool  \<comment> \<open>\<open>ap2_remote_control_socket_addr_length\<close>\<close>
  realtime_stream :: bool
  minimum_latency :: u32
  maximum_latency :: u32
  AirPlayVersion :: u32
  latency_warning_issued :: bool
  latency_delayed_timestamp :: u64
  remote_frame_rate :: real
  reference_to_previous_time_difference :: u64
  reference_to_previous_frame_difference :: u64
  udp_clock_is_initialised :: bool
  session_key :: "u8 list option"
  sent_requests :: "u8 list list"  \<comment> \<open>the datagrams that asked for packets\<close>

record rtp_config =
  player_cfg :: player_config
  userSuppliedLatency :: u32
  fixedLatencyOffset :: u32
  audio_backend_latency_offset :: real
  minimum_free_buffer_headroom :: u32

text \<open>One call of \<open>rtp_request_resend\<close>: the time, whether the request is dropped on purpose,
  and whether \<open>sendto\<close> succeeds.\<close>

record attempt =
  at_time :: u64
  at_dropped :: bool
  at_sent :: bool

record rtp_env =
  rtp_now :: u64
  dropped :: bool
  attempts :: "nat \<Rightarrow> attempt"

text \<open>\<open>double\<close> to \<open>int32_t\<close>, for values that fit.\<close>

definition to_int32 :: "real \<Rightarrow> u32" where
  "to_int32 x = word_of_int (if 0 \<le> x then \<lfloor>x\<rfloor> else \<lceil>x\<rceil>)"

text \<open>The buffer of a receiving thread after a datagram, which is cut at the buffer's end.\<close>

definition recv_into :: "u8 list \<Rightarrow> u8 list \<Rightarrow> u8 list" where
  "recv_into packet datagram =
     (let d = take (length packet) datagram in d @ List.drop (length d) packet)"

definition recv_length :: "u8 list \<Rightarrow> u8 list \<Rightarrow> nat" where
  "recv_length packet datagram = min (length packet) (length datagram)"

section \<open>Asking for packets again\<close>

definition htons_bytes :: "u16 \<Rightarrow> u8 list" where
  "htons_bytes x = [ucast (drop_bit 8 x), ucast x]"

definition resend_request :: "bool \<Rightarrow> u16 \<Rightarrow> nat \<Rightarrow> u8 list" where
  "resend_request ap2 first count =
     [0x80, if ap2 then 0xD5 else 0x55 OR 0x80] @ htons_bytes 1 @ htons_bytes first @ htons_bytes (of_nat count)"

definition rtp_request_resend :: "attempt \<Rightarrow> u16 \<Rightarrow> nat \<Rightarrow> rtp_conn \<Rightarrow> rtp_conn" where
  "rtp_request_resend a first count conn =
     (if \<not> rtp_running conn then conn
      else if airplay_2 conn \<and> \<not> remote_control_socket_known conn then conn
      else if rtp_time_of_last_resend_request_error_ns conn = 0
              \<or> 300000000 < at_time a - rtp_time_of_last_resend_request_error_ns conn then
        (if at_dropped a then conn\<lparr>rtp_time_of_last_resend_request_error_ns := at_time a\<rparr>
         else if at_sent a
         then conn\<lparr>sent_requests := sent_requests conn @ [resend_request (airplay_2 conn) first count],
                   rtp_time_of_last_resend_request_error_ns := 0\<rparr>
         else conn\<lparr>rtp_time_of_last_resend_request_error_ns := at_time a\<rparr>)
      else conn)"

fun send_requests :: "(nat \<Rightarrow> attempt) \<Rightarrow> nat \<Rightarrow> (u16 \<times> nat) list \<Rightarrow> rtp_conn \<Rightarrow> rtp_conn" where
  "send_requests env i [] conn = conn"
| "send_requests env i ((first, count) # rs) conn =
     send_requests env (i + 1) rs (rtp_request_resend (env i) first count conn)"

text \<open>
  \<open>player_put_packet\<close> as the receivers call it, with the requests it makes sent off. \<open>None\<close>
  is undefined behaviour in the player.
\<close>

definition put_audio ::
  "codec \<Rightarrow> rtp_config \<Rightarrow> rtp_env \<Rightarrow> u16 \<Rightarrow> u32 \<Rightarrow> u8 list \<Rightarrow> rtp_conn \<Rightarrow> rtp_conn option" where
  "put_audio cd cfg env seqno ts bs conn =
     map_option (\<lambda>(used, reqs, fm, p).
         send_requests (attempts env) 0 reqs (conn\<lparr>player := p, first_missing := fm\<rparr>))
       (player_put_packet cd (player_cfg cfg) (rtp_now env) ALAC_44100_S16_2 seqno ts bs False 0
          (first_missing conn) (player conn))"

section \<open>Audio\<close>

text \<open>A turn of \<open>rtp_audio_receiver\<close>: the buffer and the connection after a datagram.\<close>

definition rtp_audio_receiver ::
  "codec \<Rightarrow> rtp_config \<Rightarrow> rtp_env \<Rightarrow> u8 list \<Rightarrow> u8 list \<times> rtp_conn \<Rightarrow> (u8 list \<times> rtp_conn) option" where
  "rtp_audio_receiver cd cfg env datagram st =
     (let (packet, conn) = st;
          nread = recv_length packet datagram;
          packet = recv_into packet datagram;
          typ = packet ! 1 AND NOT 0x80
      in if typ = 0x60 \<or> typ = 0x56 then
           (let off = (if typ = 0x56 then 4 else 0);
                plen = int nread - int off;
                seqno = nctohs packet (off + 2);
                actual_timestamp = nctohl packet (off + 4);
                plen = plen - 12
            in if 16 \<le> plen \<and> \<not> dropped env
               then map_option (Pair packet)
                 (put_audio cd cfg env seqno actual_timestamp (take (nat plen) (List.drop (off + 12) packet)) conn)
               else Some (packet, conn))
         else Some (packet, conn))"

section \<open>Control: classic AirPlay\<close>

text \<open>Seconds and a 32-bit fraction of a second, in nanoseconds.\<close>

definition ntp_ns :: "u8 list \<Rightarrow> nat \<Rightarrow> u64" where
  "ntp_ns packet i =
     (let ps = ucast (nctohl packet i) * 1000000000; pn = ucast (nctohl packet (i + 4)) * 1000000000
      in ps + drop_bit 32 pn)"

definition max_frames :: u32 where "max_frames = 3 * 1024 * 352 div 4 - 11025"

text \<open>The latency to use from now on, given the latency in a sync packet and its flags.\<close>

definition adjusted_latency :: "rtp_config \<Rightarrow> rtp_conn \<Rightarrow> u32 \<Rightarrow> u32" where
  "adjusted_latency cfg conn la =
     (let latency_offset = to_int32 (audio_backend_latency_offset cfg * real_of_int (uint (input_rate (player conn))));
          adjusted = latency_offset + la
      in if sint adjusted < 0
            \<or> sint (frames_per_packet (player conn) * (of_nat BUFFER_FRAMES - minimum_free_buffer_headroom cfg)) < sint adjusted
         then la else adjusted)"

text \<open>The latency of the packet with the fixed offset, held within the limits of the source.\<close>

definition limited_latency :: "rtp_config \<Rightarrow> rtp_conn \<Rightarrow> u16 \<Rightarrow> u32 \<Rightarrow> u32" where
  "limited_latency cfg conn flags la =
     (let v = sint (AirPlayVersion conn);
          la = (if flags = 7 \<or> (0 < v \<and> v \<le> 353) \<or> (0 < v \<and> 371 \<le> v) then la + fixedLatencyOffset cfg else la);
          la = (if maximum_latency conn \<noteq> 0 \<and> maximum_latency conn < la then maximum_latency conn else la)
      in if minimum_latency conn \<noteq> 0 \<and> la < minimum_latency conn then minimum_latency conn else la)"

definition sync_latency :: "rtp_config \<Rightarrow> rtp_conn \<Rightarrow> u16 \<Rightarrow> u32 \<Rightarrow> u32" where
  "sync_latency cfg conn flags la =
     (if userSuppliedLatency cfg \<noteq> 0 then userSuppliedLatency cfg
      else
        (let la = limited_latency cfg conn flags la
         in if max_frames < la then latency (player conn) else adjusted_latency cfg conn la))"

text \<open>The measurement of the remote frame rate, made with the anchor before it changes.\<close>

definition measure_remote_rate :: "u64 \<Rightarrow> u32 \<Rightarrow> rtp_conn \<Rightarrow> rtp_conn" where
  "measure_remote_rate remote_time_of_sync ts conn =
     (let p = player conn in
      if initial_reference_time p = 0 then
        (if 0 < packet_count_since_flush p
         then conn\<lparr>player := p\<lparr>initial_reference_time := remote_time_of_sync, initial_reference_timestamp := ts\<rparr>\<rparr>
         else conn)
      else
        (let remote_frame_time_interval = anchor_time p - initial_reference_time p in
         conn\<lparr>remote_frame_rate :=
            (if remote_frame_time_interval = 0 then 0
             else 1000000000 * real_of_int (uint (anchor_rtptime p - initial_reference_timestamp p))
               / real_of_int (uint remote_frame_time_interval))\<rparr>))"

definition sync_packet :: "rtp_config \<Rightarrow> u8 list \<Rightarrow> rtp_conn \<Rightarrow> rtp_conn" where
  "sync_packet cfg packet conn =
     (if local_to_remote_time_difference (player conn) = 0 then conn
      else
        (let remote_time_of_sync = ntp_ns packet 8;
             sync_rtp_timestamp = nctohl packet 16;
             rtp_timestamp_less_latency = nctohl packet 4;
             flags = nctohs packet 2;
             la = sync_latency cfg conn flags (sync_rtp_timestamp - rtp_timestamp_less_latency);
             conn = conn\<lparr>player := (player conn)\<lparr>latency := la\<rparr>\<rparr>;
             ts = sync_rtp_timestamp - la;
             conn = measure_remote_rate remote_time_of_sync ts conn;
             p = player conn
         in conn\<lparr>player := p\<lparr>anchor_time := remote_time_of_sync, anchor_rtptime := ts,
                            anchor_remote_info_is_valid := True\<rparr>,
                 latency_delayed_timestamp := ucast rtp_timestamp_less_latency,
                 reference_to_previous_time_difference := remote_time_of_sync - anchor_time p,
                 reference_to_previous_frame_difference :=
                   (if anchor_rtptime p = 0 then 0 else ucast (ts - anchor_rtptime p))\<rparr>))"

definition rtp_control_receiver ::
  "codec \<Rightarrow> rtp_config \<Rightarrow> rtp_env \<Rightarrow> u8 list \<Rightarrow> u8 list \<times> rtp_conn \<Rightarrow> (u8 list \<times> rtp_conn) option" where
  "rtp_control_receiver cd cfg env datagram st =
     (let (packet, conn) = st;
          nread = recv_length packet datagram;
          packet = recv_into packet datagram
      in if dropped env then Some (packet, conn)
         else if packet ! 1 = 0xd4 then Some (packet, sync_packet cfg packet conn)
         else if packet ! 1 = 0xd6 then
           (let plen = int nread - 4 - 12 in
            if 16 \<le> plen
            then map_option (Pair packet)
              (put_audio cd cfg env (nctohs packet 6) (nctohl packet 8) (take (nat plen) (List.drop 16 packet)) conn)
            else Some (packet, conn))
         else Some (packet, conn))"

section \<open>AirPlay 2: deciphering audio\<close>

text \<open>
  Decryption of libsodium (ChaCha20-Poly1305): key, nonce, additional data and ciphertext to the
  message, or \<open>None\<close> when it is not authentic; the length of the message is then left at zero.
\<close>

type_synonym aead = "u8 list \<Rightarrow> u8 list \<Rightarrow> u8 list \<Rightarrow> u8 list \<Rightarrow> u8 list option"

definition deciphered :: "aead \<Rightarrow> u8 list \<Rightarrow> u8 list \<Rightarrow> u8 list" where
  "deciphered decrypt key bs =
     (let nread = length bs;
          nonce = replicate 4 0 @ List.drop (nread - 8) bs;
          ciphertext = take (nread - (8 + 10)) (List.drop 10 bs);
          aad = take 8 (List.drop 2 bs)
      in case decrypt key nonce aad ciphertext of Some m \<Rightarrow> m | None \<Rightarrow> [])"

definition decipher_player_put_packet ::
  "codec \<Rightarrow> aead \<Rightarrow> rtp_config \<Rightarrow> rtp_env \<Rightarrow> u8 list \<Rightarrow> rtp_conn \<Rightarrow> (int \<times> rtp_conn) option" where
  "decipher_player_put_packet cd decrypt cfg env bs conn =
     (if 18 < length bs then
        (let sequence_number = nctohs bs 0; ts = nctohl bs 2 in
         case session_key conn of
           Some key \<Rightarrow> map_option (Pair (uint sequence_number))
             (put_audio cd cfg env sequence_number ts (deciphered decrypt key bs) conn)
         | None \<Rightarrow> Some (uint sequence_number, conn))
      else Some (- 1, conn))"

definition rtp_realtime_audio_receiver ::
  "codec \<Rightarrow> aead \<Rightarrow> rtp_config \<Rightarrow> rtp_env \<Rightarrow> u8 list \<Rightarrow> rtp_conn \<Rightarrow> rtp_conn option" where
  "rtp_realtime_audio_receiver cd decrypt cfg env datagram conn =
     (let d = take 4096 datagram in
      if 36 < length d \<and> \<not> dropped env
      then map_option snd (decipher_player_put_packet cd decrypt cfg env (List.drop 2 d) conn)
      else Some conn)"

section \<open>AirPlay 2: control\<close>

text \<open>What \<open>recvfrom\<close> gives: a datagram, seven seconds without one, or another error.\<close>

datatype received = Datagram "u8 list" | Timed_Out | Receive_Error

definition anchor_announcement :: "rtp_config \<Rightarrow> u64 \<Rightarrow> u8 list \<Rightarrow> rtp_conn \<Rightarrow> rtp_conn" where
  "anchor_announcement cfg now packet conn =
     (let p = player conn;
          remote_packet_time_ns = nctoh64 packet 8;
          clock_id = nctoh64 packet 20;
          frame_1 = nctohl packet 4;
          frame_2 = nctohl packet 16;
          rate = real_of_int (uint (input_rate p));
          notified_latency = frame_2 - frame_1;
          added_latency = to_int32 (audio_backend_latency_offset cfg * rate);
          net_latency = notified_latency + 11035 + added_latency
            - to_int32 (audio_backend_buffer_desired_length (player_cfg cfg) * rate);
          conn = (if sint net_latency \<le> 0 then conn\<lparr>latency_warning_issued := True\<rparr> else conn);
          p = p\<lparr>latency := (if sint net_latency \<le> 0 then notified_latency + 11035
                            else notified_latency + 11035 + added_latency)\<rparr>
      in conn\<lparr>player := set_ptp_anchor_info now clock_id (frame_1 - 11035 - added_latency) remote_packet_time_ns p\<rparr>)"

text \<open>The local variables of the thread: packets so far and the time it began.\<close>

record ap2_control =
  packet_number :: u64
  start_time :: u64

definition rtp_ap2_control_receiver ::
  "codec \<Rightarrow> aead \<Rightarrow> rtp_config \<Rightarrow> rtp_env \<Rightarrow> received \<Rightarrow> ap2_control \<times> rtp_conn \<Rightarrow> (ap2_control \<times> rtp_conn) option" where
  "rtp_ap2_control_receiver cd decrypt cfg env r st =
     (let (loc, conn) = st;
          time_since_start = rtp_now env - start_time loc;
          (loc, conn) = (if udp_clock_is_initialised conn then (loc, conn)
                         else (loc\<lparr>packet_number := 0\<rparr>, conn\<lparr>udp_clock_is_initialised := True\<rparr>))
      in case r of
           Timed_Out \<Rightarrow>
             Some (if realtime_stream conn
                   then (loc\<lparr>packet_number := 0\<rparr>, conn\<lparr>player := reset_ptp_anchor_info (player conn)\<rparr>)
                   else (loc, conn))
         | Receive_Error \<Rightarrow> Some (loc, conn)
         | Datagram datagram \<Rightarrow>
             (let packet = take 4096 datagram in
              if length packet < 28 then Some (loc, conn)
              else if sint time_since_start < 2000000 \<and> packet ! 0 AND 0x10 = 0 then Some (loc, conn)
              else
                (let loc = loc\<lparr>packet_number := packet_number loc + 1\<rparr> in
                 if dropped env \<or> packet_number loc = 0 then Some (loc, conn)
                 else
                   (let conn = conn\<lparr>remote_control_socket_known := True\<rparr> in
                    if packet ! 1 = 215 then Some (loc, anchor_announcement cfg (rtp_now env) packet conn)
                    else if packet ! 1 = 0xd6
                    then map_option (\<lambda>(_, conn). (loc, conn))
                      (decipher_player_put_packet cd decrypt cfg env (List.drop 6 packet) conn)
                    else Some (loc, conn)))))"

end
