(* ===== verification/Rtp_Receivers_Proofs.thy ===== *)
theory Rtp_Receivers_Proofs
  imports Rtp_Receivers Jitter_Proofs
begin

text \<open>
  What the receivers of \<open>rtp.c\<close> do with a datagram: the anchor and the latency that a sync packet
  sets, what becomes of a datagram that is too short or not authentic, and how requests for missing
  packets back off when they cannot be sent.
\<close>

section \<open>Reading from the buffer of a thread\<close>

lemma recv_into_nth:
  "i < length datagram \<Longrightarrow> length datagram \<le> length packet \<Longrightarrow> recv_into packet datagram ! i = datagram ! i"
  by (simp add: recv_into_def Let_def nth_append)

lemma recv_into_reads:
  assumes "length datagram \<le> length packet"
  shows "i + 1 < length datagram \<Longrightarrow> nctohs (recv_into packet datagram) i = nctohs datagram i"
    "i + 3 < length datagram \<Longrightarrow> nctohl (recv_into packet datagram) i = nctohl datagram i"
    "i + 7 < length datagram \<Longrightarrow> ntp_ns (recv_into packet datagram) i = ntp_ns datagram i"
  using assms by (simp_all add: nctohs_def nctohl_def ntp_ns_def recv_into_nth)

lemma length_recv_into [simp]: "length (recv_into packet datagram) = length packet"
  by (simp add: recv_into_def Let_def)

section \<open>The latency\<close>

lemma adjusted_latency_cases:
  "adjusted_latency cfg conn la = la
   \<or> 0 \<le> sint (adjusted_latency cfg conn la)
     \<and> sint (adjusted_latency cfg conn la)
       \<le> sint (frames_per_packet (player conn) * (of_nat BUFFER_FRAMES - minimum_free_buffer_headroom cfg))"
  by (auto simp: adjusted_latency_def Let_def)

lemma adjusted_latency_no_offset:
  "audio_backend_latency_offset cfg = 0 \<Longrightarrow> adjusted_latency cfg conn la = la"
  by (simp add: adjusted_latency_def to_int32_def)

text \<open>
  The latency a sync packet leads to is the user's, if there is one. Otherwise it is the old
  one, or no more than what three quarters of the buffer hold, or after the offset of the back end
  within the free part of the buffer; without such an offset it keeps to the limits of the source.
\<close>

theorem sync_latency_bounds:
  assumes "userSuppliedLatency cfg = 0"
  shows "(sync_latency cfg conn flags la = latency (player conn)
     \<or> sync_latency cfg conn flags la \<le> max_frames
     \<or> 0 \<le> sint (sync_latency cfg conn flags la) \<and> sint (sync_latency cfg conn flags la)
         \<le> sint (frames_per_packet (player conn) * (of_nat BUFFER_FRAMES - minimum_free_buffer_headroom cfg)))
    \<and> (audio_backend_latency_offset cfg = 0 \<and> minimum_latency conn \<noteq> 0
        \<and> minimum_latency conn \<le> maximum_latency conn \<and> maximum_latency conn \<le> max_frames
       \<longrightarrow> minimum_latency conn \<le> sync_latency cfg conn flags la
         \<and> sync_latency cfg conn flags la \<le> maximum_latency conn)"
proof -
  have "sync_latency cfg conn flags la = latency (player conn)
     \<or> (\<exists>x\<le>max_frames. sync_latency cfg conn flags la = adjusted_latency cfg conn x)"
    using assms by (auto simp: sync_latency_def Let_def not_less)
  moreover have "minimum_latency conn \<le> sync_latency cfg conn flags la
         \<and> sync_latency cfg conn flags la \<le> maximum_latency conn"
    if o: "audio_backend_latency_offset cfg = 0" and m: "minimum_latency conn \<noteq> 0"
      and mm: "minimum_latency conn \<le> maximum_latency conn" "maximum_latency conn \<le> max_frames"
  proof -
    have mx: "maximum_latency conn \<noteq> 0" using m mm(1) by (metis word_le_0_iff)
    have y: "minimum_latency conn \<le> limited_latency cfg conn flags la" "limited_latency cfg conn flags la \<le> maximum_latency conn"
      using m mx mm(1) by (auto simp: limited_latency_def Let_def)
    moreover have "\<not> max_frames < limited_latency cfg conn flags la" using y(2) mm(2) by (meson leD order_trans)
    ultimately show ?thesis
      using assms by (simp add: sync_latency_def Let_def adjusted_latency_no_offset [OF o])
  qed
  ultimately show ?thesis using adjusted_latency_cases by metis
qed

text \<open>A back end without an offset, a source with limits.\<close>

definition example_rtp_config :: rtp_config where
  "example_rtp_config = \<lparr>player_cfg = pcm_config, userSuppliedLatency = 0, fixedLatencyOffset = 11025,
     audio_backend_latency_offset = 0, minimum_free_buffer_headroom = 125\<rparr>"

definition example_rtp_conn :: rtp_conn where
  "example_rtp_conn = \<lparr>player = pcm_conn\<lparr>local_to_remote_time_difference := 5, local_to_remote_time_gradient := 1\<rparr>,
     first_missing = None, rtp_running = True,
     rtp_time_of_last_resend_request_error_ns = 0, airplay_2 = False, remote_control_socket_known = False,
     realtime_stream = False, minimum_latency = 11025, maximum_latency = 88200, AirPlayVersion = 0,
     latency_warning_issued = False, latency_delayed_timestamp = 0, remote_frame_rate = 0,
     reference_to_previous_time_difference = 0, reference_to_previous_frame_difference = 0,
     udp_clock_is_initialised = True, session_key = Some [1], sent_requests = []\<rparr>"

theorem sync_latency_bounds_witness:
  "11025 \<le> sync_latency example_rtp_config example_rtp_conn 4 100000
    \<and> sync_latency example_rtp_config example_rtp_conn 4 100000 \<le> 88200"
  using sync_latency_bounds [of example_rtp_config example_rtp_conn 4 100000]
  by (simp add: example_rtp_config_def example_rtp_conn_def max_frames_def)

section \<open>Sync packets\<close>

lemma sync_packet_anchor:
  assumes "local_to_remote_time_difference (player conn) \<noteq> 0" "p = player (sync_packet cfg packet conn)"
  shows "latency p = sync_latency cfg conn (nctohs packet 2) (nctohl packet 16 - nctohl packet 4)"
    "anchor_rtptime p = nctohl packet 16 - latency p" "anchor_time p = ntp_ns packet 8"
    "anchor_remote_info_is_valid p" "input_rate p = input_rate (player conn)"
    "local_to_remote_time_difference_now now p = local_to_remote_time_difference_now now (player conn)"
  using assms(1) unfolding assms(2)
  by (simp_all add: sync_packet_def measure_remote_rate_def local_to_remote_time_difference_now_def Let_def)

text \<open>
  C14. After a sync packet the frame it names, less the latency in use, is due at the moment the
  packet names, on the clock of this device: the time in the packet less how far the remote clock is
  ahead. This needs a timing exchange to have succeeded before.
\<close>

theorem sync_packet_schedules:
  assumes "datagram ! 1 = 0xd4" "20 \<le> length datagram" "length datagram \<le> length packet" "\<not> dropped env"
    "local_to_remote_time_difference (player conn) \<noteq> 0" "input_rate (player conn) \<noteq> 0"
  shows "\<exists>packet' conn'. rtp_control_receiver cd cfg env datagram (packet, conn) = Some (packet', conn')
    \<and> latency (player conn') = sync_latency cfg conn (nctohs datagram 2) (nctohl datagram 16 - nctohl datagram 4)
    \<and> frame_to_ntp_local_time now (nctohl datagram 16 - latency (player conn')) (player conn')
        = Converted (ntp_ns datagram 8 - local_to_remote_time_difference_now now (player conn))"
proof -
  let ?p = "recv_into packet datagram"
  note r = recv_into_reads [OF assms(3)] recv_into_nth [OF _ assms(3)]
  have b: "?p ! 1 = 0xd4" using r(4) [of 1] assms(1,2) by simp
  have "rtp_control_receiver cd cfg env datagram (packet, conn) = Some (?p, sync_packet cfg ?p conn)"
    using b assms(4) by (simp add: rtp_control_receiver_def Let_def)
  moreover note s = sync_packet_anchor [OF assms(5) refl, where cfg = cfg and packet = ?p]
  have "frames_to_ns rate 0 = 0" for rate by (simp add: frames_to_ns_def)
  then have "frame_to_ntp_local_time now (nctohl datagram 16 - latency (player (sync_packet cfg ?p conn)))
      (player (sync_packet cfg ?p conn))
    = Converted (ntp_ns datagram 8 - local_to_remote_time_difference_now now (player conn))"
    using assms(2,6) s(2-6) r(2) [of 16] r(3) [of 8] by (simp add: frame_to_ntp_local_time_def)
  moreover have "latency (player (sync_packet cfg ?p conn))
      = sync_latency cfg conn (nctohs datagram 2) (nctohl datagram 16 - nctohl datagram 4)"
    using assms(2) s(1) r(1) [of 2] r(2) [of 4] r(2) [of 16] by simp
  ultimately show ?thesis by blast
qed

definition example_sync :: "u8 list" where
  "example_sync = [0x90, 0xd4, 0, 4, 0, 0, 0, 0, 0, 0, 0, 7, 0x80, 0, 0, 0, 0, 1, 0x11, 0x70]"

theorem sync_packet_schedules_witness:
  "\<exists>packet' conn'. rtp_control_receiver pcm_codec example_rtp_config
       \<lparr>rtp_now = 0, dropped = False, attempts = undefined\<rparr> example_sync (replicate 2048 0, example_rtp_conn)
     = Some (packet', conn') \<and> latency (player conn') = 70000
     \<and> frame_to_ntp_local_time 0 0 (player conn') = Converted 7499999995"
proof -
  have n: "nctohs example_sync 2 = 4" "nctohl example_sync 16 = 70000" "nctohl example_sync 4 = 0"
    "ntp_ns example_sync 8 = 7500000000"
    by (simp_all add: example_sync_def nctohs_def nctohl_def ntp_ns_def Let_def)
  have l: "sync_latency example_rtp_config example_rtp_conn 4 70000 = 70000"
    by (simp add: sync_latency_def limited_latency_def adjusted_latency_def to_int32_def
        example_rtp_config_def example_rtp_conn_def max_frames_def Let_def)
  have d: "local_to_remote_time_difference_now 0 (player example_rtp_conn) = 5"
    by (simp add: local_to_remote_time_difference_now_def example_rtp_conn_def Let_def)
  have e: "example_sync ! 1 = 0xd4" "length example_sync = 20"
    "local_to_remote_time_difference (player example_rtp_conn) \<noteq> 0" "input_rate (player example_rtp_conn) \<noteq> 0"
    by (simp_all add: example_sync_def example_rtp_conn_def pcm_conn_def)
  let ?env = "\<lparr>rtp_now = 0, dropped = False, attempts = undefined\<rparr>"
  from sync_packet_schedules [of example_sync "replicate 2048 0" ?env example_rtp_conn pcm_codec example_rtp_config 0]
    e obtain packet' conn' where c: "rtp_control_receiver pcm_codec example_rtp_config ?env example_sync
       (replicate 2048 0, example_rtp_conn) = Some (packet', conn')"
      "latency (player conn') = 70000"
      "frame_to_ntp_local_time 0 (70000 - latency (player conn')) (player conn') = Converted (7500000000 - 5)"
    unfolding n d by (auto simp: l)
  then show ?thesis by simp
qed

text \<open>
  A datagram that is too short for a sync packet, but has its second byte, is taken for one: the
  bytes it does not have are those of the datagram before it, of whatever kind, or what the memory
  held. The clock is then set by them.
\<close>

theorem short_sync_reuses_buffer:
  assumes "2 \<le> length datagram" "length datagram < 20" "20 \<le> length packet" "datagram ! 1 = 0xd4" "\<not> dropped env"
  shows "rtp_control_receiver cd cfg env datagram (packet, conn)
    = Some (recv_into packet datagram, sync_packet cfg (datagram @ List.drop (length datagram) packet) conn)"
proof -
  have p: "recv_into packet datagram = datagram @ List.drop (length datagram) packet"
    using assms(2,3) by (simp add: recv_into_def)
  have "(datagram @ List.drop (length datagram) packet) ! 1 = 0xd4"
    using assms(1,4) by (simp add: nth_append)
  then show ?thesis using assms(5) by (simp add: rtp_control_receiver_def p Let_def)
qed

text \<open>Sixteen bytes of a packet of sound, and then two bytes of another datagram.\<close>

theorem short_sync_reuses_buffer_witness:
  "\<exists>packet conn'. rtp_control_receiver pcm_codec example_rtp_config
      \<lparr>rtp_now = 0, dropped = False, attempts = undefined\<rparr> [0x80, 0xd4]
      ([0x80, 0xd6] @ replicate 2046 0x11, example_rtp_conn) = Some (packet, conn')
    \<and> anchor_time (player conn') = ntp_ns (replicate 2048 0x11) 8"
proof -
  let ?old = "[0x80, 0xd6] @ replicate 2046 (0x11 :: u8)"
  let ?p = "[0x80, 0xd4] @ List.drop 2 ?old"
  have "ntp_ns ?p 8 = ntp_ns (replicate 2048 0x11) 8"
    by (simp add: ntp_ns_def nctohl_def nth_Cons_numeral)
  moreover have "local_to_remote_time_difference (player example_rtp_conn) \<noteq> 0"
    by (simp add: example_rtp_conn_def)
  ultimately show ?thesis
    using short_sync_reuses_buffer [of "[0x80, 0xd4]" ?old "\<lparr>rtp_now = 0, dropped = False, attempts = undefined\<rparr>"
        pcm_codec example_rtp_config example_rtp_conn]
      sync_packet_anchor(3) [OF _ refl, of example_rtp_conn example_rtp_config ?p] by simp
qed

section \<open>Requests for missing packets\<close>

lemma send_requests_player [simp]: "player (send_requests env i rs conn) = player conn"
proof (induction env i rs conn rule: send_requests.induct)
  case (2 env i first count rs conn)
  have "player (rtp_request_resend a first count c) = player c" for a c
    by (simp add: rtp_request_resend_def)
  then show ?case using 2 by simp
qed simp

lemma request_backs_off:
  assumes "rtp_time_of_last_resend_request_error_ns conn \<noteq> 0"
    "at_time a - rtp_time_of_last_resend_request_error_ns conn \<le> 300000000"
  shows "rtp_request_resend a first count conn = conn"
  using assms by (simp add: rtp_request_resend_def)

lemma request_goes_out:
  assumes "rtp_running conn" "airplay_2 conn \<longrightarrow> remote_control_socket_known conn"
    "rtp_time_of_last_resend_request_error_ns conn = 0
     \<or> 300000000 < at_time b - rtp_time_of_last_resend_request_error_ns conn"
    "at_sent b" "\<not> at_dropped b"
  shows "rtp_request_resend b first count conn
    = conn\<lparr>sent_requests := sent_requests conn @ [resend_request (airplay_2 conn) first count],
           rtp_time_of_last_resend_request_error_ns := 0\<rparr>"
proof -
  have "\<not> (airplay_2 conn \<and> \<not> remote_control_socket_known conn)" using assms(2) by blast
  then show ?thesis
    unfolding rtp_request_resend_def
    by (simp only: assms(1,3-5) if_True if_False not_True_eq_False not_False_eq_True)
qed

lemma requests_back_off:
  assumes "rtp_time_of_last_resend_request_error_ns conn \<noteq> 0"
    "\<And>j. at_time (env j) - rtp_time_of_last_resend_request_error_ns conn \<le> 300000000"
  shows "send_requests env i rs conn = conn"
proof (induction rs arbitrary: i)
  case (Cons r rs)
  then show ?case using request_backs_off [OF assms] by (cases r) simp
qed simp

text \<open>
  After a request for packets could not be sent, no request is sent for 0.3 seconds, whatever
  packets are missing; the first one after that goes out, with the number of the first packet and
  how many there are, and if it is sent the pause is over.
\<close>

theorem resend_requests_back_off:
  assumes "rtp_running conn" "airplay_2 conn \<longrightarrow> remote_control_socket_known conn"
    "rtp_time_of_last_resend_request_error_ns conn = 0" "at_time a \<noteq> 0" "\<not> at_sent a \<or> at_dropped a"
    "\<And>j. at_time (env j) - at_time a \<le> 300000000"
    "300000000 < at_time b - at_time a" "at_sent b" "\<not> at_dropped b"
  shows "rtp_request_resend b first' count' (send_requests env i rs (rtp_request_resend a first count conn))
    = conn\<lparr>sent_requests := sent_requests conn @ [resend_request (airplay_2 conn) first' count'],
           rtp_time_of_last_resend_request_error_ns := 0\<rparr>"
proof -
  have a: "rtp_request_resend a first count conn = conn\<lparr>rtp_time_of_last_resend_request_error_ns := at_time a\<rparr>"
    using assms(1-3,5) by (auto simp: rtp_request_resend_def)
  have w: "send_requests env i rs (conn\<lparr>rtp_time_of_last_resend_request_error_ns := at_time a\<rparr>)
      = conn\<lparr>rtp_time_of_last_resend_request_error_ns := at_time a\<rparr>"
    by (rule requests_back_off) (use assms(4,6) in simp_all)
  show ?thesis
    unfolding a w by (rule request_goes_out [THEN trans]) (use assms(1,2,7-9) in auto)
qed

theorem resend_requests_back_off_witness:
  "sent_requests (rtp_request_resend \<lparr>at_time = 800000000, at_dropped = False, at_sent = True\<rparr> 7 2
     (send_requests (\<lambda>j. \<lparr>at_time = 600000000, at_dropped = False, at_sent = True\<rparr>) 0 [(5, 1), (7, 2)]
       (rtp_request_resend \<lparr>at_time = 400000000, at_dropped = False, at_sent = False\<rparr> 5 1 example_rtp_conn)))
   = [[0x80, 0xd5, 0, 1, 0, 7, 0, 2]]"
proof -
  have e: "rtp_running example_rtp_conn" "airplay_2 example_rtp_conn \<longrightarrow> remote_control_socket_known example_rtp_conn"
    "rtp_time_of_last_resend_request_error_ns example_rtp_conn = 0"
    "\<not> airplay_2 example_rtp_conn" "sent_requests example_rtp_conn = []"
    by (simp_all add: example_rtp_conn_def)
  have "resend_request False 7 2 = [0x80, 0xd5, 0, 1, 0, 7, 0, 2]"
    by (simp add: resend_request_def htons_bytes_def)
  moreover note resend_requests_back_off [OF e(1-3), of "\<lparr>at_time = 400000000, at_dropped = False, at_sent = False\<rparr>"
      "\<lambda>j. \<lparr>at_time = 600000000, at_dropped = False, at_sent = True\<rparr>"
      "\<lparr>at_time = 800000000, at_dropped = False, at_sent = True\<rparr>" 7 2 0 "[(5, 1), (7, 2)]" 5 1]
  ultimately show ?thesis
    using e(4,5) by (simp del: send_requests.simps)
qed

section \<open>Audio that is not authentic\<close>

lemma put_audio_held:
  assumes "jb_ok (player conn)" "fits (player conn) seqno" "connection_state_to_output (player conn)"
    "\<not> is_late (player conn) seqno" "put_audio cd cfg env seqno ts bs conn = Some conn'"
  shows "\<exists>used v. decoded cd (player_cfg cfg) (player conn) ALAC_44100_S16_2 ts bs False 0 = Some (used, v)
    \<and> held (player conn') = (held (player conn))(seqno \<mapsto> v) \<and> jb_ok (player conn')"
proof -
  obtain used reqs fm p where p: "player_put_packet cd (player_cfg cfg) (rtp_now env) ALAC_44100_S16_2 seqno ts bs
        False 0 (first_missing conn) (player conn) = Some (used, reqs, fm, p)"
      "conn' = send_requests (attempts env) 0 reqs (conn\<lparr>player := p, first_missing := fm\<rparr>)"
    using assms(5) by (auto simp: put_audio_def)
  show ?thesis using put_packet_held [OF assms(1-3) p(1)] assms(4) p(2) by auto
qed

text \<open>The packet of AirPlay 2 that carries a message under a nonce, and what is made of it.\<close>

definition sealed_packet :: "u16 \<Rightarrow> u8 list \<Rightarrow> u8 list \<Rightarrow> u8 list \<Rightarrow> u8 list" where
  "sealed_packet seqno aad ciphertext nonce8 = htons_bytes seqno @ aad @ ciphertext @ nonce8"

lemma htons_bytes_nctohs [simp]: "nctohs (htons_bytes seqno @ bs) 0 = seqno"
  by (simp add: nctohs_def htons_bytes_def) (rule bit_word_eqI, auto simp: bit_simps bit_word_cat_iff)

lemma deciphered_sealed:
  assumes "length aad = 8" "length nonce8 = 8"
  shows "deciphered decrypt key (sealed_packet seqno aad ciphertext nonce8)
    = (case decrypt key (replicate 4 0 @ nonce8) aad ciphertext of Some m \<Rightarrow> m | None \<Rightarrow> [])"
proof -
  have k: "10 + n = Suc (Suc (8 + n))" for n by simp
  have "List.drop (10 + length ciphertext) (x # y # aad @ ciphertext @ nonce8) = nonce8" for x y
    unfolding k drop_Suc_Cons using assms by simp
  then show ?thesis using assms by (simp add: deciphered_def sealed_packet_def htons_bytes_def Let_def)
qed

lemma decipher_sealed:
  assumes "length aad = 8" "length nonce8 = 8" "0 < length ciphertext" "session_key conn = Some key"
  shows "decipher_player_put_packet cd decrypt cfg env (sealed_packet seqno aad ciphertext nonce8) conn
    = map_option (Pair (uint seqno)) (put_audio cd cfg env seqno (nctohl aad 0)
        (case decrypt key (replicate 4 0 @ nonce8) aad ciphertext of Some m \<Rightarrow> m | None \<Rightarrow> []) conn)"
proof -
  let ?bs = "sealed_packet seqno aad ciphertext nonce8"
  have "nctohl ?bs 2 = nctohl aad 0"
    using assms(1) by (simp add: nctohl_def sealed_packet_def htons_bytes_def nth_append numeral_2_eq_2)
  moreover have "18 < length ?bs" using assms(1-3) by (simp add: sealed_packet_def htons_bytes_def)
  moreover have "nctohs ?bs 0 = seqno" by (simp add: sealed_packet_def)
  ultimately show ?thesis
    by (simp add: decipher_player_put_packet_def deciphered_sealed [OF assms(1,2)] assms(4))
qed

text \<open>
  A packet of AirPlay 2 that does not decrypt is put into the player all the same, with nothing
  in it. Its sequence number is not covered by the authentication, so anyone can pick the packet it
  takes the place of: that one is then held without sound. A packet that decrypts is put
  with its message.
\<close>

theorem forged_packet_replaces_sound:
  assumes "length aad = 8" "length nonce8 = 8" "0 < length ciphertext" "session_key conn = Some key"
    "jb_ok (player conn)" "fits (player conn) seqno" "connection_state_to_output (player conn)"
    "\<not> is_late (player conn) seqno"
    "decipher_player_put_packet cd decrypt cfg env (sealed_packet seqno aad ciphertext nonce8) conn = Some (n, conn')"
  shows "\<exists>used v. decoded cd (player_cfg cfg) (player conn) ALAC_44100_S16_2 (nctohl aad 0)
       (case decrypt key (replicate 4 0 @ nonce8) aad ciphertext of Some m \<Rightarrow> m | None \<Rightarrow> []) False 0 = Some (used, v)
    \<and> held (player conn') = (held (player conn))(seqno \<mapsto> v)
    \<and> (decrypt key (replicate 4 0 @ nonce8) aad ciphertext = None
        \<and> decoder_in_use (player_cfg cfg) = decoder_ffmpeg_alac \<and> \<not> stream_encrypted (player conn)
        \<and> block_to_avframe cd ALAC_44100_S16_2 [] = None
       \<longrightarrow> v = (nctohl aad 0, 0, None, None, 0))"
proof -
  let ?m = "case decrypt key (replicate 4 0 @ nonce8) aad ciphertext of Some m \<Rightarrow> m | None \<Rightarrow> []"
  have "put_audio cd cfg env seqno (nctohl aad 0) ?m conn = Some conn'"
    using assms(9) unfolding decipher_sealed [OF assms(1-4)] by auto
  from put_audio_held [OF assms(5-8) this] obtain used v where
    v: "decoded cd (player_cfg cfg) (player conn) ALAC_44100_S16_2 (nctohl aad 0) ?m False 0 = Some (used, v)"
      "held (player conn') = (held (player conn))(seqno \<mapsto> v)" by blast
  have "v = (nctohl aad 0, 0, None, None, 0)"
    if "decrypt key (replicate 4 0 @ nonce8) aad ciphertext = None"
      "decoder_in_use (player_cfg cfg) = decoder_ffmpeg_alac" "\<not> stream_encrypted (player conn)"
      "block_to_avframe cd ALAC_44100_S16_2 [] = None"
    using v(1) that by (auto simp: decoded_def fill_slot_def decode_payload_def ffmpeg_payload_def decrypt_packet_def
        view_def Let_def)
  with v show ?thesis by metis
qed

text \<open>A realtime stream with an empty buffer, decoded by FFmpeg; nothing decrypts.\<close>

lemma some_triple: "\<exists>a b c. x = (a, b, c)"
  by (metis prod_cases3)

definition realtime_conn :: rtp_conn where
  "realtime_conn = example_rtp_conn\<lparr>player := pcm_conn\<lparr>stream_type := ast_apple_lossless\<rparr>\<rparr>"

definition realtime_config :: rtp_config where
  "realtime_config = example_rtp_config\<lparr>player_cfg := pcm_config\<lparr>decoder_in_use := decoder_ffmpeg_alac,
     disable_resend_requests := True\<rparr>\<rparr>"

theorem forged_packet_replaces_sound_witness:
  "\<exists>n conn'. decipher_player_put_packet pcm_codec (\<lambda>k n a c. None) realtime_config
      \<lparr>rtp_now = 0, dropped = False, attempts = undefined\<rparr> (sealed_packet 9 (replicate 8 0) [0] (replicate 8 0))
      realtime_conn = Some (n, conn')
    \<and> held (player conn') 9 = Some (0, 0, None, None, 0)"
proof -
  let ?env = "\<lparr>rtp_now = 0, dropped = False, attempts = undefined\<rparr>"
  let ?bs = "sealed_packet 9 (replicate 8 0) [0] (replicate 8 0)"
  let ?d = "decipher_player_put_packet pcm_codec (\<lambda>k n a c. None) realtime_config ?env ?bs realtime_conn"
  have c: "session_key realtime_conn = Some [1]" "connection_state_to_output (player realtime_conn)"
    "\<not> ab_synced (player realtime_conn)" "\<not> stream_encrypted (player realtime_conn)"
    by (simp_all add: realtime_conn_def example_rtp_conn_def pcm_conn_def new_conn_def)
  have j: "jb_ok (player realtime_conn)"
    by (simp add: jb_ok_def realtime_conn_def pcm_conn_def new_conn_def init_buffer_def)
  have "player_put_packet pcm_codec (player_cfg realtime_config) 0 ALAC_44100_S16_2 9 ts [] False 0
      (first_missing realtime_conn) (player realtime_conn) \<noteq> None" for ts
    by (simp add: player_put_packet_def store_packet_def locate_slot_def fill_slot_def decode_payload_def
        ffmpeg_payload_def begin_put_def realtime_conn_def realtime_config_def example_rtp_config_def example_rtp_conn_def
        pcm_conn_def pcm_codec_def pcm_config_def new_conn_def some_triple Let_def)
  then have "?d \<noteq> None"
    unfolding decipher_sealed [OF length_replicate length_replicate _ c(1), of "[0]", simplified]
    by (simp add: put_audio_def)
  then obtain n conn' where d: "?d = Some (n, conn')" by auto
  have "nctohl (replicate 8 0) 0 = 0" by (simp add: nctohl_def)
  then have "held (player conn') 9 = Some (0, 0, None, None, 0)"
    using forged_packet_replaces_sound [OF _ _ _ c(1) j _ c(2) _ d] c(3,4)
    by (auto simp: fits_def is_late_def realtime_config_def pcm_codec_def)
  then show ?thesis using d by blast
qed

end
