(* ===== verification/Rtp_Timing.thy ===== *)
theory Rtp_Timing
  imports Rtp_Receivers
begin

text \<open>
  The exchange of timing packets of classic AirPlay (\<open>rtp_timing_sender\<close> and
  \<open>rtp_timing_receiver\<close> in \<open>rtp.c\<close>): the history of pings, whose dispersions age, the choice of the
  ping to set the clock by, and the estimate of the drift. Each definition of a handler is one turn
  of its thread. Doubles are exact reals.
\<close>

section \<open>State\<close>

definition time_ping_history_power_of_two :: nat where "time_ping_history_power_of_two = 7"

definition time_ping_history :: nat where
  "time_ping_history = push_bit time_ping_history_power_of_two 1"

record time_ping =
  dispersion :: u64
  ping_local_time :: u64
  ping_remote_time :: u64
  ping_sequence_number :: u32
  ping_chosen :: bool

record timing_conn =
  tclock :: clock_conn
  departure_time :: u64
  time_ping_count :: nat
  time_pings :: "time_ping list"
  gradient_sample_count :: nat
  udp_clock_ready :: bool  \<comment> \<open>\<open>udp_clock_is_initialised\<close>\<close>
  ping_number :: u32  \<comment> \<open>the local \<open>sequence_number\<close> of the receiver\<close>

section \<open>Sending\<close>

text \<open>A request, and the microseconds until the next one: three come quickly.\<close>

definition timing_request :: "u8 list" where
  "timing_request = [0x80, 0xd2] @ htons_bytes 7 @ replicate 4 0 @ replicate 24 0"

definition rtp_timing_sender :: "u64 \<Rightarrow> u64 \<Rightarrow> timing_conn \<Rightarrow> u8 list \<times> nat \<times> u64 \<times> timing_conn" where
  "rtp_timing_sender now request_number conn =
     (let request_number = request_number + 1
      in (timing_request, if request_number \<le> 3 then 300000 else 3000000, request_number,
          conn\<lparr>departure_time := now\<rparr>))"

section \<open>The history of pings\<close>

text \<open>A hundred times \<open>pow (10, log10 (10) / 128)\<close>, without its fraction.\<close>

definition dispersion_factor :: u64 where "dispersion_factor = 101"

definition age_dispersion :: "u64 \<Rightarrow> u64" where
  "age_dispersion d =
     (if 0xFFFFFFFFFFFFFFFF div dispersion_factor < d then d else d * dispersion_factor div 100)"

definition age_ping :: "time_ping \<Rightarrow> time_ping" where
  "age_ping p = p\<lparr>dispersion := age_dispersion (dispersion p)\<rparr>"

definition add_ping :: "time_ping \<Rightarrow> timing_conn \<Rightarrow> timing_conn" where
  "add_ping p conn =
     conn\<lparr>time_pings := p # map age_ping (butlast (time_pings conn)),
          ping_number := ping_number conn + 1,
          time_ping_count := (if time_ping_count conn < time_ping_history
                              then time_ping_count conn + 1 else time_ping_count conn)\<rparr>"

text \<open>The ping with the least dispersion, the newest of them.\<close>

definition least_dispersion :: "time_ping list \<Rightarrow> nat \<Rightarrow> nat" where
  "least_dispersion pings count =
     foldl (\<lambda>chosen cc. if dispersion (pings ! cc) < dispersion (pings ! chosen) then cc else chosen)
       0 [1..<count]"

definition use_least :: "timing_conn \<Rightarrow> timing_conn" where
  "use_least conn =
     (let i = least_dispersion (time_pings conn) (time_ping_count conn);
          p = time_pings conn ! i
      in conn\<lparr>time_pings := (time_pings conn)[i := p\<lparr>ping_chosen := True\<rparr>],
              tclock := (tclock conn)
                \<lparr>local_to_remote_time_difference := ping_remote_time p - ping_local_time p,
                 local_to_remote_time_difference_measurement_time := ping_local_time p\<rparr>\<rparr>)"

section \<open>Drift\<close>

definition settling_time :: int where "settling_time = 60"
definition sample_point_minimum :: nat where "sample_point_minimum = 8"

definition drift_samples :: "timing_conn \<Rightarrow> time_ping list" where
  "drift_samples conn =
     filter (\<lambda>p. ping_chosen p \<and> settling_time sdiv 3 < sint (ping_sequence_number p))
       (take (time_ping_count conn) (time_pings conn))"

definition scaled :: "u64 \<Rightarrow> u64" where
  "scaled t = drop_bit time_ping_history_power_of_two t"

definition from_mean :: "u64 \<Rightarrow> u64 \<Rightarrow> real" where
  "from_mean t bar = real_of_int (sint (if bar < t then t - bar else - (bar - t)))"

definition estimate_drift :: "timing_conn \<Rightarrow> timing_conn" where
  "estimate_drift conn =
     (let ps = drift_samples conn;
          n = length ps;
          conn = conn\<lparr>gradient_sample_count := n\<rparr>
      in if sample_point_minimum < n then
           (let y_bar = (\<Sum>p\<leftarrow>ps. scaled (ping_remote_time p)) div of_nat n;
                x_bar = (\<Sum>p\<leftarrow>ps. scaled (ping_local_time p)) div of_nat n;
                mtl = (\<Sum>p\<leftarrow>ps. from_mean (scaled (ping_local_time p)) x_bar * from_mean (scaled (ping_remote_time p)) y_bar);
                mbl = (\<Sum>p\<leftarrow>ps. from_mean (scaled (ping_local_time p)) x_bar * from_mean (scaled (ping_local_time p)) x_bar);
                ybf = push_bit time_ping_history_power_of_two y_bar;
                xbf = push_bit time_ping_history_power_of_two x_bar;
                c = tclock conn;
                c = (if mbl \<noteq> 0 then c\<lparr>local_to_remote_time_gradient := mtl / mbl\<rparr> else c)
            in conn\<lparr>tclock := c\<lparr>local_to_remote_time_difference := ybf - xbf,
                                local_to_remote_time_difference_measurement_time := xbf\<rparr>\<rparr>)
         else conn)"

section \<open>Receiving\<close>

definition init_clock :: "timing_conn \<Rightarrow> timing_conn" where
  "init_clock conn =
     (if udp_clock_ready conn then conn else conn\<lparr>ping_number := 0, udp_clock_ready := True\<rparr>)"

text \<open>The time the round trip took, without what the remote end spent on it.\<close>

definition round_trip :: "u64 \<Rightarrow> u64 \<Rightarrow> u64 \<Rightarrow> u64" where
  "round_trip return_time distant_receive_time distant_transmit_time =
     (let remote_processing_time =
            (if distant_receive_time \<le> distant_transmit_time
             then distant_transmit_time - distant_receive_time else 0)
      in if remote_processing_time < return_time then return_time - remote_processing_time else return_time)"

definition timing_reply :: "u64 \<Rightarrow> u8 list \<Rightarrow> timing_conn \<Rightarrow> timing_conn" where
  "timing_reply arrival_time packet conn =
     (let return_time = arrival_time - departure_time conn in
      if return_time < 200000000 then
        (let distant_receive_time = ntp_ns packet 16;
             distant_transmit_time = ntp_ns packet 24;
             return_time = round_trip return_time distant_receive_time distant_transmit_time;
             p = \<lparr>dispersion = return_time, ping_local_time = arrival_time,
                  ping_remote_time = distant_transmit_time + return_time div 2,
                  ping_sequence_number = ping_number conn, ping_chosen = False\<rparr>
         in estimate_drift (use_least (add_ping p conn)))
      else conn)"

definition rtp_timing_receiver ::
  "rtp_env \<Rightarrow> u8 list \<Rightarrow> u8 list \<times> timing_conn \<Rightarrow> u8 list \<times> timing_conn" where
  "rtp_timing_receiver env datagram st =
     (let (packet, conn) = st;
          packet = recv_into packet datagram;
          conn = init_clock conn
      in (packet, if \<not> dropped env \<and> packet ! 1 = 0xd3 then timing_reply (rtp_now env) packet conn else conn))"

end
