(* ===== verification/Ap2_Flush.thy ===== *)
theory Ap2_Flush
  imports Prelude
begin

text \<open>
  Flush requests of AirPlay 2 (\<open>utilities/mod23.c\<close>, \<open>handle_flushbuffered\<close> in \<open>rtsp.c\<close> and the
  flushing part of \<open>rtp_buffered_audio_processor\<close> in \<open>ap2_buffered_audio_processor.c\<close>): a request
  names a range of 23-bit block numbers; the processor drops the blocks of the ranges.
\<close>

section \<open>Differences of block numbers\<close>

definition MOD_23BIT :: u32 where "MOD_23BIT = 0x7FFFFF"

definition a_minus_b_mod23 :: "u32 \<Rightarrow> u32 \<Rightarrow> u32" where
  "a_minus_b_mod23 a b =
     (let a = a AND MOD_23BIT; b = b AND MOD_23BIT; diff = (a - b) AND MOD_23BIT
      in if diff AND 0x400000 \<noteq> 0 then diff OR 0xFF800000 else diff)"

section \<open>Requests\<close>

definition MAX_DEFERRED_FLUSH_REQUESTS :: nat where "MAX_DEFERRED_FLUSH_REQUESTS = 10"

record ap2_flush_request =
  inUse :: bool
  active :: bool
  flushFromTS :: u32
  flushFromSeq :: u32
  flushUntilTS :: u32
  flushUntilSeq :: u32

record flush_state =
  immediate_flush_requested :: bool
  immediate_flush_until_rtp_timestamp :: u32
  immediate_flush_until_sequence_number :: u32
  deferred_flush_requests :: "ap2_flush_request list"

text \<open>The first record that is not in use is taken; with none the request is lost.\<close>

fun add_deferred :: "u64 \<Rightarrow> u64 \<Rightarrow> u64 \<Rightarrow> u64 \<Rightarrow> ap2_flush_request list \<Rightarrow> ap2_flush_request list" where
  "add_deferred from_seq from_ts until_seq until_ts [] = []"
| "add_deferred from_seq from_ts until_seq until_ts (r # rs) =
     (if \<not> inUse r
      then r\<lparr>inUse := True, active := False,
             flushFromSeq := ucast (from_seq AND 0x7fffff), flushFromTS := ucast from_ts,
             flushUntilSeq := ucast (until_seq AND 0x7fffff), flushUntilTS := ucast until_ts\<rparr> # rs
      else r # add_deferred from_seq from_ts until_seq until_ts rs)"

text \<open>
  The dictionary of a FLUSHBUFFERED message, each item absent or a number, and the handler: the flush
  state, and whether playing stops and the anchor is reset.
\<close>

record flush_message =
  m_flushFromSeq :: "u64 option"
  m_flushFromTS :: "u64 option"
  m_flushUntilSeq :: "u64 option"
  m_flushUntilTS :: "u64 option"

definition item_value :: "u64 option \<Rightarrow> u64" where
  "item_value x = (case x of None \<Rightarrow> 0 | Some v \<Rightarrow> v)"

definition handle_flushbuffered :: "flush_message option \<Rightarrow> flush_state \<Rightarrow> flush_state \<times> bool" where
  "handle_flushbuffered msg fs =
     (case msg of
        None \<Rightarrow> (fs, False)
      | Some m \<Rightarrow>
          (let from_seq = item_value (m_flushFromSeq m); from_ts = item_value (m_flushFromTS m);
               until_seq = item_value (m_flushUntilSeq m); until_ts = item_value (m_flushUntilTS m)
           in if m_flushFromSeq m = None
              then (fs\<lparr>immediate_flush_requested := True,
                       immediate_flush_until_sequence_number := ucast (until_seq AND 0x7fffff),
                       immediate_flush_until_rtp_timestamp := ucast until_ts\<rparr>, True)
              else (fs\<lparr>deferred_flush_requests :=
                        add_deferred from_seq from_ts until_seq until_ts (deferred_flush_requests fs)\<rparr>, False)))"

text \<open>The processor starts with no request.\<close>

definition clear_request :: "ap2_flush_request \<Rightarrow> ap2_flush_request" where
  "clear_request r = r\<lparr>inUse := False, active := False\<rparr>"

definition clear_flush_state :: "flush_state \<Rightarrow> flush_state" where
  "clear_flush_state fs =
     fs\<lparr>immediate_flush_requested := False,
        deferred_flush_requests := map clear_request (deferred_flush_requests fs)\<rparr>"

section \<open>Flushing a block\<close>

text \<open>What an immediate request does with the block at hand: is another block needed instead?\<close>

definition immediate_flush :: "u32 \<Rightarrow> flush_state \<Rightarrow> bool \<times> flush_state" where
  "immediate_flush seq_no fs =
     (if \<not> immediate_flush_requested fs then (False, fs)
      else if 0 \<le> sint (a_minus_b_mod23 seq_no (immediate_flush_until_sequence_number fs))
      then (False, clear_flush_state fs)
      else (True, fs))"

text \<open>What a deferred request does with it.\<close>

definition deferred_flush :: "u32 \<Rightarrow> ap2_flush_request \<Rightarrow> bool \<times> ap2_flush_request" where
  "deferred_flush seq_no r =
     (if \<not> inUse r then (False, r)
      else
        (let starts = (flushFromSeq r = seq_no \<and> flushUntilSeq r \<noteq> seq_no);
             r = (if starts then r\<lparr>active := True\<rparr> else r)
         in if flushUntilSeq r = seq_no then (starts, r\<lparr>active := False, inUse := False\<rparr>)
            else if 0 < sint (a_minus_b_mod23 seq_no (flushUntilSeq r))
            then (starts, r\<lparr>active := False, inUse := False\<rparr>)
            else (starts \<or> active r, r)))"

fun deferred_flushes :: "u32 \<Rightarrow> ap2_flush_request list \<Rightarrow> bool \<times> ap2_flush_request list" where
  "deferred_flushes seq_no [] = (False, [])"
| "deferred_flushes seq_no (r # rs) =
     (let (d, r) = deferred_flush seq_no r; (ds, rs) = deferred_flushes seq_no rs in (d \<or> ds, r # rs))"

definition flush_block :: "nat \<Rightarrow> u32 \<Rightarrow> flush_state \<Rightarrow> bool \<times> flush_state" where
  "flush_block blocks_read seq_no fs =
     (let (now, fs) = (if blocks_read \<noteq> 0 then immediate_flush seq_no fs else (False, fs));
          (later, rs) = deferred_flushes seq_no (deferred_flush_requests fs)
      in (now \<or> later, fs\<lparr>deferred_flush_requests := rs\<rparr>))"

section \<open>The difference is the signed one\<close>

lemma mod23: "MOD_23BIT = mask 23"
  by (simp add: MOD_23BIT_def mask_eq_exp_minus_1)

lemma and_23: "word_of_int x AND MOD_23BIT = word_of_int (x mod 8388608)"
proof -
  have "word_of_int x AND MOD_23BIT = take_bit 23 (of_int x :: u32)"
    unfolding mod23 by (rule take_bit_eq_mask [symmetric])
  also have "\<dots> = of_int (take_bit 23 x)" by (rule take_bit_of_int)
  finally show ?thesis by (simp add: take_bit_eq_mod)
qed

lemma sign_extend_23:
  assumes "4194304 \<le> m" "m < 8388608"
  shows "sint (word_of_int m OR 0xFF800000 :: u32) = m - 8388608"
proof -
  have n: "(0xFF800000 :: u32) = NOT (mask 23)" by (simp add: mask_eq_exp_minus_1)
  have t: "take_bit 23 m = m" using assms by (simp add: take_bit_int_eq_self)
  have "bit (word_of_int m :: u32) i \<longrightarrow> i < 23" for i
    using t by (metis bit_take_bit_iff bit_word_of_int_iff)
  then have "word_of_int m OR NOT (mask 23) = word_of_int m + (NOT (mask 23) :: u32)"
    by (intro disjunctive_add [symmetric]) (auto simp: bit_not_iff bit_mask_iff)
  also have "\<dots> = word_of_int (m - 8388608)"
    by (simp add: mask_eq_exp_minus_1 flip: n)
  finally have "word_of_int m OR 0xFF800000 = (word_of_int (m - 8388608) :: u32)" unfolding n .
  then show ?thesis using assms by (simp only:) (rule sint_word_of_int_32, simp_all)
qed

lemma bit_22:
  assumes "0 \<le> m" "m < 8388608"
  shows "(word_of_int m AND 0x400000 :: u32) \<noteq> 0 \<longleftrightarrow> 4194304 \<le> m"
proof -
  have "(0x400000 :: u32) = 2 ^ 22" by simp
  then have "(word_of_int m AND 0x400000 :: u32) \<noteq> 0 \<longleftrightarrow> bit m 22"
    by (simp only: and_exp_eq_0_iff_not_bit bit_word_of_int_iff not_not) simp
  moreover have "m div 4194304 = (if 4194304 \<le> m then 1 else 0)"
    using assms by (auto intro: div_pos_pos_trivial int_div_pos_eq)
  ultimately show ?thesis by (simp add: bit_iff_odd)
qed

text \<open>
  For block numbers that are less than \<open>2 ^ 22\<close> apart, whatever they are beyond their 23 bits, the
  difference is exact.
\<close>

lemma mod23_difference:
  assumes "- 4194304 \<le> a - b" "a - b < 4194304"
  shows "sint (a_minus_b_mod23 (word_of_int a) (word_of_int b)) = a - b"
proof -
  define m where "m = (a - b) mod 8388608"
  have m: "0 \<le> m" "m < 8388608" unfolding m_def by simp_all
  have d: "a_minus_b_mod23 (word_of_int a) (word_of_int b)
      = (if 4194304 \<le> m then word_of_int m OR 0xFF800000 else word_of_int m)"
    unfolding a_minus_b_mod23_def Let_def and_23 of_int_diff [symmetric]
    by (simp add: mod_simps bit_22 [OF m] flip: m_def)
  show ?thesis
  proof (cases "0 \<le> a - b")
    case True
    then have "m = a - b" using assms unfolding m_def by simp
    then have "a_minus_b_mod23 (word_of_int a) (word_of_int b) = word_of_int (a - b)"
      using assms d by simp
    then show ?thesis using True assms by (simp only:) (rule sint_word_of_int_32, simp_all)
  next
    case False
    have "m = (a - b + 8388608) mod 8388608" unfolding m_def by simp
    then have "m = a - b + 8388608"
      using assms False by (simp add: mod_pos_pos_trivial del: mod_add_self2)
    then show ?thesis using False assms d sign_extend_23 [of m] m by simp
  qed
qed

section \<open>Which blocks are dropped\<close>

text \<open>Blocks are counted by integers; on the wire a number has 23 bits.\<close>

definition block_number :: "int \<Rightarrow> u32" where
  "block_number i = word_of_int (i mod 8388608)"

lemma block_number_difference:
  assumes "- 4194304 \<le> a - b" "a - b < 4194304"
  shows "sint (a_minus_b_mod23 (block_number a) (block_number b)) = a - b"
proof -
  have "a_minus_b_mod23 (block_number a) (block_number b) = a_minus_b_mod23 (word_of_int a) (word_of_int b)"
    unfolding a_minus_b_mod23_def block_number_def and_23 by simp
  then show ?thesis using mod23_difference [OF assms] by simp
qed

lemma block_number_eq_iff:
  assumes "- 4194304 \<le> a - b" "a - b < 4194304"
  shows "block_number a = block_number b \<longleftrightarrow> a = b"
  using block_number_difference [OF assms] block_number_difference [of b b] by auto

text \<open>
  The state of a request for the blocks from \<open>f\<close> until before \<open>u\<close>, when block \<open>i\<close> comes next.
\<close>

definition request_for :: "int \<Rightarrow> int \<Rightarrow> ap2_flush_request \<Rightarrow> bool" where
  "request_for f u r \<longleftrightarrow> inUse r \<and> flushFromSeq r = block_number f \<and> flushUntilSeq r = block_number u"

definition request_at :: "int \<Rightarrow> ap2_flush_request \<Rightarrow> int \<times> int \<Rightarrow> bool" where
  "request_at i r w \<longleftrightarrow>
     (if i \<le> fst w then request_for (fst w) (snd w) r \<and> \<not> active r
      else if i \<le> snd w then request_for (fst w) (snd w) r \<and> active r
      else \<not> inUse r)"

definition near :: "int \<Rightarrow> int \<times> int \<Rightarrow> bool" where
  "near i w \<longleftrightarrow> fst w \<le> snd w \<and> \<bar>i - fst w\<bar> < 4194304 \<and> \<bar>i - snd w\<bar> < 4194304"

lemma deferred_flush_step:
  assumes "request_at i r w" "near i w"
  shows "fst (deferred_flush (block_number i) r) \<longleftrightarrow> fst w \<le> i \<and> i < snd w"
    "request_at (i + 1) (snd (deferred_flush (block_number i) r)) w"
proof -
  have b: "- 4194304 \<le> fst w - i" "fst w - i < 4194304" "- 4194304 \<le> snd w - i" "snd w - i < 4194304"
      "- 4194304 \<le> i - snd w" "i - snd w < 4194304"
    using assms(2) unfolding near_def by linarith+
  have f: "block_number (fst w) = block_number i \<longleftrightarrow> i = fst w"
    using block_number_eq_iff [OF b(1,2)] by blast
  have u: "block_number (snd w) = block_number i \<longleftrightarrow> i = snd w"
    using block_number_eq_iff [OF b(3,4)] by blast
  have d: "sint (a_minus_b_mod23 (block_number i) (block_number (snd w))) = i - snd w"
    by (rule block_number_difference [OF b(5,6)])
  have "fst w \<le> snd w" using assms(2) by (simp add: near_def)
  then show "fst (deferred_flush (block_number i) r) \<longleftrightarrow> fst w \<le> i \<and> i < snd w"
    "request_at (i + 1) (snd (deferred_flush (block_number i) r)) w"
    using assms(1) f u d
    by (auto simp: request_at_def request_for_def deferred_flush_def Let_def split: if_splits)
qed

lemma deferred_flushes_step:
  assumes "list_all2 (request_at i) rs ws" "list_all (near i) ws"
  shows "fst (deferred_flushes (block_number i) rs) \<longleftrightarrow> (\<exists>w\<in>set ws. fst w \<le> i \<and> i < snd w)"
    "list_all2 (request_at (i + 1)) (snd (deferred_flushes (block_number i) rs)) ws"
  using assms
proof (induction rs ws rule: list_all2_induct)
  case (Cons r rs w ws)
  { case 1
    then show ?case using Cons deferred_flush_step(1) [OF Cons(1)]
      by (auto simp: Let_def split: prod.splits) }
  { case 2
    then show ?case using Cons deferred_flush_step(2) [OF Cons(1)]
      by (auto simp: Let_def split: prod.splits) }
qed simp_all

end
