(* ===== verification/Ap2_Flush_Proofs.thy ===== *)
theory Ap2_Flush_Proofs
  imports Ap2_Flush
begin

text \<open>
  Flushing refines its specification: of a stream of consecutive blocks exactly those are dropped that
  lie in a range that was asked for. A request that comes after its first block has no effect.
\<close>

section \<open>Streams of blocks\<close>

text \<open>Of \<open>n\<close> blocks from \<open>i\<close> on, those that get through.\<close>

fun kept_blocks :: "nat \<Rightarrow> int \<Rightarrow> flush_state \<Rightarrow> int list" where
  "kept_blocks 0 i fs = []"
| "kept_blocks (Suc n) i fs =
     (let (d, fs) = flush_block 1 (block_number i) fs
      in if d then kept_blocks n (i + 1) fs else i # kept_blocks n (i + 1) fs)"

definition all_near :: "nat \<Rightarrow> int \<Rightarrow> (int \<times> int) list \<Rightarrow> bool" where
  "all_near n i ws \<longleftrightarrow> (\<forall>j\<in>set [i..i + int n - 1]. list_all (near j) ws)"

lemma upto_Suc: "[i..i + int (Suc n) - 1] = i # [i + 1..(i + 1) + int n - 1]"
  by (subst upto_rec1) (simp_all add: algebra_simps)

lemma all_near_Suc: "all_near (Suc n) i ws \<longleftrightarrow> list_all (near i) ws \<and> all_near n (i + 1) ws"
  unfolding all_near_def upto_Suc by simp

lemma unused_deferred: "list_all (\<lambda>r. \<not> inUse r) rs \<Longrightarrow> deferred_flushes q rs = (False, rs)"
  by (induction rs) (simp_all add: deferred_flush_def)


lemma unused_clear [simp]: "list_all (\<lambda>r. \<not> inUse r) (map clear_request rs)"
  by (simp add: list_all_iff clear_request_def)

lemma kept_deferred:
  "\<not> immediate_flush_requested fs \<Longrightarrow> list_all2 (request_at i) (deferred_flush_requests fs) ws \<Longrightarrow>
    all_near n i ws \<Longrightarrow>
    kept_blocks n i fs = filter (\<lambda>j. \<not> (\<exists>w\<in>set ws. fst w \<le> j \<and> j < snd w)) [i..i + int n - 1]"
proof (induction n arbitrary: i fs)
  case (Suc n)
  obtain d rs where d: "deferred_flushes (block_number i) (deferred_flush_requests fs) = (d, rs)"
    by fastforce
  note s = deferred_flushes_step [OF Suc.prems(2), unfolded d fst_conv snd_conv]
  have "flush_block 1 (block_number i) fs = (d, fs\<lparr>deferred_flush_requests := rs\<rparr>)"
    using Suc.prems(1) d by (simp add: flush_block_def immediate_flush_def)
  then show ?case
    using Suc.IH [of "fs\<lparr>deferred_flush_requests := rs\<rparr>" "i + 1"] Suc.prems s
    unfolding upto_Suc all_near_Suc by simp
qed simp



definition no_request :: ap2_flush_request where
  "no_request = \<lparr>inUse = False, active = False, flushFromTS = 0, flushFromSeq = 0, flushUntilTS = 0,
     flushUntilSeq = 0\<rparr>"


section \<open>From the message to the stream\<close>

lemma ucast_23: "(ucast (word_of_int x AND 0x7fffff :: u64) :: u32) = word_of_int (x mod 8388608)"
proof -
  have m: "(0x7fffff :: u64) = mask 23" by (simp add: mask_eq_exp_minus_1)
  have "word_of_int x AND (0x7fffff :: u64) = take_bit 23 (of_int x :: u64)"
    unfolding m by (rule take_bit_eq_mask [symmetric])
  also have "\<dots> = of_int (take_bit 23 x)" by (rule take_bit_of_int)
  also have "take_bit 23 x = x mod 8388608" by (simp add: take_bit_eq_mod)
  finally show ?thesis
    by (simp only:) (simp add: unsigned_of_int take_bit_int_eq_self)
qed

lemma idle_request: "\<not> inUse r \<Longrightarrow> u < i \<Longrightarrow> f \<le> u \<Longrightarrow> request_at i r (f, u)"
  by (simp add: request_at_def)

text \<open>A record that is not in use stands for an empty range before the block.\<close>

lemma idle_requests:
  "list_all (\<lambda>r. \<not> inUse r) rs \<Longrightarrow> list_all2 (request_at i) rs (replicate (length rs) (i - 1, i - 1))"
  by (induction rs) (simp_all add: idle_request)

lemma add_deferred_idle:
  assumes "list_all (\<lambda>r. \<not> inUse r) rs" "rs \<noteq> []" "i \<le> f"
  shows "list_all2 (request_at i)
    (add_deferred (word_of_int f) from_ts (word_of_int u) until_ts rs)
    ((f, u) # replicate (length rs - 1) (i - 1, i - 1))"
  using assms
  by (cases rs) (auto simp: idle_requests request_at_def request_for_def block_number_def ucast_23)

text \<open>
  C16. From the message to the sound: when no request is waiting, a FLUSHBUFFERED message for the blocks
  from \<open>f\<close> until \<open>u\<close>, none of which has come yet, makes the processor drop exactly these of the
  blocks that follow.
\<close>

theorem flushbuffered_drops_range:
  assumes "\<not> immediate_flush_requested fs" "list_all (\<lambda>r. \<not> inUse r) (deferred_flush_requests fs)"
    "deferred_flush_requests fs \<noteq> []"
    "m_flushFromSeq m = Some (word_of_int f)" "m_flushUntilSeq m = Some (word_of_int u)"
    "i \<le> f" "f \<le> u" "u < i + 4194304" "int n < 4194304"
  shows "kept_blocks n i (fst (handle_flushbuffered (Some m) fs))
    = filter (\<lambda>j. j < f \<or> u \<le> j) [i..i + int n - 1]"
proof -
  let ?rs = "deferred_flush_requests fs"
  let ?ws = "(f, u) # replicate (length ?rs - 1) (i - 1, i - 1)"
  let ?fs = "fs\<lparr>deferred_flush_requests := add_deferred (word_of_int f) (item_value (m_flushFromTS m))
    (word_of_int u) (item_value (m_flushUntilTS m)) ?rs\<rparr>"
  have h: "fst (handle_flushbuffered (Some m) fs) = ?fs"
    using assms(4,5) by (simp add: handle_flushbuffered_def Let_def item_value_def)
  have "all_near n i ?ws"
    using assms(6-9) by (auto simp: all_near_def near_def list_all_iff)
  then have "kept_blocks n i ?fs = filter (\<lambda>j. \<not> (\<exists>w\<in>set ?ws. fst w \<le> j \<and> j < snd w)) [i..i + int n - 1]"
    using assms(1) add_deferred_idle [OF assms(2,3,6)] by (intro kept_deferred) simp_all
  also have "\<dots> = filter (\<lambda>j. j < f \<or> u \<le> j) [i..i + int n - 1]"
    by (rule filter_cong) auto
  finally show ?thesis unfolding h .
qed

definition idle_flush_state :: flush_state where
  "idle_flush_state = \<lparr>immediate_flush_requested = False, immediate_flush_until_rtp_timestamp = 0,
     immediate_flush_until_sequence_number = 0,
     deferred_flush_requests = replicate MAX_DEFERRED_FLUSH_REQUESTS no_request\<rparr>"

lemma idle_flush_state_idle:
  "\<not> immediate_flush_requested idle_flush_state"
  "list_all (\<lambda>r. \<not> inUse r) (deferred_flush_requests idle_flush_state)"
  "deferred_flush_requests idle_flush_state \<noteq> []"
  by (simp_all add: idle_flush_state_def no_request_def list_all_iff MAX_DEFERRED_FLUSH_REQUESTS_def)

definition flush_2_to_4 :: flush_message where
  "flush_2_to_4 = \<lparr>m_flushFromSeq = Some 2, m_flushFromTS = Some 704, m_flushUntilSeq = Some 4,
     m_flushUntilTS = Some 1408\<rparr>"

theorem flushbuffered_drops_range_witness:
  "kept_blocks 5 1 (fst (handle_flushbuffered (Some flush_2_to_4) idle_flush_state)) = [1, 4, 5]"
  using flushbuffered_drops_range [OF idle_flush_state_idle, of flush_2_to_4 2 4 1 5]
  by (simp add: flush_2_to_4_def upto_rec1)

text \<open>
  A request whose first block has already come, be it only the one before, has no effect: it is
  activated only by that block. The rest of its range is played.
\<close>

theorem late_flush_is_lost:
  assumes "\<not> immediate_flush_requested fs" "list_all (\<lambda>r. \<not> inUse r) (deferred_flush_requests fs)"
    "deferred_flush_requests fs \<noteq> []"
    "m_flushFromSeq m = Some (word_of_int f)" "m_flushUntilSeq m = Some (word_of_int u)"
    "f < i" "i + int n \<le> u" "u < f + 4194304"
  shows "kept_blocks n i (fst (handle_flushbuffered (Some m) fs)) = [i..i + int n - 1]"
proof -
  obtain r rs where rs: "deferred_flush_requests fs = r # rs" using assms(3) by (cases "deferred_flush_requests fs") auto
  define pending where "pending r \<longleftrightarrow> \<not> active r \<and> request_for f u r" for r
  have step: "deferred_flush (block_number j) r = (False, r)" if "pending r" "f < j" "j < u" for j r
  proof -
    have b: "- 4194304 \<le> f - j" "f - j < 4194304" "- 4194304 \<le> u - j" "u - j < 4194304"
        "- 4194304 \<le> j - u" "j - u < 4194304"
      using that(2,3) assms(8) by linarith+
    show ?thesis
      using that block_number_eq_iff [OF b(1,2)] block_number_eq_iff [OF b(3,4)] block_number_difference [OF b(5,6)]
      by (simp add: pending_def request_for_def deferred_flush_def Let_def)
  qed
  have kept: "kept_blocks k j gs = [j..j + int k - 1]"
    if "\<not> immediate_flush_requested gs" "deferred_flush_requests gs = r' # rs" "pending r'"
      "f < j" "j + int k \<le> u" for k j gs r'
    using that
  proof (induction k arbitrary: j)
    case (Suc k)
    have "flush_block 1 (block_number j) gs = (False, gs)"
      using Suc.prems step [of r' j] assms(2) rs
      by (simp add: flush_block_def immediate_flush_def unused_deferred)
    then show ?case using Suc unfolding upto_Suc by simp
  qed simp
  show ?thesis
    using assms(1,2,4-7) rs
    by (intro kept) (auto simp: handle_flushbuffered_def Let_def item_value_def pending_def request_for_def
        block_number_def ucast_23)
qed

theorem late_flush_is_lost_witness:
  "kept_blocks 2 3 (fst (handle_flushbuffered (Some (flush_2_to_4\<lparr>m_flushUntilSeq := Some 9\<rparr>)) idle_flush_state))
    = [3, 4]"
  using late_flush_is_lost [OF idle_flush_state_idle, of "flush_2_to_4\<lparr>m_flushUntilSeq := Some 9\<rparr>" 2 9 3 2]
  by (simp add: flush_2_to_4_def upto_rec1)

end
