(* ===== verification/Ap2_Buffered.thy ===== *)
theory Ap2_Buffered
  imports Ap2_Flush Jitter_Buffer Buffered_Tcp Rtp_Receivers
begin

text \<open>
  The buffered audio of AirPlay 2 (\<open>ap2_buffered_audio_processor.c\<close>): blocks come through the
  buffered TCP link, are flushed or kept, and wait until they are due before they are deciphered and
  put into the player. \<open>ap2_turn\<close> is one turn of the loop of \<open>rtp_buffered_audio_processor\<close>.
  What its reads give, the clocks, libsodium and FFmpeg are arguments; \<open>None\<close> is undefined
  behaviour. Variables that only serve messages are left out. The FFmpeg decoder of
  \<open>prepare_decoding_chain\<close> is not modelled, only what it sets in the connection.
\<close>

section \<open>The header of an AAC block\<close>

definition addADTStoPacket :: "int \<Rightarrow> u32 \<Rightarrow> int \<Rightarrow> u8 list" where
  "addADTStoPacket packetLen rate chanCfg =
     (let profile = 2; freqIdx = (if rate = 44100 then 4 else if rate = 48000 then 3 else 4)
      in [0xFF, 0xF9,
          word_of_int (push_bit 6 (profile - 1) + push_bit 2 freqIdx + drop_bit 2 chanCfg),
          word_of_int (push_bit 6 (chanCfg AND 3) + drop_bit 11 packetLen),
          word_of_int (drop_bit 3 (packetLen AND 0x7FF)),
          word_of_int (push_bit 5 (packetLen AND 7) + 0x1F),
          0xFC])"

definition channel_configuration :: "u32 \<Rightarrow> int" where
  "channel_configuration s = (if s = AAC_48000_F24_5P1 then 6 else if s = AAC_48000_F24_7P1 then 7 else 2)"

definition adts_payload :: "u32 \<Rightarrow> u32 \<Rightarrow> u8 list \<Rightarrow> u8 list" where
  "adts_payload s rate m =
     (if ssrc_is_aac s then addADTStoPacket (int (length m) + 7) rate (channel_configuration s) @ m else m)"

section \<open>Reading a block\<close>

definition buffer_packet_size :: nat where "buffer_packet_size = 16 * 1024"

datatype block_read = Block_Overrun | End_Of_Stream | Got_Block "u8 list"

text \<open>
  The length of a block and the block, from the results of the reads for each. The length counts its
  own two bytes; \<open>data_len - 2\<close> is converted to \<open>size_t\<close>. \<open>None\<close>: still waiting.
\<close>

definition block_count :: "u16 \<Rightarrow> nat" where
  "block_count data_len = unat (word_of_int (uint data_len - 2) :: u64)"

definition read_audio_block :: "read_result list \<Rightarrow> read_result list \<Rightarrow> block_read option" where
  "read_audio_block rs rs' =
     (case read_sized_block 2 [] rs of
        None \<Rightarrow> None
      | Some (n, header) \<Rightarrow>
          if n \<le> 0 then Some End_Of_Stream
          else
            (case read_sized_block (block_count (nctohs header 0)) [] rs' of
               None \<Rightarrow> None
             | Some (n, bs) \<Rightarrow>
                 if buffer_packet_size < length bs then Some Block_Overrun
                 else if n \<le> 0 then Some End_Of_Stream
                 else Some (Got_Block bs)))"

section \<open>State\<close>

record ap2_state =
  ap2_player :: player_conn
  ap2_first_missing :: "u16 option"
  ap2_flush :: flush_state
  ap2_play_enabled :: bool
  incoming_ssrc :: u32
  ap2_session_key :: "u8 list option"
  backend_flushes :: nat
  play_enabled :: bool
  new_audio_block_needed :: bool
  finished :: bool
  blocks_read :: nat
  blocks_read_since_play_began :: nat
  block_packet :: "u8 list"
  block_length :: nat  \<comment> \<open>\<open>nread\<close>\<close>
  seq_no :: u32
  block_timestamp :: u32
  payload_ssrc :: u32
  sequence_number_for_player :: u16
  expected_timestamp :: u32
  packets_played_in_this_sequence :: nat
  previous_buffer_should_be_time :: u64
  networkTimeTimelineID :: u64

record ap2_env =
  incoming :: block_read
  block_clock :: clock_env
  lead_now :: u64
  put_now :: u64

record ap2_config =
  ap2_player_cfg :: player_config
  audio_decoded_buffer_desired_length :: real

section \<open>The parts of a turn\<close>

definition reset_buffer :: "ap2_state \<Rightarrow> ap2_state" where
  "reset_buffer st = st\<lparr>ap2_player := ab_resync (ap2_player st), backend_flushes := backend_flushes st + 1\<rparr>"

definition note_play_state :: "ap2_state \<Rightarrow> ap2_state" where
  "note_play_state st =
     (let st = (if \<not> play_enabled st \<and> ap2_play_enabled st
                then st\<lparr>new_audio_block_needed := True, blocks_read_since_play_began := 0\<rparr> else st);
          st = (if play_enabled st \<and> \<not> ap2_play_enabled st
                then reset_buffer (st\<lparr>packets_played_in_this_sequence := 0\<rparr>) else st)
      in st\<lparr>play_enabled := ap2_play_enabled st\<rparr>)"

definition prepare_decoding_chain :: "u32 \<Rightarrow> ap2_state \<Rightarrow> ap2_state" where
  "prepare_decoding_chain s st =
     (if ssrc_is_recognised s \<and> s \<noteq> incoming_ssrc st
      then st\<lparr>incoming_ssrc := s,
              ap2_player := (ap2_player st)
                \<lparr>input_rate := get_ssrc_rate s,
                 frames_per_packet := (if s = ALAC_48000_S24_2 \<or> s = ALAC_44100_S16_2 then 352 else 1024),
                 input_format_is_valid := True\<rparr>\<rparr>
      else st)"

definition accept_block :: "u8 list \<Rightarrow> ap2_state \<Rightarrow> ap2_state" where
  "accept_block bs st =
     (let packet = bs @ List.drop (length bs) (block_packet st);
          since = blocks_read_since_play_began st + 1;
          st = st\<lparr>block_packet := packet, block_length := length bs, blocks_read := blocks_read st + 1,
                  blocks_read_since_play_began := since, seq_no := nctohl packet 0 AND 0x7FFFFF,
                  block_timestamp := nctohl packet 4, payload_ssrc := nctohl packet 8\<rparr>;
          st = (if since = 1
                then prepare_decoding_chain (payload_ssrc st) st\<lparr>sequence_number_for_player := ucast (seq_no st)\<rparr>
                else st)
      in st\<lparr>new_audio_block_needed := False\<rparr>)"

definition read_block :: "ap2_env \<Rightarrow> ap2_state \<Rightarrow> ap2_state option" where
  "read_block env st =
     (if new_audio_block_needed st then
        (case incoming env of
           Block_Overrun \<Rightarrow> None
         | End_Of_Stream \<Rightarrow> Some (st\<lparr>finished := True\<rparr>)
         | Got_Block bs \<Rightarrow> Some (accept_block bs st))
      else Some st)"

definition flush_blocks :: "ap2_state \<Rightarrow> ap2_state" where
  "flush_blocks st =
     (let (d, fs) = flush_block (blocks_read st) (seq_no st) (ap2_flush st)
      in st\<lparr>ap2_flush := fs, new_audio_block_needed := new_audio_block_needed st \<or> d\<rparr>)"

text \<open>
  The message of the block at hand: \<open>None\<close> when the block is too short to have one, so that its
  parts lie outside it; otherwise what libsodium makes of it.
\<close>

definition decipher_block :: "aead \<Rightarrow> u8 list \<Rightarrow> ap2_state \<Rightarrow> u8 list option option" where
  "decipher_block decrypt key st =
     (if block_length st < 20 then None
      else Some (decrypt key (replicate 4 0 @ take 8 (List.drop (block_length st - 8) (block_packet st)))
             (take 8 (List.drop 4 (block_packet st)))
             (take (block_length st - 20) (List.drop 12 (block_packet st)))))"

definition put_block :: "codec \<Rightarrow> ap2_config \<Rightarrow> ap2_env \<Rightarrow> u8 list \<Rightarrow> ap2_state \<Rightarrow> ap2_state option" where
  "put_block cd cfg env m st =
     (let s = payload_ssrc st;
          first = (packets_played_in_this_sequence st = 0);
          payload = adts_payload s (input_rate (ap2_player st)) m;
          timestamp_difference = (if first then 0 else block_timestamp st - expected_timestamp st);
          mute = (ssrc_is_aac s \<and> (first \<or> timestamp_difference \<noteq> 0));
          late = sint (- timestamp_difference);
          skip = (sint timestamp_difference < 0 \<and> (late < 0 \<or> int (get_ssrc_block_length s) < late))
      in if skip then Some st
         else
           map_option (\<lambda>(used, reqs, fm, p).
               st\<lparr>ap2_player := p, ap2_first_missing := fm,
                  sequence_number_for_player := sequence_number_for_player st + 1,
                  expected_timestamp := block_timestamp st + used,
                  packets_played_in_this_sequence := packets_played_in_this_sequence st + 1\<rparr>)
             (player_put_packet cd (ap2_player_cfg cfg) (put_now env) s (sequence_number_for_player st)
                (block_timestamp st) payload mute timestamp_difference (ap2_first_missing st) (ap2_player st)))"

definition play_block :: "codec \<Rightarrow> aead \<Rightarrow> ap2_config \<Rightarrow> ap2_env \<Rightarrow> int \<Rightarrow> ap2_state \<Rightarrow> ap2_state option" where
  "play_block cd decrypt cfg env lead_time st =
     (if ssrc_is_recognised (payload_ssrc st) \<and> 0 \<le> lead_time then
        (case ap2_session_key st of
           None \<Rightarrow> Some st
         | Some key \<Rightarrow>
             (case decipher_block decrypt key st of
                None \<Rightarrow> None
              | Some None \<Rightarrow> Some st
              | Some (Some m) \<Rightarrow> if m = [] then Some st else put_block cd cfg env m st))
      else Some st)"

text \<open>A block that is not flushed: wait, drop it as old, or play it.\<close>

definition use_block :: "codec \<Rightarrow> aead \<Rightarrow> ap2_config \<Rightarrow> ap2_env \<Rightarrow> ap2_state \<Rightarrow> ap2_state option" where
  "use_block cd decrypt cfg env st =
     (let (r, p) = frame_to_local_time (block_clock env) (block_timestamp st) (ap2_player st);
          st = st\<lparr>ap2_player := p\<rparr>
      in case r of
           Division_By_Zero \<Rightarrow> None
         | No_Anchor \<Rightarrow> Some st
         | Converted buffer_should_be_time \<Rightarrow>
             (let lead_time = sint (buffer_should_be_time - lead_now env) in
              if play_enabled st
                 \<and> real_of_int lead_time / 1000000000 < audio_decoded_buffer_desired_length cfg + 1 / 10
              then
                (if packets_played_in_this_sequence st = 0
                    \<or> 0 < sint (buffer_should_be_time - previous_buffer_should_be_time st)
                 then map_option (\<lambda>st. st\<lparr>new_audio_block_needed := True\<rparr>)
                        (play_block cd decrypt cfg env lead_time st)
                 else Some (st\<lparr>new_audio_block_needed := True\<rparr>))
              else Some st))"

section \<open>A turn\<close>

definition ap2_turn :: "codec \<Rightarrow> aead \<Rightarrow> ap2_config \<Rightarrow> ap2_env \<Rightarrow> ap2_state \<Rightarrow> ap2_state option" where
  "ap2_turn cd decrypt cfg env st =
     (case read_block env (note_play_state st) of
        None \<Rightarrow> None
      | Some st \<Rightarrow>
          if finished st then Some st
          else
            (let st = flush_blocks st in
             if new_audio_block_needed st then Some st else use_block cd decrypt cfg env st))"

text \<open>The state of the loop before its first turn.\<close>

definition ap2_start :: "ap2_state \<Rightarrow> ap2_state" where
  "ap2_start st =
     reset_buffer (st\<lparr>incoming_ssrc := 0, ap2_flush := clear_flush_state (ap2_flush st), play_enabled := False,
       new_audio_block_needed := False, finished := False, blocks_read := 0, blocks_read_since_play_began := 0,
       seq_no := 0, block_timestamp := 0, payload_ssrc := SSRC_NONE, sequence_number_for_player := 0,
       expected_timestamp := 0, packets_played_in_this_sequence := 0, previous_buffer_should_be_time := 0\<rparr>)"

section \<open>Messages that arrive meanwhile\<close>

text \<open>
  SETRATEANCHORI: the items of its dictionary, each absent or a number. An anchor without a fraction or
  a frame is read from variables that were not set. The threads take turns: the handlers change the
  connection between two turns of the processor.
\<close>

record rate_anchor_message =
  m_networkTimeSecs :: "u64 option"
  m_networkTimeTimelineID :: "u64 option"
  m_networkTimeFrac :: "u64 option"
  m_rtpTime :: "u64 option"
  m_rate :: "u64 option"

definition network_time_ns :: "u64 \<Rightarrow> u64 \<Rightarrow> u64" where
  "network_time_ns secs fraction = secs * 1000000000 + drop_bit 32 (drop_bit 32 fraction * 1000000000)"

definition set_anchor :: "u64 \<Rightarrow> real \<Rightarrow> rate_anchor_message \<Rightarrow> ap2_state \<Rightarrow> ap2_state option" where
  "set_anchor now offset m st =
     (case m_networkTimeSecs m of
        None \<Rightarrow> Some st
      | Some secs \<Rightarrow>
          (let st = (case m_networkTimeTimelineID m of None \<Rightarrow> st | Some nid \<Rightarrow> st\<lparr>networkTimeTimelineID := nid\<rparr>)
           in case (m_networkTimeFrac m, m_rtpTime m) of
                (Some fraction, Some rtp) \<Rightarrow>
                  (let p = ap2_player st;
                       added_latency = to_int32 (offset * real_of_int (uint (input_rate p)))
                   in Some (st\<lparr>ap2_player := set_ptp_anchor_info now (networkTimeTimelineID st)
                        (ucast rtp - added_latency) (network_time_ns secs fraction) p\<rparr>))
              | _ \<Rightarrow> None))"

definition set_rate :: "rate_anchor_message \<Rightarrow> ap2_state \<Rightarrow> ap2_state" where
  "set_rate m st =
     (case m_rate m of
        None \<Rightarrow> st
      | Some rate \<Rightarrow>
          if rate AND 1 \<noteq> 0 then st\<lparr>ap2_play_enabled := True\<rparr>
          else st\<lparr>ap2_player := reset_ptp_anchor_info (ap2_player st), ap2_play_enabled := False\<rparr>)"

definition handle_setrateanchori ::
  "u64 \<Rightarrow> real \<Rightarrow> rate_anchor_message option \<Rightarrow> ap2_state \<Rightarrow> ap2_state option" where
  "handle_setrateanchori now offset msg st =
     (case msg of None \<Rightarrow> Some st | Some m \<Rightarrow> map_option (set_rate m) (set_anchor now offset m st))"

definition flush_message_arrives :: "flush_message option \<Rightarrow> ap2_state \<Rightarrow> ap2_state" where
  "flush_message_arrives msg st =
     (let (fs, stop) = handle_flushbuffered msg (ap2_flush st); st = st\<lparr>ap2_flush := fs\<rparr>
      in if stop then st\<lparr>ap2_play_enabled := False, ap2_player := reset_ptp_anchor_info (ap2_player st)\<rparr> else st)"

datatype ap2_event =
    Turn ap2_env
  | Flush_Buffered "flush_message option"
  | Set_Rate_Anchor u64 real "rate_anchor_message option"

definition ap2_event :: "codec \<Rightarrow> aead \<Rightarrow> ap2_config \<Rightarrow> ap2_event \<Rightarrow> ap2_state \<Rightarrow> ap2_state option" where
  "ap2_event cd decrypt cfg e st =
     (case e of
        Turn env \<Rightarrow> ap2_turn cd decrypt cfg env st
      | Flush_Buffered m \<Rightarrow> Some (flush_message_arrives m st)
      | Set_Rate_Anchor now offset m \<Rightarrow> handle_setrateanchori now offset m st)"

text \<open>Events in a row, until the stream ends.\<close>

fun ap2_events :: "codec \<Rightarrow> aead \<Rightarrow> ap2_config \<Rightarrow> ap2_event list \<Rightarrow> ap2_state \<Rightarrow> ap2_state option" where
  "ap2_events cd decrypt cfg [] st = Some st"
| "ap2_events cd decrypt cfg (e # es) st =
     (if finished st then Some st
      else case ap2_event cd decrypt cfg e st of None \<Rightarrow> None | Some st \<Rightarrow> ap2_events cd decrypt cfg es st)"

end
