(* ===== verification/Ap2_Proofs.thy ===== *)
theory Ap2_Proofs
  imports Ap2_Buffered Jitter_Proofs
begin

text \<open>
  The processor of buffered audio keeps in step with the player: the number of the packet it puts next
  is always the player's write end, so that the player never sees a gap. A block longer
  than the buffer of the processor runs over it. The header of an AAC block reads back.
\<close>

section \<open>In step with the player\<close>

text \<open>
  The write end of a synchronised player is the number of the next packet; before the first
  packet after a start or a stop the player is not synchronised.
\<close>

definition in_step :: "ap2_state \<Rightarrow> bool" where
  "in_step st \<longleftrightarrow> connection_state_to_output (ap2_player st) \<and> previous_buffer_should_be_time st = 0
     \<and> (ab_synced (ap2_player st) \<longrightarrow>
          play_enabled st \<and> 0 < blocks_read_since_play_began st
          \<and> ab_write (ap2_player st) = sequence_number_for_player st)"


lemma in_step_reset [simp]: "in_step (reset_buffer st) \<longleftrightarrow>
    connection_state_to_output (ap2_player st) \<and> previous_buffer_should_be_time st = 0"
  by (simp add: in_step_def reset_buffer_def ab_resync_def)


lemma in_step_prepare [simp]:
  "in_step (prepare_decoding_chain s st) = in_step st"
  "ab_synced (ap2_player (prepare_decoding_chain s st)) = ab_synced (ap2_player st)"
  "ab_write (ap2_player (prepare_decoding_chain s st)) = ab_write (ap2_player st)"
  "connection_state_to_output (ap2_player (prepare_decoding_chain s st)) = connection_state_to_output (ap2_player st)"
  "previous_buffer_should_be_time (prepare_decoding_chain s st) = previous_buffer_should_be_time st"
  "play_enabled (prepare_decoding_chain s st) = play_enabled st"
  "blocks_read_since_play_began (prepare_decoding_chain s st) = blocks_read_since_play_began st"
  "seq_no (prepare_decoding_chain s st) = seq_no st"
  by (simp_all add: in_step_def prepare_decoding_chain_def)


lemma in_step_flush [simp]: "in_step (flush_blocks st) = in_step st"
  "play_enabled (flush_blocks st) = play_enabled st"
  "blocks_read_since_play_began (flush_blocks st) = blocks_read_since_play_began st"
  by (simp_all add: in_step_def flush_blocks_def split: prod.splits)







definition begun :: "ap2_state \<Rightarrow> bool" where
  "begun st \<longleftrightarrow> in_step st \<and> (play_enabled st \<longrightarrow> 0 < blocks_read_since_play_began st)"



lemma anchor_fields [simp]:
  "ab_synced (reset_ptp_anchor_info p) = ab_synced p" "ab_write (reset_ptp_anchor_info p) = ab_write p"
  "connection_state_to_output (reset_ptp_anchor_info p) = connection_state_to_output p"
  "ab_synced (set_ptp_anchor_info now c r n p) = ab_synced p" "ab_write (set_ptp_anchor_info now c r n p) = ab_write p"
  "connection_state_to_output (set_ptp_anchor_info now c r n p) = connection_state_to_output p"
  for p :: player_conn
  by (simp_all add: reset_ptp_anchor_info_def set_ptp_anchor_info_def Let_def)

lemma begun_fields [simp]:
  "begun (st\<lparr>ap2_play_enabled := b\<rparr>) = begun st" "begun (st\<lparr>ap2_flush := fs\<rparr>) = begun st"
  "begun (st\<lparr>networkTimeTimelineID := n\<rparr>) = begun st"
  "begun (st\<lparr>ap2_player := reset_ptp_anchor_info (ap2_player st), ap2_play_enabled := b\<rparr>) = begun st"
  by (simp_all add: begun_def in_step_def)

lemma begun_anchor [simp]:
  "begun (st\<lparr>ap2_player := set_ptp_anchor_info now c r n (ap2_player st)\<rparr>) = begun st"
  "begun (st\<lparr>ap2_player := reset_ptp_anchor_info (ap2_player st)\<rparr>) = begun st"
  "begun (st\<lparr>networkTimeTimelineID := i, ap2_player := set_ptp_anchor_info now c r n (ap2_player st)\<rparr>) = begun st"
  by (simp_all add: begun_def in_step_def)

lemma set_rate_begun [simp]: "begun (set_rate m st) = begun st"
  by (simp add: set_rate_def split: option.split)








section \<open>Long blocks\<close>

lemma block_count_eq:
  "block_count w = (if unat w < 2 then 2 ^ 64 - 2 + unat w else unat w - 2)"
proof -
  have k: "unat (word_of_int k :: u64) = nat (k mod 2 ^ 64)" for k
    by (simp add: unsigned_of_int take_bit_eq_mod)
  define n where "n = unat w"
  have w: "uint w = int n" "n < 65536" unfolding n_def by (rule uint_eq_unat, rule unat_u16)
  have b: "block_count w = nat ((int n - 2) mod 2 ^ 64)"
    unfolding block_count_def k w(1) ..
  have "block_count w = (if n < 2 then 2 ^ 64 - 2 + n else n - 2)"
  proof (cases "n < 2")
    case True
    have "(int n - 2) mod 2 ^ 64 = (int n - 2 + 2 ^ 64) mod 2 ^ 64"
      by (rule mod_add_self2 [symmetric])
    also have "\<dots> = int n - 2 + 2 ^ 64" using True by (intro mod_pos_pos_trivial) auto
    finally have m: "(int n - 2) mod 2 ^ 64 = int n - 2 + 2 ^ 64" .
    have "nat (int k - 2 + 2 ^ 64) = 2 ^ 64 - 2 + k" for k by (simp add: nat_eq_iff)
    then show ?thesis unfolding b m using True by (simp only: if_True)
  next
    case False
    then have "(int n - 2) mod 2 ^ 64 = int n - 2"
      using w(2) by (intro mod_pos_pos_trivial) auto
    then show ?thesis unfolding b using False by simp
  qed
  then show ?thesis unfolding n_def .
qed

text \<open>
  A block that is longer than the buffer of the processor, which the two bytes of its length allow
  up to four times, is written over the end of it; and a length of less than two asks for nearly
  \<open>2 ^ 64\<close> bytes.
\<close>

theorem long_block_overruns:
  assumes "\<forall>r\<in>set rs. benign r" "concat (map read_bytes rs) = [hi, lo]"
    "\<forall>r\<in>set rs'. benign r" "length (concat (map read_bytes rs')) = block_count (word_cat hi lo)"
    "16 * 1024 < block_count (word_cat hi lo)"
  shows "read_audio_block rs rs' = Some Block_Overrun
    \<and> (unat (word_cat hi lo :: u16) < 2 \<longrightarrow> 2 ^ 64 - 2 \<le> block_count (word_cat hi lo))"
proof -
  have h: "read_sized_block 2 [] rs = Some (2, [hi, lo])"
    using read_sized_block_acc [of rs "[]" 2] assms(1,2) by simp
  have b: "read_sized_block (block_count (word_cat hi lo)) [] rs'
      = Some (int (block_count (word_cat hi lo)), concat (map read_bytes rs'))"
    using read_sized_block_acc [of rs' "[]" "block_count (word_cat hi lo)"] assms(3-5) by simp
  have "2 ^ 64 - 2 \<le> block_count w" if "unat w < 2" for w
    using that by (simp add: block_count_eq)
  then show ?thesis
    using assms(4,5) by (simp add: read_audio_block_def h b nctohs_def buffer_packet_size_def)
qed

theorem long_block_overruns_witness:
  "read_audio_block [ReadBytes [0x40, 0x03]] [ReadBytes (replicate 16385 0)] = Some Block_Overrun"
proof -
  have c: "block_count (word_cat (0x40 :: u8) (0x03 :: u8)) = 16385"
    by (simp add: block_count_eq word_cat_eq)
  show ?thesis
    using long_block_overruns [of "[ReadBytes [0x40, 0x03]]" "0x40" "0x03" "[ReadBytes (replicate 16385 0)]"]
    by (simp add: benign_def c)
qed

section \<open>The header of an AAC block\<close>

text \<open>The fields of a header, as a decoder reads them: frequency, channels and length.\<close>

definition adts_fields :: "u8 list \<Rightarrow> int \<times> int \<times> int" where
  "adts_fields p =
     (uint (p ! 2) div 4 mod 16, uint (p ! 2) mod 2 * 4 + uint (p ! 3) div 64,
      uint (p ! 3) mod 4 * 2048 + uint (p ! 4) * 8 + uint (p ! 5) div 32)"

lemma uint_byte: "0 \<le> x \<Longrightarrow> x < 256 \<Longrightarrow> uint (word_of_int x :: u8) = x"
  by (simp add: uint_word_of_int)

lemma and_mask_mod: "x AND 3 = x mod 4" "x AND 7 = x mod 8" "x AND 0x7FF = x mod 2048" for x :: int
  using take_bit_eq_mask [of 2 x] take_bit_eq_mask [of 3 x] take_bit_eq_mask [of 11 x]
  by (simp_all add: take_bit_eq_mod mask_eq_exp_minus_1)

lemma adts_bytes:
  assumes "0 \<le> n" "n < 8192" "ch \<in> {2, 6, 7}" "rate \<in> {44100, 48000}"
  shows "map uint (addADTStoPacket n rate ch) = [255, 249, 64 + (if rate = 44100 then 16 else 12) + ch div 4,
    ch mod 4 * 64 + n div 2048, n mod 2048 div 8, n mod 8 * 32 + 31, 252]"
proof -
  have q: "0 \<le> n div 2048" "n div 2048 < 4"
    using assms(1,2) pos_imp_zdiv_nonneg_iff [of 2048 n] by (simp_all add: div_less_iff_less_mult del: pos_imp_zdiv_nonneg_iff)
  have b: "0 \<le> n mod 2048 div 8" "n mod 2048 div 8 < 256"
    using pos_mod_bound [of 2048 n] pos_mod_sign [of 2048 n] pos_imp_zdiv_nonneg_iff [of 8 "n mod 2048"]
    by (simp_all add: div_less_iff_less_mult del: pos_imp_zdiv_nonneg_iff)
  have t: "0 \<le> n mod 8" "n mod 8 < 8" by simp_all
  have "uint (word_of_int (ch mod 4 * 64 + n div 2048) :: u8) = ch mod 4 * 64 + n div 2048"
    using q assms(3) by (intro uint_byte) auto
  moreover have "uint (word_of_int (n mod 8 * 32 + 31) :: u8) = n mod 8 * 32 + 31"
    using t by (intro uint_byte) linarith+
  moreover note uint_byte [OF b]
  moreover have "uint (word_of_int (64 + (if rate = 44100 then 16 else 12) + ch div 4) :: u8)
      = 64 + (if rate = 44100 then 16 else 12) + ch div 4"
    using assms(3) by (intro uint_byte) auto
  moreover have "push_bit 6 (ch AND 3) + drop_bit 11 n = ch mod 4 * 64 + n div 2048"
    "drop_bit 3 (n AND 0x7FF) = n mod 2048 div 8" "push_bit 5 (n AND 7) + 0x1F = n mod 8 * 32 + 31"
    "push_bit 6 (2 - 1) + push_bit 2 (if rate = 44100 then 4 else if rate = 48000 then 3 else 4) + drop_bit 2 ch
      = 64 + (if rate = 44100 then 16 else 12) + ch div 4"
    using assms(4) by (auto simp: and_mask_mod push_bit_eq_mult drop_bit_eq_div)
  ultimately show ?thesis
    unfolding addADTStoPacket_def Let_def list.map by (simp only:) simp
qed

text \<open>
  The header put before an AAC block says what it is made from: its frequency, its channels and its
  length with the header, as long as that is below 8192 bytes.
\<close>

theorem adts_header_roundtrip:
  assumes "0 \<le> n" "n < 8192" "ch \<in> {2, 6, 7}" "rate \<in> {44100, 48000}"
  shows "adts_fields (addADTStoPacket n rate ch) = (if rate = 44100 then 4 else 3, ch, n)"
proof -
  let ?p = "addADTStoPacket n rate ch"
  have "length ?p = 7" by (simp only: addADTStoPacket_def Let_def list.size)
  then have nth: "i < 7 \<Longrightarrow> uint (?p ! i) = map uint ?p ! i" for i
    using nth_map [of i ?p uint] by simp
  have p: "uint (?p ! 2) = 64 + (if rate = 44100 then 16 else 12) + ch div 4"
    "uint (?p ! 3) = ch mod 4 * 64 + n div 2048" "uint (?p ! 4) = n mod 2048 div 8" "uint (?p ! 5) = n mod 8 * 32 + 31"
    unfolding nth [of 2, simplified] nth [of 3, simplified] nth [of 4, simplified] nth [of 5, simplified]
      adts_bytes [OF assms] by (simp_all add: nth_Cons_numeral)
  have q: "0 \<le> n div 2048" "n div 2048 < 4"
    using assms(1,2) pos_imp_zdiv_nonneg_iff [of 2048 n] by (simp_all add: div_less_iff_less_mult del: pos_imp_zdiv_nonneg_iff)
  have three: "(c * 64 + x) div 64 = c" "(c * 64 + x) mod 4 = x" if "0 \<le> x" "x < 4" for c x :: int
  proof -
    have "(c * 64 + x) div 64 = c + x div 64" by simp
    then show "(c * 64 + x) div 64 = c" using that by simp
    have "c * 64 + x = c * 16 * 4 + x" by simp
    then have "(c * 64 + x) mod 4 = x mod 4" by (simp only: mod_mult_self3)
    then show "(c * 64 + x) mod 4 = x" using that by simp
  qed
  have five: "(t * 32 + 31) div 32 = t" for t :: int by simp
  have c: "n mod 2048 mod 8 = n mod 8" by (simp add: mod_mod_cancel)
  have sum: "n div 2048 * 2048 + n mod 2048 div 8 * 8 + n mod 8 = n"
    using div_mult_mod_eq [of "n mod 2048" 8] div_mult_mod_eq [of n 2048] unfolding c by linarith
  show ?thesis
    unfolding adts_fields_def p three [OF q] five sum using assms(3) by auto
qed

theorem adts_header_roundtrip_witness: "adts_fields (addADTStoPacket 1031 48000 6) = (3, 6, 1031)"
  using adts_header_roundtrip [of 1031 6 48000] by simp

end
