(* ===== verification/Activity_Monitor.thy ===== *)
theory Activity_Monitor
  imports Prelude "HOL-Library.Multiset"
begin

text \<open>
  The activity monitor (\<open>activity_monitor.c\<close>) as a step relation: a thread of its own, and any
  number of threads that signify activity. What a thread does while it holds the mutex is one step;
  the hooks \<open>going_active\<close> and \<open>going_inactive\<close> run without it. A wait for the condition
  variable is a step that is possible once its condition holds, woken up or not.
\<close>

section \<open>State\<close>

datatype am_state = am_inactive | am_active | am_timing_out
datatype ps_state = ps_inactive | ps_active
datatype hook = Going_Active | Going_Inactive

text \<open>Where the monitor's thread is: in one of its three waits, in a hook, or taking the mutex again.\<close>

datatype am_thread = In_Inactive | In_Active | In_Timing_Out | In_Hook | After_Hook

record am_config =
  no_timeout :: bool  \<comment> \<open>\<open>active_state_timeout == 0.0\<close>\<close>
  standby_auto :: bool  \<comment> \<open>\<open>disable_standby_mode == disable_standby_auto\<close>\<close>

record am =
  state :: am_state
  player_state :: ps_state
  am_thread :: am_thread
  pending :: "hook list"  \<comment> \<open>decided by other threads, and not run yet\<close>
  hooks :: "hook list"  \<comment> \<open>run so far\<close>
  keep_dac_busy :: bool

definition am_init :: am where
  "am_init = \<lparr>state = am_inactive, player_state = ps_inactive, am_thread = In_Inactive, pending = [],
     hooks = [], keep_dac_busy = False\<rparr>"

section \<open>Operations\<close>

text \<open>\<open>going_active\<close> and \<open>going_inactive\<close>: the script, the message and D-Bus, and the standby mode.\<close>

definition run_hook :: "am_config \<Rightarrow> hook \<Rightarrow> am \<Rightarrow> am" where
  "run_hook cfg h s =
     s\<lparr>hooks := hooks s @ [h],
       keep_dac_busy := (if standby_auto cfg then h = Going_Active else keep_dac_busy s)\<rparr>"

text \<open>Signifying activity: the new state, and the hook to run after the mutex is released.\<close>

definition activity_monitor_signify_activity :: "am_config \<Rightarrow> bool \<Rightarrow> am \<Rightarrow> am \<times> hook option" where
  "activity_monitor_signify_activity cfg active s =
     (let s = s\<lparr>player_state := (if active then ps_active else ps_inactive)\<rparr>
      in if state s = am_inactive \<and> player_state s = ps_active
         then (s\<lparr>state := am_active, pending := pending s @ [Going_Active]\<rparr>, Some Going_Active)
         else if state s = am_active \<and> player_state s = ps_inactive \<and> no_timeout cfg
         then (s\<lparr>state := am_inactive, pending := pending s @ [Going_Inactive]\<rparr>, Some Going_Inactive)
         else (s, None))"

text \<open>The monitor goes on with the wait for its state.\<close>

definition next_wait :: "am \<Rightarrow> am" where
  "next_wait s =
     s\<lparr>am_thread := (case state s of am_inactive \<Rightarrow> In_Inactive | am_active \<Rightarrow> In_Active
                       | am_timing_out \<Rightarrow> In_Timing_Out)\<rparr>"

text \<open>A turn of the monitor, with the hook it decides on; \<open>None\<close> when it has to wait.\<close>

definition monitor_turn :: "am_config \<Rightarrow> bool \<Rightarrow> am \<Rightarrow> (am \<times> hook option) option" where
  "monitor_turn cfg timed_out s =
     (case am_thread s of
        In_Inactive \<Rightarrow> if player_state s = ps_active then Some (next_wait s, None) else None
      | In_Active \<Rightarrow>
          if player_state s = ps_inactive
          then Some (next_wait (if state s \<noteq> am_inactive then s\<lparr>state := am_timing_out\<rparr> else s), None)
          else None
      | In_Timing_Out \<Rightarrow>
          if player_state s = ps_active then Some (next_wait (s\<lparr>state := am_active\<rparr>), None)
          else if timed_out then Some (s\<lparr>state := am_inactive, am_thread := In_Hook\<rparr>, Some Going_Inactive)
          else None
      | In_Hook \<Rightarrow> Some ((run_hook cfg Going_Inactive s)\<lparr>am_thread := After_Hook\<rparr>, None)
      | After_Hook \<Rightarrow> Some (next_wait s, None))"

text \<open>The end of the program, without the mutex.\<close>

definition activity_monitor_stop :: "am_config \<Rightarrow> am \<Rightarrow> am" where
  "activity_monitor_stop cfg s =
     (if state s = am_active \<or> state s = am_timing_out
      then (run_hook cfg Going_Inactive s)\<lparr>state := am_inactive\<rparr> else s)"

section \<open>Steps\<close>

inductive am_step :: "am_config \<Rightarrow> am \<Rightarrow> hook option \<Rightarrow> am \<Rightarrow> bool" for cfg where
  signify: "activity_monitor_signify_activity cfg active s = (s', d) \<Longrightarrow> am_step cfg s d s'"
| caller_hook: "pending s = hs @ h # hs' \<Longrightarrow> am_step cfg s None (run_hook cfg h (s\<lparr>pending := hs @ hs'\<rparr>))"
| monitor: "monitor_turn cfg timed_out s = Some (s', d) \<Longrightarrow> am_step cfg s d s'"

inductive_cases am_stepE: "am_step cfg s d s'"

text \<open>Runs from the start, with the hooks that were decided on, in order.\<close>

inductive am_run :: "am_config \<Rightarrow> hook list \<Rightarrow> am \<Rightarrow> bool" for cfg where
  init: "am_run cfg [] am_init"
| quiet: "am_run cfg ds s \<Longrightarrow> am_step cfg s None s' \<Longrightarrow> am_run cfg ds s'"
| decide: "am_run cfg ds s \<Longrightarrow> am_step cfg s (Some d) s' \<Longrightarrow> am_run cfg (ds @ [d]) s'"

section \<open>Invariants\<close>

text \<open>The state the decisions so far lead to, when each is taken in the state it is for.\<close>

fun decided :: "bool \<Rightarrow> hook list \<Rightarrow> bool option" where
  "decided a [] = Some a"
| "decided a (d # ds) = (if (d = Going_Active) \<noteq> a then decided (\<not> a) ds else None)"

lemma decided_append: "decided a (ds @ ds') = (case decided a ds of None \<Rightarrow> None | Some b \<Rightarrow> decided b ds')"
  by (induction ds arbitrary: a) auto

definition am_ok :: "am \<Rightarrow> bool" where
  "am_ok s \<longleftrightarrow> (am_thread s = In_Timing_Out \<longleftrightarrow> state s = am_timing_out)"

definition in_hook :: "am \<Rightarrow> hook multiset" where
  "in_hook s = (if am_thread s = In_Hook then {#Going_Inactive#} else {#})"

lemmas am_op_defs = activity_monitor_signify_activity_def monitor_turn_def next_wait_def run_hook_def Let_def

lemma am_ok_step: "am_step cfg s d s' \<Longrightarrow> am_ok s \<Longrightarrow> am_ok s'"
  by (erule am_stepE)
    (auto simp: am_ok_def am_op_defs split: if_splits am_thread.splits am_state.splits)

text \<open>A hook is decided on exactly when the state changes between active and inactive.\<close>

lemma decision_step:
  assumes "am_step cfg s d s'" "am_ok s"
  shows "case d of
      None \<Rightarrow> (state s' = am_inactive) = (state s = am_inactive)
    | Some h \<Rightarrow> (h = Going_Active) = (state s = am_inactive) \<and> (state s' = am_inactive) \<noteq> (state s = am_inactive)"
  using assms
  by (elim am_stepE)
    (auto simp: am_ok_def am_op_defs split: if_splits am_thread.splits am_state.splits)

lemma hooks_step:
  assumes "am_step cfg s d s'"
  shows "mset (hooks s') + mset (pending s') + in_hook s'
    = mset (hooks s) + mset (pending s) + in_hook s + (case d of None \<Rightarrow> {#} | Some h \<Rightarrow> {#h#})"
  using assms
  by (elim am_stepE)
    (auto simp: in_hook_def am_op_defs split: if_splits am_thread.splits am_state.splits)

lemma am_run_ok: "am_run cfg ds s \<Longrightarrow> am_ok s"
proof (induction rule: am_run.induct)
  case init
  then show ?case by (simp add: am_init_def am_ok_def)
qed (blast intro: am_ok_step)+

text \<open>
  C18. In every schedule of the monitor and the threads that signify activity, the decisions to go active
  and to go inactive alternate, starting with active, and the monitor is in its inactive state exactly
  when the last one was to go inactive; and each decision leads to exactly one run of its hook, which
  has happened or is still due.
\<close>

theorem activity_decisions_alternate:
  assumes "am_run cfg ds s"
  shows "decided False ds = Some (state s \<noteq> am_inactive)
    \<and> mset ds = mset (hooks s) + mset (pending s) + in_hook s"
  using assms
proof (induction rule: am_run.induct)
  case init
  then show ?case by (simp add: am_init_def in_hook_def)
next
  case (quiet ds s s')
  then show ?case using decision_step [OF quiet(2)] hooks_step [OF quiet(2)] am_run_ok [OF quiet(1)] by simp
next
  case (decide ds s d s')
  then show ?case
    using decision_step [OF decide(2)] hooks_step [OF decide(2)] am_run_ok [OF decide(1)]
    by (auto simp: decided_append)
qed

lemma activity_decisions_alternate_witness:
  "\<exists>s. am_run \<lparr>no_timeout = True, standby_auto = False\<rparr> [Going_Active, Going_Inactive] s
    \<and> decided False [Going_Active, Going_Inactive] = Some (state s \<noteq> am_inactive)"
proof -
  let ?cfg = "\<lparr>no_timeout = True, standby_auto = False\<rparr>"
  let ?s1 = "am_init\<lparr>player_state := ps_active, state := am_active, pending := [Going_Active]\<rparr>"
  let ?s2 = "?s1\<lparr>player_state := ps_inactive, state := am_inactive, pending := [Going_Active, Going_Inactive]\<rparr>"
  have "am_step ?cfg am_init (Some Going_Active) ?s1"
    by (rule signify [where active = True]) (simp add: am_op_defs am_init_def)
  then have r1: "am_run ?cfg ([] @ [Going_Active]) ?s1" by (rule decide [OF init])
  have "am_step ?cfg ?s1 (Some Going_Inactive) ?s2"
    by (rule signify [where active = False]) (simp add: am_op_defs am_init_def)
  then have r2: "am_run ?cfg (([] @ [Going_Active]) @ [Going_Inactive]) ?s2" by (rule decide [OF r1])
  then have "am_run ?cfg [Going_Active, Going_Inactive] ?s2" by simp
  then show ?thesis using activity_decisions_alternate by blast
qed

section \<open>Where hooks and states part\<close>

text \<open>A run by the operations named, to build the schedules below.\<close>

lemma run_signify:
  assumes "am_run cfg ds s" "activity_monitor_signify_activity cfg active s = (s', d)"
  shows "am_run cfg (ds @ (case d of None \<Rightarrow> [] | Some h \<Rightarrow> [h])) s'"
  using assms by (cases d) (auto intro: am_run.intros am_step.intros)

lemma run_monitor:
  assumes "am_run cfg ds s" "monitor_turn cfg timed_out s = Some (s', d)"
  shows "am_run cfg (ds @ (case d of None \<Rightarrow> [] | Some h \<Rightarrow> [h])) s'"
  using assms by (cases d) (auto intro: am_run.intros am_step.intros)

lemma run_caller_hook:
  assumes "am_run cfg ds s" "pending s = h # hs"
  shows "am_run cfg ds (run_hook cfg h (s\<lparr>pending := hs\<rparr>))"
  using quiet [OF assms(1) caller_hook [of s "[]" h hs]] assms(2) by simp

text \<open>
  A player that stops again before the monitor's thread has woken up is never timed out: the state
  is active, the player is not, and the thread stays in its first wait, which ends only when the player
  is active, whatever time passes.
\<close>

theorem short_play_never_times_out:
  assumes "\<not> no_timeout cfg"
  shows "\<exists>s. am_run cfg [Going_Active] s \<and> state s = am_active \<and> player_state s = ps_inactive
    \<and> (\<forall>d s'. am_step cfg s d s' \<longrightarrow> s' = s \<or> player_state s' = ps_active)"
proof -
  let ?s1 = "am_init\<lparr>player_state := ps_active, state := am_active, pending := [Going_Active]\<rparr>"
  let ?s2 = "run_hook cfg Going_Active (?s1\<lparr>pending := []\<rparr>)"
  let ?s3 = "?s2\<lparr>player_state := ps_inactive\<rparr>"
  have r1: "am_run cfg [Going_Active] ?s1"
    using run_signify [OF init, of cfg True ?s1 "Some Going_Active"] by (simp add: am_op_defs am_init_def)
  have r2: "am_run cfg [Going_Active] ?s2" by (rule run_caller_hook [OF r1]) simp
  have r3: "am_run cfg [Going_Active] ?s3"
    using run_signify [OF r2, of False ?s3 None] assms by (simp add: am_op_defs am_init_def)
  moreover have "s' = ?s3 \<or> player_state s' = ps_active" if "am_step cfg ?s3 d s'" for d s'
    using that assms by (elim am_stepE) (auto simp: am_op_defs am_init_def split: if_splits)
  ultimately show ?thesis by (intro exI [of _ ?s3]) (simp add: am_op_defs am_init_def)
qed

lemma short_play_never_times_out_witness:
  "\<exists>s. am_run \<lparr>no_timeout = False, standby_auto = True\<rparr> [Going_Active] s \<and> state s = am_active
    \<and> player_state s = ps_inactive"
  using short_play_never_times_out [of "\<lparr>no_timeout = False, standby_auto = True\<rparr>"] by auto

text \<open>
  The hooks run without the mutex and can overtake one another: when the player starts again just
  as the time-out expires, the active hook of the caller can run before the inactive one of the
  monitor. The monitor then waits in its active state with the player playing and nothing left to run,
  but what the hooks set says inactive: the output device may go to standby.
\<close>

theorem hooks_overtake:
  assumes "\<not> no_timeout cfg" "standby_auto cfg"
  shows "\<exists>s. am_run cfg [Going_Active, Going_Inactive, Going_Active] s
    \<and> state s = am_active \<and> player_state s = ps_active \<and> am_thread s = In_Active \<and> pending s = []
    \<and> hooks s = [Going_Active, Going_Active, Going_Inactive] \<and> \<not> keep_dac_busy s"
proof -
  let ?a = "am_init\<lparr>player_state := ps_active, state := am_active\<rparr>"
  let ?s1 = "?a\<lparr>pending := [Going_Active]\<rparr>"
  let ?s2 = "run_hook cfg Going_Active (?s1\<lparr>pending := []\<rparr>)"
  let ?s3 = "?s2\<lparr>am_thread := In_Active\<rparr>"
  let ?s4 = "?s3\<lparr>player_state := ps_inactive\<rparr>"
  let ?s5 = "?s4\<lparr>state := am_timing_out, am_thread := In_Timing_Out\<rparr>"
  let ?s6 = "?s5\<lparr>state := am_inactive, am_thread := In_Hook\<rparr>"
  let ?s7 = "?s6\<lparr>player_state := ps_active, state := am_active, pending := [Going_Active]\<rparr>"
  let ?s8 = "run_hook cfg Going_Active (?s7\<lparr>pending := []\<rparr>)"
  let ?s9 = "(run_hook cfg Going_Inactive ?s8)\<lparr>am_thread := After_Hook\<rparr>"
  let ?s10 = "?s9\<lparr>am_thread := In_Active\<rparr>"
  note defs = am_op_defs am_init_def
  have "am_run cfg [Going_Active] ?s1"
    using run_signify [OF init, of cfg True ?s1 "Some Going_Active"] by (simp add: defs assms)
  then have "am_run cfg [Going_Active] ?s2" by (rule run_caller_hook) simp
  then have "am_run cfg [Going_Active] ?s3"
    using run_monitor [of cfg "[Going_Active]" ?s2 False ?s3 None] by (simp add: defs assms)
  then have "am_run cfg [Going_Active] ?s4"
    using run_signify [of cfg "[Going_Active]" ?s3 False ?s4 None] assms by (simp add: defs assms)
  then have "am_run cfg [Going_Active] ?s5"
    using run_monitor [of cfg "[Going_Active]" ?s4 False ?s5 None] by (simp add: defs assms)
  then have "am_run cfg [Going_Active, Going_Inactive] ?s6"
    using run_monitor [of cfg "[Going_Active]" ?s5 True ?s6 "Some Going_Inactive"] by (simp add: defs assms)
  then have "am_run cfg [Going_Active, Going_Inactive, Going_Active] ?s7"
    using run_signify [of cfg "[Going_Active, Going_Inactive]" ?s6 True ?s7 "Some Going_Active"] by (simp add: defs assms)
  then have "am_run cfg [Going_Active, Going_Inactive, Going_Active] ?s8"
    by (rule run_caller_hook) simp
  then have "am_run cfg [Going_Active, Going_Inactive, Going_Active] ?s9"
    using run_monitor [of cfg "[Going_Active, Going_Inactive, Going_Active]" ?s8 False ?s9 None] by (simp add: defs assms)
  then have "am_run cfg [Going_Active, Going_Inactive, Going_Active] ?s10"
    using run_monitor [of cfg "[Going_Active, Going_Inactive, Going_Active]" ?s9 False ?s10 None] by (simp add: defs assms)
  then show ?thesis using assms by (intro exI [of _ ?s10]) (simp add: defs)
qed

lemma hooks_overtake_witness:
  "\<exists>s. am_run \<lparr>no_timeout = False, standby_auto = True\<rparr> [Going_Active, Going_Inactive, Going_Active] s
    \<and> state s = am_active \<and> \<not> keep_dac_busy s"
  using hooks_overtake [of "\<lparr>no_timeout = False, standby_auto = True\<rparr>"] by auto

end
