(* ===== verification/Play_Lock.thy ===== *)
theory Play_Lock
  imports Prelude
begin

text \<open>
  The table of RTSP connections and the play lock (\<open>rtsp.c\<close>), as built for AirPlay 2: the threads of
  the connections, the listener that makes them, and a thread that calls \<open>stop_play\<close> (D-Bus or MQTT).
  A step is what a thread does up to the next place where it waits for a lock, for another thread or
  for its client, so that the steps of all the threads interleave as the locks allow.

  A pointer to a connection is its \<open>connection_number\<close>, which is never used again. Taking a mutex or
  the read-write lock is not a cancellation point; \<open>pthread_join\<close> and the reading of a request are.
\<close>

section \<open>State\<close>

datatype airplay_stream_c = unspecified_stream_category | ptp_stream | ntp_stream | remote_control_stream
  | classic_airplay_stream

datatype play_lock_r = play_lock_released | play_lock_already_released | play_lock_already_acquired
  | play_lock_acquired_without_breaking_in | play_lock_acquired_by_breaking_in | play_lock_aquisition_failed

text \<open>Where the thread of a connection is. In \<open>Breaking_In\<close> it wants the lock of the table in
  \<open>terminate_conn\<close>, in \<open>Joining\<close> it waits there for the end of another thread.\<close>

datatype place = At_Loop | Want_Conns | Reading | Handling | Want_Principal bool | Breaking_In nat
  | Joining nat | Releasing bool | Ending | Exited

record conn =
  place :: place
  stop :: bool
  running :: bool
  cancelled :: bool  \<comment> \<open>a cancellation is pending\<close>
  airplay_stream_category :: airplay_stream_c
  player_thread :: bool
  response :: play_lock_r  \<comment> \<open>the last answer of \<open>get_play_lock\<close>\<close>

datatype holder = By_Conn nat | By_Stopper | By_Listener
datatype stopper = St_Idle | St_Breaking nat | St_Joining nat
datatype listener = L_Ready | L_Created nat | L_Running nat | L_Joining | L_Closed

record sys =
  conn_of :: "nat \<Rightarrow> conn option"
  conns :: "nat option list"
  principal_conn :: "nat option"
  principal_conn_lock :: "holder option"
  conns_lock :: "holder option"
  relay_flag :: bool  \<comment> \<open>bit 11 of \<open>airplay_statusflags\<close>\<close>
  RTSP_connection_index :: nat
  listener :: listener
  stopper :: stopper

definition at :: "sys \<Rightarrow> nat \<Rightarrow> place option" where
  "at s c = map_option place (conn_of s c)"

definition on_conn :: "nat \<Rightarrow> (conn \<Rightarrow> conn) \<Rightarrow> sys \<Rightarrow> sys" where
  "on_conn c f s = s\<lparr>conn_of := (conn_of s)(c := map_option f (conn_of s c))\<rparr>"

abbreviation go :: "nat \<Rightarrow> place \<Rightarrow> sys \<Rightarrow> sys" where
  "go c p \<equiv> on_conn c (\<lambda>k. k\<lparr>place := p\<rparr>)"

abbreviation pthread_cancel :: "nat \<Rightarrow> sys \<Rightarrow> sys" where
  "pthread_cancel c \<equiv> on_conn c (\<lambda>k. k\<lparr>cancelled := True\<rparr>)"

section \<open>The table\<close>

fun track_thread :: "nat \<Rightarrow> nat option list \<Rightarrow> nat option list" where
  "track_thread c [] = [Some c]"
| "track_thread c (None # es) = Some c # es"
| "track_thread c (Some d # es) = Some d # track_thread c es"

definition cleanup_entry :: "(nat \<Rightarrow> conn option) \<Rightarrow> nat option \<Rightarrow> nat option" where
  "cleanup_entry cs e =
     (case e of None \<Rightarrow> None
      | Some c \<Rightarrow> (case cs c of None \<Rightarrow> e | Some k \<Rightarrow> if \<not> running k then None else e))"

definition cleanup_threads :: "sys \<Rightarrow> sys" where
  "cleanup_threads s = s\<lparr>conns := map (cleanup_entry (conn_of s)) (conns s)\<rparr>"

fun drop_entry :: "nat \<Rightarrow> nat option list \<Rightarrow> nat option list" where
  "drop_entry c [] = []"
| "drop_entry c (e # es) = (if e = Some c then None # es else e # drop_entry c es)"

text \<open>\<open>terminate_conn\<close> with the lock of the table: whether the connection is found, and cancelled.\<close>

definition terminate_begin :: "holder \<Rightarrow> nat \<Rightarrow> sys \<Rightarrow> sys option" where
  "terminate_begin h d s =
     (if Some d \<in> set (conns s) then Some (pthread_cancel d (s\<lparr>conns_lock := Some h\<rparr>)) else None)"

definition terminate_end :: "nat \<Rightarrow> sys \<Rightarrow> sys" where
  "terminate_end d s = s\<lparr>conns := drop_entry d (conns s), conns_lock := None\<rparr>"

text \<open>\<open>cancel_all_RTSP_threads\<close>: those to be cancelled, and those to be joined.\<close>

definition eligible :: "airplay_stream_c \<Rightarrow> nat \<Rightarrow> sys \<Rightarrow> nat \<Rightarrow> bool" where
  "eligible cat except_this_one s c \<longleftrightarrow>
     Some c \<in> set (conns s) \<and> c \<noteq> except_this_one \<and>
     (case conn_of s c of None \<Rightarrow> False
      | Some k \<Rightarrow> airplay_stream_category k = cat \<or> cat = unspecified_stream_category)"

definition cancel_all_begin :: "airplay_stream_c \<Rightarrow> nat \<Rightarrow> sys \<Rightarrow> sys" where
  "cancel_all_begin cat except_this_one s =
     s\<lparr>conns_lock := Some By_Listener,
       conn_of := (\<lambda>c. map_option
         (\<lambda>k. if eligible cat except_this_one s c \<and> running k then k\<lparr>cancelled := True\<rparr> else k) (conn_of s c))\<rparr>"

definition cancel_all_done :: "airplay_stream_c \<Rightarrow> nat \<Rightarrow> sys \<Rightarrow> bool" where
  "cancel_all_done cat except_this_one s \<longleftrightarrow>
     (\<forall>e \<in> set (conns s). case e of None \<Rightarrow> True
        | Some c \<Rightarrow> eligible cat except_this_one s c \<longrightarrow> at s c = Some Exited)"

section \<open>The play lock\<close>

definition respond :: "nat \<Rightarrow> play_lock_r \<Rightarrow> sys \<Rightarrow> sys" where
  "respond c r = on_conn c (\<lambda>k. k\<lparr>place := Handling, response := r\<rparr>)"

text \<open>\<open>get_play_lock\<close>, when it has its lock, up to the call of \<open>terminate_conn\<close>, and after it.\<close>

definition get_play_lock :: "bool \<Rightarrow> nat \<Rightarrow> sys \<Rightarrow> sys" where
  "get_play_lock allow_session_interruption c s =
     (case principal_conn s of
        None \<Rightarrow> respond c play_lock_acquired_without_breaking_in (s\<lparr>principal_conn := Some c, relay_flag := True\<rparr>)
      | Some d \<Rightarrow>
          if d = c then respond c play_lock_already_acquired s
          else if allow_session_interruption
          then go c (Breaking_In d) (s\<lparr>principal_conn := Some c, principal_conn_lock := Some (By_Conn c)\<rparr>)
          else respond c play_lock_aquisition_failed s)"

definition finish_break_in :: "nat \<Rightarrow> sys \<Rightarrow> sys" where
  "finish_break_in c s =
     (if principal_conn s = None
      then respond c play_lock_released (s\<lparr>relay_flag := False, principal_conn_lock := None\<rparr>)
      else respond c play_lock_acquired_by_breaking_in (s\<lparr>relay_flag := True, principal_conn_lock := None\<rparr>))"

definition release_play_lock :: "nat \<Rightarrow> sys \<Rightarrow> sys" where
  "release_play_lock c s =
     (if principal_conn s = Some c then s\<lparr>relay_flag := False, principal_conn := None\<rparr> else s)"

section \<open>The threads\<close>

text \<open>The end of a connection's thread: \<open>rtsp_conversation_thread_cleanup_function\<close>.\<close>

definition conn_exit :: "nat \<Rightarrow> sys \<Rightarrow> sys" where
  "conn_exit c = on_conn c (\<lambda>k. k\<lparr>place := Exited, player_thread := False, running := False\<rparr>)"

text \<open>What the client and the handlers do, and the moment a pending cancellation takes effect.\<close>

datatype conn_event = Request | Bad_Packet | Read_Failed | Handled bool | Get_Play_Lock bool
  | Release_Play_Lock | Set_Category airplay_stream_c | Play | Cancel

definition conn_step :: "conn_event \<Rightarrow> nat \<Rightarrow> conn \<Rightarrow> sys \<Rightarrow> sys option" where
  "conn_step e c k s =
     (case place k of
        At_Loop \<Rightarrow>
          if stop k then Some (go c (Releasing True) s)
          else if cancelled k then Some (conn_exit c s) else Some (go c Want_Conns s)
      | Want_Conns \<Rightarrow> if conns_lock s = None then Some (go c Reading s) else None
      | Reading \<Rightarrow>
          (case e of
             Request \<Rightarrow> Some (go c Handling s)
           | Bad_Packet \<Rightarrow> Some (go c At_Loop s)
           | Read_Failed \<Rightarrow> Some (on_conn c (\<lambda>k. k\<lparr>stop := True, place := At_Loop\<rparr>) s)
           | Cancel \<Rightarrow> if cancelled k then Some (conn_exit c s) else None
           | _ \<Rightarrow> None)
      | Handling \<Rightarrow>
          (case e of
             Handled write_failed \<Rightarrow> Some (on_conn c (\<lambda>k. k\<lparr>stop := stop k \<or> write_failed, place := At_Loop\<rparr>) s)
           | Get_Play_Lock allow \<Rightarrow> Some (go c (Want_Principal allow) s)
           | Release_Play_Lock \<Rightarrow> Some (go c (Releasing False) s)
           | Set_Category cat \<Rightarrow> Some (on_conn c (\<lambda>k. k\<lparr>airplay_stream_category := cat\<rparr>) s)
           | Play \<Rightarrow> if principal_conn s = Some c then Some (on_conn c (\<lambda>k. k\<lparr>player_thread := True\<rparr>) s) else None
           | Cancel \<Rightarrow> if cancelled k then Some (conn_exit c s) else None
           | _ \<Rightarrow> None)
      | Want_Principal allow \<Rightarrow> if principal_conn_lock s = None then Some (get_play_lock allow c s) else None
      | Breaking_In d \<Rightarrow>
          if conns_lock s = None
          then Some (case terminate_begin (By_Conn c) d s of
                       Some s' \<Rightarrow> go c (Joining d) s' | None \<Rightarrow> finish_break_in c s)
          else None
      | Joining d \<Rightarrow>
          if at s d = Some Exited then Some (finish_break_in c (terminate_end d s))
          else if e = Cancel \<and> cancelled k then Some (conn_exit c (s\<lparr>principal_conn_lock := None\<rparr>)) else None
      | Releasing at_end \<Rightarrow>
          if principal_conn_lock s = None
          then Some (go c (if at_end then Ending else Handling) (release_play_lock c s)) else None
      | Ending \<Rightarrow> Some (conn_exit c s)
      | Exited \<Rightarrow> None)"

definition finish_stop :: "sys \<Rightarrow> sys" where
  "finish_stop s = s\<lparr>relay_flag := False, principal_conn := None, principal_conn_lock := None, stopper := St_Idle\<rparr>"

definition stop_play :: "sys \<Rightarrow> sys option" where
  "stop_play s =
     (case stopper s of
        St_Idle \<Rightarrow>
          if principal_conn_lock s = None
          then Some (case principal_conn s of None \<Rightarrow> s
                     | Some d \<Rightarrow> s\<lparr>principal_conn_lock := Some By_Stopper, stopper := St_Breaking d\<rparr>)
          else None
      | St_Breaking d \<Rightarrow>
          if conns_lock s = None
          then Some (case terminate_begin By_Stopper d s of
                       Some s' \<Rightarrow> s'\<lparr>stopper := St_Joining d\<rparr> | None \<Rightarrow> finish_stop s)
          else None
      | St_Joining d \<Rightarrow> if at s d = Some Exited then Some (finish_stop (terminate_end d s)) else None)"

definition new_conn :: conn where
  "new_conn = \<lparr>place = At_Loop, stop = False, running = False, cancelled = False,
     airplay_stream_category = unspecified_stream_category, player_thread = False,
     response = play_lock_released\<rparr>"

datatype listener_event = Accept | Timeout | Shutdown

definition rtsp_listen_loop :: "listener_event \<Rightarrow> sys \<Rightarrow> sys option" where
  "rtsp_listen_loop e s =
     (case listener s of
        L_Ready \<Rightarrow>
          if conns_lock s = None
          then (case e of
                  Timeout \<Rightarrow> Some (cleanup_threads s)
                | Accept \<Rightarrow>
                    (let s = cleanup_threads s; c = RTSP_connection_index s
                     in Some (s\<lparr>RTSP_connection_index := c + 1, conn_of := (conn_of s)(c \<mapsto> new_conn),
                                listener := L_Created c\<rparr>))
                | Shutdown \<Rightarrow> Some ((cancel_all_begin unspecified_stream_category 0 s)\<lparr>listener := L_Joining\<rparr>))
          else None
      | L_Created c \<Rightarrow> Some ((on_conn c (\<lambda>k. k\<lparr>running := True\<rparr>) s)\<lparr>listener := L_Running c\<rparr>)
      | L_Running c \<Rightarrow>
          if conns_lock s = None then Some (s\<lparr>conns := track_thread c (conns s), listener := L_Ready\<rparr>) else None
      | L_Joining \<Rightarrow>
          if cancel_all_done unspecified_stream_category 0 s
          then Some (s\<lparr>conns := [], conns_lock := None, listener := L_Closed\<rparr>) else None
      | L_Closed \<Rightarrow> None)"

definition sys_init :: sys where
  "sys_init = \<lparr>conn_of = (\<lambda>_. None), conns = [], principal_conn = None, principal_conn_lock = None,
     conns_lock = None, relay_flag = False, RTSP_connection_index = 1, listener = L_Ready, stopper = St_Idle\<rparr>"

inductive sys_step :: "sys \<Rightarrow> sys \<Rightarrow> bool" where
  conn: "conn_of s c = Some k \<Longrightarrow> conn_step e c k s = Some s' \<Longrightarrow> sys_step s s'"
| stop: "stop_play s = Some s' \<Longrightarrow> sys_step s s'"
| listen: "rtsp_listen_loop l s = Some s' \<Longrightarrow> sys_step s s'"

inductive_cases sys_stepE: "sys_step s s'"

abbreviation reachable :: "sys \<Rightarrow> bool" where
  "reachable s \<equiv> sys_step\<^sup>*\<^sup>* sys_init s"

end
