(* ===== verification/Play_Lock_Proofs.thy ===== *)
theory Play_Lock_Proofs
  imports Play_Lock
begin

text \<open>
  What holds of the play lock and the table of connections in every schedule, and the schedules in
  which they fail.
\<close>

section \<open>Places\<close>

lemma at_on_conn [simp]: "at (on_conn d f s) c = (if c = d then map_option (\<lambda>k. place (f k)) (conn_of s d) else at s c)"
  by (simp add: at_def on_conn_def option.map_comp comp_def)

lemma at_fields [simp]:
  "at (s\<lparr>conns := a\<rparr>) = at s" "at (s\<lparr>principal_conn := b\<rparr>) = at s"
  "at (s\<lparr>principal_conn_lock := d\<rparr>) = at s" "at (s\<lparr>conns_lock := d\<rparr>) = at s"
  "at (s\<lparr>relay_flag := e\<rparr>) = at s" "at (s\<lparr>listener := f\<rparr>) = at s" "at (s\<lparr>stopper := g\<rparr>) = at s"
  "at (s\<lparr>RTSP_connection_index := n\<rparr>) = at s"
  by (simp_all add: at_def fun_eq_iff)

lemma on_conn_fields [simp]:
  "conns (on_conn c f s) = conns s" "principal_conn (on_conn c f s) = principal_conn s"
  "principal_conn_lock (on_conn c f s) = principal_conn_lock s" "conns_lock (on_conn c f s) = conns_lock s"
  "listener (on_conn c f s) = listener s" "stopper (on_conn c f s) = stopper s"
  "RTSP_connection_index (on_conn c f s) = RTSP_connection_index s"
  "conn_of (on_conn c f s) = (conn_of s)(c := map_option f (conn_of s c))"
  by (simp_all add: on_conn_def)

definition is_cancelled :: "sys \<Rightarrow> nat \<Rightarrow> bool" where
  "is_cancelled s c = (case conn_of s c of None \<Rightarrow> False | Some k \<Rightarrow> cancelled k)"

section \<open>The invariant\<close>

text \<open>The locks are held exactly by those who are at the places that hold them.\<close>

definition locks_ok :: "sys \<Rightarrow> bool" where
  "locks_ok s \<longleftrightarrow>
     (\<forall>a. (principal_conn_lock s = Some (By_Conn a)) = (\<exists>d. at s a = Some (Breaking_In d) \<or> at s a = Some (Joining d)))
     \<and> (principal_conn_lock s = Some By_Stopper) = (stopper s \<noteq> St_Idle)
     \<and> (\<forall>a. (conns_lock s = Some (By_Conn a)) = (\<exists>d. at s a = Some (Joining d)))
     \<and> (conns_lock s = Some By_Stopper) = (\<exists>d. stopper s = St_Joining d)
     \<and> (conns_lock s = Some By_Listener) = (listener s = L_Joining)"

definition principal_ok :: "sys \<Rightarrow> bool" where
  "principal_ok s \<longleftrightarrow>
     (\<forall>a d. at s a = Some (Breaking_In d) \<or> at s a = Some (Joining d) \<longrightarrow> principal_conn s = Some a \<and> d \<noteq> a)
     \<and> (\<forall>d. stopper s = St_Breaking d \<or> stopper s = St_Joining d \<longrightarrow> principal_conn s = Some d)"

text \<open>A cancelled thread that still runs is being waited for.\<close>

definition cancelled_ok :: "sys \<Rightarrow> bool" where
  "cancelled_ok s \<longleftrightarrow>
     (\<forall>c. is_cancelled s c \<and> at s c \<noteq> Some Exited \<longrightarrow>
        (\<exists>a. at s a = Some (Joining c)) \<or> stopper s = St_Joining c \<or> listener s = L_Joining)"

definition closing :: "sys \<Rightarrow> bool" where
  "closing s \<longleftrightarrow> listener s = L_Joining \<or> listener s = L_Closed"

definition live_ok :: "sys \<Rightarrow> bool" where
  "live_ok s \<longleftrightarrow>
     (\<forall>c. principal_conn s = Some c \<and> \<not> closing s \<longrightarrow>
        at s c \<noteq> None \<and> at s c \<noteq> Some Ending \<and> (at s c = Some Exited \<longrightarrow> stopper s = St_Joining c))
     \<and> (\<forall>c. at s c \<noteq> None \<longrightarrow> c < RTSP_connection_index s)"

lemmas inv_defs = locks_ok_def principal_ok_def cancelled_ok_def live_ok_def closing_def is_cancelled_def

definition sys_ok :: "sys \<Rightarrow> bool" where
  "sys_ok s \<longleftrightarrow> locks_ok s \<and> principal_ok s \<and> cancelled_ok s \<and> live_ok s"

lemma sys_ok_init: "sys_ok sys_init"
  by (simp add: sys_ok_def inv_defs sys_init_def at_def)

lemmas op_defs = respond_def get_play_lock_def finish_break_in_def release_play_lock_def conn_exit_def
  terminate_begin_def terminate_end_def finish_stop_def cleanup_threads_def cancel_all_begin_def Let_def

section \<open>The steps by what they do to the locks\<close>

text \<open>The part of the state the invariant is about, and that the threads of connections change.\<close>

definition same_rest :: "sys \<Rightarrow> sys \<Rightarrow> bool" where
  "same_rest s s' \<longleftrightarrow> stopper s' = stopper s \<and> listener s' = listener s
     \<and> RTSP_connection_index s' = RTSP_connection_index s"

definition moves :: "nat \<Rightarrow> place \<Rightarrow> place \<Rightarrow> sys \<Rightarrow> sys \<Rightarrow> bool" where
  "moves c p p' s s' \<longleftrightarrow> at s c = Some p \<and> at s' = (at s)(c \<mapsto> p') \<and> same_rest s s'"

text \<open>The places where a thread holds no lock and has not given up the player for good.\<close>

definition plain :: "place \<Rightarrow> bool" where
  "plain p \<longleftrightarrow> (case p of Breaking_In _ \<Rightarrow> False | Joining _ \<Rightarrow> False | Ending \<Rightarrow> False | Exited \<Rightarrow> False | _ \<Rightarrow> True)"

lemma plain_simps [simp]:
  "plain At_Loop" "plain Want_Conns" "plain Reading" "plain Handling" "plain (Want_Principal b)"
  "plain (Releasing b)" "\<not> plain (Breaking_In d)" "\<not> plain (Joining d)" "\<not> plain Ending" "\<not> plain Exited"
  by (simp_all add: plain_def)

definition same_locks :: "sys \<Rightarrow> sys \<Rightarrow> bool" where
  "same_locks s s' \<longleftrightarrow> principal_conn_lock s' = principal_conn_lock s \<and> conns_lock s' = conns_lock s"

definition same_cancels :: "sys \<Rightarrow> sys \<Rightarrow> bool" where
  "same_cancels s s' \<longleftrightarrow> (\<forall>x. is_cancelled s' x = is_cancelled s x)"

lemmas effect_defs = moves_def same_rest_def same_locks_def same_cancels_def is_cancelled_def

inductive effect :: "nat \<Rightarrow> sys \<Rightarrow> sys \<Rightarrow> bool" for c s s' where
  walk: "moves c p p' s s' \<Longrightarrow> plain p \<Longrightarrow> plain p' \<Longrightarrow> same_locks s s' \<Longrightarrow> same_cancels s s' \<Longrightarrow>
    principal_conn s' = principal_conn s \<Longrightarrow> effect c s s'"
| exit: "moves c p Exited s s' \<Longrightarrow> p = Ending \<or> plain p \<and> is_cancelled s c \<Longrightarrow> same_locks s s' \<Longrightarrow>
    same_cancels s s' \<Longrightarrow> principal_conn s' = principal_conn s \<Longrightarrow> effect c s s'"
| acquire: "moves c (Want_Principal a) Handling s s' \<Longrightarrow> same_locks s s' \<Longrightarrow> same_cancels s s' \<Longrightarrow>
    principal_conn s = None \<Longrightarrow> principal_conn s' = Some c \<Longrightarrow> principal_conn_lock s = None \<Longrightarrow> effect c s s'"
| interrupt: "moves c (Want_Principal a) (Breaking_In d) s s' \<Longrightarrow> principal_conn_lock s = None \<Longrightarrow>
    principal_conn_lock s' = Some (By_Conn c) \<Longrightarrow> conns_lock s' = conns_lock s \<Longrightarrow> same_cancels s s' \<Longrightarrow>
    principal_conn s = Some d \<Longrightarrow> d \<noteq> c \<Longrightarrow> principal_conn s' = Some c \<Longrightarrow> effect c s s'"
| terminate: "moves c (Breaking_In d) (Joining d) s s' \<Longrightarrow> principal_conn_lock s' = principal_conn_lock s \<Longrightarrow>
    conns_lock s = None \<Longrightarrow> conns_lock s' = Some (By_Conn c) \<Longrightarrow>
    (\<forall>x. is_cancelled s' x \<longrightarrow> x = d \<or> is_cancelled s x) \<Longrightarrow>
    principal_conn s' = principal_conn s \<Longrightarrow> effect c s s'"
| missing: "moves c (Breaking_In d) Handling s s' \<Longrightarrow> principal_conn_lock s' = None \<Longrightarrow>
    conns_lock s = None \<Longrightarrow> conns_lock s' = None \<Longrightarrow> same_cancels s s' \<Longrightarrow>
    principal_conn s' = principal_conn s \<Longrightarrow> effect c s s'"
| joined: "moves c (Joining d) Handling s s' \<Longrightarrow> at s d = Some Exited \<Longrightarrow> principal_conn_lock s' = None \<Longrightarrow>
    conns_lock s' = None \<Longrightarrow> same_cancels s s' \<Longrightarrow> principal_conn s' = principal_conn s \<Longrightarrow> effect c s s'"
| abandon: "moves c (Joining d) Exited s s' \<Longrightarrow> is_cancelled s c \<Longrightarrow> effect c s s'"
| release: "moves c (Releasing b) p' s s' \<Longrightarrow> p' = Ending \<or> plain p' \<Longrightarrow> same_locks s s' \<Longrightarrow> same_cancels s s' \<Longrightarrow>
    principal_conn_lock s = None \<Longrightarrow>
    principal_conn s' = (if principal_conn s = Some c then None else principal_conn s) \<Longrightarrow> effect c s s'"

lemma cancelled_on_conn:
  "is_cancelled (on_conn d f s) x =
     (if x = d then (case conn_of s d of None \<Rightarrow> False | Some k \<Rightarrow> cancelled (f k)) else is_cancelled s x)"
  by (simp add: is_cancelled_def split: option.splits)

lemma cancelled_fields [simp]:
  "is_cancelled (s\<lparr>conns := a\<rparr>) = is_cancelled s" "is_cancelled (s\<lparr>principal_conn := b\<rparr>) = is_cancelled s"
  "is_cancelled (s\<lparr>principal_conn_lock := d\<rparr>) = is_cancelled s" "is_cancelled (s\<lparr>conns_lock := d\<rparr>) = is_cancelled s"
  "is_cancelled (s\<lparr>relay_flag := e\<rparr>) = is_cancelled s" "is_cancelled (s\<lparr>listener := f\<rparr>) = is_cancelled s"
  "is_cancelled (s\<lparr>stopper := g\<rparr>) = is_cancelled s" "is_cancelled (s\<lparr>RTSP_connection_index := n\<rparr>) = is_cancelled s"
  by (simp_all add: is_cancelled_def fun_eq_iff)

lemma at_place: "conn_of s c = Some k \<Longrightarrow> at s c = Some (place k)"
  by (simp add: at_def)

lemma at_fold [simp]: "map_option place (conn_of s c) = at s c"
  by (simp add: at_def)

lemma same_cancels_on:
  "conn_of s c = Some k \<Longrightarrow> cancelled (f k) = cancelled k \<Longrightarrow> same_cancels s (on_conn c f s)"
  by (simp add: same_cancels_def cancelled_on_conn is_cancelled_def)

lemma effect_walk:
  "conn_of s c = Some k \<Longrightarrow> plain (place k) \<Longrightarrow> plain (place (f k)) \<Longrightarrow> cancelled (f k) = cancelled k \<Longrightarrow> effect c s (on_conn c f s)"
  by (rule walk [of _ "place k" "place (f k)"])
    (auto simp: effect_defs fun_eq_iff at_place same_cancels_on split: option.splits)

lemma effect_exit:
  "conn_of s c = Some k \<Longrightarrow> place k = Ending \<or> plain (place k) \<and> cancelled k \<Longrightarrow> effect c s (conn_exit c s)"
  by (rule exit [of _ "place k"])
    (auto simp: effect_defs fun_eq_iff at_place conn_exit_def split: option.splits)

lemma effect_get:
  assumes k: "conn_of s c = Some k" and "place k = Want_Principal a" "principal_conn_lock s = None"
  shows "effect c s (get_play_lock allow c s)"
proof (cases "principal_conn s")
  case None
  then show ?thesis using assms
    by (intro acquire [of _ a])
      (auto simp: effect_defs fun_eq_iff k at_place [OF k] get_play_lock_def respond_def split: option.splits)
next
  case (Some d)
  show ?thesis
  proof (cases "d \<noteq> c \<and> allow")
    case True
    then show ?thesis using Some assms
      by (intro interrupt [of _ a d])
        (auto simp: effect_defs fun_eq_iff k at_place [OF k] get_play_lock_def respond_def split: option.splits)
  next
    case False
    then show ?thesis using Some assms
      by (auto simp: get_play_lock_def respond_def intro!: effect_walk [OF k])
  qed
qed

lemma effect_terminate:
  assumes k: "conn_of s c = Some k" and "place k = Breaking_In d" "conns_lock s = None"
  shows "effect c s (case terminate_begin (By_Conn c) d s of
    Some s' \<Rightarrow> go c (Joining d) s' | None \<Rightarrow> finish_break_in c s)"
proof (cases "Some d \<in> set (conns s)")
  case True
  show ?thesis using assms True
    by (cases "d = c"; intro terminate [of _ d])
      (auto simp: effect_defs fun_eq_iff k at_place [OF k] terminate_begin_def split: option.splits)
next
  case False
  then show ?thesis using assms
    by (intro missing [of _ d])
      (auto simp: effect_defs fun_eq_iff k at_place [OF k] terminate_begin_def finish_break_in_def respond_def
        split: option.splits)
qed

lemma effect_join:
  assumes k: "conn_of s c = Some k" and "place k = Joining d"
  shows "at s d = Some Exited \<Longrightarrow> effect c s (finish_break_in c (terminate_end d s))"
    and "cancelled k \<Longrightarrow> effect c s (conn_exit c (s\<lparr>principal_conn_lock := None\<rparr>))"
proof -
  show "effect c s (finish_break_in c (terminate_end d s))" if "at s d = Some Exited"
    using assms that
    by (intro joined [of _ d])
      (auto simp: effect_defs fun_eq_iff k at_place [OF k] terminate_end_def finish_break_in_def respond_def
        split: option.splits)
  show "effect c s (conn_exit c (s\<lparr>principal_conn_lock := None\<rparr>))" if "cancelled k"
    using assms that
    by (intro abandon [of _ d]) (auto simp: effect_defs fun_eq_iff k at_place [OF k] conn_exit_def)
qed

lemma effect_release:
  assumes k: "conn_of s c = Some k" and "place k = Releasing b" "principal_conn_lock s = None"
  shows "effect c s (go c (if b then Ending else Handling) (release_play_lock c s))"
  using assms
  by (intro release [of _ b "if b then Ending else Handling"])
    (auto simp: effect_defs fun_eq_iff k at_place [OF k] release_play_lock_def split: option.splits)

lemma conn_effect:
  assumes k: "conn_of s c = Some k" and step: "conn_step e c k s = Some s'"
  shows "effect c s s'"
proof (cases "place k")
  case (Breaking_In d)
  with step effect_terminate [OF k, of d] show ?thesis by (simp add: conn_step_def split: if_splits)
next
  case (Joining d)
  with step effect_join [OF k, of d] show ?thesis by (auto simp: conn_step_def split: if_splits)
next
  case (Releasing b)
  with step effect_release [OF k, of b] show ?thesis by (simp add: conn_step_def split: if_splits)
next
  case (Want_Principal a)
  with step effect_get [OF k Want_Principal, where allow = a] show ?thesis by (simp add: conn_step_def split: if_splits)
qed (use step in \<open>auto simp: conn_step_def intro!: effect_walk [OF k] effect_exit [OF k] split: if_splits conn_event.splits\<close>)


section \<open>Preservation\<close>

lemma breaker_holds:
  assumes "locks_ok s" "at s a = Some (Breaking_In d) \<or> at s a = Some (Joining d)"
  shows "principal_conn_lock s = Some (By_Conn a)"
  using assms unfolding locks_ok_def by blast

lemma joiner_holds: "locks_ok s \<Longrightarrow> at s a = Some (Joining d) \<Longrightarrow> conns_lock s = Some (By_Conn a)"
  unfolding locks_ok_def by blast

text \<open>A thread that waits for another is not cancelled itself.\<close>

lemma joiner_not_cancelled:
  assumes ok: "sys_ok s" and j: "at s c = Some (Joining d)"
  shows "\<not> is_cancelled s c"
proof
  assume "is_cancelled s c"
  moreover have "conns_lock s = Some (By_Conn c)" using ok j joiner_holds by (simp add: sys_ok_def)
  moreover have "d \<noteq> c" using ok j by (simp add: sys_ok_def principal_ok_def)
  ultimately show False using ok j unfolding sys_ok_def cancelled_ok_def locks_ok_def
    by (metis holder.distinct(1,3) holder.inject option.inject option.distinct(1) place.distinct place.inject(3))
qed

lemma effect_locks:
  assumes "effect c s s'" "sys_ok s"
  shows "locks_ok s'"
proof -
  have l: "locks_ok s" using assms(2) by (simp add: sys_ok_def)
  show ?thesis using assms(1)
  proof cases
    case (walk p p')
    then show ?thesis using l by (auto simp: locks_ok_def effect_defs plain_def split: place.splits)
  next
    case (abandon d)
    then show ?thesis using joiner_not_cancelled [OF assms(2)] by (auto simp: moves_def)
  next
    case (missing d)
    then have "principal_conn_lock s = Some (By_Conn c)" using breaker_holds [OF l] by (auto simp: moves_def)
    with missing l show ?thesis by (auto simp: locks_ok_def effect_defs)
  next
    case (joined d)
    then have "principal_conn_lock s = Some (By_Conn c)" "conns_lock s = Some (By_Conn c)"
      using breaker_holds [OF l] joiner_holds [OF l] by (auto simp: moves_def)
    with joined l show ?thesis by (auto simp: locks_ok_def effect_defs)
  next
    case (terminate d)
    then have "principal_conn_lock s = Some (By_Conn c)" using breaker_holds [OF l] by (auto simp: moves_def)
    with terminate l show ?thesis by (auto simp: locks_ok_def effect_defs)
  qed (use l in \<open>auto simp: locks_ok_def effect_defs plain_def split: place.splits\<close>)
qed

text \<open>Who holds the lock of the principal connection is the principal connection, or the stopper.\<close>

lemma only_holder:
  assumes "locks_ok s" "principal_conn_lock s = None"
  shows "at s a \<noteq> Some (Breaking_In d)" "at s a \<noteq> Some (Joining d)" "stopper s = St_Idle"
  using assms unfolding locks_ok_def by auto

lemma effect_principal:
  assumes "effect c s s'" "sys_ok s"
  shows "principal_ok s'"
proof -
  have l: "locks_ok s" and p: "principal_ok s" using assms(2) by (simp_all add: sys_ok_def)
  show ?thesis using assms(1)
  proof cases
    case (walk p p')
    then show ?thesis using assms(2)
      by (auto simp: sys_ok_def principal_ok_def effect_defs plain_def split: place.splits if_splits)
  next
    case (abandon d)
    then show ?thesis using joiner_not_cancelled [OF assms(2)] by (auto simp: moves_def)
  next
    case (acquire a)
    then show ?thesis using only_holder [OF l] by (auto simp: principal_ok_def effect_defs split: if_splits)
  next
    case (interrupt a d)
    then show ?thesis using only_holder [OF l] by (auto simp: principal_ok_def effect_defs split: if_splits)
  next
    case (release b p')
    then show ?thesis using only_holder [OF l] by (auto simp: principal_ok_def effect_defs split: if_splits)
  qed (use p in \<open>auto simp: principal_ok_def effect_defs split: if_splits\<close>)
qed

lemma cancelled_step:
  assumes q: "cancelled_ok s"
    and m: "moves c p p' s s'" and p: "\<forall>d. p = Joining d \<longrightarrow> at s d = Some Exited" "p \<noteq> Exited"
    and new: "\<forall>x. is_cancelled s' x \<longrightarrow> is_cancelled s x \<or> p' = Joining x"
  shows "cancelled_ok s'"
  unfolding cancelled_ok_def
proof (intro allI impI)
  fix x assume x: "is_cancelled s' x \<and> at s' x \<noteq> Some Exited"
  have a: "at s' = (at s)(c \<mapsto> p')" "at s c = Some p" and r: "stopper s' = stopper s" "listener s' = listener s"
    using m by (auto simp: moves_def same_rest_def)
  show "(\<exists>a. at s' a = Some (Joining x)) \<or> stopper s' = St_Joining x \<or> listener s' = L_Joining"
  proof (cases "p' = Joining x")
    case True
    then show ?thesis using a by auto
  next
    case False
    have "at s x \<noteq> Some Exited" using x a p(2) by (cases "x = c") auto
    moreover have "is_cancelled s x" using x new False by blast
    ultimately consider b where "at s b = Some (Joining x)" | "stopper s = St_Joining x" | "listener s = L_Joining"
      using q unfolding cancelled_ok_def by blast
    then show ?thesis
    proof cases
      case 1
      then have "b \<noteq> c" using p(1) a \<open>at s x \<noteq> Some Exited\<close> by auto
      then show ?thesis using 1 a by auto
    qed (use r in auto)
  qed
qed

lemma effect_cancelled:
  assumes "effect c s s'" "sys_ok s"
  shows "cancelled_ok s'"
proof -
  have q: "cancelled_ok s" using assms(2) by (simp add: sys_ok_def)
  show ?thesis using assms(1)
  proof cases
    case (abandon d)
    then show ?thesis using joiner_not_cancelled [OF assms(2)] by (auto simp: moves_def)
  next
    case (terminate d)
    from terminate(1) show ?thesis by (rule cancelled_step [OF q]) (use terminate in auto)
  next
    case (walk p p')
    from walk(1) show ?thesis by (rule cancelled_step [OF q]) (use walk in \<open>auto simp: same_cancels_def\<close>)
  next
    case (exit p)
    from exit(1) show ?thesis by (rule cancelled_step [OF q]) (use exit in \<open>auto simp: same_cancels_def\<close>)
  next
    case (acquire a)
    from acquire(1) show ?thesis by (rule cancelled_step [OF q]) (use acquire in \<open>auto simp: same_cancels_def\<close>)
  next
    case (interrupt a d)
    from interrupt(1) show ?thesis by (rule cancelled_step [OF q]) (use interrupt in \<open>auto simp: same_cancels_def\<close>)
  next
    case (missing d)
    from missing(1) show ?thesis by (rule cancelled_step [OF q]) (use missing in \<open>auto simp: same_cancels_def\<close>)
  next
    case (joined d)
    from joined(1) show ?thesis by (rule cancelled_step [OF q]) (use joined in \<open>auto simp: same_cancels_def\<close>)
  next
    case (release b p')
    from release(1) show ?thesis by (rule cancelled_step [OF q]) (use release in \<open>auto simp: same_cancels_def\<close>)
  qed
qed

lemma live_step:
  assumes v: "live_ok s" and m: "moves c p p' s s'"
    and pr: "\<And>x. principal_conn s' = Some x \<Longrightarrow> x \<noteq> c \<Longrightarrow> principal_conn s = Some x"
    and c: "principal_conn s' = Some c \<Longrightarrow>
      p' \<noteq> Ending \<and> (p' = Exited \<longrightarrow> stopper s = St_Joining c \<or> closing s)"
  shows "live_ok s'"
proof -
  have a: "at s' = (at s)(c \<mapsto> p')" "at s c = Some p" and r: "stopper s' = stopper s" "listener s' = listener s"
      "RTSP_connection_index s' = RTSP_connection_index s"
    using m by (auto simp: moves_def same_rest_def)
  have "at s' x \<noteq> None \<and> at s' x \<noteq> Some Ending \<and> (at s' x = Some Exited \<longrightarrow> stopper s' = St_Joining x)"
    if "principal_conn s' = Some x" "\<not> closing s'" for x
  proof (cases "x = c")
    case True
    then show ?thesis using c that a r by (auto simp: closing_def)
  next
    case False
    then have "principal_conn s = Some x" using pr that by blast
    then show ?thesis using v that(2) a r False unfolding live_ok_def closing_def by simp
  qed
  moreover have "x < RTSP_connection_index s'" if "at s' x \<noteq> None" for x
    using v that a r unfolding live_ok_def by (cases "x = c") auto
  ultimately show ?thesis unfolding live_ok_def by blast
qed

lemma effect_live:
  assumes "effect c s s'" "sys_ok s"
  shows "live_ok s'"
proof -
  have l: "locks_ok s" and p: "principal_ok s" and q: "cancelled_ok s" and v: "live_ok s"
    using assms(2) by (simp_all add: sys_ok_def)
  show ?thesis using assms(1)
  proof cases
    case (abandon d)
    then show ?thesis using joiner_not_cancelled [OF assms(2)] by (auto simp: moves_def)
  next
    case (exit p)
    have at: "at s c = Some p" using exit(1) by (simp add: moves_def)
    have "stopper s = St_Joining c \<or> closing s" if pc: "principal_conn s = Some c"
    proof (cases "p = Ending")
      case True
      with at pc v show ?thesis unfolding live_ok_def by auto
    next
      case False
      then have "(\<exists>a. at s a = Some (Joining c)) \<or> stopper s = St_Joining c \<or> listener s = L_Joining"
        using exit at q by (auto simp: cancelled_ok_def)
      moreover have "at s a \<noteq> Some (Joining c)" for a
        using p pc unfolding principal_ok_def by auto
      ultimately show ?thesis by (auto simp: closing_def)
    qed
    with exit(1) show ?thesis by (intro live_step [OF v]) (use exit in auto)
  next
    case (walk p p')
    from walk(1) show ?thesis by (rule live_step [OF v]) (use walk in auto)
  next
    case (acquire a)
    from acquire(1) show ?thesis by (rule live_step [OF v]) (use acquire in auto)
  next
    case (interrupt a d)
    from interrupt(1) show ?thesis by (rule live_step [OF v]) (use interrupt in auto)
  next
    case (terminate d)
    from terminate(1) show ?thesis by (rule live_step [OF v]) (use terminate in auto)
  next
    case (missing d)
    from missing(1) show ?thesis by (rule live_step [OF v]) (use missing in auto)
  next
    case (joined d)
    from joined(1) show ?thesis by (rule live_step [OF v]) (use joined in auto)
  next
    case (release b p')
    from release(1) show ?thesis by (rule live_step [OF v]) (use release in \<open>auto split: if_splits\<close>)
  qed
qed

lemma conn_preserves:
  assumes "conn_of s c = Some k" "conn_step e c k s = Some s'" "sys_ok s"
  shows "sys_ok s'"
  unfolding sys_ok_def
  using conn_effect [OF assms(1,2)] assms(3)
  by (intro conjI effect_locks effect_principal effect_cancelled effect_live)

lemma stop_preserves:
  assumes step: "stop_play s = Some s'" and ok: "sys_ok s"
  shows "sys_ok s'"
proof -
  have l: "locks_ok s" and p: "principal_ok s" and q: "cancelled_ok s" and v: "live_ok s"
    using ok by (simp_all add: sys_ok_def)
  note split_ok = sys_ok_def locks_ok_def principal_ok_def cancelled_ok_def live_ok_def closing_def
  show ?thesis
  proof (cases "stopper s")
    case St_Idle
    show ?thesis
    proof (cases "principal_conn s")
      case None
      then show ?thesis using step ok St_Idle by (simp add: stop_play_def split: if_splits)
    next
      case (Some d)
      then have s': "s' = s\<lparr>principal_conn_lock := Some By_Stopper, stopper := St_Breaking d\<rparr>"
        and n: "principal_conn_lock s = None"
        using step St_Idle by (simp_all add: stop_play_def split: if_splits)
      have "locks_ok s'" using l only_holder [OF l n] by (simp add: locks_ok_def s')
      moreover have "principal_ok s'" using Some only_holder [OF l n] by (simp add: principal_ok_def s')
      moreover have "cancelled_ok s'" using q St_Idle by (simp add: cancelled_ok_def s')
      moreover have "live_ok s'" using v St_Idle by (simp add: live_ok_def closing_def s')
      ultimately show ?thesis by (simp add: sys_ok_def)
    qed
  next
    case (St_Breaking d)
    then have n: "conns_lock s = None" using step by (simp add: stop_play_def split: if_splits)
    have h: "principal_conn_lock s = Some By_Stopper" using l St_Breaking by (simp add: locks_ok_def)
    then have pl: "at s a \<noteq> Some (Breaking_In x)" "at s a \<noteq> Some (Joining x)" for a x
      using l unfolding locks_ok_def by auto
    have nl: "listener s \<noteq> L_Joining" using l n unfolding locks_ok_def by auto
    show ?thesis
    proof (cases "Some d \<in> set (conns s)")
      case True
      then have s': "s' = (pthread_cancel d (s\<lparr>conns_lock := Some By_Stopper\<rparr>))\<lparr>stopper := St_Joining d\<rparr>"
        using step St_Breaking n by (simp add: stop_play_def terminate_begin_def)
      have a: "at s' = at s" by (simp add: s' fun_eq_iff)
      have "locks_ok s'" using h pl nl by (simp add: locks_ok_def a) (simp add: s')
      moreover have "principal_ok s'" using p pl St_Breaking by (simp add: principal_ok_def a) (simp add: s')
      moreover have "cancelled_ok s'"
        using q St_Breaking by (auto simp: cancelled_ok_def a) (auto simp: s' cancelled_on_conn split: if_splits)
      moreover have "live_ok s'" using v St_Breaking by (simp add: live_ok_def closing_def a) (simp add: s')
      ultimately show ?thesis by (simp add: sys_ok_def)
    next
      case False
      then have s': "s' = finish_stop s"
        using step St_Breaking n by (simp add: stop_play_def terminate_begin_def)
      have "locks_ok s'" using l pl n nl by (simp add: locks_ok_def s' finish_stop_def)
      moreover have "principal_ok s'" using p pl by (simp add: principal_ok_def s' finish_stop_def)
      moreover have "cancelled_ok s'" using q St_Breaking by (simp add: cancelled_ok_def s' finish_stop_def)
      moreover have "live_ok s'" using v by (simp add: live_ok_def s' finish_stop_def)
      ultimately show ?thesis by (simp add: sys_ok_def)
    qed
  next
    case (St_Joining d)
    then have e: "at s d = Some Exited" and s': "s' = finish_stop (terminate_end d s)"
      using step by (simp_all add: stop_play_def split: if_splits)
    have h: "principal_conn_lock s = Some By_Stopper" "conns_lock s = Some By_Stopper"
      using l St_Joining by (simp_all add: locks_ok_def)
    then have pl: "at s a \<noteq> Some (Breaking_In x)" "at s a \<noteq> Some (Joining x)" for a x
      using l unfolding locks_ok_def by auto
    have nl: "listener s \<noteq> L_Joining" using l h unfolding locks_ok_def by auto
    have "locks_ok s'" using pl nl by (simp add: locks_ok_def s' finish_stop_def terminate_end_def)
    moreover have "principal_ok s'" using p pl by (simp add: principal_ok_def s' finish_stop_def terminate_end_def)
    moreover have "cancelled_ok s'"
      using q St_Joining e by (auto simp: cancelled_ok_def s' finish_stop_def terminate_end_def)
    moreover have "live_ok s'" using v by (simp add: live_ok_def s' finish_stop_def terminate_end_def)
    ultimately show ?thesis by (simp add: sys_ok_def)
  qed
qed

text \<open>What the invariant depends on.\<close>

lemma sys_ok_cong:
  assumes "at s' = at s" "is_cancelled s' = is_cancelled s" "principal_conn s' = principal_conn s"
    "principal_conn_lock s' = principal_conn_lock s" "conns_lock s' = conns_lock s" "stopper s' = stopper s"
    "RTSP_connection_index s' = RTSP_connection_index s" "(listener s' = L_Joining) = (listener s = L_Joining)"
    "closing s' = closing s"
  shows "sys_ok s' = sys_ok s"
  unfolding sys_ok_def locks_ok_def principal_ok_def cancelled_ok_def live_ok_def
  by (simp only: assms)

lemma at_cleanup [simp]: "at (cleanup_threads s) = at s"
  by (simp add: cleanup_threads_def)

lemma at_cancel_all [simp]: "at (cancel_all_begin cat e s) = at s"
  by (auto simp: at_def cancel_all_begin_def fun_eq_iff option.map_comp comp_def simp del: at_fold
      intro!: option.map_cong)

lemma sys_ok_cleanup: "sys_ok (cleanup_threads s) = sys_ok s"
  by (rule sys_ok_cong) (simp_all add: cleanup_threads_def closing_def)

lemma sys_ok_create:
  assumes ok: "sys_ok s" and ready: "listener s = L_Ready" "c = RTSP_connection_index s"
  shows "sys_ok (s\<lparr>RTSP_connection_index := c + 1, conn_of := (conn_of s)(c \<mapsto> new_conn), listener := L_Created c\<rparr>)"
    (is "sys_ok ?s")
proof -
  have l: "locks_ok s" and p: "principal_ok s" and q: "cancelled_ok s" and v: "live_ok s"
    using ok by (simp_all add: sys_ok_def)
  have a: "at ?s = (at s)(c \<mapsto> At_Loop)" by (simp add: at_def fun_eq_iff new_conn_def del: at_fold)
  have cc: "is_cancelled ?s x = (x \<noteq> c \<and> is_cancelled s x)" for x by (simp add: is_cancelled_def new_conn_def)
  have n: "at s c = None" using v ready(2) unfolding live_ok_def by (metis less_irrefl)
  have "locks_ok ?s" using l ready n unfolding locks_ok_def a by auto
  moreover have "principal_ok ?s" using p unfolding principal_ok_def a by auto
  moreover have "cancelled_ok ?s" unfolding cancelled_ok_def a cc
  proof (intro allI impI)
    fix x assume "(x \<noteq> c \<and> is_cancelled s x) \<and> ((at s)(c \<mapsto> At_Loop)) x \<noteq> Some Exited"
    then consider b where "at s b = Some (Joining x)" | "stopper s = St_Joining x"
      using q ready(1) unfolding cancelled_ok_def by auto
    then show "(\<exists>b. ((at s)(c \<mapsto> At_Loop)) b = Some (Joining x)) \<or> stopper ?s = St_Joining x \<or> listener ?s = L_Joining"
    proof cases
      case 1
      then have "b \<noteq> c" using n by auto
      with 1 show ?thesis by auto
    qed simp
  qed
  moreover have "live_ok ?s"
    using v ready n unfolding live_ok_def closing_def a by (auto intro: less_SucI)
  ultimately show ?thesis by (simp add: sys_ok_def)
qed

lemma sys_ok_cancel_all:
  assumes ok: "sys_ok s" and n: "conns_lock s = None"
  shows "sys_ok ((cancel_all_begin cat e s)\<lparr>listener := L_Joining\<rparr>)" (is "sys_ok ?s")
proof -
  have a: "at ?s = at s" by simp
  have f: "principal_conn ?s = principal_conn s" "principal_conn_lock ?s = principal_conn_lock s"
      "conns_lock ?s = Some By_Listener" "stopper ?s = stopper s" "listener ?s = L_Joining"
      "RTSP_connection_index ?s = RTSP_connection_index s"
    by (simp_all add: cancel_all_begin_def)
  have "locks_ok ?s" using ok n unfolding sys_ok_def locks_ok_def a f by auto
  moreover have "principal_ok ?s" using ok unfolding sys_ok_def principal_ok_def a f by blast
  moreover have "cancelled_ok ?s" unfolding cancelled_ok_def f by blast
  moreover have "live_ok ?s" using ok unfolding sys_ok_def live_ok_def closing_def a f by blast
  ultimately show ?thesis by (simp add: sys_ok_def)
qed

lemma listen_preserves:
  assumes step: "rtsp_listen_loop e s = Some s'" and ok: "sys_ok s"
  shows "listener s' = L_Closed \<or> sys_ok s'"
proof (cases "listener s")
  case L_Ready
  have r: "listener (cleanup_threads s) = L_Ready" using L_Ready by (simp add: cleanup_threads_def)
  show ?thesis
    using step ok L_Ready sys_ok_create [OF _ r refl] sys_ok_cancel_all [of s unspecified_stream_category 0]
      sys_ok_cleanup [of s]
    by (cases e) (auto simp: rtsp_listen_loop_def Let_def split: if_splits)
next
  case (L_Created c)
  then have s': "s' = (on_conn c (\<lambda>k. k\<lparr>running := True\<rparr>) s)\<lparr>listener := L_Running c\<rparr>"
    using step by (simp add: rtsp_listen_loop_def)
  have "sys_ok s' = sys_ok s"
    by (rule sys_ok_cong)
      (auto simp: s' L_Created closing_def fun_eq_iff cancelled_on_conn is_cancelled_def split: option.splits)
  then show ?thesis using ok by simp
next
  case (L_Running c)
  then have s': "s' = s\<lparr>conns := track_thread c (conns s), listener := L_Ready\<rparr>"
    using step by (simp add: rtsp_listen_loop_def split: if_splits)
  have "sys_ok s' = sys_ok s" by (rule sys_ok_cong) (simp_all add: s' L_Running closing_def)
  then show ?thesis using ok by simp
next
  case L_Joining
  then show ?thesis using step by (auto simp: rtsp_listen_loop_def split: if_splits)
qed (use step in \<open>simp add: rtsp_listen_loop_def\<close>)

lemma closed_stays: "sys_step s s' \<Longrightarrow> listener s = L_Closed \<Longrightarrow> listener s' = L_Closed"
proof (erule sys_stepE)
  fix c k e assume "conn_of s c = Some k" "conn_step e c k s = Some s'" and c: "listener s = L_Closed"
  then have "effect c s s'" using conn_effect by blast
  then show "listener s' = L_Closed" using c by cases (auto simp: moves_def same_rest_def)
next
  assume "stop_play s = Some s'" "listener s = L_Closed"
  then show "listener s' = L_Closed"
    by (auto simp: stop_play_def finish_stop_def terminate_begin_def terminate_end_def
        split: stopper.splits if_splits option.splits)
qed (simp add: rtsp_listen_loop_def)

lemma reachable_ok: "reachable s \<Longrightarrow> listener s = L_Closed \<or> sys_ok s"
proof (induction rule: rtranclp_induct)
  case base
  then show ?case by (simp add: sys_ok_init)
next
  case (step s s')
  show ?case
  proof (cases "listener s = L_Closed")
    case True
    then show ?thesis using closed_stays [OF step(2)] by simp
  next
    case False
    with step have "sys_ok s" by simp
    with step(2) show ?thesis
      by (elim sys_stepE) (use conn_preserves stop_preserves listen_preserves in blast)+
  qed
qed

text \<open>
  C19. In every schedule of the connections, the listener and a thread that stops the play, until the
  program shuts down: the principal connection, if there is one, is a connection whose thread has not
  ended (so that the pointer to it is not stale), except while \<open>stop_play\<close> waits for that end with the
  lock held; and only the principal connection is ever in the middle of interrupting another, with the
  lock of the principal connection held.
\<close>

theorem principal_connection_live:
  assumes "reachable s" "\<not> closing s"
  shows "(\<forall>c. principal_conn s = Some c \<longrightarrow>
      (\<exists>p. at s c = Some p \<and> p \<noteq> Ending \<and> (p = Exited \<longrightarrow> stopper s = St_Joining c)))
    \<and> (\<forall>a d. at s a = Some (Breaking_In d) \<or> at s a = Some (Joining d) \<longrightarrow>
      principal_conn s = Some a \<and> d \<noteq> a \<and> principal_conn_lock s = Some (By_Conn a))"
proof -
  have ok: "sys_ok s" using reachable_ok [OF assms(1)] assms(2) by (auto simp: closing_def)
  then have l: "locks_ok s" and p: "principal_ok s" and v: "live_ok s" by (simp_all add: sys_ok_def)
  have "\<exists>p. at s c = Some p \<and> p \<noteq> Ending \<and> (p = Exited \<longrightarrow> stopper s = St_Joining c)"
    if "principal_conn s = Some c" for c
    using v that assms(2) unfolding live_ok_def by auto
  moreover have "principal_conn s = Some a \<and> d \<noteq> a \<and> principal_conn_lock s = Some (By_Conn a)"
    if "at s a = Some (Breaking_In d) \<or> at s a = Some (Joining d)" for a d
    using p breaker_holds [OF l that] that unfolding principal_ok_def by blast
  ultimately show ?thesis by blast
qed

section \<open>Schedules\<close>

datatype action = C nat conn_event | S | L listener_event

definition perform :: "action \<Rightarrow> sys \<Rightarrow> sys option" where
  "perform a s =
     (case a of C c e \<Rightarrow> (case conn_of s c of None \<Rightarrow> None | Some k \<Rightarrow> conn_step e c k s)
      | S \<Rightarrow> stop_play s | L e \<Rightarrow> rtsp_listen_loop e s)"

fun run :: "action list \<Rightarrow> sys \<Rightarrow> sys option" where
  "run [] s = Some s"
| "run (a # as) s = (case perform a s of None \<Rightarrow> None | Some s' \<Rightarrow> run as s')"

lemma perform_step: "perform a s = Some s' \<Longrightarrow> sys_step s s'"
  by (auto simp: perform_def split: action.splits option.splits intro: sys_step.intros)

lemma run_reaches: "run as s = Some s' \<Longrightarrow> sys_step\<^sup>*\<^sup>* s s'"
  by (induction as s rule: run.induct)
    (auto split: option.splits dest: perform_step intro: converse_rtranclp_into_rtranclp)

lemmas run_defs = perform_def conn_step_def stop_play_def rtsp_listen_loop_def op_defs cleanup_entry_def
  at_def on_conn_def new_conn_def sys_init_def

text \<open>A client connects; it asks for something; it asks for the play lock and gets an answer.\<close>

definition connect :: "action list" where "connect = [L Accept, L Timeout, L Timeout]"

definition ask :: "nat \<Rightarrow> action list" where "ask c = [C c Request, C c Request, C c Request]"

definition get_lock :: "nat \<Rightarrow> action list" where "get_lock c = [C c (Get_Play_Lock True), C c Request]"

section \<open>Deadlock\<close>

text \<open>The state of the deadlock, for the thread that interrupts and the one that is interrupted.\<close>

definition gridlock :: "nat \<Rightarrow> nat \<Rightarrow> sys \<Rightarrow> bool" where
  "gridlock a b s \<longleftrightarrow> sys_ok s \<and> listener s = L_Ready \<and> at s b = Some Want_Conns
     \<and> at s a = Some (Joining b) \<and> \<not> is_cancelled s a
     \<and> conns_lock s = Some (By_Conn a) \<and> principal_conn_lock s = Some (By_Conn a)"

lemma gridlock_conn:
  assumes g: "gridlock a b s" and k: "conn_of s c = Some k" and step: "conn_step e c k s = Some s'"
  shows "gridlock a b s'"
proof -
  have l: "locks_ok s" and ok: "sys_ok s'"
    using g conn_preserves [OF k step] by (simp_all add: gridlock_def sys_ok_def)
  have "c \<noteq> b"
    using g k step by (auto simp: gridlock_def at_place conn_step_def)
  have j: "d = b \<and> c = a" if "at s c = Some (Joining d)" for d
    using joiner_holds [OF l that] g that by (auto simp: gridlock_def)
  from conn_effect [OF k step] show ?thesis
  proof cases
    case (abandon d)
    then show ?thesis using j [of d] g by (auto simp: gridlock_def moves_def)
  next
    case (joined d)
    then show ?thesis using j [of d] g by (auto simp: gridlock_def moves_def)
  qed (use g ok \<open>c \<noteq> b\<close> in \<open>auto simp: gridlock_def moves_def same_rest_def same_locks_def same_cancels_def\<close>)
qed

lemma gridlock_step: "gridlock a b s \<Longrightarrow> sys_step s s' \<Longrightarrow> gridlock a b s'"
proof (erule sys_stepE)
  fix c k e assume "gridlock a b s" "conn_of s c = Some k" "conn_step e c k s = Some s'"
  then show "gridlock a b s'" by (rule gridlock_conn)
next
  assume "gridlock a b s" "stop_play s = Some s'"
  then show "gridlock a b s'"
    using stop_preserves by (auto simp: gridlock_def sys_ok_def locks_ok_def stop_play_def split: stopper.splits if_splits)
qed (auto simp: gridlock_def rtsp_listen_loop_def)

lemma gridlock_for_ever: "sys_step\<^sup>*\<^sup>* s s' \<Longrightarrow> gridlock a b s \<Longrightarrow> gridlock a b s'"
  by (induction rule: rtranclp_induct) (auto intro: gridlock_step)

definition interruption :: "action list" where
  "interruption = connect @ connect @ ask 1 @ get_lock 1 @ [C 1 (Handled False), C 1 Request]
     @ ask 2 @ get_lock 2 @ [C 2 Request]"

lemma interruption_runs:
  "\<exists>s. run interruption sys_init = Some s \<and> listener s = L_Ready \<and> at s 1 = Some Want_Conns
     \<and> at s 2 = Some (Joining 1) \<and> \<not> is_cancelled s 2
     \<and> conns_lock s = Some (By_Conn 2) \<and> principal_conn_lock s = Some (By_Conn 2)"
  by (simp add: interruption_def connect_def ask_def get_lock_def run_defs is_cancelled_def del: at_fold)

text \<open>
  C20. A client that takes the player over from another can stop the whole receiver for ever. The thread
  that interrupts waits for the end of the other one with both locks held; the other one can have
  passed its test for a cancellation and be waiting for the lock of the table, which is not a
  cancellation point. From then on neither thread moves, both locks stay taken in every continuation,
  and the listener accepts no connection.
\<close>

theorem interruption_deadlock:
  "\<exists>s. reachable s \<and> principal_conn s = Some 2 \<and> (\<forall>s'. sys_step\<^sup>*\<^sup>* s s' \<longrightarrow>
     at s' 1 = Some Want_Conns \<and> at s' 2 = Some (Joining 1)
     \<and> conns_lock s' = Some (By_Conn 2) \<and> principal_conn_lock s' = Some (By_Conn 2)
     \<and> (\<forall>e. rtsp_listen_loop e s' = None))"
proof -
  obtain s where s: "run interruption sys_init = Some s" "listener s = L_Ready" "at s 1 = Some Want_Conns"
      "at s 2 = Some (Joining 1)" "\<not> is_cancelled s 2" "conns_lock s = Some (By_Conn 2)"
      "principal_conn_lock s = Some (By_Conn 2)"
    using interruption_runs by blast
  have r: "reachable s" by (rule run_reaches [OF s(1)])
  then have ok: "sys_ok s" using reachable_ok s(2) by fastforce
  then have g: "gridlock 2 1 s" using s by (simp add: gridlock_def)
  have "principal_conn s = Some 2" using ok s(4) unfolding sys_ok_def principal_ok_def by blast
  moreover have "at s' 1 = Some Want_Conns \<and> at s' 2 = Some (Joining 1)
     \<and> conns_lock s' = Some (By_Conn 2) \<and> principal_conn_lock s' = Some (By_Conn 2)
     \<and> (\<forall>e. rtsp_listen_loop e s' = None)" if "sys_step\<^sup>*\<^sup>* s s'" for s'
    using gridlock_for_ever [OF that g] by (simp add: gridlock_def rtsp_listen_loop_def)
  ultimately show ?thesis using r by blast
qed

lemma interruption_deadlock_witness:
  "\<exists>s. reachable s \<and> at s 1 = Some Want_Conns \<and> at s 2 = Some (Joining 1) \<and> rtsp_listen_loop Accept s = None"
  using interruption_deadlock by blast

lemma principal_connection_live_witness:
  "\<exists>s. reachable s \<and> at s 2 = Some (Joining 1) \<and> principal_conn s = Some 2
    \<and> principal_conn_lock s = Some (By_Conn 2)"
proof -
  obtain s where s: "run interruption sys_init = Some s" "listener s = L_Ready" "at s 2 = Some (Joining 1)"
    using interruption_runs by blast
  then have "reachable s" "\<not> closing s" by (auto intro: run_reaches simp: closing_def)
  then show ?thesis using principal_connection_live [of s] s(3) by blast
qed

section \<open>Two players, and a connection that is never given back\<close>

text \<open>The play lock is given up before the player is stopped, so that the next client gets it while the
  player of the last one still runs.\<close>

definition hand_over :: "action list" where
  "hand_over = connect @ connect @ ask 1 @ get_lock 1 @ [C 1 Play, C 1 (Handled False), C 1 Request, C 1 Request,
     C 1 Read_Failed, C 1 Request, C 1 Request] @ ask 2 @ get_lock 2 @ [C 2 Play]"

theorem two_players_at_hand_over:
  "\<exists>s. reachable s \<and> principal_conn s = Some 2
    \<and> (\<forall>c \<in> {1, 2}. \<exists>k. conn_of s c = Some k \<and> player_thread k)
    \<and> (\<exists>k. conn_of s 2 = Some k \<and> response k = play_lock_acquired_without_breaking_in)"
proof -
  obtain s where "run hand_over sys_init = Some s" and s: "principal_conn s = Some 2"
      "map_option player_thread (conn_of s 1) = Some True" "map_option player_thread (conn_of s 2) = Some True"
      "map_option response (conn_of s 2) = Some play_lock_acquired_without_breaking_in"
    by (simp add: hand_over_def connect_def ask_def get_lock_def run_defs del: at_fold)
  then have "reachable s" by (simp add: run_reaches)
  with s show ?thesis by auto
qed

text \<open>A connection whose listener has not put it in the table yet can have the player; whoever
  interrupts it then does not find it, is told that it has broken in, and both play.\<close>

definition unseen :: "action list" where
  "unseen = connect @ [L Accept] @ ask 2 @ get_lock 2 @ [C 2 Play] @ ask 1 @ get_lock 1 @ [C 1 Request, C 1 Play]
     @ [L Timeout, L Timeout]"

theorem untracked_connection_plays_on:
  "\<exists>s. reachable s \<and> principal_conn s = Some 1 \<and> listener s = L_Ready
    \<and> (\<exists>k. conn_of s 1 = Some k \<and> response k = play_lock_acquired_by_breaking_in \<and> player_thread k)
    \<and> (\<exists>k. conn_of s 2 = Some k \<and> player_thread k \<and> \<not> cancelled k \<and> place k = Handling)"
proof -
  obtain s where "run unseen sys_init = Some s" and s: "principal_conn s = Some 1" "listener s = L_Ready"
      "map_option (\<lambda>k. (response k, player_thread k)) (conn_of s 1) = Some (play_lock_acquired_by_breaking_in, True)"
      "map_option (\<lambda>k. (player_thread k, cancelled k, place k)) (conn_of s 2) = Some (True, False, Handling)"
    by (simp add: unseen_def connect_def ask_def get_lock_def run_defs del: at_fold)
  then have "reachable s" by (simp add: run_reaches)
  with s show ?thesis by auto
qed

end
