(* ===== verification/Play_Table.thy ===== *)
theory Play_Table
  imports Play_Lock_Proofs "HOL-Library.Multiset"
begin

text \<open>The table of connections of \<open>rtsp.c\<close> in every schedule of the threads.\<close>

section \<open>The connections tracked\<close>

fun tracked :: "nat option list \<Rightarrow> nat list" where
  "tracked [] = []"
| "tracked (None # es) = tracked es"
| "tracked (Some c # es) = c # tracked es"

lemma in_tracked: "c \<in> set (tracked es) \<longleftrightarrow> Some c \<in> set es"
  by (induction es rule: tracked.induct) auto

lemma tracked_track: "mset (tracked (track_thread c es)) = add_mset c (mset (tracked es))"
  by (induction c es rule: track_thread.induct) auto

lemma tracked_drop: "mset (tracked (drop_entry c es)) = mset (tracked es) - {#c#}"
proof (induction c es rule: drop_entry.induct)
  case (2 c e es)
  then show ?case by (cases e) auto
qed simp

lemma tracked_cleanup:
  "tracked (map (cleanup_entry cs) es) = filter (\<lambda>c. case cs c of None \<Rightarrow> True | Some k \<Rightarrow> running k) (tracked es)"
  by (induction es rule: tracked.induct) (auto simp: cleanup_entry_def split: option.splits)

lemma distinct_track: "distinct (tracked (track_thread c es)) = (c \<notin> set (tracked es) \<and> distinct (tracked es))"
  using tracked_track [of c es] by (metis distinct.simps(2) mset.simps(2) mset_eq_imp_distinct_iff)

lemma distinct_drop: "distinct (tracked es) \<Longrightarrow> distinct (tracked (drop_entry c es))"
  by (metis distinct_remove1 mset_eq_imp_distinct_iff mset_remove1 tracked_drop)

lemma set_track: "set (tracked (track_thread c es)) = insert c (set (tracked es))"
  using tracked_track [of c es] by (metis set_mset_add_mset_insert set_mset_mset)

lemma set_drop: "set (tracked (drop_entry c es)) \<subseteq> set (tracked es)"
  by (metis in_diffD set_mset_mset subsetI tracked_drop)

section \<open>Invariant\<close>

definition ended_or_running :: "sys \<Rightarrow> nat \<Rightarrow> bool" where
  "ended_or_running s c = (case conn_of s c of None \<Rightarrow> False | Some k \<Rightarrow> running k \<or> place k = Exited)"

definition table_ok :: "sys \<Rightarrow> bool" where
  "table_ok s \<longleftrightarrow>
     distinct (tracked (conns s)) \<and> (\<forall>c \<in> set (tracked (conns s)). ended_or_running s c)
     \<and> (\<forall>c. listener s = L_Created c \<longrightarrow> c \<notin> set (tracked (conns s)) \<and> conn_of s c \<noteq> None)
     \<and> (\<forall>c. listener s = L_Running c \<longrightarrow> c \<notin> set (tracked (conns s)) \<and> ended_or_running s c)
     \<and> (\<forall>c. conn_of s c \<noteq> None \<longrightarrow> c < RTSP_connection_index s)"

text \<open>What the threads other than the listener do to the table.\<close>

definition grows :: "sys \<Rightarrow> sys \<Rightarrow> bool" where
  "grows s s' \<longleftrightarrow>
     (conns s' = conns s \<or> (\<exists>d. conns s' = drop_entry d (conns s))) \<and> listener s' = listener s
     \<and> RTSP_connection_index s' = RTSP_connection_index s
     \<and> (\<forall>c. (conn_of s' c = None) = (conn_of s c = None))
     \<and> (\<forall>c. ended_or_running s c \<longrightarrow> ended_or_running s' c)"

lemma ended_on_conn:
  "ended_or_running (on_conn d f s) c =
     (if c = d then (case conn_of s d of None \<Rightarrow> False | Some k \<Rightarrow> running (f k) \<or> place (f k) = Exited)
      else ended_or_running s c)"
  by (simp add: ended_or_running_def split: option.splits)

lemma ended_fields [simp]:
  "ended_or_running (s\<lparr>conns := a\<rparr>) = ended_or_running s"
  "ended_or_running (s\<lparr>principal_conn := b\<rparr>) = ended_or_running s"
  "ended_or_running (s\<lparr>principal_conn_lock := d\<rparr>) = ended_or_running s"
  "ended_or_running (s\<lparr>conns_lock := d\<rparr>) = ended_or_running s"
  "ended_or_running (s\<lparr>relay_flag := e\<rparr>) = ended_or_running s"
  "ended_or_running (s\<lparr>listener := f\<rparr>) = ended_or_running s"
  "ended_or_running (s\<lparr>stopper := g\<rparr>) = ended_or_running s"
  "ended_or_running (s\<lparr>RTSP_connection_index := n\<rparr>) = ended_or_running s"
  by (simp_all add: ended_or_running_def fun_eq_iff)

lemma growsI:
  assumes "conn_of t = conn_of s" "conns t = conns s \<or> (\<exists>d. conns t = drop_entry d (conns s))"
    "listener t = listener s" "RTSP_connection_index t = RTSP_connection_index s"
  shows "grows s t"
  using assms by (simp add: grows_def ended_or_running_def)

lemma grows_on:
  assumes t: "conn_of t = conn_of s" "conns t = conns s \<or> (\<exists>d. conns t = drop_entry d (conns s))"
      "listener t = listener s" "RTSP_connection_index t = RTSP_connection_index s"
    and f: "\<And>k. conn_of s c = Some k \<Longrightarrow> running k \<or> place k = Exited \<Longrightarrow> running (f k) \<or> place (f k) = Exited"
  shows "grows s (on_conn c f t)"
  unfolding grows_def
proof (intro conjI allI impI)
  fix x assume "ended_or_running s x"
  then show "ended_or_running (on_conn c f t) x"
    using f by (auto simp: ended_or_running_def t split: option.splits)
qed (use t in auto)

lemma grows_trans: "grows s t \<Longrightarrow> grows t s' \<Longrightarrow> conns t = conns s \<Longrightarrow> grows s s'"
  by (simp add: grows_def)

lemma conn_grows:
  assumes k: "conn_of s c = Some k" and step: "conn_step e c k s = Some s'"
  shows "grows s s'"
proof (cases "place k")
  case (Breaking_In d)
  show ?thesis
  proof (cases "Some d \<in> set (conns s)")
    case True
    have "grows s (pthread_cancel d (s\<lparr>conns_lock := Some (By_Conn c)\<rparr>))" by (rule grows_on) auto
    moreover have "grows (pthread_cancel d (s\<lparr>conns_lock := Some (By_Conn c)\<rparr>))
        (go c (Joining d) (pthread_cancel d (s\<lparr>conns_lock := Some (By_Conn c)\<rparr>)))"
      using k Breaking_In by (intro grows_on) (auto split: if_splits)
    ultimately have "grows s (go c (Joining d) (pthread_cancel d (s\<lparr>conns_lock := Some (By_Conn c)\<rparr>)))"
      by (rule grows_trans) simp
    then show ?thesis using step Breaking_In True
      by (auto simp: conn_step_def terminate_begin_def split: if_splits)
  next
    case False
    with step Breaking_In k show ?thesis
      by (auto simp: conn_step_def terminate_begin_def finish_break_in_def respond_def split: if_splits intro!: grows_on)
  qed
next
  case (Want_Principal a)
  with step k show ?thesis
    by (auto simp: conn_step_def get_play_lock_def respond_def split: if_splits option.splits intro!: grows_on)
next
  case (Joining d)
  with step k show ?thesis
    by (auto simp: conn_step_def terminate_end_def finish_break_in_def respond_def conn_exit_def
        split: if_splits intro!: grows_on)
next
  case (Releasing b)
  with step k show ?thesis
    by (auto simp: conn_step_def release_play_lock_def split: if_splits intro!: grows_on)
qed (use k step in \<open>auto simp: conn_step_def conn_exit_def split: if_splits conn_event.splits intro!: grows_on\<close>)

lemma stop_grows:
  assumes "stop_play s = Some s'"
  shows "grows s s'"
proof (cases "stopper s")
  case St_Idle
  with assms show ?thesis by (auto simp: stop_play_def split: if_splits option.splits intro!: growsI)
next
  case (St_Breaking d)
  have "grows s (pthread_cancel d (s\<lparr>conns_lock := Some By_Stopper\<rparr>))" by (rule grows_on) auto
  then have "grows s ((pthread_cancel d (s\<lparr>conns_lock := Some By_Stopper\<rparr>))\<lparr>stopper := St_Joining d\<rparr>)"
    by (rule grows_trans) (auto intro: growsI)
  with assms St_Breaking show ?thesis
    by (auto simp: stop_play_def terminate_begin_def finish_stop_def split: if_splits intro!: growsI)
next
  case (St_Joining d)
  with assms show ?thesis
    by (auto simp: stop_play_def terminate_end_def finish_stop_def split: if_splits intro!: growsI)
qed

lemma grows_ok:
  assumes g: "grows s s'" and ok: "table_ok s"
  shows "table_ok s'"
proof -
  have sub: "set (tracked (conns s')) \<subseteq> set (tracked (conns s))" and d: "distinct (tracked (conns s'))"
    using g ok distinct_drop unfolding grows_def table_ok_def by (auto dest: subsetD [OF set_drop])
  have e: "ended_or_running s c \<Longrightarrow> ended_or_running s' c" for c
    using g unfolding grows_def by blast
  show ?thesis using g ok sub d e unfolding grows_def table_ok_def by auto
qed

lemma cleanup_ok:
  assumes "table_ok s" "listener s = L_Ready"
  shows "table_ok (cleanup_threads s)"
  using assms
  by (auto simp: table_ok_def cleanup_threads_def tracked_cleanup)

lemma create_ok:
  assumes ok: "table_ok s" and ready: "listener s = L_Ready" "c = RTSP_connection_index s"
  shows "table_ok (s\<lparr>RTSP_connection_index := c + 1, conn_of := (conn_of s)(c \<mapsto> new_conn), listener := L_Created c\<rparr>)"
    (is "table_ok ?s")
proof -
  have n: "conn_of s c = None" using ok ready(2) unfolding table_ok_def by (metis less_irrefl)
  then have "\<not> ended_or_running s c" by (simp add: ended_or_running_def)
  then have c: "c \<notin> set (tracked (conns s))" using ok unfolding table_ok_def by blast
  have "ended_or_running ?s x" if "x \<in> set (tracked (conns s))" for x
    using ok that c unfolding table_ok_def by (auto simp: ended_or_running_def)
  then show ?thesis using ok c ready unfolding table_ok_def
    by (auto simp: less_Suc_eq)
qed

lemma listen_ok:
  assumes step: "rtsp_listen_loop e s = Some s'" and ok: "table_ok s"
  shows "table_ok s'"
proof (cases "listener s")
  case L_Ready
  have r: "listener (cleanup_threads s) = L_Ready" using L_Ready by (simp add: cleanup_threads_def)
  have "table_ok ((cancel_all_begin cat x s)\<lparr>listener := L_Joining\<rparr>)" for cat x
  proof -
    have "ended_or_running (cancel_all_begin cat x s) = ended_or_running s"
      by (auto simp: ended_or_running_def cancel_all_begin_def fun_eq_iff split: option.splits)
    then show ?thesis using ok by (simp add: table_ok_def) (simp add: cancel_all_begin_def)
  qed
  then show ?thesis
    using step L_Ready cleanup_ok [OF ok L_Ready] create_ok [OF cleanup_ok [OF ok L_Ready] r refl]
    by (cases e) (auto simp: rtsp_listen_loop_def Let_def split: if_splits)
next
  case (L_Created c)
  then have s': "s' = (on_conn c (\<lambda>k. k\<lparr>running := True\<rparr>) s)\<lparr>listener := L_Running c\<rparr>"
    using step by (simp add: rtsp_listen_loop_def)
  have "ended_or_running s' x = (x = c \<or> ended_or_running s x)" for x
    using ok L_Created unfolding table_ok_def by (auto simp: s' ended_on_conn split: option.splits)
  then show ?thesis using ok L_Created unfolding table_ok_def by (auto simp: s')
next
  case (L_Running c)
  then have "s' = s\<lparr>conns := track_thread c (conns s), listener := L_Ready\<rparr>"
    using step by (simp add: rtsp_listen_loop_def split: if_splits)
  then show ?thesis using ok L_Running unfolding table_ok_def by (auto simp: distinct_track set_track)
next
  case L_Joining
  then show ?thesis using step ok unfolding table_ok_def by (auto simp: rtsp_listen_loop_def split: if_splits)
qed (use step in \<open>simp add: rtsp_listen_loop_def\<close>)

lemma reachable_table: "reachable s \<Longrightarrow> table_ok s"
proof (induction rule: rtranclp_induct)
  case base
  then show ?case by (simp add: table_ok_def sys_init_def)
next
  case (step s s')
  from step(2,3) show ?case by (elim sys_stepE) (use conn_grows stop_grows grows_ok listen_ok in blast)+
qed

text \<open>
  In every schedule no connection is in the table twice, and one that is in it and is not running has
  ended: when \<open>cleanup_threads\<close> joins it, with the lock of the table held, it does not wait.
\<close>

theorem cleanup_never_waits:
  assumes "reachable s"
  shows "distinct (tracked (conns s))
    \<and> (\<forall>c k. Some c \<in> set (conns s) \<and> conn_of s c = Some k \<and> \<not> running k \<longrightarrow> place k = Exited)"
  using reachable_table [OF assms] unfolding table_ok_def
  by (auto simp: in_tracked ended_or_running_def split: option.splits)

lemma cleanup_never_waits_witness:
  "\<exists>s k. reachable s \<and> Some 1 \<in> set (conns s) \<and> conn_of s 1 = Some k \<and> \<not> running k
    \<and> distinct (tracked (conns s)) \<and> place k = Exited"
proof -
  obtain s where "run (connect @ take 2 (ask 1) @ [C 1 Read_Failed, C 1 Request, C 1 Request, C 1 Request])
      sys_init = Some s"
    and s: "conns s = [Some 1]" "map_option running (conn_of s 1) = Some False"
    by (simp add: connect_def ask_def run_defs del: at_fold)
  then have "reachable s" by (intro run_reaches)
  then show ?thesis using cleanup_never_waits [of s] s by auto
qed

text \<open>
  A thread that ends before its listener has noted that it is running is noted as running after it has
  ended: it is never joined, its record is not freed, and it counts as a connection.
\<close>

theorem short_connection_is_kept:
  "\<exists>s k. reachable s \<and> listener s = L_Ready \<and> conn_of s 1 = Some k \<and> place k = Exited \<and> running k
    \<and> conns s = [Some 1] \<and> conns (cleanup_threads s) = [Some 1]"
proof -
  obtain s where "run ([L Accept] @ take 2 (ask 1) @ [C 1 Read_Failed, C 1 Request, C 1 Request, C 1 Request,
      L Timeout, L Timeout]) sys_init = Some s"
    and s: "listener s = L_Ready" "map_option (\<lambda>k. (place k, running k)) (conn_of s 1) = Some (Exited, True)"
      "conns s = [Some 1]" "conns (cleanup_threads s) = [Some 1]"
    by (simp add: ask_def run_defs del: at_fold)
  then have "reachable s" by (intro run_reaches)
  with s show ?thesis by auto
qed

end
