(* ===== verification/Rtsp_Session.thy ===== *)
theory Rtsp_Session
  imports Rtsp_Response Play_Lock Jitter_Buffer
begin

text \<open>
  The handlers of the classic AirPlay requests (\<open>rtsp.c\<close>): OPTIONS, ANNOUNCE, RECORD, FLUSH,
  TEARDOWN, GET_PARAMETER, SET_PARAMETER, and the small ones of AirPlay 2. A handler maps the
  connection and the response to the new ones and to the calls it makes of the rest of the program, in
  order; a null pointer that is followed is an error value. Built with metadata and AirPlay 2.

  \<open>base64_dec\<close>, \<open>base64_enc\<close>, \<open>rsa_apply\<close> and MD5 (OpenSSL), the property list of a body (libplist) and the
  answer of \<open>get_play_lock\<close> are inputs. A volume is kept as the text that \<open>atof\<close> reads.
\<close>

section \<open>State\<close>

datatype airplay_t = ap_1 | ap_2

record stream_cfg =
  encrypted :: bool
  aesiv :: string
  aeskey :: string
  fmtp :: "u32 list"
  stream_type :: audio_stream_type

record session =
  stream :: stream_cfg
  airplay_type :: airplay_t
  timing_type :: timing_t
  category :: airplay_stream_c
  code_type :: nat  \<comment> \<open>\<open>conn->type\<close>\<close>
  frames_per_packet :: u32
  input_num_channels :: u32
  input_bit_depth :: u32
  input_rate :: u32
  input_bytes_per_frame :: u32
  minimum_latency :: u32
  maximum_latency :: u32
  UserAgent :: "string option"
  AirPlayVersion :: int
  input_format_is_valid :: bool
  own_airplay_volume :: "string option"
  has_player :: bool  \<comment> \<open>\<open>player_thread\<close>\<close>
  stop_requested :: bool  \<comment> \<open>\<open>stop\<close>\<close>
  authorized :: bool
  auth_nonce :: "string option"

text \<open>The calls a handler makes of other parts of the program.\<close>

datatype call = Send_Metadata string string "string option" | Player_Volume string | Player_Flush u32
  | Player_Play | Player_Stop | Signify_Activity bool | Reset_Free_UDP_Port

text \<open>What a handler depends on: whether this connection is the principal one, what \<open>get_play_lock\<close>
  answers, the functions of the libraries, the configuration, and the random number for a nonce.\<close>

datatype rsa_mode = RSA_MODE_KEY | RSA_MODE_AUTH

record env =
  is_principal :: bool
  play_lock_answer :: play_lock_r
  base64_dec :: "string \<Rightarrow> string"
  base64_enc :: "string \<Rightarrow> string"
  rsa_apply :: "rsa_mode \<Rightarrow> string \<Rightarrow> string"
  md5 :: "string \<Rightarrow> string"
  message_streams :: "bool option"  \<comment> \<open>the property list of the body: none, or whether it has streams\<close>
  password :: "string option"
  make_nonce :: string
  local_address :: string  \<comment> \<open>4 or 16 bytes\<close>
  ap1_prefix :: string
  server_version :: string
  get_coverart :: bool
  show_volume :: "string option \<Rightarrow> string"  \<comment> \<open>\<open>%.6f\<close> of \<open>suggested_volume\<close>\<close>

text \<open>A loop that has not ended in the turns it is given is a value too; the loops of the handlers end.\<close>

datatype 'a result = Null_Pointer | Out_Of_Turns | Result 'a

type_synonym outcome = "(session \<times> rtsp_message \<times> call list) result"
type_synonym handler = "env \<Rightarrow> session \<Rightarrow> rtsp_message \<Rightarrow> rtsp_message \<Rightarrow> outcome"

abbreviation add_header :: "string \<Rightarrow> string \<Rightarrow> rtsp_message \<Rightarrow> rtsp_message" where
  "add_header n v resp \<equiv> snd (msg_add_header resp n v)"

section \<open>Text\<close>

text \<open>The lines of a body as \<open>nextline\<close> cuts them; a line ends at a NUL for what reads it.\<close>

function body_lines :: "string \<Rightarrow> string list" where
  "body_lines s =
     (if s = [] then []
      else case nextline s of None \<Rightarrow> [cstr s] | Some (l, r) \<Rightarrow> cstr l # body_lines r)"
  by pat_completeness auto
termination by (relation "measure length") (auto dest: nextline_shorter)

declare body_lines.simps [simp del]

text \<open>What follows the prefix in the last line that has it.\<close>

definition last_with :: "string \<Rightarrow> string list \<Rightarrow> string option" where
  "last_with pre ls = foldl (\<lambda>v l. if prefix pre l then Some (drop (length pre) l) else v) None ls"

text \<open>\<open>strsep\<close>, called until nothing is left: empty fields count.\<close>

fun fields_of :: "char set \<Rightarrow> string \<Rightarrow> string list" where
  "fields_of d [] = [[]]"
| "fields_of d (c # cs) =
     (if c \<in> d then [] # fields_of d cs
      else case fields_of d cs of f # fs \<Rightarrow> (c # f) # fs | [] \<Rightarrow> [[c]])"

definition to_u32 :: "int \<Rightarrow> u32" where
  "to_u32 = word_of_int"

text \<open>\<open>uatoi\<close>: \<open>atoll\<close>, cut to 32 bits.\<close>

definition uatoi :: "string \<Rightarrow> u32" where
  "uatoi s = word_of_int (atoi s)"

text \<open>The text after \<open>rtptime=\<close> in the header RTP-Info.\<close>

definition rtptime_text :: "rtsp_message \<Rightarrow> string option" where
  "rtptime_text req =
     (case msg_get_header req ''RTP-Info'' of None \<Rightarrow> None
      | Some hdr \<Rightarrow> map_option snd (strstr_split ''rtptime='' hdr))"

section \<open>ANNOUNCE\<close>

definition default_fmtp :: "u32 list" where
  "default_fmtp = [96, 352, 0, 16, 40, 10, 14, 2, 255, 0, 0, 44100]"

fun set_params :: "nat \<Rightarrow> string list \<Rightarrow> u32 list \<Rightarrow> u32 list" where
  "set_params i [] ps = ps"
| "set_params i (f # fs) ps = (if i < 12 then set_params (i + 1) fs (ps[i := to_u32 (atoi f)]) else ps)"

definition bytes_per_frame :: "u32 \<Rightarrow> u32 \<Rightarrow> u32" where
  "bytes_per_frame channels depth = channels * ((depth + 7) div 8)"

definition announce_uncompressed :: "session \<Rightarrow> session" where
  "announce_uncompressed s =
     s\<lparr>stream := (stream s)\<lparr>stream_type := ast_uncompressed\<rparr>, frames_per_packet := 352, input_rate := 44100,
       input_num_channels := 2, input_bit_depth := 16, input_bytes_per_frame := bytes_per_frame 2 16\<rparr>"

definition announce_pcm :: "string list \<Rightarrow> session \<Rightarrow> session" where
  "announce_pcm ls s =
     (if last_with ''a=rtpmap:96 L16/44100/2'' ls \<noteq> None then announce_uncompressed s else s)"

definition announce_alac :: "string \<Rightarrow> session \<Rightarrow> session" where
  "announce_alac pfmtp s =
     (let ps = set_params 0 (fields_of {CHR '' '', CHR 0x09} pfmtp) default_fmtp
      in s\<lparr>stream := (stream s)\<lparr>stream_type := ast_apple_lossless, fmtp := ps\<rparr>,
           frames_per_packet := ps ! 1, input_rate := ps ! 11, input_num_channels := ps ! 7,
           input_bit_depth := ps ! 3, input_bytes_per_frame := bytes_per_frame (ps ! 7) (ps ! 3)\<rparr>)"

definition announce_latencies :: "string list \<Rightarrow> session \<Rightarrow> session" where
  "announce_latencies ls s =
     (let s = (case last_with ''a=min-latency:'' ls of None \<Rightarrow> s
               | Some t \<Rightarrow> s\<lparr>minimum_latency := to_u32 (atoi t)\<rparr>)
      in case last_with ''a=max-latency:'' ls of None \<Rightarrow> s
         | Some t \<Rightarrow> s\<lparr>maximum_latency := to_u32 (atoi t)\<rparr>)"

text \<open>The keys: whether the stream is encrypted, the code of the response, and the keys themselves.\<close>

definition announce_encryption :: "string option \<Rightarrow> string option \<Rightarrow> bool \<Rightarrow> bool \<times> int" where
  "announce_encryption paesiv prsaaeskey was_encrypted =
     (if paesiv = None \<and> prsaaeskey = None then (False, 200)
      else if paesiv \<noteq> None \<and> prsaaeskey \<noteq> None then (True, 200)
      else (was_encrypted, 456))"

definition announce_keys ::
  "env \<Rightarrow> string option \<Rightarrow> string option \<Rightarrow> session \<Rightarrow> int \<Rightarrow> (session \<times> int) result" where
  "announce_keys e paesiv prsaaeskey s code =
     (if \<not> encrypted (stream s) then Result (s, code)
      else case (paesiv, prsaaeskey) of
        (Some iv, Some key) \<Rightarrow>
          (let iv = base64_dec e iv; key = rsa_apply e RSA_MODE_KEY (base64_dec e key);
               st = stream s;
               st = (if length iv = 16 then st\<lparr>aesiv := iv\<rparr> else st);
               code = (if length iv = 16 then code else 456);
               st = (if length key = 16 then st\<lparr>aeskey := key\<rparr> else st);
               code = (if length key = 16 then code else 456)
           in Result (s\<lparr>stream := st\<rparr>, code))
      | _ \<Rightarrow> Null_Pointer)"

text \<open>The client's name and software, from the headers.\<close>

definition airplay_version :: "string \<Rightarrow> session \<Rightarrow> session" where
  "airplay_version hdr s =
     (case strstr_split ''AirPlay'' hdr of None \<Rightarrow> s
      | Some (_, r) \<Rightarrow>
          (case dropWhile (\<lambda>c. c \<noteq> CHR ''/'') r of [] \<Rightarrow> s | _ # v \<Rightarrow> s\<lparr>AirPlayVersion := atoi v\<rparr>))"

definition announce_client :: "session \<Rightarrow> rtsp_message \<Rightarrow> session \<times> call list" where
  "announce_client s req =
     (let names = (case msg_get_header req ''X-Apple-Client-Name'' of None \<Rightarrow> []
                   | Some hdr \<Rightarrow> [Send_Metadata ''ssnc'' ''snam'' (Some hdr)])
      in case msg_get_header req ''User-Agent'' of None \<Rightarrow> (s, names)
         | Some hdr \<Rightarrow>
             ((airplay_version hdr (s\<lparr>UserAgent := Some hdr\<rparr>))\<lparr>input_format_is_valid := True\<rparr>,
              names @ [Send_Metadata ''ssnc'' ''snua'' (Some hdr)]))"

definition handle_announce :: handler where
  "handle_announce e s req resp =
     (let s = s\<lparr>category := classic_airplay_stream\<rparr> in
      if play_lock_answer e = play_lock_aquisition_failed then Result (s, resp\<lparr>respcode := 453\<rparr>, [])
      else
        let ports = (if play_lock_answer e = play_lock_acquired_without_breaking_in then [Reset_Free_UDP_Port] else []);
            s = s\<lparr>airplay_type := ap_1, timing_type := ts_ntp, code_type := 96,
                  stream := (stream s)\<lparr>stream_type := ast_unknown\<rparr>\<rparr>;
            ls = body_lines (content req);
            paesiv = last_with ''a=aesiv:'' ls;
            prsaaeskey = last_with ''a=rsaaeskey:'' ls;
            s = announce_latencies ls (announce_pcm ls s);
            (enc, code) = announce_encryption paesiv prsaaeskey (encrypted (stream s));
            s = s\<lparr>stream := (stream s)\<lparr>encrypted := enc\<rparr>\<rparr>
        in case announce_keys e paesiv prsaaeskey s code of
             Null_Pointer \<Rightarrow> Null_Pointer
           | Out_Of_Turns \<Rightarrow> Out_Of_Turns
           | Result (s, code) \<Rightarrow>
               let s = (case last_with ''a=fmtp:'' ls of None \<Rightarrow> s | Some t \<Rightarrow> announce_alac t s);
                   (s, calls) = (if code = 200 \<and> stream_type (stream s) \<noteq> ast_unknown
                                 then announce_client s req else (s, []))
               in Result (s, resp\<lparr>respcode := code\<rparr>, ports @ calls))"

section \<open>Playing\<close>

definition handle_record :: handler where
  "handle_record e s req resp =
     (if is_principal e
      then
        let (s, start) = (if has_player s then (s, []) else (s\<lparr>has_player := True\<rparr>, [Signify_Activity True, Player_Play]));
            resp = add_header ''Audio-Latency'' ''11025'' (resp\<lparr>respcode := 200\<rparr>);
            fl = (case rtptime_text req of None \<Rightarrow> [] | Some t \<Rightarrow> [Player_Flush (uatoi t)])
        in Result (s, resp, start @ fl)
      else Result (s, resp\<lparr>respcode := 451\<rparr>, []))"

definition handle_record_2 :: handler where
  "handle_record_2 e s req resp =
     Result (s, (add_header ''Audio-Latency'' ''0'' resp)\<lparr>respcode := 200\<rparr>, [])"

definition handle_flush :: handler where
  "handle_flush e s req resp =
     (let rtptime = (case rtptime_text req of None \<Rightarrow> 0 | Some t \<Rightarrow> uatoi t)
      in if is_principal e
         then Result (s, resp\<lparr>respcode := 200\<rparr>,
                [Send_Metadata ''ssnc'' ''flsr'' (rtptime_text req), Player_Flush rtptime])
         else Result (s, resp\<lparr>respcode := 451\<rparr>, []))"

definition stop_player :: "session \<Rightarrow> session \<times> call list" where
  "stop_player s =
     (if has_player s then (s\<lparr>has_player := False\<rparr>, [Player_Stop, Signify_Activity False]) else (s, []))"

definition handle_teardown :: handler where
  "handle_teardown e s req resp =
     (let (s, calls) = stop_player s
      in Result (s\<lparr>stop_requested := True\<rparr>, add_header ''Connection'' ''close'' (resp\<lparr>respcode := 200\<rparr>), calls))"

definition handle_teardown_2 :: handler where
  "handle_teardown_2 e s req resp =
     (case message_streams e of
        None \<Rightarrow> Result (s, resp\<lparr>respcode := 200\<rparr>, [])
      | Some True \<Rightarrow> (let (s, calls) = stop_player s in Result (s, resp\<lparr>respcode := 200\<rparr>, calls))
      | Some False \<Rightarrow>
          Result (s\<lparr>stop_requested := True\<rparr>, (add_header ''Connection'' ''close'' resp)\<lparr>respcode := 200\<rparr>, []))"

section \<open>Options and the requests that are only acknowledged\<close>

definition handle_options :: handler where
  "handle_options e s req resp =
     Result (s, add_header ''Public''
       ''ANNOUNCE, SETUP, RECORD, PAUSE, FLUSH, TEARDOWN, OPTIONS, GET_PARAMETER, SET_PARAMETER''
       (resp\<lparr>respcode := 200\<rparr>), [])"

definition handle_options_2 :: handler where
  "handle_options_2 e s req resp =
     Result (s, add_header ''Public''
       ''ANNOUNCE, SETUP, RECORD, PAUSE, FLUSH, FLUSHBUFFERED, TEARDOWN, OPTIONS, POST, GET, PUT''
       (resp\<lparr>respcode := 200\<rparr>), [])"

definition handle_setpeers :: handler where
  "handle_setpeers e s req resp = Result (s, resp\<lparr>respcode := 200\<rparr>, [])"

definition handle_setpeersx :: handler where
  "handle_setpeersx e s req resp = Result (s, resp\<lparr>respcode := 200\<rparr>, [])"

definition handle_setrate :: handler where
  "handle_setrate e s req resp = Result (s, resp\<lparr>respcode := 501\<rparr>, [])"

definition handle_unimplemented_ap1 :: handler where
  "handle_unimplemented_ap1 e s req resp = Result (s, resp\<lparr>respcode := 501\<rparr>, [])"

definition handle_audio_mode :: handler where
  "handle_audio_mode e s req resp = Result (s, resp, [])"

section \<open>Parameters\<close>

definition handle_get_parameter :: handler where
  "handle_get_parameter e s req resp =
     (if contentlength req = 8 \<and> prefix ''volume'' (content req)
      then let t = [CR, LF] @ ''volume: '' @ show_volume e (own_airplay_volume s) @ [CR, LF]
           in Result (s, resp\<lparr>content := t, contentlength := length t, respcode := 200\<rparr>, [])
      else Result (s, resp\<lparr>respcode := 200\<rparr>, []))"

fun set_parameter_line :: "env \<Rightarrow> string \<Rightarrow> session \<Rightarrow> session \<times> call list" where
  "set_parameter_line e l s =
     (if prefix ''volume: '' l
      then (s\<lparr>own_airplay_volume := Some (drop 8 l)\<rparr>, if is_principal e then [Player_Volume (drop 8 l)] else [])
      else if prefix ''progress: '' l then (s, [Send_Metadata ''ssnc'' ''prgr'' (Some (drop 10 l))])
      else (s, []))"

fun handle_set_parameter_parameter :: "env \<Rightarrow> string list \<Rightarrow> session \<Rightarrow> session \<times> call list" where
  "handle_set_parameter_parameter e [] s = (s, [])"
| "handle_set_parameter_parameter e (l # ls) s =
     (let (s, c) = set_parameter_line e l s; (s, cs) = handle_set_parameter_parameter e ls s in (s, c @ cs))"

text \<open>A 32-bit number, most significant byte first; the indices are unsigned 32-bit numbers.\<close>

definition be32 :: "string \<Rightarrow> u32 \<Rightarrow> u32" where
  "be32 cp off = word_of_nat (foldl (\<lambda>n c. 256 * n + ord_of c) 0 (take 4 (drop (unat off) cp)))"

definition tag_text :: "u32 \<Rightarrow> string" where
  "tag_text w = map (\<lambda>i. char_of (unat w div 256 ^ i mod 256)) [3, 2, 1, 0]"

text \<open>A turn of the loop over the items: the item, and where the next one is.\<close>

definition metadata_turn :: "string \<Rightarrow> u32 \<Rightarrow> u32 \<Rightarrow> (call \<times> u32) option" where
  "metadata_turn cp cl off =
     (if off + 8 \<le> cl
      then let itag = be32 cp off; vl = be32 cp (off + 4); off = off + 8
           in if vl > cl - off then None
              else Some (Send_Metadata ''core'' (tag_text itag)
                     (if vl = 0 then None else Some (take (unat vl) (drop (unat off) cp))), off + vl)
      else None)"

text \<open>The loop, for at most the number of turns given; \<open>None\<close> when it has not ended then.\<close>

fun metadata_items :: "nat \<Rightarrow> string \<Rightarrow> u32 \<Rightarrow> u32 \<Rightarrow> call list option" where
  "metadata_items 0 cp cl off = None"
| "metadata_items (Suc n) cp cl off =
     (case metadata_turn cp cl off of None \<Rightarrow> Some []
      | Some (c, off') \<Rightarrow> map_option ((#) c) (metadata_items n cp cl off'))"

definition handle_set_parameter_metadata :: "rtsp_message \<Rightarrow> call list option" where
  "handle_set_parameter_metadata req =
     metadata_items (contentlength req + 1) (content req) (word_of_nat (contentlength req)) 8"

definition framed :: "string \<Rightarrow> string \<Rightarrow> string option \<Rightarrow> call list \<Rightarrow> call list" where
  "framed before after t cs = Send_Metadata ''ssnc'' before t # cs @ [Send_Metadata ''ssnc'' after t]"

definition handle_set_parameter :: handler where
  "handle_set_parameter e s req resp =
     (let ok = resp\<lparr>respcode := 200\<rparr>; t = rtptime_text req in
      case msg_get_header req ''Content-Type'' of
        None \<Rightarrow> Result (s, ok, [])
      | Some ct \<Rightarrow>
          if prefix ''application/x-dmap-tagged'' ct
          then (case handle_set_parameter_metadata req of None \<Rightarrow> Out_Of_Turns
                | Some cs \<Rightarrow> Result (s, ok, framed ''mdst'' ''mden'' t cs))
          else if prefix ''image'' ct
          then Result (s, ok, if get_coverart e
                 then framed ''pcst'' ''pcen'' t [Send_Metadata ''ssnc'' ''PICT'' (Some (content req))] else [])
          else if prefix ''text/parameters'' ct
          then (let (s, cs) = handle_set_parameter_parameter e (body_lines (content req)) s in Result (s, ok, cs))
          else Result (s, ok, []))"

end
