(* ===== verification/Rtsp_Session_Proofs.thy ===== *)
theory Rtsp_Session_Proofs
  imports Rtsp_Session
begin

text \<open>What the handlers of the classic requests do with the bodies they are sent.\<close>

section \<open>The items of a metadata body\<close>

lemma metadata_turn_advances:
  assumes "metadata_turn cp cl off = Some (c, off')" "unat off < 4294967288" "unat cl < 4294967288"
  shows "unat off + 8 \<le> unat off'" "unat off' \<le> unat cl"
proof -
  define vl where "vl = be32 cp (off + 4)"
  have o8: "unat (off + 8) = unat off + 8"
    using assms(2) by (subst unat_add_lem [THEN iffD1]) auto
  from assms(1) have le: "off + 8 \<le> cl" and v: "\<not> cl - (off + 8) < vl" and off': "off' = off + 8 + vl"
    by (auto simp: metadata_turn_def vl_def Let_def split: if_splits)
  have "unat (cl - (off + 8)) = unat cl - unat (off + 8)" using le by (rule unat_sub)
  then have "unat vl \<le> unat cl - (unat off + 8)" using v o8 by (metis leI word_le_nat_alt)
  moreover have "unat off + 8 \<le> unat cl" using le o8 by (metis word_le_nat_alt)
  ultimately have s: "unat (off + 8) + unat vl \<le> unat cl" using o8 by linarith
  then have "unat (off + 8 + vl) = unat (off + 8) + unat vl"
    using unat_u32 [of cl] by (subst unat_add_lem [THEN iffD1]) auto
  then show "unat off + 8 \<le> unat off'" "unat off' \<le> unat cl" using off' s o8 by auto
qed

lemma metadata_items_end:
  assumes "unat cl < 4294967288" "unat off < 4294967288" "0 < n" "unat cl < unat off + 8 * n"
  shows "metadata_items n cp cl off \<noteq> None"
  using assms
proof (induction n arbitrary: off)
  case (Suc n)
  show ?case
  proof (cases "metadata_turn cp cl off")
    case (Some t)
    obtain c off' where t: "t = (c, off')" by fastforce
    then have a: "unat off + 8 \<le> unat off'" "unat off' \<le> unat cl"
      using metadata_turn_advances Suc.prems Some by blast+
    then have "0 < n" using Suc.prems by (cases n) auto
    then have "metadata_items n cp cl off' \<noteq> None" using a Suc.prems by (intro Suc.IH) auto
    then show ?thesis using Some t by simp
  qed simp
qed simp

text \<open>
  C27. The loop over the metadata items of a SET_PARAMETER body ends, whatever the bytes of the body: in
  a body of less than $2^{32} - 8$ bytes each turn moves on by eight bytes at least and never past the
  end.
\<close>

theorem metadata_loop_ends:
  assumes "contentlength req < 4294967288"
  shows "handle_set_parameter_metadata req \<noteq> None"
proof -
  have "unat (word_of_nat (contentlength req) :: u32) = contentlength req"
    using assms by (simp add: unsigned_of_nat take_bit_nat_eq_self)
  then show ?thesis unfolding handle_set_parameter_metadata_def
    using assms by (intro metadata_items_end) auto
qed

text \<open>An item as iTunes sends it: a tag, the length of the data, and the data.\<close>

definition be4 :: "nat \<Rightarrow> string" where
  "be4 n = map (\<lambda>i. char_of (n div 256 ^ i mod 256)) [3, 2, 1, 0]"

definition encode_item :: "string \<times> string \<Rightarrow> string" where
  "encode_item p = fst p @ be4 (length (snd p)) @ snd p"

definition item_call :: "string \<times> string \<Rightarrow> call" where
  "item_call p = Send_Metadata ''core'' (fst p) (if snd p = [] then None else Some (snd p))"

definition be_value :: "string \<Rightarrow> nat" where
  "be_value cs = foldl (\<lambda>n c. 256 * n + ord_of c) 0 cs"

lemma be_value_be4: "n < 4294967296 \<Longrightarrow> be_value (be4 n) = n"
proof -
  assume n: "n < 4294967296"
  have s: "m = 256 * (m div 256) + m mod 256" for m :: nat by simp
  have "n div 16777216 mod 256 = n div 16777216" using n by (simp add: less_mult_imp_div_less)
  then have "be_value (be4 n) = 256 * (256 * (256 * (n div 16777216) + n div 65536 mod 256) + n div 256 mod 256) + n mod 256"
    by (simp add: be_value_def be4_def)
  also have "256 * (n div 16777216) + n div 65536 mod 256 = n div 65536"
    using s [of "n div 65536"] by (simp add: div_mult2_eq [symmetric])
  also have "256 * (n div 65536) + n div 256 mod 256 = n div 256"
    using s [of "n div 256"] by (simp add: div_mult2_eq [symmetric])
  finally show ?thesis using s [of n] by simp
qed

lemma base256_digits:
  assumes "n = ((p * 256 + q) * 256 + r) * 256 + s" "p < 256" "q < 256" "r < 256" "s < (256::nat)"
  shows "n < 4294967296" "n div 16777216 mod 256 = p" "n div 65536 mod 256 = q" "n div 256 mod 256 = r"
    "n mod 256 = s"
proof -
  have a: "n div 256 = (p * 256 + q) * 256 + r" using assms(1,5) by simp
  have "n div 65536 = n div 256 div 256" by (simp add: div_mult2_eq [symmetric])
  then have b: "n div 65536 = p * 256 + q" using assms(4) by (simp add: a)
  have "n div 16777216 = n div 65536 div 256" by (simp add: div_mult2_eq [symmetric])
  then have c: "n div 16777216 = p" using assms(3) by (simp add: b)
  show "n div 16777216 mod 256 = p" "n div 65536 mod 256 = q" "n div 256 mod 256 = r" "n mod 256 = s"
    by (simp_all only: a b c mod_mult_self3 mod_less assms(2-5)) (simp only: assms(1) mod_mult_self3 mod_less assms(5))
  have "n div 16777216 < 256" using c assms(2) by simp
  then show "n < 4294967296" by (simp add: div_less_iff_less_mult)
qed

lemma tag_text_be:
  assumes "length t = 4"
  shows "tag_text (word_of_nat (be_value t)) = t"
proof -
  obtain a b c d where t: "t = [a, b, c, d]"
    using assms by (auto simp: eval_nat_numeral length_Suc_conv)
  define n where "n = be_value t"
  have n: "n = ((ord_of a * 256 + ord_of b) * 256 + ord_of c) * 256 + ord_of d"
    by (simp add: n_def t be_value_def)
  have l: "ord_of x < 256" for x by simp
  note digits = base256_digits [OF n l l l l]
  have u: "unat (word_of_nat n :: u32) = n" using digits(1) by (simp add: unsigned_of_nat take_bit_nat_eq_self)
  have "char_of (n div 16777216 mod 256) = a" "char_of (n div 65536 mod 256) = b"
      "char_of (n div 256 mod 256) = c" "char_of (n mod 256) = d"
    by (simp_all only: digits(2-5) char_of_char)
  then have "tag_text (word_of_nat n) = [a, b, c, d]" by (simp add: tag_text_def u)
  then show ?thesis by (simp only: n_def t)
qed

lemma be32_at:
  "unat off = length pre \<Longrightarrow> length w = 4 \<Longrightarrow> be32 (pre @ w @ rest) off = word_of_nat (be_value w)"
  by (simp add: be32_def be_value_def)

lemma length_be4 [simp]: "length (be4 n) = 4"
  by (simp add: be4_def)

lemma metadata_turn_item:
  assumes cp: "cp = pre @ encode_item (t, d) @ rest" and t: "length t = 4" and n: "length cp < 4294967288"
  shows "metadata_turn cp (word_of_nat (length cp)) (word_of_nat (length pre))
    = Some (item_call (t, d), word_of_nat (length (pre @ encode_item (t, d))))"
proof -
  let ?cl = "word_of_nat (length cp) :: u32" and ?off = "word_of_nat (length pre) :: u32"
  have len: "length pre + 8 + length d \<le> length cp" by (simp add: cp encode_item_def t)
  have cl: "unat ?cl = length cp" and off: "unat ?off = length pre"
    using n len by (simp_all add: unsigned_of_nat take_bit_nat_eq_self)
  have o4: "unat (?off + 4) = length pre + 4" and o8: "unat (?off + 8) = length pre + 8"
    using off n len by (subst unat_add_lem [THEN iffD1]; simp)+
  have tag: "be32 cp ?off = word_of_nat (be_value t)"
    using be32_at [OF off t, of "be4 (length d) @ d @ rest"] by (simp add: cp encode_item_def)
  have "be32 cp (?off + 4) = word_of_nat (be_value (be4 (length d)))"
    using be32_at [of "?off + 4" "pre @ t" "be4 (length d)" "d @ rest"] o4 t by (simp add: cp encode_item_def)
  then have vl: "be32 cp (?off + 4) = word_of_nat (length d)" using be_value_be4 n len by simp
  have le: "?off + 8 \<le> ?cl" using o8 cl len by (simp add: word_le_nat_alt)
  have sub: "unat (?cl - (?off + 8)) = length cp - (length pre + 8)" using unat_sub [OF le] cl o8 by simp
  have ud: "unat (word_of_nat (length d) :: u32) = length d"
    using n len by (simp add: unsigned_of_nat take_bit_nat_eq_self)
  have "\<not> ?cl - (?off + 8) < word_of_nat (length d)"
    using sub ud len by (simp add: word_less_nat_alt)
  moreover have "(word_of_nat (length d) :: u32) = 0 \<longleftrightarrow> d = []"
    using ud by (metis length_0_conv of_nat_0 unat_eq_zero)
  moreover have "?off + 8 + word_of_nat (length d) = word_of_nat (length (pre @ encode_item (t, d)))"
    by (simp add: encode_item_def t)
  moreover have "take (length d) (drop (length pre + 8) cp) = d"
    by (simp add: cp encode_item_def t)
  ultimately show ?thesis
    using le by (simp add: metadata_turn_def Let_def tag vl ud o8 item_call_def tag_text_be [OF t])
qed

lemma metadata_items_all:
  assumes "cp = pre @ concat (map encode_item items)" "\<forall>p \<in> set items. length (fst p) = 4"
    "length cp < 4294967288" "length items < n"
  shows "metadata_items n cp (word_of_nat (length cp)) (word_of_nat (length pre)) = Some (map item_call items)"
  using assms
proof (induction items arbitrary: n pre)
  case Nil
  let ?cl = "word_of_nat (length cp) :: u32"
  have u: "unat ?cl = length cp" using Nil by (simp add: unsigned_of_nat take_bit_nat_eq_self)
  then have "unat (?cl + 8) = length cp + 8" using Nil by (subst unat_add_lem [THEN iffD1]) auto
  then have "\<not> ?cl + 8 \<le> ?cl" using u by (simp add: word_le_nat_alt)
  then show ?case using Nil by (cases n) (auto simp: metadata_turn_def)
next
  case (Cons p items)
  obtain t d where p: "p = (t, d)" by fastforce
  obtain m where m: "n = Suc m" "length items < m" using Cons.prems(4) by (cases n) auto
  have "metadata_turn cp (word_of_nat (length cp)) (word_of_nat (length pre))
      = Some (item_call p, word_of_nat (length (pre @ encode_item p)))"
    using Cons.prems p by (intro metadata_turn_item [of _ _ t d, folded p]) auto
  moreover have "metadata_items m cp (word_of_nat (length cp)) (word_of_nat (length (pre @ encode_item p)))
      = Some (map item_call items)"
    using Cons.prems m(2) by (intro Cons.IH) auto
  ultimately show ?case by (simp add: m(1))
qed

text \<open>
  C26. The body of a SET_PARAMETER request with metadata that is made of items, each a tag of four
  characters, the length of its data and the data, is taken apart into exactly these items, in their
  order, empty ones included; the first eight bytes are passed over.
\<close>

theorem metadata_items_roundtrip:
  assumes "content req = lead @ concat (map encode_item items)" "length lead = 8"
    "\<forall>p \<in> set items. length (fst p) = 4"
    "contentlength req = length (content req)" "length (content req) < 4294967288"
  shows "handle_set_parameter_metadata req = Some (map item_call items)"
proof -
  have "length items \<le> length (concat (map encode_item items))"
    using assms(3) by (induction items) (auto simp: encode_item_def)
  then show ?thesis unfolding handle_set_parameter_metadata_def
    using metadata_items_all [of "content req" lead items "contentlength req + 1"] assms by simp
qed

lemma metadata_items_roundtrip_witness:
  "\<exists>req. content req = replicate 8 CHR ''x'' @ concat (map encode_item [(''asal'', ''Low''), (''asaa'', [])])
    \<and> handle_set_parameter_metadata req
        = Some [Send_Metadata ''core'' ''asal'' (Some ''Low''), Send_Metadata ''core'' ''asaa'' None]"
proof -
  let ?body = "replicate 8 CHR ''x'' @ concat (map encode_item [(''asal'', ''Low''), (''asaa'', [])])"
  let ?req = "(fst (msg_init 0))\<lparr>content := ?body, contentlength := length ?body\<rparr>"
  have "handle_set_parameter_metadata ?req = Some (map item_call [(''asal'', ''Low''), (''asaa'', [])])"
    by (rule metadata_items_roundtrip [of _ "replicate 8 CHR ''x''"]) (simp_all add: encode_item_def)
  then show ?thesis by (intro exI [of _ ?req]) (simp add: item_call_def)
qed

lemma metadata_loop_ends_witness:
  "contentlength (fst (msg_init 0)) = 0 \<and> handle_set_parameter_metadata (fst (msg_init 0)) \<noteq> None"
  using metadata_loop_ends [of "fst (msg_init 0)"] by (simp add: msg_init_def)

section \<open>The lines of a body\<close>

definition plain_line :: "string \<Rightarrow> bool" where
  "plain_line l \<longleftrightarrow> CR \<notin> set l \<and> LF \<notin> set l \<and> NUL \<notin> set l"

lemma cstr_plain: "plain_line l \<Longrightarrow> cstr l = l"
  by (auto simp: plain_line_def cstr_def takeWhile_eq_all_conv)

text \<open>A body of lines that end with CR and LF is cut into these lines.\<close>

lemma nextline_crlf: "plain_line l \<Longrightarrow> nextline (l @ CR # LF # rest) = Some (l, rest)"
  by (induction l) (auto simp: plain_line_def)

lemma body_lines_concat:
  "\<forall>l \<in> set ls. plain_line l \<Longrightarrow> body_lines (concat (map (\<lambda>l. l @ [CR, LF]) ls)) = ls"
proof (induction ls)
  case Nil
  then show ?case by (simp add: body_lines.simps)
next
  case (Cons l ls)
  then show ?case
    by (subst body_lines.simps) (simp add: nextline_crlf cstr_plain)
qed

lemma last_with_none: "\<forall>l \<in> set ls. \<not> prefix p l \<Longrightarrow> foldl (\<lambda>v l. if prefix p l then Some (drop (length p) l) else v) v ls = v"
  by (induction ls) auto

lemma last_with_last:
  assumes "ls = as @ (p @ t) # bs" "\<forall>l \<in> set bs. \<not> prefix p l"
  shows "last_with p ls = Some t"
  using last_with_none [OF assms(2)] by (simp add: last_with_def assms(1))

lemma last_with_no: "\<forall>l \<in> set ls. \<not> prefix p l \<Longrightarrow> last_with p ls = None"
  by (simp add: last_with_def last_with_none)

section \<open>Numbers in text\<close>

lemma digit_chars: "k < 10 \<Longrightarrow> is_digit (char_of (48 + k))" "k < 10 \<Longrightarrow> ord_of (char_of (48 + k :: nat)) = 48 + k"
  by (simp_all add: is_digit_def)

lemma show_nat_digits: "(\<forall>c \<in> set (show_nat n). is_digit c) \<and> show_nat n \<noteq> []"
proof (induction n rule: show_nat.induct)
  case (1 n)
  show ?case
  proof (cases "n < 10")
    case True
    then show ?thesis by (subst (1 2) show_nat.simps) (simp add: digit_chars)
  next
    case False
    with 1 have "\<forall>c \<in> set (show_nat (n div 10)). is_digit c" by simp
    then show ?thesis using False by (subst (1 2) show_nat.simps) (auto simp: digit_chars)
  qed
qed

lemma show_nat_value: "foldl (\<lambda>m c. 10 * m + (int (ord_of c) - 48)) 0 (show_nat n) = int n"
proof (induction n rule: show_nat.induct)
  case (1 n)
  show ?case
  proof (cases "n < 10")
    case True
    then show ?thesis by (subst show_nat.simps) (simp add: digit_chars)
  next
    case False
    with 1 have "foldl (\<lambda>m c. 10 * m + (int (ord_of c) - 48)) 0 (show_nat (n div 10)) = int (n div 10)" by simp
    moreover have "10 * int (n div 10) + int (n mod 10) = int n"
      by (metis mult_div_mod_eq of_nat_add of_nat_mult of_nat_numeral)
    ultimately show ?thesis using False
      by (subst show_nat.simps) (simp add: digit_chars)
  qed
qed

lemma atoi_show_nat: "atoi (show_nat n) = int n"
proof -
  have d: "\<forall>c \<in> set (show_nat n). is_digit c" "show_nat n \<noteq> []" using show_nat_digits by blast+
  then obtain c t where ct: "show_nat n = c # t" by (cases "show_nat n") auto
  then have c: "is_digit c" using d by simp
  then have "\<not> is_space c" "c \<noteq> CHR ''-''" "c \<noteq> CHR ''+''" by (auto simp: is_digit_def is_space_def)
  then have "atoi (show_nat n) = decimal (show_nat n)" by (simp add: atoi_def ct)
  moreover have "takeWhile is_digit (show_nat n) = show_nat n" using d by (simp add: takeWhile_eq_all_conv)
  then have "decimal (show_nat n) = int n" by (simp only: decimal_def show_nat_value)
  ultimately show ?thesis by simp
qed

section \<open>An ANNOUNCE for an Apple Lossless stream\<close>

fun joined_by :: "char \<Rightarrow> string list \<Rightarrow> string" where
  "joined_by d [] = []"
| "joined_by d [f] = f"
| "joined_by d (f # fs) = f @ d # joined_by d fs"

lemma fields_of_none: "\<forall>c \<in> set f. c \<notin> ds \<Longrightarrow> fields_of ds f = [f]"
  by (induction f) auto

lemma fields_of_first: "\<forall>c \<in> set f. c \<notin> ds \<Longrightarrow> d \<in> ds \<Longrightarrow> fields_of ds (f @ d # r) = f # fields_of ds r"
  by (induction f) auto

lemma fields_of_joined:
  "fs \<noteq> [] \<Longrightarrow> \<forall>f \<in> set fs. \<forall>c \<in> set f. c \<notin> ds \<Longrightarrow> d \<in> ds \<Longrightarrow> fields_of ds (joined_by d fs) = fs"
  by (induction d fs rule: joined_by.induct) (auto simp: fields_of_none fields_of_first)

lemma set_params_all:
  "length qs = i \<Longrightarrow> i + length ns = 12 \<Longrightarrow> length rs = length ns \<Longrightarrow>
    set_params i (map show_nat ns) (qs @ rs) = qs @ map word_of_nat ns"
proof (induction ns arbitrary: i qs rs)
  case (Cons n ns)
  obtain r rs' where rs: "rs = r # rs'" using Cons.prems by (cases rs) auto
  have "set_params (i + 1) (map show_nat ns) ((qs @ [word_of_nat n]) @ rs') = (qs @ [word_of_nat n]) @ map word_of_nat ns"
    by (rule Cons.IH) (use Cons.prems rs in auto)
  then show ?case using Cons.prems rs by (simp add: to_u32_def atoi_show_nat list_update_append)
qed simp

definition fmtp_line :: "nat list \<Rightarrow> string" where
  "fmtp_line ns = ''a=fmtp:'' @ joined_by CHR '' '' (map show_nat ns)"

lemma fmtp_parsed:
  assumes "length ns = 12"
  shows "set_params 0 (fields_of {CHR '' '', CHR 0x09} (joined_by CHR '' '' (map show_nat ns))) default_fmtp
    = map word_of_nat ns"
proof -
  have clean: "\<forall>f \<in> set (map show_nat ns). \<forall>c \<in> set f. c \<notin> {CHR '' '', CHR 0x09}"
  proof (intro ballI)
    fix f c assume "f \<in> set (map show_nat ns)" "c \<in> set f"
    then obtain n where "c \<in> set (show_nat n)" by auto
    then have "is_digit c" using show_nat_digits [of n] by blast
    then show "c \<notin> {CHR '' '', CHR 0x09}" by (auto simp: is_digit_def)
  qed
  have "map show_nat ns \<noteq> []" using assms by auto
  then have "fields_of {CHR '' '', CHR 0x09} (joined_by CHR '' '' (map show_nat ns)) = map show_nat ns"
    by (rule fields_of_joined [OF _ clean]) simp
  then show ?thesis using set_params_all [of "[]" 0 ns default_fmtp] assms by (simp add: default_fmtp_def)
qed

lemma fields_of_announce:
  "stream_type (stream (announce_alac t s)) = ast_apple_lossless"
  "encrypted (stream (announce_alac t s)) = encrypted (stream s)"
  "airplay_type (announce_alac t s) = airplay_type s"
  "fmtp (stream (announce_alac t s)) = set_params 0 (fields_of {CHR '' '', CHR 0x09} t) default_fmtp"
  by (simp_all add: announce_alac_def Let_def)

text \<open>What the last part of ANNOUNCE and the latencies leave alone.\<close>

definition same_format :: "session \<Rightarrow> session \<Rightarrow> bool" where
  "same_format s s' \<longleftrightarrow> stream s' = stream s \<and> airplay_type s' = airplay_type s
    \<and> frames_per_packet s' = frames_per_packet s \<and> input_rate s' = input_rate s
    \<and> input_num_channels s' = input_num_channels s \<and> input_bit_depth s' = input_bit_depth s"

lemma same_format_version: "same_format s (airplay_version hdr s)"
  by (simp add: airplay_version_def same_format_def split: option.splits list.splits)

lemma same_format_client: "same_format s (fst (announce_client s req))"
  using same_format_version
  by (simp add: announce_client_def same_format_def Let_def split: option.splits)

lemma same_format_latencies: "same_format s (announce_latencies ls s)"
  by (simp add: announce_latencies_def same_format_def Let_def split: option.splits)

text \<open>
  C21. An ANNOUNCE that offers an unencrypted Apple Lossless stream, its twelve parameters written as
  decimal numbers in the last line that has them, sets the session up for exactly these parameters: the
  decoder's, and the size of the packets, the rate, the channels and the depth of the player.
\<close>

theorem announce_sets_stream:
  assumes body: "content req = concat (map (\<lambda>l. l @ [CR, LF]) (as @ fmtp_line ns # bs))"
    and lines: "\<forall>l \<in> set (as @ fmtp_line ns # bs). plain_line l"
    and last: "\<forall>l \<in> set bs. \<not> prefix ''a=fmtp:'' l"
    and clear: "\<forall>l \<in> set (as @ bs). \<not> prefix ''a=aesiv:'' l \<and> \<not> prefix ''a=rsaaeskey:'' l"
    and ns: "length ns = 12" and lock: "play_lock_answer e \<noteq> play_lock_aquisition_failed"
  shows "\<exists>s' calls. handle_announce e s req resp = Result (s', resp\<lparr>respcode := 200\<rparr>, calls)
    \<and> stream_type (stream s') = ast_apple_lossless \<and> \<not> encrypted (stream s') \<and> airplay_type s' = ap_1
    \<and> fmtp (stream s') = map word_of_nat ns \<and> frames_per_packet s' = word_of_nat (ns ! 1)
    \<and> input_rate s' = word_of_nat (ns ! 11) \<and> input_num_channels s' = word_of_nat (ns ! 7)
    \<and> input_bit_depth s' = word_of_nat (ns ! 3)"
proof -
  let ?ls = "as @ fmtp_line ns # bs"
  have ls: "body_lines (content req) = ?ls" using body_lines_concat [OF lines] body by simp
  have f: "last_with ''a=fmtp:'' ?ls = Some (joined_by CHR '' '' (map show_nat ns))"
    by (rule last_with_last [OF _ last]) (simp add: fmtp_line_def)
  have k: "last_with ''a=aesiv:'' ?ls = None" "last_with ''a=rsaaeskey:'' ?ls = None"
    using clear by (intro last_with_no; auto simp: fmtp_line_def)+
  let ?s0 = "s\<lparr>category := classic_airplay_stream, airplay_type := ap_1, timing_type := ts_ntp, code_type := 96,
    stream := (stream s)\<lparr>stream_type := ast_unknown\<rparr>\<rparr>"
  define s1 where "s1 = announce_latencies ?ls (announce_pcm ?ls ?s0)"
  define s2 where "s2 = announce_alac (joined_by CHR '' '' (map show_nat ns))
    (s1\<lparr>stream := (stream s1)\<lparr>encrypted := False\<rparr>\<rparr>)"
  have a1: "airplay_type s1 = ap_1"
    using same_format_latencies [of "announce_pcm ?ls ?s0" ?ls]
    by (simp add: s1_def same_format_def announce_pcm_def announce_uncompressed_def)
  have s2: "stream_type (stream s2) = ast_apple_lossless" "\<not> encrypted (stream s2)" "airplay_type s2 = ap_1"
      "fmtp (stream s2) = map word_of_nat ns" "frames_per_packet s2 = word_of_nat (ns ! 1)"
      "input_rate s2 = word_of_nat (ns ! 11)" "input_num_channels s2 = word_of_nat (ns ! 7)"
      "input_bit_depth s2 = word_of_nat (ns ! 3)"
    using ns a1 by (simp_all add: s2_def announce_alac_def Let_def fmtp_parsed)
  obtain s3 calls where c: "announce_client s2 req = (s3, calls)" by fastforce
  have "same_format s2 s3" using same_format_client [of s2 req] c by simp
  moreover have "\<exists>calls'. handle_announce e s req resp = Result (s3, resp\<lparr>respcode := 200\<rparr>, calls')"
    using lock by (simp add: handle_announce_def Let_def ls f k announce_encryption_def announce_keys_def
        s1_def [symmetric] s2_def [symmetric] s2(1) c)
  ultimately show ?thesis using s2 by (auto simp: same_format_def)
qed

text \<open>A connection as it is when it has been accepted, and an ANNOUNCE as iTunes sends it.\<close>

definition new_session :: session where
  "new_session = \<lparr>stream = \<lparr>encrypted = False, aesiv = replicate 16 NUL, aeskey = replicate 16 NUL,
       fmtp = replicate 12 0, stream_type = ast_unknown\<rparr>, airplay_type = ap_2, timing_type = ts_ptp,
     category = unspecified_stream_category, code_type = 0, frames_per_packet = 0, input_num_channels = 0,
     input_bit_depth = 0, input_rate = 0, input_bytes_per_frame = 0, minimum_latency = 0, maximum_latency = 0,
     UserAgent = None, AirPlayVersion = 0, input_format_is_valid = False, own_airplay_volume = None,
     has_player = False, stop_requested = False, authorized = False,
     auth_nonce = None\<rparr>"

definition plain_env :: env where
  "plain_env = \<lparr>is_principal = True, play_lock_answer = play_lock_acquired_without_breaking_in,
     base64_dec = (\<lambda>s. s), base64_enc = (\<lambda>s. s), rsa_apply = (\<lambda>_ s. s), md5 = (\<lambda>s. take 16 (s @ replicate 16 NUL)),
     message_streams = None, password = None, make_nonce = ''n'', local_address = ''1234'', ap1_prefix = ''abcdef'',
     server_version = ''366.0'', get_coverart = False, show_volume = (\<lambda>_. ''-24.000000'')\<rparr>"

lemma announce_sets_stream_witness:
  "\<exists>s' calls. handle_announce plain_env new_session
      ((fst (msg_init 0))\<lparr>content := concat (map (\<lambda>l. l @ [CR, LF])
        ([''v=0''] @ fmtp_line [96, 352, 0, 16, 40, 10, 14, 2, 255, 0, 0, 44100] # [''a=min-latency:11025'']))\<rparr>)
      (fst (msg_init 1)) = Result (s', (fst (msg_init 1))\<lparr>respcode := 200\<rparr>, calls)
    \<and> fmtp (stream s') = map word_of_nat [96, 352, 0, 16, 40, 10, 14, 2, 255, 0, 0, 44100]
    \<and> frames_per_packet s' = 352 \<and> input_rate s' = 44100"
proof -
  let ?ns = "[96, 352, 0, 16, 40, 10, 14, 2, 255, 0, 0, 44100]"
  have f: "fmtp_line ?ns = ''a=fmtp:96 352 0 16 40 10 14 2 255 0 0 44100''"
    by (simp add: fmtp_line_def show_nat.simps char_of_def bit_0)
  show ?thesis
    using announce_sets_stream [of "(fst (msg_init 0))\<lparr>content := concat (map (\<lambda>l. l @ [CR, LF])
        ([''v=0''] @ fmtp_line ?ns # [''a=min-latency:11025'']))\<rparr>" "[''v=0'']" ?ns "[''a=min-latency:11025'']"
        plain_env new_session "fst (msg_init 1)"]
    by (force simp: f plain_line_def CR_def LF_def NUL_def plain_env_def)
qed

section \<open>An ANNOUNCE with half of a key\<close>

text \<open>
  An ANNOUNCE with only one of the two parts of the key is answered as not valid, but the stream
  keeps the note that it is encrypted: if an earlier ANNOUNCE on the connection had set it, the part
  that is missing is decoded through a null pointer.
\<close>

theorem half_key_null_pointer:
  assumes "play_lock_answer e \<noteq> play_lock_aquisition_failed" "encrypted (stream s)"
    "(last_with ''a=aesiv:'' (body_lines (content req)) = None)
      \<noteq> (last_with ''a=rsaaeskey:'' (body_lines (content req)) = None)"
  shows "handle_announce e s req resp = Null_Pointer"
proof -
  let ?ls = "body_lines (content req)"
  let ?s0 = "s\<lparr>category := classic_airplay_stream, airplay_type := ap_1, timing_type := ts_ntp, code_type := 96,
    stream := (stream s)\<lparr>stream_type := ast_unknown\<rparr>\<rparr>"
  have "encrypted (stream (announce_latencies ?ls (announce_pcm ?ls ?s0)))"
    using same_format_latencies [of "announce_pcm ?ls ?s0" ?ls] assms(2)
    by (simp add: same_format_def announce_pcm_def announce_uncompressed_def)
  then show ?thesis using assms
    by (cases "last_with ''a=aesiv:'' ?ls"; cases "last_with ''a=rsaaeskey:'' ?ls")
      (simp_all add: handle_announce_def Let_def announce_encryption_def announce_keys_def)
qed

lemma half_key_null_pointer_witness:
  "handle_announce plain_env (new_session\<lparr>stream := (stream new_session)\<lparr>encrypted := True\<rparr>\<rparr>)
     ((fst (msg_init 0))\<lparr>content := ''a=aesiv:x''\<rparr>) (fst (msg_init 1)) = Null_Pointer"
  by (rule half_key_null_pointer)
    (simp_all add: plain_env_def body_lines.simps last_with_def cstr_def NUL_def CR_def LF_def)

end
