(* ===== verification/Rtsp_Conversation.thy ===== *)
theory Rtsp_Conversation
  imports Rtsp_Session
begin

text \<open>
  A turn of the conversation with a client (\<open>rtsp_conversation_thread_func\<close> of \<open>rtsp.c\<close>) from a
  request to its response: the Apple challenge, the password of classic AirPlay, the table of methods
  with its handlers, and the response that is written. The handlers that are not modelled here are an
  argument, by the name of the function.
\<close>

section \<open>The Apple challenge\<close>

definition pad_to :: "nat \<Rightarrow> string \<Rightarrow> string" where
  "pad_to n s = s @ replicate (n - length s) NUL"

definition apple_challenge :: "env \<Rightarrow> rtsp_message \<Rightarrow> rtsp_message \<Rightarrow> rtsp_message" where
  "apple_challenge e req resp =
     (case msg_get_header req ''Apple-Challenge'' of
        None \<Rightarrow> resp
      | Some hdr \<Rightarrow>
          (let chall = base64_dec e hdr in
           if length chall > 16 then resp
           else let buf = pad_to 32 (chall @ local_address e @ ap1_prefix e);
                    encoded = base64_enc e (rsa_apply e RSA_MODE_AUTH buf)
                in add_header ''Apple-Response'' (takeWhile (\<lambda>c. c \<noteq> CHR ''='') encoded) resp))"

section \<open>The password of classic AirPlay\<close>

text \<open>The header is cut up in place: a string is a position in it, and ends at the next NUL.\<close>

definition strchr_at :: "string \<Rightarrow> nat \<Rightarrow> char \<Rightarrow> nat option" where
  "strchr_at hdr p c =
     (let s = cstr (drop p hdr) in
      if c \<in> set s then Some (p + length (takeWhile (\<lambda>x. x \<noteq> c) s)) else None)"

definition strstr_at :: "string \<Rightarrow> string \<Rightarrow> nat option" where
  "strstr_at hdr pat = map_option (\<lambda>(before, _). length before) (strstr_split pat hdr)"

datatype 'a lookup = Bad_Pointer | Missing | Found 'a

text \<open>The text in quotes after a position; the quote at its end becomes a NUL. When there is no quote
  at all, the position after the null pointer is searched.\<close>

definition quoted_at :: "string \<Rightarrow> nat \<Rightarrow> (string \<times> nat) lookup" where
  "quoted_at hdr p =
     (case strchr_at hdr p (CHR 0x22) of
        None \<Rightarrow> Bad_Pointer
      | Some q \<Rightarrow>
          (case strchr_at hdr (q + 1) (CHR 0x22) of
             None \<Rightarrow> Missing | Some r \<Rightarrow> Found (hdr[r := NUL], q + 1)))"

definition hex_digit :: "nat \<Rightarrow> char" where
  "hex_digit n = ''0123456789abcdef'' ! n"

definition hex :: "string \<Rightarrow> string" where
  "hex bs = concat (map (\<lambda>b. [hex_digit (ord_of b div 16), hex_digit (ord_of b mod 16)]) bs)"

definition digest :: "env \<Rightarrow> string \<Rightarrow> string \<Rightarrow> string \<Rightarrow> string \<Rightarrow> string \<Rightarrow> string \<Rightarrow> string" where
  "digest e username realm pw meth uri nonce =
     hex (md5 e (hex (md5 e (username @ '':'' @ realm @ '':'' @ pw)) @ '':'' @ nonce @ '':''
       @ hex (md5 e (meth @ '':'' @ uri))))"

definition quoted :: "string \<Rightarrow> string" where
  "quoted s = CHR 0x22 # s @ [CHR 0x22]"

text \<open>The four parts of the header, cut one after the other.\<close>

definition authorization_parts :: "string \<Rightarrow> (string \<times> string \<times> string \<times> string) lookup" where
  "authorization_parts hdr =
     (case (strstr_at hdr (''realm='' @ [CHR 0x22]), strstr_at hdr (''username='' @ [CHR 0x22]),
            strstr_at hdr (''response='' @ [CHR 0x22]), strstr_at hdr (''uri='' @ [CHR 0x22])) of
        (Some re, Some us, Some rs, Some ur) \<Rightarrow>
          (case quoted_at hdr re of Bad_Pointer \<Rightarrow> Bad_Pointer | Missing \<Rightarrow> Missing | Found (hdr, re) \<Rightarrow>
          (case quoted_at hdr us of Bad_Pointer \<Rightarrow> Bad_Pointer | Missing \<Rightarrow> Missing | Found (hdr, us) \<Rightarrow>
          (case quoted_at hdr rs of Bad_Pointer \<Rightarrow> Bad_Pointer | Missing \<Rightarrow> Missing | Found (hdr, rs) \<Rightarrow>
          (case quoted_at hdr ur of Bad_Pointer \<Rightarrow> Bad_Pointer | Missing \<Rightarrow> Missing | Found (hdr, ur) \<Rightarrow>
             Found (cstr (drop re hdr), cstr (drop us hdr), cstr (drop rs hdr), cstr (drop ur hdr))))))
      | _ \<Rightarrow> Missing)"

text \<open>Whether the request may go on, the nonce, and the response; the nonce is asked for first.\<close>

definition authenticate :: "string \<Rightarrow> rtsp_message \<Rightarrow> (bool \<times> string option \<times> rtsp_message) result" where
  "authenticate nonce resp =
     Result (False, Some nonce,
       add_header ''WWW-Authenticate'' (''Digest realm='' @ quoted ''raop'' @ '', nonce='' @ quoted nonce)
         (resp\<lparr>respcode := 401\<rparr>))"

definition rtsp_classic_airplay_auth ::
  "env \<Rightarrow> string option \<Rightarrow> rtsp_message \<Rightarrow> rtsp_message \<Rightarrow> (bool \<times> string option \<times> rtsp_message) result" where
  "rtsp_classic_airplay_auth e nonce req resp =
     (case password e of
        None \<Rightarrow> Result (True, nonce, resp)
      | Some pw \<Rightarrow>
          (case nonce of
             None \<Rightarrow> authenticate (make_nonce e) resp
           | Some nonce \<Rightarrow>
               (case msg_get_header req ''Authorization'' of
                  None \<Rightarrow> authenticate nonce resp
                | Some hdr \<Rightarrow>
                    if \<not> prefix ''Digest '' hdr then authenticate nonce resp
                    else (case authorization_parts hdr of
                            Bad_Pointer \<Rightarrow> Null_Pointer
                          | Missing \<Rightarrow> authenticate nonce resp
                          | Found (realm, username, answer, uri) \<Rightarrow>
                              if answer = digest e username realm pw (request_method req) uri nonce
                              then Result (True, Some nonce, resp)
                              else authenticate nonce resp))))"

section \<open>The methods\<close>

type_synonym others = "string \<Rightarrow> handler"

definition handle_get :: "others \<Rightarrow> handler" where
  "handle_get others e s req resp =
     (if path req = ''/info'' then others ''handle_get_info'' e s req resp
      else Result (s, resp\<lparr>respcode := 501\<rparr>, []))"

definition post_handlers :: "others \<Rightarrow> (string \<times> handler) list" where
  "post_handlers others =
     [(''/pair-setup'', others ''handle_pair_setup''), (''/pair-verify'', others ''handle_pair_verify''),
      (''/pair-add'', others ''handle_pair_add''), (''/pair-remove'', others ''handle_pair_remove''),
      (''/pair-list'', others ''handle_pair_list''), (''/pair-pin-start'', others ''handle_pair_pin_start''),
      (''/fp-setup'', others ''handle_fp_setup''), (''/configure'', others ''handle_configure''),
      (''/feedback'', others ''handle_feedback''), (''/command'', others ''handle_command''),
      (''/audioMode'', handle_audio_mode)]"

definition handle_post :: "others \<Rightarrow> handler" where
  "handle_post others e s req resp =
     (let resp = resp\<lparr>respcode := 200\<rparr> in
      case map_of (post_handlers others) (path req) of
        None \<Rightarrow> Result (s, resp, []) | Some h \<Rightarrow> h e s req resp)"

text \<open>The table: the method, its handler for classic AirPlay and the one for AirPlay 2.\<close>

definition method_handlers :: "others \<Rightarrow> (string \<times> handler \<times> handler) list" where
  "method_handlers others =
     [(''OPTIONS'', handle_options, handle_options_2), (''ANNOUNCE'', handle_announce, handle_announce),
      (''FLUSH'', handle_flush, handle_flush), (''TEARDOWN'', handle_teardown, handle_teardown_2),
      (''SETUP'', others ''handle_setup'', others ''handle_setup_2''),
      (''GET_PARAMETER'', handle_get_parameter, handle_get_parameter),
      (''SET_PARAMETER'', handle_set_parameter, handle_set_parameter),
      (''RECORD'', handle_record, handle_record_2), (''GET'', handle_get others, handle_get others),
      (''POST'', handle_post others, handle_post others),
      (''SETPEERS'', handle_unimplemented_ap1, handle_setpeers),
      (''SETPEERSX'', handle_unimplemented_ap1, handle_setpeersx),
      (''SETRATEANCHORTI'', handle_unimplemented_ap1, others ''handle_setrateanchori''),
      (''FLUSHBUFFERED'', handle_unimplemented_ap1, others ''handle_flushbuffered''),
      (''SETRATE'', handle_unimplemented_ap1, handle_setrate)]"

datatype 'a turn_result = Crash | Stack_Smashed | Hang | Turn 'a

text \<open>A request whose method is not in the table: its content is printed in hex, two characters a byte,
  into an array of 4096 bytes; the last write ends with a NUL.\<close>

definition hex_dump_fits :: "nat \<Rightarrow> bool" where
  "hex_dump_fits contentlen \<longleftrightarrow> (let y = min contentlen 4096 in y = 0 \<or> 2 * y + 1 \<le> 4096)"

definition dispatch :: "others \<Rightarrow> env \<Rightarrow> session \<Rightarrow> rtsp_message \<Rightarrow> rtsp_message
    \<Rightarrow> (session \<times> rtsp_message \<times> call list) turn_result" where
  "dispatch others e s req resp =
     (case map_of (method_handlers others) (request_method req) of
        None \<Rightarrow> if hex_dump_fits (contentlength req) then Turn (s, resp, []) else Stack_Smashed
      | Some (ap1_handler, ap2_handler) \<Rightarrow>
          (case (if airplay_type s = ap_1 then ap1_handler else ap2_handler) e s req resp of
             Null_Pointer \<Rightarrow> Crash | Out_Of_Turns \<Rightarrow> Hang | Result r \<Rightarrow> Turn r))"

section \<open>A turn\<close>

text \<open>The response before the handler: code 501, the challenge, the sequence number, and the server.\<close>

definition begin_response :: "env \<Rightarrow> nat \<Rightarrow> rtsp_message \<Rightarrow> rtsp_message" where
  "begin_response e idx req =
     (let resp = apple_challenge e req ((fst (msg_init idx))\<lparr>respcode := 501\<rparr>);
          resp = (case msg_get_header req ''CSeq'' of None \<Rightarrow> resp | Some h \<Rightarrow> add_header ''CSeq'' h resp)
      in add_header ''Server'' (''AirTunes/'' @ server_version e) resp)"

text \<open>Whether the request may go on; the test for the password comes last.\<close>

definition admit ::
  "env \<Rightarrow> session \<Rightarrow> rtsp_message \<Rightarrow> rtsp_message \<Rightarrow> (bool \<times> string option \<times> rtsp_message) result" where
  "admit e s req resp =
     (if authorized s \<or> airplay_type s \<noteq> ap_1 then Result (True, auth_nonce s, resp)
      else rtsp_classic_airplay_auth e (auth_nonce s) req resp)"

definition answer ::
  "others \<Rightarrow> env \<Rightarrow> nat \<Rightarrow> session \<Rightarrow> rtsp_message \<Rightarrow> (session \<times> rtsp_message \<times> call list) turn_result" where
  "answer others e idx s req =
     (case admit e s req (begin_response e idx req) of
        Null_Pointer \<Rightarrow> Crash
      | Out_Of_Turns \<Rightarrow> Hang
      | Result (pass, nonce, resp) \<Rightarrow>
          (let s = s\<lparr>auth_nonce := nonce\<rparr> in
           if \<not> pass then Turn (s, resp, [])
           else case dispatch others e (s\<lparr>authorized := True\<rparr>) req resp of
                  Turn (s, resp, calls) \<Rightarrow> Turn (s, resp\<lparr>respcode := 200\<rparr>, calls)
                | r \<Rightarrow> r))"

text \<open>The turn with the writing of the response; a failure to write ends the conversation.\<close>

definition conversation_turn ::
  "others \<Rightarrow> env \<Rightarrow> (string \<Rightarrow> int) \<Rightarrow> nat \<Rightarrow> session \<Rightarrow> rtsp_message
    \<Rightarrow> (session \<times> string option \<times> call list) turn_result" where
  "conversation_turn others e conn_write idx s req =
     (case answer others e idx s req of
        Turn (s, resp, calls) \<Rightarrow>
          (case msg_write_response conn_write resp of
             Stack_Overrun \<Rightarrow> Stack_Smashed
           | Return err p \<Rightarrow> Turn (if err \<noteq> 0 then s\<lparr>stop_requested := True\<rparr> else s, p, calls))
      | Crash \<Rightarrow> Crash | Stack_Smashed \<Rightarrow> Stack_Smashed | Hang \<Rightarrow> Hang)"

text \<open>A conversation: the requests in turn, each with the environment it finds, until the flag to stop.\<close>

fun conversation ::
  "others \<Rightarrow> (string \<Rightarrow> int) \<Rightarrow> (env \<times> rtsp_message) list \<Rightarrow> session
    \<Rightarrow> (session \<times> string option list \<times> call list) turn_result" where
  "conversation others conn_write [] s = Turn (s, [], [])"
| "conversation others conn_write ((e, req) # rs) s =
     (if stop_requested s then Turn (s, [], [])
      else case conversation_turn others e conn_write (index_number req) s req of
        Turn (s, p, calls) \<Rightarrow>
          (case conversation others conn_write rs s of
             Turn (s, ps, calls') \<Rightarrow> Turn (s, p # ps, calls @ calls') | r \<Rightarrow> r)
      | Crash \<Rightarrow> Crash | Stack_Smashed \<Rightarrow> Stack_Smashed | Hang \<Rightarrow> Hang)"

end
