(* ===== verification/Rtsp_Conversation_Proofs.thy ===== *)
theory Rtsp_Conversation_Proofs
  imports Rtsp_Conversation Rtsp_Session_Proofs
begin

text \<open>
  What a client can bring about in its conversation: which requests are let through, what it is
  answered, and which sessions come out of it.
\<close>

section \<open>The handlers, as one operation\<close>







section \<open>Well-formed sessions\<close>



lemma length_set_params [simp]: "length (set_params i fs ps) = length ps"
  by (induction i fs ps rule: set_params.induct) auto

lemma length_default_fmtp [simp]: "length default_fmtp = 12"
  by (simp add: default_fmtp_def)













section \<open>The password is never asked for\<close>







text \<open>A receiver with a password, and the first requests of a classic client.\<close>

definition sample_request :: "string \<Rightarrow> string \<Rightarrow> rtsp_message" where
  "sample_request meth body =
     (fst (msg_init 0))\<lparr>request_method := meth, content := body, contentlength := length body\<rparr>"

definition secret_env :: env where
  "secret_env = plain_env\<lparr>password := Some ''secret''\<rparr>"






section \<open>A request that smashes the stack\<close>

text \<open>
  A request with a method that is not in the table and 2048 bytes of content or more makes the
  receiver print the content in hex past the end of an array of 4096 bytes on its stack; in a build with
  AirPlay 2 no authority is needed for it.
\<close>

theorem unknown_method_smashes_stack:
  assumes "airplay_type s = ap_2 \<or> authorized s" "request_method req \<notin> fst ` set (method_handlers others)"
    "2048 \<le> contentlength req"
  shows "conversation_turn others e w idx s req = Stack_Smashed"
proof -
  have "admit e s req r = Result (True, auth_nonce s, r)" for r
    using assms(1) by (auto simp: admit_def)
  moreover have "map_of (method_handlers others) (request_method req) = None"
    using assms(2) by (simp add: map_of_eq_None_iff)
  moreover have "\<not> hex_dump_fits (contentlength req)"
    using assms(3) by (auto simp: hex_dump_fits_def Let_def min_def)
  ultimately show ?thesis by (simp add: conversation_turn_def answer_def dispatch_def)
qed

lemma unknown_method_smashes_stack_witness:
  "conversation_turn (\<lambda>_. handle_audio_mode) plain_env (\<lambda>p. int (length p)) 0 new_session
     (sample_request ''PUT'' (replicate 2048 CHR ''x'')) = Stack_Smashed"
  by (rule unknown_method_smashes_stack)
    (simp_all add: new_session_def sample_request_def method_handlers_def)

section \<open>The test of the password\<close>


text \<open>
  C25. A header in which the text of the user's name begins inside the quotes of the realm ends the
  program: the quote that closes the realm is the one that opens the name, and when it has been
  replaced the search for it gives the null pointer.
\<close>

theorem authorization_header_crash:
  assumes "password e = Some pw" "nonce = Some n"
    and "msg_get_header req ''Authorization'' = Some (''Digest realm='' @ CHR 0x22 # ''username='' @ CHR 0x22 # rest)"
    and "strstr_at rest (''response='' @ [CHR 0x22]) \<noteq> None" "strstr_at rest (''uri='' @ [CHR 0x22]) \<noteq> None"
  shows "rtsp_classic_airplay_auth e nonce req resp = Null_Pointer"
proof -
  let ?hdr = "''Digest realm='' @ CHR 0x22 # ''username='' @ CHR 0x22 # rest"
  have re: "strstr_at ?hdr (''realm='' @ [CHR 0x22]) = Some 7"
    and us: "strstr_at ?hdr (''username='' @ [CHR 0x22]) = Some 14"
    by (simp_all add: strstr_at_def)
  have rs: "strstr_at ?hdr (''response='' @ [CHR 0x22]) \<noteq> None"
    and ur: "strstr_at ?hdr (''uri='' @ [CHR 0x22]) \<noteq> None"
    using assms(4,5) by (simp_all add: strstr_at_def)
  have "quoted_at ?hdr 7 = Found (?hdr[23 := NUL], 14)"
    by (simp add: quoted_at_def strchr_at_def cstr_def NUL_def Let_def)
  moreover have "quoted_at (?hdr[23 := NUL]) 14 = Bad_Pointer"
    by (simp add: quoted_at_def strchr_at_def cstr_def NUL_def Let_def)
  ultimately have "authorization_parts ?hdr = Bad_Pointer"
    using re us rs ur by (auto simp: authorization_parts_def)
  then show ?thesis using assms(1-3) by (simp add: rtsp_classic_airplay_auth_def)
qed

lemma authorization_header_crash_witness:
  "rtsp_classic_airplay_auth secret_env (Some ''n'')
     ((sample_request ''OPTIONS'' [])\<lparr>headers := [(''Authorization'',
        ''Digest realm='' @ CHR 0x22 # ''username='' @ CHR 0x22 # '' response='' @ CHR 0x22 # '' uri='' @ [CHR 0x22])]\<rparr>)
     (fst (msg_init 1)) = Null_Pointer"
proof (rule authorization_header_crash)
  let ?rest = "'' response='' @ CHR 0x22 # '' uri='' @ [CHR 0x22]"
  show "strstr_at ?rest (''response='' @ [CHR 0x22]) \<noteq> None" "strstr_at ?rest (''uri='' @ [CHR 0x22]) \<noteq> None"
    by code_simp+
qed (simp_all add: secret_env_def msg_get_header_def strcaseeq_def)


end
