(* ===== verification/Volume.thy ===== *)
theory Volume
  imports Sample_Output Complex_Main
begin

text \<open>
  The volume control: the three profiles that turn an AirPlay volume into an attenuation
  (\<open>common.c\<close>), and \<open>player_volume\<close> with its division of the attenuation between the mixer of the
  output device and the scaling of samples (\<open>player.c\<close>).

  An AirPlay volume goes from -30 to 0, and -144 asks for silence. Attenuations are in hundredths
  of a decibel. Doubles are real numbers here, so that rounding is left out; C's \<open>long\<close> and
  \<open>int32_t\<close> values are integers, since their sums stay far inside their ranges, except
  for the range of the volume, an unsigned number that is multiplied at its width.
\<close>

section \<open>Profiles\<close>

definition volume_in_range :: "real \<Rightarrow> bool" where
  "volume_in_range vol \<longleftrightarrow> vol \<le> 0 \<and> vol \<ge> - 30"

definition flat_vol2attn :: "real \<Rightarrow> int \<Rightarrow> int \<Rightarrow> real" where
  "flat_vol2attn vol max_db min_db =
     (if volume_in_range vol then of_int (max_db - min_db) * (30 + vol) / 30 + of_int min_db
      else of_int min_db)"

definition dasl_tapered_vol2attn :: "real \<Rightarrow> int \<Rightarrow> int \<Rightarrow> real" where
  "dasl_tapered_vol2attn vol max_db min_db =
     (if volume_in_range vol then
        let vol_pct = 1 - vol / (- 30) in
        if vol_pct \<le> 0 then of_int min_db
        else
          let flat_setting = of_int min_db + of_int (max_db - min_db) * vol_pct;
              vol_setting = of_int max_db + 1000 * log 10 vol_pct / log 10 2
          in if vol_setting < flat_setting then flat_setting
             else if vol_setting > of_int max_db then of_int max_db
             else vol_setting
      else of_int min_db)"

text \<open>
  The standard profile takes the lowest of three lines. A line begins at a volume and reaches its
  end point at the volume -30. The test for a line that begins at -30, on which the program would
  die, fails on all three.
\<close>

definition first_slope :: "int \<Rightarrow> real" where
  "first_slope range_db =
     (let s = of_int ((- range_db) sdiv 2) in if of_int (- range_db) > s then of_int range_db else s)"

definition vol2attn_lines :: "int \<Rightarrow> (real \<times> real) list" where
  "vol2attn_lines range_db =
     [(0, first_slope range_db),
      (- 5, first_slope range_db - (of_int range_db + first_slope range_db) / 2),
      (- 17, of_int (- range_db))]"

definition line_at :: "real \<Rightarrow> real \<times> real \<Rightarrow> real" where
  "line_at vol l = snd l * (vol - fst l) / (- 30 - fst l)"

fun lowest_line :: "real \<Rightarrow> (real \<times> real) list \<Rightarrow> real \<Rightarrow> real" where
  "lowest_line vol [] vol_setting = vol_setting"
| "lowest_line vol (l # ls) vol_setting =
     lowest_line vol ls
       (if vol \<le> fst l \<and> line_at vol l < vol_setting then line_at vol l else vol_setting)"

definition vol2attn :: "real \<Rightarrow> int \<Rightarrow> int \<Rightarrow> real" where
  "vol2attn vol max_db min_db =
     (if volume_in_range vol then lowest_line vol (vol2attn_lines (max_db - min_db)) 0 + of_int max_db
      else of_int min_db)"

section \<open>Mixers\<close>

datatype volume_mode = vol_sw_only | vol_hw_only | vol_both

datatype volume_control_profile_type = VCP_standard | VCP_flat | VCP_dasl_tapered

text \<open>The settings, and what the back end offers: a range of volumes in decibels, a function that sets
  the volume, a function that mutes (and whether it succeeds).\<close>

record volume_config =
  volume_max_db_set :: bool
  volume_max_db :: int
  volume_range_db :: u32
  volume_range_hw_priority :: bool
  ignore_volume_control :: bool
  volume_control_profile :: volume_control_profile_type

record volume_output =
  volume_range :: "(int \<times> int) option"
  sets_volume :: bool
  mutes :: "bool option"

record mixers =
  volume_mode :: volume_mode
  hw_max_db :: int
  hw_min_db :: int
  sw_max_db :: int
  sw_min_db :: int

definition desired_range_db :: "volume_config \<Rightarrow> int" where
  "desired_range_db cfg = sint (volume_range_db cfg * 100)"

text \<open>With a mixer in the device: the ranges of both mixers after the maximum and the range that are set.\<close>

definition hardware_maximum :: "volume_config \<Rightarrow> mixers \<Rightarrow> mixers" where
  "hardware_maximum cfg m =
     (if volume_max_db_set cfg then
        if volume_max_db cfg * 100 \<le> hw_max_db m \<and> volume_max_db cfg * 100 \<ge> hw_min_db m
        then m\<lparr>hw_max_db := volume_max_db cfg * 100\<rparr>
        else if volume_range_db cfg \<noteq> 0
        then m\<lparr>hw_max_db := hw_min_db m, sw_max_db := volume_max_db cfg * 100 - hw_min_db m\<rparr>
        else m
      else m)"

definition hardware_range :: "volume_config \<Rightarrow> mixers \<Rightarrow> mixers" where
  "hardware_range cfg m =
     (if volume_range_db cfg \<noteq> 0 then
        let hw_range = hw_max_db m - hw_min_db m in
        if desired_range_db cfg > hw_range then
          let desired_sw_range = desired_range_db cfg - hw_range; m' = m\<lparr>volume_mode := vol_both\<rparr> in
          if sw_max_db m - desired_sw_range < sw_min_db m then m'
          else m'\<lparr>sw_min_db := sw_max_db m - desired_sw_range\<rparr>
        else m\<lparr>hw_min_db := hw_max_db m - desired_range_db cfg\<rparr>
      else m)"

text \<open>Without one.\<close>

definition software_maximum :: "volume_config \<Rightarrow> mixers \<Rightarrow> mixers" where
  "software_maximum cfg m =
     (if volume_max_db_set cfg \<and> volume_max_db cfg * 100 \<le> sw_max_db m
         \<and> volume_max_db cfg * 100 \<ge> sw_min_db m
      then m\<lparr>sw_max_db := volume_max_db cfg * 100\<rparr> else m)"

definition software_range :: "volume_config \<Rightarrow> mixers \<Rightarrow> mixers" where
  "software_range cfg m =
     (if volume_range_db cfg \<noteq> 0 \<and> \<not> desired_range_db cfg > sw_max_db m - sw_min_db m
      then m\<lparr>sw_min_db := sw_max_db m - desired_range_db cfg\<rparr> else m)"

definition mixer_limits :: "volume_config \<Rightarrow> volume_output \<Rightarrow> mixers" where
  "mixer_limits cfg out =
     (case volume_range out of
        Some (minimum, maximum) \<Rightarrow>
          hardware_range cfg (hardware_maximum cfg
            \<lparr>volume_mode = vol_hw_only, hw_max_db = maximum, hw_min_db = minimum, sw_max_db = 0, sw_min_db = - 9630\<rparr>)
      | None \<Rightarrow>
          software_range cfg (software_maximum cfg
            \<lparr>volume_mode = vol_sw_only, hw_max_db = 0, hw_min_db = 0, sw_max_db = 0, sw_min_db = - 9630\<rparr>))"

text \<open>The range that the profile is applied to. With both mixers it is the sum of their ranges, from zero.\<close>

definition whole_range :: "mixers \<Rightarrow> int \<times> int" where
  "whole_range m =
     (case volume_mode m of
        vol_hw_only \<Rightarrow> (hw_max_db m, hw_min_db m)
      | vol_sw_only \<Rightarrow> (sw_max_db m, sw_min_db m)
      | vol_both \<Rightarrow> ((hw_max_db m - hw_min_db m) + (sw_max_db m - sw_min_db m), 0))"

definition profile_attenuation ::
  "volume_control_profile_type \<Rightarrow> real \<Rightarrow> int \<Rightarrow> int \<Rightarrow> real" where
  "profile_attenuation p =
     (case p of VCP_standard \<Rightarrow> vol2attn | VCP_flat \<Rightarrow> flat_vol2attn
      | VCP_dasl_tapered \<Rightarrow> dasl_tapered_vol2attn)"

definition scaled_attenuation :: "volume_config \<Rightarrow> mixers \<Rightarrow> real \<Rightarrow> real" where
  "scaled_attenuation cfg m airplay_volume =
     (let (max_db, min_db) = whole_range m in
      if ignore_volume_control cfg then of_int max_db
      else profile_attenuation (volume_control_profile cfg) airplay_volume max_db min_db)"

text \<open>What the mixer of the device gets and what the scaling of samples gets.\<close>

definition apportion :: "volume_config \<Rightarrow> mixers \<Rightarrow> real \<Rightarrow> real \<times> real" where
  "apportion cfg m a =
     (case volume_mode m of
        vol_hw_only \<Rightarrow> (a, 0)
      | vol_sw_only \<Rightarrow> (0, a)
      | vol_both \<Rightarrow>
          let hw_range = of_int (hw_max_db m - hw_min_db m); sw_range = of_int (sw_max_db m - sw_min_db m) in
          if volume_range_hw_priority cfg then
            if sw_range > a then (of_int (hw_min_db m), of_int (sw_min_db m) + a)
            else (of_int (hw_min_db m) + a - sw_range, of_int (sw_max_db m))
          else
            if hw_range > a then (of_int (hw_min_db m) + a, of_int (sw_min_db m))
            else (of_int (hw_max_db m), of_int (sw_min_db m) + a - hw_range))"

section \<open>Setting the volume\<close>

text \<open>
  The effects, in order: calls of the back end, the metadata with its four numbers (their text is
  left out), and the command that the user may have set.
\<close>

datatype volume_effect =
    Mute int
  | Output_Volume real
  | Pvol real real real real
  | Command_Set_Volume real

record volume_conn = sample_conn +
  software_mute_enabled :: bool
  own_airplay_volume :: real

definition player_send_volume_metadata ::
  "volume_config \<Rightarrow> bool \<Rightarrow> real \<Rightarrow> real \<Rightarrow> int \<Rightarrow> int \<Rightarrow> int \<Rightarrow> volume_effect" where
  "player_send_volume_metadata cfg vol_mode_both airplay_volume a max_db min_db hw_max =
     (if \<not> ignore_volume_control cfg then
        if vol_mode_both
        then Pvol airplay_volume ((a - of_int max_db + of_int hw_max) / 100)
               (of_int (min_db - max_db + hw_max) / 100) (of_int (max_db - max_db + hw_max) / 100)
        else Pvol airplay_volume (a / 100) (of_int min_db / 100) (of_int max_db / 100)
      else Pvol airplay_volume 0 0 0)"

definition fixed_volume :: "real \<Rightarrow> u32" where
  "fixed_volume software_attenuation = word_of_int \<lfloor>65536 * 10 powr (software_attenuation / 2000)\<rfloor>"

definition mute_output ::
  "volume_config \<Rightarrow> volume_output \<Rightarrow> volume_conn \<Rightarrow> volume_conn \<times> volume_effect list" where
  "mute_output cfg out conn =
     (if ignore_volume_control cfg then (conn, [])
      else case mutes out of
          Some True \<Rightarrow> (conn, [Mute 1])
        | Some False \<Rightarrow> (conn\<lparr>software_mute_enabled := True\<rparr>, [Mute 1])
        | None \<Rightarrow> (conn\<lparr>software_mute_enabled := True\<rparr>, []))"

definition apply_attenuation ::
  "volume_output \<Rightarrow> volume_mode \<Rightarrow> real \<times> real \<Rightarrow> volume_conn \<Rightarrow> volume_conn \<times> volume_effect list" where
  "apply_attenuation out mode hs conn =
     (let uses_hw = mode \<noteq> vol_sw_only \<and> sets_volume out;
          conn = (if uses_hw \<and> mode = vol_hw_only then conn\<lparr>fix_volume := 0x10000\<rparr> else conn);
          conn = (if mode \<noteq> vol_hw_only then conn\<lparr>fix_volume := fixed_volume (snd hs)\<rparr> else conn)
      in (conn, if uses_hw then [Output_Volume (fst hs)] else []))"

definition player_volume_without_notification ::
  "volume_config \<Rightarrow> volume_output \<Rightarrow> real \<Rightarrow> volume_conn \<Rightarrow> volume_conn \<times> volume_effect list" where
  "player_volume_without_notification cfg out airplay_volume conn =
     (let m = mixer_limits cfg out; both = (volume_mode m = vol_both);
          (conn', effects) =
            (if airplay_volume = - 144 then
               let (c, es) = mute_output cfg out conn
               in (c, es @ [player_send_volume_metadata cfg both airplay_volume 0 0 0 0])
             else
               let (max_db, min_db) = whole_range m; a = scaled_attenuation cfg m airplay_volume;
                   (c, es) = apply_attenuation out (volume_mode m) (apportion cfg m a) conn
               in (c\<lparr>software_mute_enabled := False\<rparr>,
                   es @ [player_send_volume_metadata cfg both airplay_volume a max_db min_db (hw_max_db m)]
                   @ (if mutes out \<noteq> None then [Mute 0] else [])))
      in (conn'\<lparr>own_airplay_volume := airplay_volume\<rparr>, effects))"

definition player_volume ::
  "volume_config \<Rightarrow> volume_output \<Rightarrow> real \<Rightarrow> volume_conn \<Rightarrow> volume_conn \<times> volume_effect list" where
  "player_volume cfg out airplay_volume conn =
     (let (c, es) = player_volume_without_notification cfg out airplay_volume conn
      in (c, Command_Set_Volume airplay_volume # es))"

end
