(* ===== verification/Volume_Proofs.thy ===== *)
theory Volume_Proofs
  imports Volume Sample_Proofs
begin

text \<open>
  The profiles of the volume control run from the lowest to the highest attenuation and never turn
  back, and what is given to the two mixers stays within their ranges and adds up. One setting of the
  maximum volume makes the scaling of samples amplify them, until they overflow.
\<close>

section \<open>The standard profile\<close>

text \<open>A line that falls from zero to its end point.\<close>

definition falls :: "real \<times> real \<Rightarrow> bool" where
  "falls l \<longleftrightarrow> fst l > - 30 \<and> snd l \<le> 0"

lemma line_at_alt: "line_at v l = snd l * ((fst l - v) / (30 + fst l))"
proof -
  have "v - fst l = - (fst l - v)" "- 30 - fst l = - (30 + fst l)" by simp_all
  then show ?thesis by (simp only: line_at_def minus_divide_divide mult_minus_right times_divide_eq_right)
qed

lemma line_at_mono: "falls l \<Longrightarrow> v \<le> w \<Longrightarrow> line_at v l \<le> line_at w l"
  unfolding line_at_alt falls_def by (intro mult_left_mono_neg divide_right_mono) auto

lemma line_at_lowest: "falls l \<Longrightarrow> - 30 \<le> v \<Longrightarrow> snd l \<le> line_at v l"
  unfolding line_at_alt falls_def by (rule order_trans [OF _ mult_left_mono_neg [of _ 1]]) auto

lemma line_at_end: "falls l \<Longrightarrow> line_at (- 30) l = snd l"
  by (simp add: line_at_alt falls_def add.commute)

lemma lowest_line_mono:
  "\<lbrakk>\<forall>l \<in> set ls. falls l; v \<le> w; a \<le> b\<rbrakk> \<Longrightarrow> lowest_line v ls a \<le> lowest_line w ls b"
proof (induction ls arbitrary: a b)
  case (Cons l ls)
  have "line_at v l \<le> line_at w l" using Cons.prems by (intro line_at_mono) auto
  with Cons.prems show ?case unfolding lowest_line.simps by (intro Cons.IH) auto
qed simp

lemma lowest_line_le: "lowest_line v ls a \<le> a"
proof (induction ls arbitrary: a)
  case (Cons l ls)
  show ?case unfolding lowest_line.simps by (rule order_trans [OF Cons.IH]) simp
qed simp

lemma lowest_line_le_line: "l \<in> set ls \<Longrightarrow> v \<le> fst l \<Longrightarrow> lowest_line v ls a \<le> line_at v l"
proof (induction ls arbitrary: a)
  case (Cons k ls)
  then show ?case
    by (cases "l = k") (auto intro: order_trans [OF lowest_line_le])
qed simp

lemma lowest_line_ge:
  "\<lbrakk>\<forall>l \<in> set ls. falls l \<and> c \<le> snd l; - 30 \<le> v; c \<le> a\<rbrakk> \<Longrightarrow> c \<le> lowest_line v ls a"
proof (induction ls arbitrary: a)
  case (Cons l ls)
  have "snd l \<le> line_at v l" using Cons.prems by (intro line_at_lowest) auto
  then show ?case unfolding lowest_line.simps using Cons.prems by (intro Cons.IH) auto
qed simp

lemma first_slope_half: "0 \<le> r \<Longrightarrow> first_slope r = - of_int (r div 2)"
proof -
  assume r: "0 \<le> r"
  then have "(- r) sdiv 2 = - (r div 2)"
    by (cases "r = 0") (auto simp: signed_divide_int_def sgn_mult)
  moreover have "- r \<le> - (r div 2)" using r by linarith
  ultimately show ?thesis by (simp add: first_slope_def Let_def flip: of_int_minus)
qed

lemma vol2attn_lines_fall:
  assumes "0 \<le> r" "l \<in> set (vol2attn_lines r)"
  shows "falls l \<and> of_int (- r) \<le> snd l"
proof -
  define h :: real where "h = of_int (r div 2)"
  have "0 \<le> r div 2" "2 * (r div 2) \<le> r" using assms(1) by linarith+
  then have "0 \<le> h" "2 * h \<le> of_int r" unfolding h_def by linarith+
  then show ?thesis
    using assms(2)
    by (auto simp: vol2attn_lines_def falls_def first_slope_half [OF assms(1)] field_simps simp flip: h_def)
qed

section \<open>All profiles\<close>

lemma vol_pct_range: "volume_in_range v \<Longrightarrow> 0 \<le> 1 - v / (- 30) \<and> 1 - v / (- 30) \<le> 1"
  by (auto simp: volume_in_range_def)

text \<open>The tapered profile as the greater one of two values.\<close>

definition tapered :: "real \<Rightarrow> int \<Rightarrow> real" where
  "tapered p max_db = of_int max_db + 1000 * log 10 p / log 10 2"

definition flat_at :: "real \<Rightarrow> int \<Rightarrow> int \<Rightarrow> real" where
  "flat_at p max_db min_db = of_int min_db + of_int (max_db - min_db) * p"

lemma tapered_mono: "0 < p \<Longrightarrow> p \<le> q \<Longrightarrow> tapered p m \<le> tapered q m"
  by (auto simp: tapered_def intro!: divide_right_mono)

lemma tapered_le: "0 < p \<Longrightarrow> p \<le> 1 \<Longrightarrow> tapered p m \<le> of_int m"
  using tapered_mono [of p 1 m] by (simp add: tapered_def)

lemma flat_at_mono: "n \<le> m \<Longrightarrow> p \<le> q \<Longrightarrow> flat_at p m n \<le> flat_at q m n"
  by (auto simp: flat_at_def intro!: mult_left_mono)

lemma flat_vol2attn_alt:
  "flat_vol2attn v m n = (if volume_in_range v then flat_at (1 - v / (- 30)) m n else of_int n)"
  by (simp add: flat_vol2attn_def flat_at_def field_simps)

lemma dasl_alt:
  "dasl_tapered_vol2attn v m n =
     (if volume_in_range v \<and> 1 - v / (- 30) > 0
      then max (flat_at (1 - v / (- 30)) m n) (tapered (1 - v / (- 30)) m) else of_int n)"
proof (cases "volume_in_range v \<and> 1 - v / (- 30) > 0")
  case True
  then have "tapered (1 - v / (- 30)) m \<le> of_int m"
    using vol_pct_range [of v] by (intro tapered_le) auto
  then show ?thesis using True
    by (auto simp: dasl_tapered_vol2attn_def Let_def tapered_def flat_at_def max_def)
qed (auto simp: dasl_tapered_vol2attn_def Let_def)

lemma flat_at_ge: "n \<le> m \<Longrightarrow> 0 \<le> p \<Longrightarrow> of_int n \<le> flat_at p m n"
  by (simp add: flat_at_def)

lemma flat_at_le: "n \<le> m \<Longrightarrow> p \<le> 1 \<Longrightarrow> flat_at p m n \<le> of_int m"
  using flat_at_mono [of n m p 1] by (simp add: flat_at_def)

lemma profile_top: "n \<le> m \<Longrightarrow> profile_attenuation p 0 m n = of_int m"
  by (cases p)
    (auto simp: profile_attenuation_def vol2attn_def volume_in_range_def vol2attn_lines_def line_at_def
      flat_vol2attn_alt dasl_alt flat_at_def tapered_def)

lemma profile_out_of_range: "\<not> volume_in_range v \<Longrightarrow> profile_attenuation p v m n = of_int n"
  by (cases p) (simp_all add: profile_attenuation_def vol2attn_def flat_vol2attn_def dasl_tapered_vol2attn_def)

lemma standard_range:
  assumes "n \<le> m" "volume_in_range v"
  shows "of_int n \<le> vol2attn v m n" and "vol2attn v m n \<le> of_int m"
proof -
  have "of_int (- (m - n)) \<le> lowest_line v (vol2attn_lines (m - n)) 0"
    using assms vol2attn_lines_fall [of "m - n"]
    by (intro lowest_line_ge) (auto simp: volume_in_range_def)
  then show "of_int n \<le> vol2attn v m n" using assms(2) by (simp add: vol2attn_def)
  show "vol2attn v m n \<le> of_int m" using assms(2) by (simp add: vol2attn_def lowest_line_le)
qed

lemma standard_bottom:
  assumes "n \<le> m"
  shows "vol2attn (- 30) m n = of_int n"
proof -
  have l: "(- 17, of_int (- (m - n))) \<in> set (vol2attn_lines (m - n))" by (simp add: vol2attn_lines_def)
  have "lowest_line (- 30) (vol2attn_lines (m - n)) 0 \<le> of_int (- (m - n))"
    using lowest_line_le_line [OF l, of "- 30" 0] line_at_end [of "(- 17, of_int (- (m - n)))"] assms
    by (simp add: falls_def)
  then have "vol2attn (- 30) m n \<le> of_int n" by (simp add: vol2attn_def volume_in_range_def)
  then show ?thesis using standard_range(1) [OF assms, of "- 30"] by (simp add: volume_in_range_def)
qed

lemma profile_bottom: "n \<le> m \<Longrightarrow> profile_attenuation p (- 30) m n = of_int n"
  by (cases p)
    (auto simp: profile_attenuation_def standard_bottom flat_vol2attn_def dasl_alt)

lemma profile_range:
  assumes "n \<le> m"
  shows "of_int n \<le> profile_attenuation p v m n \<and> profile_attenuation p v m n \<le> of_int m"
proof (cases "volume_in_range v")
  case True
  note range = vol_pct_range [OF True]
  have "of_int n \<le> flat_at (1 - v / (- 30)) m n" using assms range by (intro flat_at_ge) auto
  moreover have "flat_at (1 - v / (- 30)) m n \<le> of_int m" using assms range by (intro flat_at_le) auto
  moreover have "1 - v / (- 30) > 0 \<Longrightarrow> tapered (1 - v / (- 30)) m \<le> of_int m"
    using range by (intro tapered_le) auto
  ultimately show ?thesis
    using True assms
    by (cases p) (auto simp: profile_attenuation_def standard_range flat_vol2attn_alt dasl_alt le_max_iff_disj)
next
  case False
  then show ?thesis using assms by (simp add: profile_out_of_range)
qed

lemma standard_mono:
  assumes "n \<le> m" "volume_in_range v" "volume_in_range w" "v \<le> w"
  shows "vol2attn v m n \<le> vol2attn w m n"
  using assms vol2attn_lines_fall [of "m - n"] by (simp add: vol2attn_def lowest_line_mono)

lemma dasl_mono:
  assumes "n \<le> m" "volume_in_range v" "volume_in_range w" "v \<le> w"
  shows "dasl_tapered_vol2attn v m n \<le> dasl_tapered_vol2attn w m n"
proof (cases "1 - v / (- 30) > 0")
  case True
  have le: "1 - v / (- 30) \<le> 1 - w / (- 30)" using assms(4) by simp
  then have "1 - w / (- 30) > 0" using True by linarith
  moreover have "max (flat_at (1 - v / (- 30)) m n) (tapered (1 - v / (- 30)) m)
      \<le> max (flat_at (1 - w / (- 30)) m n) (tapered (1 - w / (- 30)) m)"
    by (rule max.mono [OF flat_at_mono [OF assms(1) le] tapered_mono [OF True le]])
  ultimately show ?thesis using True assms by (simp only: dasl_alt simp_thms if_True)
next
  case False
  then show ?thesis
    using profile_range [OF assms(1), of VCP_dasl_tapered w] by (simp add: dasl_alt profile_attenuation_def)
qed

lemma profile_mono:
  assumes "n \<le> m" "volume_in_range v" "volume_in_range w" "v \<le> w"
  shows "profile_attenuation p v m n \<le> profile_attenuation p w m n"
proof -
  have "flat_vol2attn v m n \<le> flat_vol2attn w m n"
    using assms by (simp only: flat_vol2attn_alt if_True) (intro flat_at_mono; simp)
  then show ?thesis
    using standard_mono [OF assms] dasl_mono [OF assms] by (cases p) (simp_all add: profile_attenuation_def)
qed

text \<open>
  Each of the three volume profiles gives the highest attenuation for the volume 0 and the lowest for
  -30 and for a volume outside the range (-144, which asks for silence, included), stays between the two for every volume,
  and never falls as the volume rises.
\<close>

theorem volume_profiles_sound:
  assumes "min_db \<le> max_db"
  shows "profile_attenuation p 0 max_db min_db = of_int max_db
    \<and> profile_attenuation p (- 30) max_db min_db = of_int min_db
    \<and> profile_attenuation p (- 144) max_db min_db = of_int min_db
    \<and> of_int min_db \<le> profile_attenuation p vol max_db min_db
    \<and> profile_attenuation p vol max_db min_db \<le> of_int max_db
    \<and> (- 30 \<le> vol \<and> vol \<le> vol' \<and> vol' \<le> 0
        \<longrightarrow> profile_attenuation p vol max_db min_db \<le> profile_attenuation p vol' max_db min_db)"
  using assms profile_range [OF assms, of p vol] profile_mono [OF assms, of vol vol' p]
  by (auto simp: profile_top profile_bottom profile_out_of_range volume_in_range_def)

lemma volume_profiles_sound_witness:
  "of_int (- 9630) \<le> profile_attenuation VCP_dasl_tapered (- 15) 0 (- 9630)
    \<and> profile_attenuation VCP_dasl_tapered (- 15) 0 (- 9630) \<le> profile_attenuation VCP_dasl_tapered (- 7) 0 (- 9630)"
  using volume_profiles_sound [of "- 9630" 0 VCP_dasl_tapered "- 15" "- 7"] by simp

text \<open>
  The comment on the tapered profile says that the output falls by 30 dB at the volume -25.25. It does so at
  -26.25, the half of the half of the half.
\<close>

lemma log_10_2_pos: "log 10 (2 :: real) > 0"
  by simp

lemma tapered_eighth: "dasl_tapered_vol2attn (- 26.25) 0 (- 9630) = - 3000"
proof -
  have "log 10 (1 / 8) = - 3 * log 10 (2 :: real)"
    using log_nat_power [of "2 :: real" 10 3] by (simp add: log_divide)
  then have "tapered (1 / 8) 0 = - 3000" using log_10_2_pos by (simp add: tapered_def del: zero_less_log_cancel_iff)
  then show ?thesis by (simp add: dasl_alt volume_in_range_def flat_at_def)
qed

lemma tapered_comment: "dasl_tapered_vol2attn (- 25.25) 0 (- 9630) > - 3000"
proof -
  have "log 10 (1 / 8) = - 3 * log 10 (2 :: real)"
    using log_nat_power [of "2 :: real" 10 3] by (simp add: log_divide)
  moreover have "log 10 (1 / 8 :: real) < log 10 (19 / 120)" by simp
  ultimately have "- 3 < log 10 (19 / 120) / log 10 (2 :: real)" by (simp add: less_divide_eq)
  then have "tapered (19 / 120) 0 > - 3000" by (simp add: tapered_def)
  then show ?thesis by (simp add: dasl_alt volume_in_range_def)
qed

section \<open>The two mixers\<close>

text \<open>
  What is asked of the settings: the range is at most 150 dB, as the reader of the configuration file sees to,
  the device's range is a range, and if both mixers may be used the maximum volume is not above the highest
  of the device, nor further below its lowest than samples can be scaled. The reader of the configuration file
  takes any maximum.
\<close>

definition sensible :: "volume_config \<Rightarrow> volume_output \<Rightarrow> bool" where
  "sensible cfg out \<longleftrightarrow> volume_range_db cfg \<le> 150 \<and>
     (\<forall>lo hi. volume_range out = Some (lo, hi) \<longrightarrow> lo \<le> hi \<and>
       (volume_max_db_set cfg \<and> volume_range_db cfg \<noteq> 0 \<longrightarrow>
          volume_max_db cfg * 100 \<le> hi \<and> lo - 9630 \<le> volume_max_db cfg * 100))"

lemma desired_range_nonneg:
  assumes "volume_range_db cfg \<le> 150"
  shows "0 \<le> desired_range_db cfg"
proof -
  define n where "n = unat (volume_range_db cfg)"
  have n: "n \<le> 150" using assms by (simp add: n_def word_le_nat_alt)
  have "unat (volume_range_db cfg * 100) = n * 100"
    using n unat_mult_lem [of "volume_range_db cfg" 100] by (simp add: n_def)
  then have "volume_range_db cfg * 100 = word_of_int (int (n * 100))"
    by (metis of_nat_unat word_of_int_uint)
  moreover have "sint (word_of_int (int (n * 100)) :: u32) = int (n * 100)"
    using n by (intro sint_word_of_int_32) auto
  ultimately show ?thesis by (simp add: desired_range_db_def)
qed

definition limits_ok :: "volume_output \<Rightarrow> mixers \<Rightarrow> bool" where
  "limits_ok out m \<longleftrightarrow> sw_min_db m \<ge> - 9630 \<and> sw_max_db m \<le> 0
     \<and> (volume_mode m = vol_sw_only \<or> hw_min_db m \<le> hw_max_db m)
     \<and> (volume_mode m = vol_hw_only \<or> sw_min_db m \<le> sw_max_db m)
     \<and> (volume_range out = None \<longleftrightarrow> volume_mode m = vol_sw_only)
     \<and> (\<forall>lo hi. volume_range out = Some (lo, hi) \<longrightarrow> lo \<le> hw_min_db m \<and> hw_max_db m \<le> hi)"

lemma mixer_limits_ok:
  assumes "sensible cfg out"
  shows "limits_ok out (mixer_limits cfg out)"
proof (cases "volume_range out")
  case None
  have "0 \<le> desired_range_db cfg" using assms by (simp add: desired_range_nonneg sensible_def)
  with None show ?thesis
    by (simp add: mixer_limits_def software_range_def software_maximum_def limits_ok_def)
next
  case (Some r)
  obtain lo hi where r: "r = (lo, hi)" by fastforce
  have d: "0 \<le> desired_range_db cfg" using assms by (simp add: desired_range_nonneg sensible_def)
  have "lo \<le> hi" using assms Some r by (simp add: sensible_def)
  moreover have "volume_max_db_set cfg \<Longrightarrow> volume_range_db cfg \<noteq> 0 \<Longrightarrow>
      volume_max_db cfg * 100 \<le> hi \<and> lo - 9630 \<le> volume_max_db cfg * 100"
    using assms Some r by (simp add: sensible_def)
  ultimately show ?thesis using d Some r
    by (cases "volume_range_db cfg = 0"; cases "volume_max_db_set cfg")
      (auto simp: mixer_limits_def hardware_range_def hardware_maximum_def limits_ok_def Let_def)
qed

text \<open>What the two mixers are given lies in their ranges and adds up to the attenuation that was asked for.\<close>

definition shares_ok :: "mixers \<Rightarrow> real \<times> real \<Rightarrow> real \<Rightarrow> bool" where
  "shares_ok m hs a \<longleftrightarrow>
     (volume_mode m \<noteq> vol_sw_only \<longrightarrow> of_int (hw_min_db m) \<le> fst hs \<and> fst hs \<le> of_int (hw_max_db m))
   \<and> (volume_mode m \<noteq> vol_hw_only \<longrightarrow> of_int (sw_min_db m) \<le> snd hs \<and> snd hs \<le> of_int (sw_max_db m))
   \<and> (case volume_mode m of vol_hw_only \<Rightarrow> fst hs = a | vol_sw_only \<Rightarrow> snd hs = a
      | vol_both \<Rightarrow> fst hs - of_int (hw_min_db m) + (snd hs - of_int (sw_min_db m)) = a)"

lemma apportion_ok:
  assumes "limits_ok out m" "of_int (snd (whole_range m)) \<le> a" "a \<le> of_int (fst (whole_range m))"
  shows "shares_ok m (apportion cfg m a) a"
proof (cases "volume_mode m")
  case vol_both
  then have "of_int (hw_min_db m) \<le> (of_int (hw_max_db m) :: real)"
    "of_int (sw_min_db m) \<le> (of_int (sw_max_db m) :: real)"
    using assms(1) by (auto simp: limits_ok_def)
  then show ?thesis using assms(2,3) vol_both
    by (simp add: shares_ok_def apportion_def whole_range_def Let_def)
qed (use assms in \<open>auto simp: shares_ok_def apportion_def whole_range_def\<close>)

lemma whole_range_ordered: "limits_ok out m \<Longrightarrow> snd (whole_range m) \<le> fst (whole_range m)"
  by (auto simp: limits_ok_def whole_range_def split: volume_mode.splits)

lemma scaled_attenuation_range:
  assumes "limits_ok out m"
  shows "of_int (snd (whole_range m)) \<le> scaled_attenuation cfg m v
    \<and> scaled_attenuation cfg m v \<le> of_int (fst (whole_range m))"
  using whole_range_ordered [OF assms] profile_range [OF whole_range_ordered [OF assms]]
  by (auto simp: scaled_attenuation_def split: prod.splits)

lemma fixed_volume_range:
  assumes "a \<le> 0"
  shows "0 \<le> sint (fixed_volume a) \<and> sint (fixed_volume a) \<le> 65536"
proof -
  define x where "x = \<lfloor>65536 * 10 powr (a / 2000)\<rfloor>"
  have "10 powr (a / 2000) \<le> 10 powr (0 :: real)" using assms by (intro powr_mono) auto
  then have "0 \<le> x" "x \<le> 65536" unfolding x_def by (simp_all add: floor_le_iff)
  then have "sint (word_of_int x :: u32) = x" by (simp add: sint_word_of_int_32)
  then show ?thesis using \<open>0 \<le> x\<close> \<open>x \<le> 65536\<close> by (simp add: fixed_volume_def flip: x_def)
qed

section \<open>Setting the volume\<close>

definition volume_inputs_ok :: "volume_conn \<Rightarrow> bool" where
  "volume_inputs_ok conn \<longleftrightarrow> 0 \<le> sint (fix_volume conn) \<and> sint (fix_volume conn) \<le> 65536"

lemma apply_attenuation_ok:
  assumes "shares_ok m hs a" "limits_ok out m" "volume_inputs_ok conn"
    and "apply_attenuation out (volume_mode m) hs conn = (conn', es)"
  shows "volume_inputs_ok conn'"
    and "\<And>h. Output_Volume h \<in> set es \<Longrightarrow> of_int (hw_min_db m) \<le> h \<and> h \<le> of_int (hw_max_db m)"
proof -
  have "volume_mode m \<noteq> vol_hw_only \<Longrightarrow> snd hs \<le> 0"
    using assms(1,2) by (auto simp: shares_ok_def limits_ok_def)
  then show "volume_inputs_ok conn'"
    using assms(3,4) fixed_volume_range [of "snd hs"]
    by (auto simp: apply_attenuation_def volume_inputs_ok_def Let_def split: if_splits)
  show "\<And>h. Output_Volume h \<in> set es \<Longrightarrow> of_int (hw_min_db m) \<le> h \<and> h \<le> of_int (hw_max_db m)"
    using assms(1,4) by (auto simp: apply_attenuation_def shares_ok_def Let_def split: if_splits)
qed

lemma mute_output_effects: "Output_Volume h \<notin> set (snd (mute_output cfg out conn))"
  by (auto simp: mute_output_def split: option.split bool.split)

lemma pvol_only: "player_send_volume_metadata cfg b v a x y z \<noteq> Output_Volume h"
  by (auto simp: player_send_volume_metadata_def)

lemma mute_output_keeps: "fix_volume (fst (mute_output cfg out conn)) = fix_volume conn"
  by (auto simp: mute_output_def split: option.split bool.split)

text \<open>
  C39. Whatever volume is asked for, under sensible settings the mixer of the device is only given values of
  its own range, and samples are never amplified: their factor stays between 0 and 65536, which stands for 1.
\<close>

theorem volume_within_limits:
  assumes "sensible cfg out" "volume_inputs_ok conn"
    and "player_volume cfg out vol conn = (conn', es)"
  shows "0 \<le> sint (fix_volume conn') \<and> sint (fix_volume conn') \<le> 65536
    \<and> (\<forall>h. Output_Volume h \<in> set es \<longrightarrow>
          (\<exists>lo hi. volume_range out = Some (lo, hi) \<and> of_int lo \<le> h \<and> h \<le> of_int hi))"
proof -
  define m where "m = mixer_limits cfg out"
  have ok: "limits_ok out m" unfolding m_def by (rule mixer_limits_ok [OF assms(1)])
  show ?thesis
  proof (cases "vol = - 144")
    case True
    then show ?thesis
      using assms(2,3) mute_output_effects [of _ cfg out conn] mute_output_keeps [of cfg out conn]
      by (auto simp: player_volume_def player_volume_without_notification_def volume_inputs_ok_def Let_def
          pvol_only [THEN not_sym] split: prod.splits)
  next
    case False
    define a where "a = scaled_attenuation cfg m vol"
    have share: "shares_ok m (apportion cfg m a) a"
      using scaled_attenuation_range [OF ok] unfolding a_def by (intro apportion_ok [OF ok]) auto
    obtain c fs where att: "apply_attenuation out (volume_mode m) (apportion cfg m a) conn = (c, fs)" by fastforce
    have h: "Output_Volume h \<in> set es \<longleftrightarrow> Output_Volume h \<in> set fs" and f: "fix_volume conn' = fix_volume c" for h
      using assms(3) False att
      by (auto simp: player_volume_def player_volume_without_notification_def Let_def a_def m_def
          pvol_only [THEN not_sym] split: prod.splits if_splits)
    have "\<exists>lo hi. volume_range out = Some (lo, hi) \<and> of_int lo \<le> h \<and> h \<le> of_int hi"
      if "Output_Volume h \<in> set fs" for h
    proof -
      have "volume_mode m \<noteq> vol_sw_only"
        using that att by (auto simp: apply_attenuation_def Let_def split: if_splits)
      then obtain lo hi where r: "volume_range out = Some (lo, hi)" using ok by (auto simp: limits_ok_def)
      then have "lo \<le> hw_min_db m" "hw_max_db m \<le> hi" using ok by (auto simp: limits_ok_def)
      then show ?thesis
        using r apply_attenuation_ok(2) [OF share ok assms(2) att that]
        by (intro exI [of _ lo] exI [of _ hi]) (auto intro: order_trans)
    qed
    then show ?thesis
      using apply_attenuation_ok(1) [OF share ok assms(2) att] by (auto simp: h f volume_inputs_ok_def)
  qed
qed

text \<open>A device with a mixer of 37 dB, a range of 60 dB, and no maximum.\<close>

definition plain_volume_config :: volume_config where
  "plain_volume_config =
     \<lparr>volume_max_db_set = False, volume_max_db = 0, volume_range_db = 60, volume_range_hw_priority = True,
      ignore_volume_control = False, volume_control_profile = VCP_flat\<rparr>"

definition mixer_output :: volume_output where
  "mixer_output = \<lparr>volume_range = Some (- 3700, 0), sets_volume = True, mutes = Some True\<rparr>"

definition new_volume_conn :: volume_conn where
  "new_volume_conn =
     \<lparr>do_loudness = False, fix_volume = 65536, previous_random_number = 0, input_num_channels = 2,
      rx = \<lparr>ra = 0, rb = 0, rc = 0, rd = 0\<rparr>, software_mute_enabled = False, own_airplay_volume = 0\<rparr>"

lemma plain_sensible: "sensible plain_volume_config mixer_output"
  by (simp add: sensible_def plain_volume_config_def mixer_output_def)

lemma plain_limits:
  "mixer_limits plain_volume_config mixer_output =
     \<lparr>volume_mode = vol_both, hw_max_db = 0, hw_min_db = - 3700, sw_max_db = 0, sw_min_db = - 2300\<rparr>"
  by (simp add: mixer_limits_def hardware_range_def hardware_maximum_def plain_volume_config_def mixer_output_def
      desired_range_db_def)

lemma plain_fields:
  "ignore_volume_control plain_volume_config = False" "volume_range_hw_priority plain_volume_config = True"
  "sets_volume mixer_output = True" "mutes mixer_output = Some True"
  by (simp_all add: plain_volume_config_def mixer_output_def)

lemma plain_volume_0:
  "snd (player_volume plain_volume_config mixer_output 0 new_volume_conn)
     = [Command_Set_Volume 0, Output_Volume 0, Pvol 0 0 (- 60) 0, Mute 0]"
  by (simp add: player_volume_def player_volume_without_notification_def plain_limits Let_def whole_range_def
      scaled_attenuation_def apportion_def apply_attenuation_def player_send_volume_metadata_def
      plain_fields profile_top)

lemma volume_within_limits_witness:
  "sint (fix_volume (fst (player_volume plain_volume_config mixer_output 0 new_volume_conn))) \<le> 65536
    \<and> (\<exists>lo hi. volume_range mixer_output = Some (lo, hi) \<and> real_of_int lo \<le> 0 \<and> 0 \<le> real_of_int hi)"
proof -
  have "volume_inputs_ok new_volume_conn" by (simp add: volume_inputs_ok_def new_volume_conn_def)
  from volume_within_limits [OF plain_sensible this surjective_pairing, of 0]
  show ?thesis by (simp add: plain_volume_0)
qed

section \<open>A maximum above the range of the device\<close>

definition loud_volume_config :: volume_config where
  "loud_volume_config = plain_volume_config\<lparr>volume_max_db_set := True, volume_max_db := 3\<rparr>"

lemma loud_limits:
  "mixer_limits loud_volume_config mixer_output =
     \<lparr>volume_mode = vol_both, hw_max_db = - 3700, hw_min_db = - 3700, sw_max_db = 4000, sw_min_db = - 2000\<rparr>"
  by (simp add: mixer_limits_def hardware_range_def hardware_maximum_def plain_volume_config_def mixer_output_def
      desired_range_db_def loud_volume_config_def)

lemma loud_fields:
  "ignore_volume_control loud_volume_config = False" "volume_range_hw_priority loud_volume_config = True"
  by (simp_all add: loud_volume_config_def plain_volume_config_def)

lemma fixed_volume_4000: "fixed_volume 4000 = 6553600"
  by (simp add: fixed_volume_def)

text \<open>
  A maximum volume that lies above the range of the device's mixer, with a range that is set, turns the
  mixer down for good and makes up for it in software: at full volume with a maximum of 3 dB and a mixer from -37 to 0 dB,
  the samples are multiplied by 100. A full-scale sample then overflows, and comes out as -100.
\<close>

theorem excess_maximum_amplifies:
  "fix_volume (fst (player_volume loud_volume_config mixer_output 0 new_volume_conn)) = 100 * 65536
   \<and> snd (player_volume loud_volume_config mixer_output 0 new_volume_conn) ! 1 = Output_Volume (- 3700)
   \<and> map_option (output_value SPS_FORMAT_S32_LE \<circ> fst)
       (process_sample 0x7FFFFFFF SPS_FORMAT_S32_LE (100 * 65536) False (sample_conn.truncate new_volume_conn))
     = Some (- 100)"
proof -
  have "player_volume loud_volume_config mixer_output 0 new_volume_conn =
      (new_volume_conn\<lparr>fix_volume := 6553600, software_mute_enabled := False, own_airplay_volume := 0\<rparr>,
       [Command_Set_Volume 0, Output_Volume (- 3700), Pvol 0 (- 37) (- 97) (- 37), Mute 0])"
    by (simp add: player_volume_def player_volume_without_notification_def loud_limits Let_def whole_range_def
        scaled_attenuation_def apportion_def apply_attenuation_def player_send_volume_metadata_def
        loud_fields plain_fields profile_top fixed_volume_4000)
  moreover have "map_option (output_value SPS_FORMAT_S32_LE \<circ> fst)
       (process_sample 0x7FFFFFFF SPS_FORMAT_S32_LE (100 * 65536) False (sample_conn.truncate new_volume_conn))
     = Some (- 100)"
    by code_simp
  ultimately show ?thesis by simp
qed

section \<open>Muting\<close>

text \<open>The mute of the device after a list of effects, where \<open>b\<close> is its state before.\<close>

fun device_mute :: "volume_output \<Rightarrow> bool \<Rightarrow> volume_effect list \<Rightarrow> bool" where
  "device_mute out b [] = b"
| "device_mute out b (e # es) =
     device_mute out (case e of Mute n \<Rightarrow> if n = 0 then False else b \<or> mutes out = Some True | _ \<Rightarrow> b) es"

lemma device_mute_append: "device_mute out b (xs @ ys) = device_mute out (device_mute out b xs) ys"
  by (induction xs arbitrary: b) auto

fun volume_requests ::
  "volume_config \<Rightarrow> volume_output \<Rightarrow> real list \<Rightarrow> volume_conn \<times> bool \<Rightarrow> volume_conn \<times> bool" where
  "volume_requests cfg out [] (c, b) = (c, b)"
| "volume_requests cfg out (v # vs) (c, b) =
     (let (c', es) = player_volume cfg out v c in volume_requests cfg out vs (c', device_mute out b es))"

definition silent :: "volume_conn \<times> bool \<Rightarrow> bool" where
  "silent s \<longleftrightarrow> software_mute_enabled (fst s) \<or> snd s"

lemma player_volume_mute:
  assumes "\<not> ignore_volume_control cfg" "player_volume cfg out v c = (c', es)"
    and "mutes out = None \<longrightarrow> \<not> b"
  shows "silent (c', device_mute out b es) \<longleftrightarrow> v = - 144"
    and "mutes out = None \<longrightarrow> \<not> device_mute out b es"
  using assms
  by (auto simp: player_volume_def player_volume_without_notification_def Let_def silent_def mute_output_def
      apply_attenuation_def player_send_volume_metadata_def device_mute_append
      split: prod.splits if_splits option.splits bool.splits)

text \<open>
  When the volume is not ignored, then after any sequence of requests the output is silent, by the
  device's mute or by that of the samples, exactly if the last volume asked for was -144, whatever the device can do.
\<close>

theorem last_volume_decides_mute:
  assumes "\<not> ignore_volume_control cfg" "\<not> b" "vs \<noteq> []"
  shows "silent (volume_requests cfg out vs (c, b)) \<longleftrightarrow> last vs = - 144"
proof -
  have "silent (volume_requests cfg out vs (c, b)) \<longleftrightarrow> last vs = - 144" if "mutes out = None \<longrightarrow> \<not> b" for b
    using \<open>vs \<noteq> []\<close> that
  proof (induction vs arbitrary: c b)
    case (Cons v vs)
    obtain c' es where e: "player_volume cfg out v c = (c', es)" by fastforce
    note step = player_volume_mute [OF assms(1) e Cons.prems(2)]
    show ?case using step Cons.IH [OF _ step(2), of c'] by (cases "vs = []") (auto simp: e)
  qed simp
  then show ?thesis using assms(2) by simp
qed

lemma last_volume_decides_mute_witness:
  "silent (volume_requests plain_volume_config mixer_output [- 20, - 144] (new_volume_conn, False))
    \<and> \<not> silent (volume_requests plain_volume_config mixer_output [- 144, - 20] (new_volume_conn, False))"
  using last_volume_decides_mute [of plain_volume_config False "[- 20, - 144]" mixer_output new_volume_conn]
    last_volume_decides_mute [of plain_volume_config False "[- 144, - 20]" mixer_output new_volume_conn]
  by (simp add: plain_volume_config_def)

end
