(* ===== verification/Output_Search.thy ===== *)
theory Output_Search
  imports Volume
begin

text \<open>
  The search for a configuration of the output device (\<open>audio.c\<close>): which formats, rates and numbers
  of channels the settings allow, the order in which the combinations are put to the back end, and the encoding
  of the outcome in one number (\<open>common.h\<close>).

  The back end's \<open>check_configuration\<close> is a parameter: the map \<open>methods\<close> gives for an address the
  function there, with \<open>True\<close> for the result 0, and address 0 stands for \<open>NULL\<close>. Its answers
  are taken not to change. The build with FFmpeg is modelled.
\<close>

section \<open>Rates and formats\<close>

datatype sps_rate =
    SPS_RATE_UNKNOWN | SPS_RATE_5512 | SPS_RATE_8000 | SPS_RATE_11025 | SPS_RATE_16000 | SPS_RATE_22050
  | SPS_RATE_32000 | SPS_RATE_44100 | SPS_RATE_48000 | SPS_RATE_64000 | SPS_RATE_88200 | SPS_RATE_96000
  | SPS_RATE_176400 | SPS_RATE_192000 | SPS_RATE_352800 | SPS_RATE_384000 | SPS_RATE_ILLEGAL

definition sps_rate_actual_rate :: "sps_rate \<Rightarrow> u32" where
  "sps_rate_actual_rate r =
     (case r of SPS_RATE_5512 \<Rightarrow> 5512 | SPS_RATE_8000 \<Rightarrow> 8000 | SPS_RATE_11025 \<Rightarrow> 11025
      | SPS_RATE_16000 \<Rightarrow> 16000 | SPS_RATE_22050 \<Rightarrow> 22050 | SPS_RATE_32000 \<Rightarrow> 32000
      | SPS_RATE_44100 \<Rightarrow> 44100 | SPS_RATE_48000 \<Rightarrow> 48000 | SPS_RATE_64000 \<Rightarrow> 64000
      | SPS_RATE_88200 \<Rightarrow> 88200 | SPS_RATE_96000 \<Rightarrow> 96000 | SPS_RATE_176400 \<Rightarrow> 176400
      | SPS_RATE_192000 \<Rightarrow> 192000 | SPS_RATE_352800 \<Rightarrow> 352800 | SPS_RATE_384000 \<Rightarrow> 384000
      | SPS_RATE_UNKNOWN \<Rightarrow> 0 | SPS_RATE_ILLEGAL \<Rightarrow> 0)"

text \<open>The rates from \<open>SPS_RATE_LOWEST\<close> to \<open>SPS_RATE_HIGHEST\<close>; the number of a rate is its place, from 1.\<close>

definition sps_rates :: "sps_rate list" where
  "sps_rates =
     [SPS_RATE_5512, SPS_RATE_8000, SPS_RATE_11025, SPS_RATE_16000, SPS_RATE_22050, SPS_RATE_32000,
      SPS_RATE_44100, SPS_RATE_48000, SPS_RATE_64000, SPS_RATE_88200, SPS_RATE_96000, SPS_RATE_176400,
      SPS_RATE_192000, SPS_RATE_352800, SPS_RATE_384000]"

definition rate_number :: "sps_rate \<Rightarrow> nat" where
  "rate_number r =
     (case r of SPS_RATE_UNKNOWN \<Rightarrow> 0 | SPS_RATE_5512 \<Rightarrow> 1 | SPS_RATE_8000 \<Rightarrow> 2 | SPS_RATE_11025 \<Rightarrow> 3
      | SPS_RATE_16000 \<Rightarrow> 4 | SPS_RATE_22050 \<Rightarrow> 5 | SPS_RATE_32000 \<Rightarrow> 6 | SPS_RATE_44100 \<Rightarrow> 7
      | SPS_RATE_48000 \<Rightarrow> 8 | SPS_RATE_64000 \<Rightarrow> 9 | SPS_RATE_88200 \<Rightarrow> 10 | SPS_RATE_96000 \<Rightarrow> 11
      | SPS_RATE_176400 \<Rightarrow> 12 | SPS_RATE_192000 \<Rightarrow> 13 | SPS_RATE_352800 \<Rightarrow> 14 | SPS_RATE_384000 \<Rightarrow> 15
      | SPS_RATE_ILLEGAL \<Rightarrow> 16)"

definition format_number :: "sps_format \<Rightarrow> nat" where
  "format_number f =
     (case f of SPS_FORMAT_UNKNOWN \<Rightarrow> 0 | SPS_FORMAT_S8 \<Rightarrow> 1 | SPS_FORMAT_U8 \<Rightarrow> 2 | SPS_FORMAT_S16_LE \<Rightarrow> 3
      | SPS_FORMAT_S16_BE \<Rightarrow> 4 | SPS_FORMAT_S24_LE \<Rightarrow> 5 | SPS_FORMAT_S24_BE \<Rightarrow> 6 | SPS_FORMAT_S24_3LE \<Rightarrow> 7
      | SPS_FORMAT_S24_3BE \<Rightarrow> 8 | SPS_FORMAT_S32_LE \<Rightarrow> 9 | SPS_FORMAT_S32_BE \<Rightarrow> 10 | SPS_FORMAT_S16 \<Rightarrow> 11
      | SPS_FORMAT_S24 \<Rightarrow> 12 | SPS_FORMAT_S32 \<Rightarrow> 13 | SPS_FORMAT_AUTO \<Rightarrow> 14 | SPS_FORMAT_INVALID \<Rightarrow> 15)"

definition native_formats :: "sps_format list" where
  "native_formats =
     [SPS_FORMAT_S8, SPS_FORMAT_U8, SPS_FORMAT_S16_LE, SPS_FORMAT_S16_BE, SPS_FORMAT_S24_LE, SPS_FORMAT_S24_BE,
      SPS_FORMAT_S24_3LE, SPS_FORMAT_S24_3BE, SPS_FORMAT_S32_LE, SPS_FORMAT_S32_BE]"

definition sps_format_description_string :: "sps_format \<Rightarrow> string" where
  "sps_format_description_string f =
     (case f of SPS_FORMAT_UNKNOWN \<Rightarrow> ''unknown'' | SPS_FORMAT_S8 \<Rightarrow> ''S8'' | SPS_FORMAT_U8 \<Rightarrow> ''U8''
      | SPS_FORMAT_S16_LE \<Rightarrow> ''S16_LE'' | SPS_FORMAT_S16_BE \<Rightarrow> ''S16_BE'' | SPS_FORMAT_S24_LE \<Rightarrow> ''S24_LE''
      | SPS_FORMAT_S24_BE \<Rightarrow> ''S24_BE'' | SPS_FORMAT_S24_3LE \<Rightarrow> ''S24_3LE'' | SPS_FORMAT_S24_3BE \<Rightarrow> ''S24_3BE''
      | SPS_FORMAT_S32_LE \<Rightarrow> ''S32_LE'' | SPS_FORMAT_S32_BE \<Rightarrow> ''S32_BE'' | SPS_FORMAT_S16 \<Rightarrow> ''S16''
      | SPS_FORMAT_S24 \<Rightarrow> ''S24'' | SPS_FORMAT_S32 \<Rightarrow> ''S32'' | SPS_FORMAT_AUTO \<Rightarrow> ''auto''
      | SPS_FORMAT_INVALID \<Rightarrow> ''invalid'')"

definition SPS_FORMAT_SET :: u32 where
  "SPS_FORMAT_SET = (push_bit 11 1 - 1) - push_bit 0 1"

definition SPS_RATE_SET :: u32 where
  "SPS_RATE_SET = (push_bit 16 1 - 1) - push_bit 0 1"

definition SPS_CHANNEL_SET :: u32 where
  "SPS_CHANNEL_SET = 0xFFFFFFFE"

section \<open>The settings\<close>

text \<open>
  What the configuration file has for a setting, as libconfig gives it: nothing (or an error in a list), one
  string, or some strings or numbers. The loop over the strings or numbers is a fold over their list.
\<close>

datatype setting = Absent | Text string | Texts "string list" | Numbers "u32 list"

definition format_setting :: "u32 \<Rightarrow> string \<Rightarrow> u32" where
  "format_setting format_set s =
     (if s = ''auto'' then SPS_FORMAT_SET
      else if s = ''S16'' then format_set OR (push_bit 3 1 OR push_bit 4 1)
      else if s = ''S24'' then format_set OR (push_bit 5 1 OR push_bit 6 1 OR push_bit 7 1 OR push_bit 8 1)
      else if s = ''S32'' then format_set OR (push_bit 9 1 OR push_bit 10 1)
      else fold (\<lambda>f set. if s = sps_format_description_string f then set OR push_bit (format_number f) 1 else set)
             native_formats format_set)"

definition get_format_settings :: "setting \<Rightarrow> u32" where
  "get_format_settings s =
     (case s of Text t \<Rightarrow> format_setting 0 t | Texts ts \<Rightarrow> foldl format_setting 0 ts
      | Absent \<Rightarrow> 0 | Numbers ns \<Rightarrow> 0)"

definition rate_setting :: "u32 \<Rightarrow> u32 \<Rightarrow> u32" where
  "rate_setting rate_set n =
     fold (\<lambda>r set. if n = sps_rate_actual_rate r then set OR push_bit (rate_number r) 1 else set)
       sps_rates rate_set"

definition get_rate_settings :: "setting \<Rightarrow> u32" where
  "get_rate_settings s =
     (case s of Text t \<Rightarrow> (if t = ''auto'' then SPS_RATE_SET else 0) | Numbers ns \<Rightarrow> foldl rate_setting 0 ns
      | Absent \<Rightarrow> 0 | Texts ts \<Rightarrow> 0)"

definition channel_setting :: "u32 \<Rightarrow> u32 \<Rightarrow> u32" where
  "channel_setting channel_set n =
     (if sint n \<ge> 1 \<and> sint n \<le> 31 then channel_set OR push_bit (unat n) 1 else channel_set)"

definition get_channel_settings :: "setting \<Rightarrow> u32" where
  "get_channel_settings s =
     (case s of Text t \<Rightarrow> (if t = ''auto'' then SPS_CHANNEL_SET else 0) | Numbers ns \<Rightarrow> foldl channel_setting 0 ns
      | Absent \<Rightarrow> 0 | Texts ts \<Rightarrow> 0)"

record search_config = volume_config +
  channel_set :: u32
  rate_set :: u32
  format_set :: u32
  little_endian :: bool
  plays_mono :: bool

text \<open>The end of \<open>parse_audio_options\<close>: the defaults of the back end where nothing is set.\<close>

definition output_sets ::
  "setting \<times> setting \<times> setting \<Rightarrow> u32 \<times> u32 \<times> u32 \<Rightarrow> search_config \<Rightarrow> search_config" where
  "output_sets settings defaults cfg =
     (let (fs, rs, cs) = settings; (df, dr, dc) = defaults;
          f = get_format_settings fs; r = get_rate_settings rs; c = get_channel_settings cs
      in cfg\<lparr>format_set := (if f = 0 then df else f), rate_set := (if r = 0 then dr else r),
             channel_set := (if c = 0 then dc else c)\<rparr>)"

section \<open>One number of channels and one rate\<close>

definition initial_formats :: "bool \<Rightarrow> sps_format \<Rightarrow> sps_format list" where
  "initial_formats le f =
     (let s16le = [SPS_FORMAT_S16_LE, SPS_FORMAT_S16_BE]; s16be = [SPS_FORMAT_S16_BE, SPS_FORMAT_S16_LE];
          s24le = [SPS_FORMAT_S24_LE, SPS_FORMAT_S24_BE]; s24be = [SPS_FORMAT_S24_BE, SPS_FORMAT_S24_LE];
          s32le = [SPS_FORMAT_S32_LE, SPS_FORMAT_S32_BE]; s32be = [SPS_FORMAT_S32_BE, SPS_FORMAT_S32_LE]
      in case f of
        SPS_FORMAT_U8 \<Rightarrow> [SPS_FORMAT_U8, SPS_FORMAT_S8]
      | SPS_FORMAT_S8 \<Rightarrow> [SPS_FORMAT_S8, SPS_FORMAT_U8]
      | SPS_FORMAT_S16 \<Rightarrow> if le then s16le else s16be
      | SPS_FORMAT_S16_LE \<Rightarrow> s16le | SPS_FORMAT_S16_BE \<Rightarrow> s16be
      | SPS_FORMAT_S24 \<Rightarrow> if le then s24le else s24be
      | SPS_FORMAT_S24_LE \<Rightarrow> s24le | SPS_FORMAT_S24_BE \<Rightarrow> s24be
      | SPS_FORMAT_S32 \<Rightarrow> if le then s32le else s32be
      | SPS_FORMAT_S32_LE \<Rightarrow> s32le | SPS_FORMAT_S32_BE \<Rightarrow> s32be
      | SPS_FORMAT_S24_3LE \<Rightarrow> [SPS_FORMAT_S24_3LE, SPS_FORMAT_S24_3BE]
      | SPS_FORMAT_S24_3BE \<Rightarrow> [SPS_FORMAT_S24_3BE, SPS_FORMAT_S24_3LE]
      | SPS_FORMAT_UNKNOWN \<Rightarrow> [] | SPS_FORMAT_AUTO \<Rightarrow> [] | SPS_FORMAT_INVALID \<Rightarrow> [])"

definition subsequent_formats :: "bool \<Rightarrow> sps_format \<Rightarrow> sps_format list" where
  "subsequent_formats le f =
     (let s16 = (if le then [SPS_FORMAT_S16_LE, SPS_FORMAT_S16_BE] else [SPS_FORMAT_S16_BE, SPS_FORMAT_S16_LE]);
          s24 = (if le then [SPS_FORMAT_S24_LE, SPS_FORMAT_S24_BE] else [SPS_FORMAT_S24_BE, SPS_FORMAT_S24_LE]);
          s24_3 = (if le then [SPS_FORMAT_S24_3LE, SPS_FORMAT_S24_3BE] else [SPS_FORMAT_S24_3BE, SPS_FORMAT_S24_3LE]);
          s32 = (if le then [SPS_FORMAT_S32_LE, SPS_FORMAT_S32_BE] else [SPS_FORMAT_S32_BE, SPS_FORMAT_S32_LE]);
          eight = [SPS_FORMAT_S8, SPS_FORMAT_U8];
          for_8 = s16 @ s24 @ s24_3 @ s32; for_16 = s24 @ s24_3 @ s32 @ eight;
          for_24 = s24_3 @ s32 @ s16 @ eight; for_24_3 = s24 @ s32 @ s16 @ eight;
          for_32 = s24 @ s24_3 @ s16 @ eight
      in case f of
        SPS_FORMAT_U8 \<Rightarrow> for_8 | SPS_FORMAT_S8 \<Rightarrow> for_8
      | SPS_FORMAT_S16 \<Rightarrow> for_16 | SPS_FORMAT_S16_LE \<Rightarrow> for_16 | SPS_FORMAT_S16_BE \<Rightarrow> for_16
      | SPS_FORMAT_S24 \<Rightarrow> for_24 | SPS_FORMAT_S24_LE \<Rightarrow> for_24 | SPS_FORMAT_S24_BE \<Rightarrow> for_24
      | SPS_FORMAT_S32 \<Rightarrow> for_32 | SPS_FORMAT_S32_LE \<Rightarrow> for_32 | SPS_FORMAT_S32_BE \<Rightarrow> for_32
      | SPS_FORMAT_S24_3LE \<Rightarrow> for_24_3 | SPS_FORMAT_S24_3BE \<Rightarrow> for_24_3
      | SPS_FORMAT_UNKNOWN \<Rightarrow> [] | SPS_FORMAT_AUTO \<Rightarrow> [] | SPS_FORMAT_INVALID \<Rightarrow> [])"

type_synonym methods = "nat \<Rightarrow> u32 \<Rightarrow> u32 \<Rightarrow> sps_format \<Rightarrow> bool"

definition accepts :: "search_config \<Rightarrow> methods \<Rightarrow> nat \<Rightarrow> u32 \<Rightarrow> u32 \<Rightarrow> sps_format \<Rightarrow> bool" where
  "accepts cfg methods check_configuration channels rate f \<longleftrightarrow>
     bit (format_set cfg) (format_number f)
     \<and> (check_configuration = 0 \<or> methods check_configuration channels rate f)"

definition rate_is_permissible :: "search_config \<Rightarrow> u32 \<Rightarrow> bool" where
  "rate_is_permissible cfg rate \<longleftrightarrow>
     (\<exists>r \<in> set sps_rates. bit (rate_set cfg) (rate_number r) \<and> rate = sps_rate_actual_rate r)"

definition check_configuration_with_formats ::
  "search_config \<Rightarrow> methods \<Rightarrow> nat \<Rightarrow> sps_format \<Rightarrow> u32 \<Rightarrow> u32 \<Rightarrow> sps_format" where
  "check_configuration_with_formats cfg methods check_configuration f channels rate =
     (if bit (channel_set cfg) (unat channels) \<and> rate_is_permissible cfg rate then
        case List.find (accepts cfg methods check_configuration channels rate)
               (initial_formats (little_endian cfg) f) of
          Some g \<Rightarrow> g
        | None \<Rightarrow>
            (case List.find (accepts cfg methods check_configuration channels rate)
                    (subsequent_formats (little_endian cfg) f) of
               Some g \<Rightarrow> g | None \<Rightarrow> SPS_FORMAT_UNKNOWN)
      else SPS_FORMAT_UNKNOWN)"

section \<open>The search\<close>

text \<open>The rate and its doublings; \<open>check_at\<close> is the check at a rate. The loop does not end if the rate is zero and nothing is found.\<close>

partial_function (option) search_multiples ::
  "(u32 \<Rightarrow> sps_format) \<Rightarrow> u32 \<Rightarrow> u32 \<Rightarrow> u32 \<Rightarrow> (sps_format \<times> u32) option" where
  "search_multiples check_at rate local_rate rate_multiplier =
     (if local_rate \<le> 384000 then
        let f = check_at local_rate in
        if f = SPS_FORMAT_UNKNOWN
        then search_multiples check_at rate (rate * rate_multiplier) (rate_multiplier * 2)
        else Some (f, local_rate)
      else Some (SPS_FORMAT_UNKNOWN, local_rate))"

definition other_rates :: "u32 list" where
  "other_rates = [44100, 48000, 88200, 96000, 176400, 192000, 352800, 384000,
                  64000, 32000, 22050, 16000, 11025, 8000, 5512]"

fun search_rates :: "(u32 \<Rightarrow> sps_format) \<Rightarrow> u32 list \<Rightarrow> (sps_format \<times> u32) option" where
  "search_rates check_at [] = None"
| "search_rates check_at (r # rs) =
     (let f = check_at r in if f = SPS_FORMAT_UNKNOWN then search_rates check_at rs else Some (f, r))"

definition exact_wanted :: "search_config \<Rightarrow> u32 \<Rightarrow> u32 \<Rightarrow> u32 \<Rightarrow> u32 \<Rightarrow> bool" where
  "exact_wanted cfg channels rate local_channels local_rate \<longleftrightarrow>
     ignore_volume_control cfg \<and> \<not> volume_max_db_set cfg \<and> local_rate = rate
     \<and> local_channels \<ge> channels \<and> \<not> plays_mono cfg"

text \<open>All rates for one number of channels. The result of the outer option is no return.\<close>

definition search_channel ::
  "search_config \<Rightarrow> methods \<Rightarrow> nat \<Rightarrow> u32 \<Rightarrow> u32 \<Rightarrow> sps_format \<Rightarrow> u32 \<Rightarrow> (sps_format \<times> u32) option option" where
  "search_channel cfg methods check channels rate f local_channels =
     (let with_format = (\<lambda>g. check_configuration_with_formats cfg methods check g local_channels) in
      case search_multiples
             (\<lambda>r. with_format (if exact_wanted cfg channels rate local_channels r then f else SPS_FORMAT_S32) r)
             rate rate 2 of
        None \<Rightarrow> None
      | Some (g, r) \<Rightarrow>
          if g \<noteq> SPS_FORMAT_UNKNOWN then Some (Some (g, r))
          else
            case search_rates (with_format f) (List.filter (\<lambda>r. r > rate) other_rates) of
              Some x \<Rightarrow> Some (Some x)
            | None \<Rightarrow> Some (search_rates (with_format f) (List.filter (\<lambda>r. r < rate) (rev other_rates))))"

definition channel_count_check_sequence :: "u32 list" where
  "channel_count_check_sequence = [0, 1, 2, 3, 4, 5, 6, 7, 8, 7, 6, 5, 4, 3, 2, 1]"

fun search_channels ::
  "search_config \<Rightarrow> methods \<Rightarrow> nat \<Rightarrow> u32 \<Rightarrow> u32 \<Rightarrow> sps_format \<Rightarrow> u32 list \<Rightarrow> u32
     \<Rightarrow> (sps_format \<times> u32 \<times> u32) option option" where
  "search_channels cfg methods check channels rate f [] checked = Some None"
| "search_channels cfg methods check channels rate f (c # cs) checked =
     (if bit checked (unat c) then search_channels cfg methods check channels rate f cs checked
      else
        case search_channel cfg methods check channels rate f c of
          None \<Rightarrow> None
        | Some (Some (g, r)) \<Rightarrow> Some (Some (g, r, c))
        | Some None \<Rightarrow>
            search_channels cfg methods check channels rate f cs (checked OR push_bit (unat c) 1))"

section \<open>The encoding and the cache\<close>

definition RATE_FROM_ENCODED_FORMAT :: "u32 \<Rightarrow> u32" where
  "RATE_FROM_ENCODED_FORMAT e = (drop_bit 6 e AND 0x7FFFF) * 2"

definition RATE_TO_ENCODED_FORMAT :: "u32 \<Rightarrow> u32" where
  "RATE_TO_ENCODED_FORMAT rate = push_bit 6 ((rate div 2) AND 0x7FFFF)"

definition CHANNELS_FROM_ENCODED_FORMAT :: "u32 \<Rightarrow> u32" where
  "CHANNELS_FROM_ENCODED_FORMAT e = signed_drop_bit 25 e AND 0x7F"

definition CHANNELS_TO_ENCODED_FORMAT :: "u32 \<Rightarrow> u32" where
  "CHANNELS_TO_ENCODED_FORMAT channels = push_bit 25 (channels AND 0x7F)"

definition FORMAT_FROM_ENCODED_FORMAT :: "u32 \<Rightarrow> u32" where
  "FORMAT_FROM_ENCODED_FORMAT e = e AND 0x3F"

definition FORMAT_TO_ENCODED_FORMAT :: "sps_format \<Rightarrow> u32" where
  "FORMAT_TO_ENCODED_FORMAT f = word_of_nat (format_number f) AND 0x3F"

definition encode_configuration :: "u32 \<Rightarrow> u32 \<Rightarrow> sps_format \<Rightarrow> u32" where
  "encode_configuration channels rate f =
     CHANNELS_TO_ENCODED_FORMAT channels OR RATE_TO_ENCODED_FORMAT rate OR FORMAT_TO_ENCODED_FORMAT f"

record search_cache =
  encoded_request :: u32
  encoded_response :: u32
  cached_check :: nat

definition empty_cache :: search_cache where
  "empty_cache = \<lparr>encoded_request = 0, encoded_response = 0, cached_check = 0\<rparr>"

definition find_configuration ::
  "search_config \<Rightarrow> methods \<Rightarrow> nat \<Rightarrow> u32 \<Rightarrow> u32 \<Rightarrow> sps_format \<Rightarrow> (sps_format \<times> u32 \<times> u32) option option" where
  "find_configuration cfg methods check channels rate f =
     search_channels cfg methods check channels rate f
       (drop (unat channels) channel_count_check_sequence) 0"

definition search_for_suitable_configuration ::
  "search_config \<Rightarrow> methods \<Rightarrow> nat \<Rightarrow> u32 \<Rightarrow> u32 \<Rightarrow> sps_format \<Rightarrow> search_cache \<Rightarrow> (u32 \<times> search_cache) option" where
  "search_for_suitable_configuration cfg methods check channels rate f cache =
     (let request = encode_configuration channels rate f;
          reply = (if cached_check cache = check \<and> encoded_request cache = request
                   then encoded_response cache else 0)
      in if reply \<noteq> 0 then Some (reply, cache)
         else
           case find_configuration cfg methods check channels rate f of
             None \<Rightarrow> None
           | Some None \<Rightarrow> Some (0, cache)
           | Some (Some (g, r, c)) \<Rightarrow>
               let reply = encode_configuration c r g
               in Some (reply, \<lparr>encoded_request = request, encoded_response = reply, cached_check = check\<rparr>))"

end
