(* ===== verification/Output_Search_Proofs.thy ===== *)
theory Output_Search_Proofs
  imports Output_Search
begin

text \<open>
  The search for an output configuration finds one exactly if the settings and the back end allow one, and the
  one asked for if that is allowed. The encoding of the outcome reads back but for odd rates, and
  the cache is invisible. Among the lower rates the search takes the lowest first.
\<close>

section \<open>One number of channels and one rate\<close>

text \<open>What the settings permit and the back end accepts.\<close>

definition permitted :: "search_config \<Rightarrow> methods \<Rightarrow> nat \<Rightarrow> u32 \<Rightarrow> u32 \<Rightarrow> sps_format \<Rightarrow> bool" where
  "permitted cfg ms chk c r g \<longleftrightarrow>
     bit (channel_set cfg) (unat c) \<and> rate_is_permissible cfg r \<and> g \<in> set native_formats
     \<and> accepts cfg ms chk c r g"

text \<open>The formats that may be asked for.\<close>

definition requestable :: "sps_format \<Rightarrow> bool" where
  "requestable f \<longleftrightarrow> f \<notin> {SPS_FORMAT_UNKNOWN, SPS_FORMAT_AUTO, SPS_FORMAT_INVALID}"

lemma formats_complete:
  "requestable f \<Longrightarrow> set (initial_formats le f) \<union> set (subsequent_formats le f) = set native_formats"
  by (cases f; cases le)
    (auto simp: requestable_def initial_formats_def subsequent_formats_def native_formats_def Let_def)

lemma formats_native:
  "set (initial_formats le f) \<union> set (subsequent_formats le f) \<subseteq> set native_formats"
proof (cases "requestable f")
  case False
  then show ?thesis by (cases f) (simp_all add: requestable_def initial_formats_def subsequent_formats_def Let_def)
qed (simp add: formats_complete)

lemma unknown_not_native: "g \<in> set native_formats \<Longrightarrow> g \<noteq> SPS_FORMAT_UNKNOWN"
  by (auto simp: native_formats_def)

lemma check_sound:
  assumes "check_configuration_with_formats cfg ms chk f c r = g" "g \<noteq> SPS_FORMAT_UNKNOWN"
  shows "permitted cfg ms chk c r g"
  using assms formats_native [of "little_endian cfg" f]
  by (auto simp: check_configuration_with_formats_def permitted_def split: if_splits option.splits
      dest!: find_SomeD)

lemma check_complete:
  assumes "permitted cfg ms chk c r g" "requestable f"
  shows "check_configuration_with_formats cfg ms chk f c r \<noteq> SPS_FORMAT_UNKNOWN"
proof -
  let ?P = "accepts cfg ms chk c r" and ?le = "little_endian cfg"
  have g: "g \<in> set (initial_formats ?le f) \<union> set (subsequent_formats ?le f)" "?P g"
    using assms by (auto simp: permitted_def formats_complete)
  consider (initial) h where "List.find ?P (initial_formats ?le f) = Some h"
    | (later) h where "List.find ?P (initial_formats ?le f) = None"
        "List.find ?P (subsequent_formats ?le f) = Some h"
    using g by (metis UnE find_NoneD option.exhaust)
  then show ?thesis
  proof cases
    case initial
    then have "h \<in> set native_formats" using formats_native [of ?le f] by (auto dest!: find_SomeD)
    with initial assms(1) show ?thesis
      by (simp add: check_configuration_with_formats_def permitted_def unknown_not_native)
  next
    case later
    then have "h \<in> set native_formats" using formats_native [of ?le f] by (auto dest!: find_SomeD)
    with later assms(1) show ?thesis
      by (simp add: check_configuration_with_formats_def permitted_def unknown_not_native)
  qed
qed

section \<open>The rates\<close>

lemma search_rates_SomeD:
  "search_rates check_at rs = Some (g, r) \<Longrightarrow> r \<in> set rs \<and> check_at r = g \<and> g \<noteq> SPS_FORMAT_UNKNOWN"
  by (induction rs) (auto simp: Let_def split: if_splits)

lemma search_rates_None: "search_rates check_at rs = None \<longleftrightarrow> (\<forall>r \<in> set rs. check_at r = SPS_FORMAT_UNKNOWN)"
  by (induction rs) (auto simp: Let_def)

text \<open>The doublings leave the range after at most nineteen turns, without wrapping.\<close>

lemma search_multiples_ends:
  assumes "rate \<noteq> 0" "unat rate * 2 ^ j < 2 ^ 32"
  shows "\<exists>g r. search_multiples check_at rate (word_of_nat (unat rate * 2 ^ j)) (2 ^ Suc j) = Some (g, r)
     \<and> (g \<noteq> SPS_FORMAT_UNKNOWN \<longrightarrow> check_at r = g \<and> rate \<le> r)"
  using assms(2)
proof (induction j rule: measure_induct_rule [of "\<lambda>j. 384001 - unat rate * 2 ^ j"])
  case (less j)
  let ?l = "word_of_nat (unat rate * 2 ^ j) :: u32"
  show ?case
  proof (cases "?l \<le> 384000 \<and> check_at ?l = SPS_FORMAT_UNKNOWN")
    case True
    have "unat ?l = unat rate * 2 ^ j" using less.prems by (rule unat_of_nat_u32)
    then have le: "unat rate * 2 ^ j \<le> 384000" using True by (simp add: word_le_nat_alt)
    have "0 < unat rate" using assms(1) by (simp add: unat_gt_0)
    then have "unat rate * 2 ^ j < unat rate * 2 ^ Suc j" by simp
    then have "384001 - unat rate * 2 ^ Suc j < 384001 - unat rate * 2 ^ j" using le by linarith
    moreover have "unat rate * 2 ^ Suc j < 2 ^ 32" using le by simp
    ultimately obtain g r
      where IH: "search_multiples check_at rate (word_of_nat (unat rate * 2 ^ Suc j)) (2 ^ Suc (Suc j)) = Some (g, r)"
        "g \<noteq> SPS_FORMAT_UNKNOWN \<longrightarrow> check_at r = g \<and> rate \<le> r" using less.IH [of "Suc j"] by blast
    have "rate * 2 ^ Suc j = (word_of_nat (unat rate * 2 ^ Suc j) :: u32)" by simp
    moreover have "(2 :: u32) ^ Suc j * 2 = 2 ^ Suc (Suc j)" by simp
    ultimately have "search_multiples check_at rate ?l (2 ^ Suc j)
        = search_multiples check_at rate (word_of_nat (unat rate * 2 ^ Suc j)) (2 ^ Suc (Suc j))"
      using True by (subst search_multiples.simps) (simp only: Let_def if_True simp_thms)
    then show ?thesis using IH by simp
  next
    case False
    have "unat ?l = unat rate * 2 ^ j" using less.prems by (rule unat_of_nat_u32)
    then have "rate \<le> ?l" by (simp add: word_le_nat_alt)
    with False show ?thesis by (subst search_multiples.simps) (auto simp: Let_def)
  qed
qed

lemma search_multiples_found:
  assumes "rate \<noteq> 0"
  shows "\<exists>g r. search_multiples check_at rate rate 2 = Some (g, r)
    \<and> (g \<noteq> SPS_FORMAT_UNKNOWN \<longrightarrow> check_at r = g \<and> rate \<le> r)"
  using search_multiples_ends [of rate 0] assms unsigned_less [of rate] by simp

text \<open>The rate itself comes first.\<close>

lemma search_multiples_first:
  "rate \<le> 384000 \<Longrightarrow> check_at rate \<noteq> SPS_FORMAT_UNKNOWN
    \<Longrightarrow> search_multiples check_at rate rate m = Some (check_at rate, rate)"
  by (subst search_multiples.simps) (simp add: Let_def)

lemma search_multiples_None_at_rate:
  "search_multiples check_at rate rate m = Some (SPS_FORMAT_UNKNOWN, r) \<Longrightarrow> rate \<le> 384000
    \<Longrightarrow> check_at rate = SPS_FORMAT_UNKNOWN"
  using search_multiples_first [of rate check_at m] by (metis option.inject prod.inject)

section \<open>The search\<close>

lemma rate_cases:
  assumes "rate_is_permissible cfg r"
  shows "r \<le> 384000 \<and> (r = rate \<or> r \<in> set (List.filter (\<lambda>r. r > rate) other_rates)
      \<or> r \<in> set (List.filter (\<lambda>r. r < rate) (rev other_rates)))"
proof -
  have "r \<in> set other_rates \<and> r \<le> 384000"
    using assms by (auto simp: rate_is_permissible_def sps_rates_def sps_rate_actual_rate_def other_rates_def)
  then show ?thesis by (auto simp: neq_iff)
qed

lemma search_channel_sound:
  assumes "search_channel cfg ms chk channels rate f c = Some (Some (g, r))" "rate \<noteq> 0"
  shows "permitted cfg ms chk c r g"
proof -
  obtain g' r' where m: "search_multiples
       (\<lambda>r. check_configuration_with_formats cfg ms chk
              (if exact_wanted cfg channels rate c r then f else SPS_FORMAT_S32) c r) rate rate 2 = Some (g', r')"
      "g' \<noteq> SPS_FORMAT_UNKNOWN \<longrightarrow> check_configuration_with_formats cfg ms chk
              (if exact_wanted cfg channels rate c r' then f else SPS_FORMAT_S32) c r' = g'"
    using search_multiples_found [OF assms(2)] by blast
  have "\<exists>h. check_configuration_with_formats cfg ms chk h c r = g \<and> g \<noteq> SPS_FORMAT_UNKNOWN"
    using assms(1) m
    by (auto simp: search_channel_def Let_def split: if_splits option.splits dest!: search_rates_SomeD)
  then show ?thesis using check_sound by blast
qed

lemma search_channel_returns: "rate \<noteq> 0 \<Longrightarrow> search_channel cfg ms chk channels rate f c \<noteq> None"
  using search_multiples_found [of rate]
  by (fastforce simp: search_channel_def Let_def split: option.splits prod.splits)

lemma search_channel_complete:
  assumes "search_channel cfg ms chk channels rate f c = Some None" "requestable f"
  shows "\<not> permitted cfg ms chk c r g"
proof
  assume p: "permitted cfg ms chk c r g"
  then have r: "rate_is_permissible cfg r" by (simp add: permitted_def)
  have found: "check_configuration_with_formats cfg ms chk f c r \<noteq> SPS_FORMAT_UNKNOWN"
    "check_configuration_with_formats cfg ms chk SPS_FORMAT_S32 c r \<noteq> SPS_FORMAT_UNKNOWN"
    using check_complete [OF p] assms(2) by (auto simp: requestable_def)
  let ?m = "\<lambda>r. check_configuration_with_formats cfg ms chk
              (if exact_wanted cfg channels rate c r then f else SPS_FORMAT_S32) c r"
  let ?w = "\<lambda>r. check_configuration_with_formats cfg ms chk f c r"
  obtain r' where m: "search_multiples ?m rate rate 2 = Some (SPS_FORMAT_UNKNOWN, r')"
    and up: "search_rates ?w (List.filter (\<lambda>r. r > rate) other_rates) = None"
    and down: "search_rates ?w (List.filter (\<lambda>r. r < rate) (rev other_rates)) = None"
    using assms(1) by (auto simp: search_channel_def Let_def split: option.splits if_splits)
  have "r \<noteq> rate"
    using search_multiples_None_at_rate [OF m] rate_cases [OF r, of rate] found by (auto split: if_splits)
  moreover have "r \<notin> set (List.filter (\<lambda>r. r > rate) other_rates)"
    using up found(1) unfolding search_rates_None by blast
  moreover have "r \<notin> set (List.filter (\<lambda>r. r < rate) (rev other_rates))"
    using down found(1) unfolding search_rates_None by blast
  ultimately show False using rate_cases [OF r, of rate] by blast
qed

lemma bit_mark: "n < 32 \<Longrightarrow> bit (w OR 2 ^ n :: u32) m \<longleftrightarrow> bit w m \<or> m = n"
  by (auto simp: bit_or_iff bit_exp_iff possible_bit_def)

lemma search_channels_returns:
  "rate \<noteq> 0 \<Longrightarrow> search_channels cfg ms chk channels rate f cs w \<noteq> None"
proof (induction cs arbitrary: w)
  case (Cons d cs)
  obtain x where "search_channel cfg ms chk channels rate f d = Some x"
    using search_channel_returns [OF Cons.prems] by blast
  then show ?case using Cons by (auto split: option.split)
qed simp

lemma search_channels_sound:
  "search_channels cfg ms chk channels rate f cs w = Some (Some (g, r, c)) \<Longrightarrow> rate \<noteq> 0
     \<Longrightarrow> c \<in> set cs \<and> permitted cfg ms chk c r g"
proof (induction cs arbitrary: w)
  case (Cons d cs)
  then show ?case
    by (auto split: if_splits option.splits dest: search_channel_sound)
qed simp

lemma search_channels_exhausts:
  assumes "search_channels cfg ms chk channels rate f cs w = Some None"
    and "\<forall>c. bit w (unat c) \<longrightarrow> search_channel cfg ms chk channels rate f c = Some None"
    and "\<forall>c \<in> set cs. unat c < 32" and "c \<in> set cs"
  shows "search_channel cfg ms chk channels rate f c = Some None"
  using assms
proof (induction cs arbitrary: w)
  case (Cons d cs)
  show ?case
  proof (cases "bit w (unat d)")
    case True
    then show ?thesis using Cons by auto
  next
    case False
    then have d: "search_channel cfg ms chk channels rate f d = Some None"
      and cs: "search_channels cfg ms chk channels rate f cs (w OR push_bit (unat d) 1) = Some None"
      using Cons.prems(1) by (auto split: option.splits)
    have "\<forall>c. bit (w OR push_bit (unat d) 1) (unat c) \<longrightarrow> search_channel cfg ms chk channels rate f c = Some None"
      using Cons.prems(2,3) d by (auto simp: bit_mark simp flip: word_unat_eq_iff)
    then show ?thesis using Cons.IH [OF cs] Cons.prems(3,4) d by auto
  qed
qed simp

lemma one_to_eight: "{1 .. 8 :: u32} = {1, 2, 3, 4, 5, 6, 7, 8}"
proof (intro set_eqI iffI)
  fix c :: u32
  assume "c \<in> {1 .. 8}"
  then have "unat c \<in> {1 .. 8}" by (simp add: word_le_nat_alt)
  then have "unat c \<in> {1, 2, 3, 4, 5, 6, 7, 8}" by auto
  then show "c \<in> {1, 2, 3, 4, 5, 6, 7, 8}"
    by (auto simp: word_unat_eq_iff)
qed auto

lemma channel_cases:
  "1 \<le> channels \<Longrightarrow> channels \<le> 8 \<Longrightarrow> (channels :: u32) \<in> {1, 2, 3, 4, 5, 6, 7, 8}"
  unfolding one_to_eight [symmetric] by simp

lemma channels_visited:
  assumes "1 \<le> (channels :: u32)" "channels \<le> 8"
  shows "set (drop (unat channels) channel_count_check_sequence) = {1 .. 8}"
  using channel_cases [OF assms] unfolding one_to_eight by (auto simp: channel_count_check_sequence_def)

text \<open>
  C37. For a known number of channels, a rate that is not zero and a format that is one, the search always
  returns, and finds a configuration exactly if there is one, of one to eight channels, that the settings permit and
  the back end accepts; the one found is such a one.
\<close>

theorem search_exact:
  assumes "1 \<le> channels" "channels \<le> 8" "rate \<noteq> 0" "requestable f"
  shows "(\<exists>g r c. find_configuration cfg ms chk channels rate f = Some (Some (g, r, c))
            \<and> c \<in> {1 .. 8} \<and> permitted cfg ms chk c r g)
       \<or> find_configuration cfg ms chk channels rate f = Some None
            \<and> \<not> (\<exists>g r c. c \<in> {1 .. 8} \<and> permitted cfg ms chk c r g)"
proof (cases "find_configuration cfg ms chk channels rate f")
  case None
  then show ?thesis using search_channels_returns [OF assms(3)] by (auto simp: find_configuration_def)
next
  case (Some res)
  note visited = channels_visited [OF assms(1,2)]
  show ?thesis
  proof (cases res)
    case None
    have small: "\<forall>c \<in> set (drop (unat channels) channel_count_check_sequence). unat c < 32"
      unfolding visited by (auto simp: word_le_nat_alt)
    have "search_channel cfg ms chk channels rate f c = Some None" if "c \<in> {1 .. 8}" for c
      using search_channels_exhausts [OF _ _ small, of cfg ms chk channels rate f 0 c] Some None that
      by (simp add: find_configuration_def visited)
    then show ?thesis using Some None search_channel_complete [OF _ assms(4)] by blast
  next
    case (Some x)
    obtain g r c where "x = (g, r, c)" by (cases x)
    then show ?thesis
      using \<open>find_configuration cfg ms chk channels rate f = Some res\<close> Some
        search_channels_sound [of cfg ms chk channels rate f "drop (unat channels) channel_count_check_sequence"
          0 g r c] assms(3)
      unfolding find_configuration_def visited by blast
  qed
qed

text \<open>A device of two channels that takes 16-bit samples at 44100 and at 8000 frames per second.\<close>

definition two_rates :: methods where
  "two_rates a c r g \<longleftrightarrow> c = 2 \<and> (r = 44100 \<or> r = 8000) \<and> g = SPS_FORMAT_S16_LE"

definition open_config :: search_config where
  "open_config =
     \<lparr>volume_max_db_set = False, volume_max_db = 0, volume_range_db = 0, volume_range_hw_priority = True,
      ignore_volume_control = False, volume_control_profile = VCP_standard,
      channel_set = SPS_CHANNEL_SET, rate_set = SPS_RATE_SET, format_set = SPS_FORMAT_SET,
      little_endian = True, plays_mono = False\<rparr>"

definition refuses :: methods where
  "refuses a c r g \<longleftrightarrow> False"

lemma refuses_all: "n \<noteq> 0 \<Longrightarrow> \<not> permitted cfg refuses n c r g"
  by (simp add: permitted_def accepts_def refuses_def)

lemma search_exact_witness:
  "find_configuration open_config refuses 1 2 44100 SPS_FORMAT_S16_LE = Some None"
  using search_exact [of 2 44100 SPS_FORMAT_S16_LE open_config refuses 1]
  by (simp add: refuses_all requestable_def)

section \<open>What is preferred\<close>

lemma first_channel:
  assumes "1 \<le> (channels :: u32)" "channels \<le> 8"
  shows "\<exists>cs. drop (unat channels) channel_count_check_sequence = channels # cs"
  using channel_cases [OF assms] by (auto simp: channel_count_check_sequence_def)

text \<open>
  If the settings permit, and the back end accepts, anything at the number of channels and the rate that
  are asked for, then the search settles on these; and where the samples go out untouched (the volume control is ignored,
  no maximum is set and no mono mix is asked for) it settles on the very format asked for if that is accepted.
\<close>

theorem exact_configuration_preferred:
  assumes "1 \<le> channels" "channels \<le> 8" "rate \<noteq> 0" "requestable f"
    and "permitted cfg ms chk channels rate g"
  shows "\<exists>h. find_configuration cfg ms chk channels rate f = Some (Some (h, rate, channels))
    \<and> permitted cfg ms chk channels rate h
    \<and> (g = f \<and> exact_wanted cfg channels rate channels rate \<longrightarrow> h = f)"
proof -
  obtain cs where cs: "drop (unat channels) channel_count_check_sequence = channels # cs"
    using first_channel [OF assms(1,2)] by blast
  define want where "want = (if exact_wanted cfg channels rate channels rate then f else SPS_FORMAT_S32)"
  define h where "h = check_configuration_with_formats cfg ms chk want channels rate"
  have known: "h \<noteq> SPS_FORMAT_UNKNOWN"
    using check_complete [OF assms(5)] assms(4) by (auto simp: h_def want_def requestable_def)
  have "rate \<le> 384000" using rate_cases [of cfg rate rate] assms(5) by (simp add: permitted_def)
  then have "search_channel cfg ms chk channels rate f channels = Some (Some (h, rate))"
    using known
    by (auto simp: search_channel_def Let_def search_multiples_first h_def want_def split: if_splits)
  then have "find_configuration cfg ms chk channels rate f = Some (Some (h, rate, channels))"
    by (simp add: find_configuration_def cs)
  moreover have "h = f" if "g = f" "exact_wanted cfg channels rate channels rate"
  proof -
    have "f \<in> set native_formats" "accepts cfg ms chk channels rate f"
      using assms(5) that(1) by (auto simp: permitted_def)
    moreover from this(1) have "hd (initial_formats le f) = f \<and> initial_formats le f \<noteq> []" for le
      by (auto simp: native_formats_def initial_formats_def Let_def)
    ultimately have "List.find (accepts cfg ms chk channels rate) (initial_formats (little_endian cfg) f) = Some f"
      by (metis find.simps(2) list.collapse)
    then show ?thesis
      using assms(5) that by (simp add: h_def want_def check_configuration_with_formats_def permitted_def)
  qed
  ultimately show ?thesis using check_sound [OF h_def [symmetric] known] by blast
qed

lemma exact_configuration_preferred_witness:
  "\<exists>h. find_configuration open_config two_rates 1 2 44100 SPS_FORMAT_S16_LE = Some (Some (h, 44100, 2))"
proof -
  have "permitted open_config two_rates 1 2 44100 SPS_FORMAT_S16_LE"
    by (simp add: permitted_def accepts_def two_rates_def open_config_def rate_is_permissible_def native_formats_def
        sps_rates_def SPS_CHANNEL_SET_def SPS_RATE_SET_def SPS_FORMAT_SET_def format_number_def rate_number_def
        sps_rate_actual_rate_def)
  from exact_configuration_preferred [OF _ _ _ _ this, of SPS_FORMAT_S16_LE]
  show ?thesis by (auto simp: requestable_def)
qed

section \<open>Lower rates\<close>

lemma search_rates_least:
  assumes "search_rates check_at rs = Some (g, r)" "sorted rs"
  shows "\<forall>r' \<in> set rs. check_at r' \<noteq> SPS_FORMAT_UNKNOWN \<longrightarrow> r \<le> r'"
  using assms by (induction rs) (auto simp: Let_def split: if_splits)

lemma lower_rates:
  "List.filter (\<lambda>r. r < 44100) (rev other_rates) = [5512, 8000, 11025, 16000, 22050, 32000]"
  "List.filter (\<lambda>r. r < 48000) (rev other_rates) = [5512, 8000, 11025, 16000, 22050, 32000, 44100]"
  by (simp_all add: other_rates_def)

lemma lower_rates_ascend:
  "rate \<in> {44100, 48000} \<Longrightarrow> sorted (List.filter (\<lambda>r. r < rate) (rev other_rates))"
  by (elim insertE emptyE) (simp_all only: lower_rates, simp_all)

lemma search_channel_lower:
  assumes "search_channel cfg ms chk channels rate f c = Some (Some (h, r0))" "rate \<noteq> 0"
    and "\<And>f' r'. rate \<le> r' \<Longrightarrow> check_configuration_with_formats cfg ms chk f' c r' = SPS_FORMAT_UNKNOWN"
  shows "search_rates (check_configuration_with_formats cfg ms chk f c)
           (List.filter (\<lambda>r. r < rate) (rev other_rates)) = Some (h, r0)"
proof -
  let ?m = "\<lambda>r. check_configuration_with_formats cfg ms chk
              (if exact_wanted cfg channels rate c r then f else SPS_FORMAT_S32) c r"
  obtain g r where m: "search_multiples ?m rate rate 2 = Some (g, r)"
      "g \<noteq> SPS_FORMAT_UNKNOWN \<longrightarrow> ?m r = g \<and> rate \<le> r"
    using search_multiples_found [OF assms(2)] by blast
  then have g: "g = SPS_FORMAT_UNKNOWN" using assms(3) by metis
  have "search_rates (check_configuration_with_formats cfg ms chk f c) (List.filter (\<lambda>r. r > rate) other_rates) = None"
    unfolding search_rates_None using assms(3) by auto
  then show ?thesis using assms(1) m(1) g by (simp add: search_channel_def Let_def)
qed

text \<open>
  The next lowest rate that the search means to take is the lowest of all: when for 44100 or 48000
  frames per second nothing is permitted at that rate or above it, the search settles on the least
  rate that is permitted, even where one just below the rate asked for is.
\<close>

theorem lowest_rate_taken:
  assumes "rate \<in> {44100, 48000}" "1 \<le> channels" "channels \<le> 8" "requestable f"
    and "permitted cfg ms chk channels r g"
    and "\<forall>r g. rate \<le> r \<longrightarrow> \<not> permitted cfg ms chk channels r g"
  shows "\<exists>h r0. find_configuration cfg ms chk channels rate f = Some (Some (h, r0, channels))
    \<and> (\<forall>r g. permitted cfg ms chk channels r g \<longrightarrow> r0 \<le> r)"
proof -
  obtain cs where cs: "drop (unat channels) channel_count_check_sequence = channels # cs"
    using first_channel [OF assms(2,3)] by blast
  have rate: "rate \<noteq> 0" using assms(1) by auto
  obtain h r0 where found: "search_channel cfg ms chk channels rate f channels = Some (Some (h, r0))"
    using search_channel_returns [OF rate] search_channel_complete [OF _ assms(4)] assms(5)
    by (metis option.exhaust surj_pair)
  let ?lower = "List.filter (\<lambda>r. r < rate) (rev other_rates)"
  have "check_configuration_with_formats cfg ms chk f' channels r' = SPS_FORMAT_UNKNOWN" if "rate \<le> r'" for f' r'
    using check_sound assms(6) that by blast
  note lower = search_channel_lower [OF found rate this]
  have "r0 \<le> r'" if "permitted cfg ms chk channels r' g'" for r' g'
  proof -
    have "r' < rate" using that assms(6) by (metis not_less)
    then have "r' \<in> set ?lower"
      using rate_cases [of cfg r' rate] that by (auto simp: permitted_def)
    then show ?thesis
      using search_rates_least [OF lower lower_rates_ascend [OF assms(1)]] check_complete [OF that assms(4)] by blast
  qed
  then show ?thesis using found by (auto simp: find_configuration_def cs)
qed

lemma two_rates_lower: "permitted open_config two_rates 1 2 r g \<Longrightarrow> r < 48000"
  by (auto simp: permitted_def accepts_def two_rates_def)

lemma two_rates_permitted:
  "r = 44100 \<or> r = 8000 \<Longrightarrow> permitted open_config two_rates 1 2 r SPS_FORMAT_S16_LE"
  by (auto simp: permitted_def accepts_def two_rates_def open_config_def rate_is_permissible_def native_formats_def
      sps_rates_def SPS_CHANNEL_SET_def SPS_RATE_SET_def SPS_FORMAT_SET_def format_number_def rate_number_def
      sps_rate_actual_rate_def)

lemma lowest_rate_taken_witness:
  "permitted open_config two_rates 1 2 44100 SPS_FORMAT_S16_LE
    \<and> (\<exists>h r0. find_configuration open_config two_rates 1 2 48000 SPS_FORMAT_S16_LE = Some (Some (h, r0, 2))
         \<and> r0 \<le> 8000)"
proof -
  have no_higher: "\<forall>r g. 48000 \<le> r \<longrightarrow> \<not> permitted open_config two_rates 1 2 r g"
    using two_rates_lower by (metis not_less)
  show ?thesis
    using lowest_rate_taken [OF _ _ _ _ two_rates_permitted no_higher, of SPS_FORMAT_S16_LE 8000]
      two_rates_permitted [of 44100] two_rates_permitted [of 8000]
    by (auto simp: requestable_def)
qed

section \<open>What is never found\<close>

text \<open>The comment on the formats says that \<open>AUTO\<close> is treated as 24 bits; no format is found for it.\<close>

lemma auto_finds_nothing:
  "check_configuration_with_formats cfg ms chk SPS_FORMAT_AUTO c r = SPS_FORMAT_UNKNOWN"
  by (simp add: check_configuration_with_formats_def initial_formats_def subsequent_formats_def Let_def)

text \<open>A rate of zero is reported but not refused: the search for it never returns, unless something is found.\<close>

lemma zero_rate_multiples:
  assumes "search_multiples check_at rate l m = Some y"
  shows "\<not> (rate = 0 \<and> l = 0 \<and> check_at 0 = SPS_FORMAT_UNKNOWN)"
  by (rule search_multiples.raw_induct
      [where P = "\<lambda>check_at rate l m y. \<not> (rate = 0 \<and> l = 0 \<and> check_at 0 = SPS_FORMAT_UNKNOWN)", OF _ assms])
    (auto simp: Let_def split: if_splits)

lemma zero_rate_unknown: "check_configuration_with_formats cfg ms chk f c 0 = SPS_FORMAT_UNKNOWN"
  by (auto simp: check_configuration_with_formats_def rate_is_permissible_def sps_rates_def sps_rate_actual_rate_def)

lemma zero_rate_hangs:
  assumes "1 \<le> channels" "channels \<le> 8"
  shows "find_configuration cfg ms chk channels 0 f = None"
proof -
  have "search_multiples check_at 0 0 2 = None" if "check_at 0 = SPS_FORMAT_UNKNOWN" for check_at
    using zero_rate_multiples [of check_at 0 0 2] that by (metis option.exhaust)
  then have "search_channel cfg ms chk channels 0 f c = None" for c
    by (simp add: search_channel_def Let_def zero_rate_unknown)
  moreover obtain cs where "drop (unat channels) channel_count_check_sequence = channels # cs"
    using first_channel [OF assms] by blast
  ultimately show ?thesis by (simp add: find_configuration_def)
qed

section \<open>The encoding\<close>

lemma bit_below:
  assumes "unat (x :: u32) < 2 ^ k" "bit x n"
  shows "n < k"
proof -
  have "take_bit k x = x" using assms(1) by (simp add: word_unat_eq_iff unsigned_take_bit_eq take_bit_nat_eq_self)
  then show ?thesis using assms(2) by (metis bit_take_bit_iff)
qed

lemma masks: "(0x7FFFF :: u32) = mask 19" "(0x7F :: u32) = mask 7" "(0x3F :: u32) = mask 6"
  by (simp_all add: mask_eq_exp_minus_1)

lemma format_number_bound: "format_number f < 16"
  by (cases f) (simp_all add: format_number_def)

lemma field_bounds:
  "c < 128 \<Longrightarrow> unat (c :: u32) < 2 ^ 7"
  "r < 0x100000 \<Longrightarrow> unat (r div 2 :: u32) < 2 ^ 19"
  "unat (word_of_nat (format_number f) :: u32) < 2 ^ 6"
  using format_number_bound [of f]
  by (simp_all add: word_less_nat_alt unat_div_distrib unsigned_of_nat take_bit_nat_eq_self)

lemmas field_bits = field_bounds [THEN bit_below]

lemma bit_encode:
  assumes "c < 128" "r < 0x100000"
  shows "bit (encode_configuration c r f) n \<longleftrightarrow> n < 32 \<and>
    (if n < 6 then bit (word_of_nat (format_number f) :: u32) n
     else if n < 25 then bit (r div 2) (n - 6) else bit c (n - 25))"
proof -
  define x where "x = (word_of_nat (format_number f) :: u32)"
  have "bit (r div 2) i \<Longrightarrow> i < 19" "bit c i \<Longrightarrow> i < 7" "bit x i \<Longrightarrow> i < 6" for i
    unfolding x_def using assms by (auto intro: field_bits)
  then show ?thesis unfolding x_def [symmetric]
    by (auto simp: encode_configuration_def CHANNELS_TO_ENCODED_FORMAT_def RATE_TO_ENCODED_FORMAT_def
        FORMAT_TO_ENCODED_FORMAT_def masks bit_or_iff bit_and_iff bit_push_bit_iff bit_mask_iff possible_bit_def
        dest: bit_imp_le_length simp flip: x_def)
qed

lemma decode_format:
  assumes "c < 128" "r < 0x100000"
  shows "FORMAT_FROM_ENCODED_FORMAT (encode_configuration c r f) = word_of_nat (format_number f)"
proof (rule bit_eqI)
  fix n
  define x where "x = (word_of_nat (format_number f) :: u32)"
  have "bit x n \<Longrightarrow> n < 6" unfolding x_def by (rule field_bits(3))
  then show "bit (FORMAT_FROM_ENCODED_FORMAT (encode_configuration c r f)) n
      \<longleftrightarrow> bit (word_of_nat (format_number f) :: u32) n"
    unfolding FORMAT_FROM_ENCODED_FORMAT_def masks bit_and_iff bit_mask_iff bit_encode [OF assms] x_def [symmetric]
    by auto
qed

lemma decode_rate:
  assumes "c < 128" "r < 0x100000"
  shows "RATE_FROM_ENCODED_FORMAT (encode_configuration c r f) = r - r mod 2"
proof -
  have "drop_bit 6 (encode_configuration c r f) AND 0x7FFFF = r div 2"
    by (rule bit_eqI)
      (use field_bits(2) [OF assms(2)] in
        \<open>auto simp: masks bit_and_iff bit_mask_iff bit_drop_bit_eq bit_encode [OF assms] possible_bit_def\<close>)
  then show ?thesis
    by (simp add: RATE_FROM_ENCODED_FORMAT_def minus_mod_eq_div_mult)
qed

lemma decode_channels:
  assumes "c < 128" "r < 0x100000"
  shows "CHANNELS_FROM_ENCODED_FORMAT (encode_configuration c r f) = c"
  unfolding CHANNELS_FROM_ENCODED_FORMAT_def
  by (rule bit_eqI)
    (auto simp: masks bit_and_iff bit_mask_iff bit_signed_drop_bit_iff bit_encode [OF assms] possible_bit_def
      dest: field_bits(1) [OF assms(1)])

text \<open>
  The number that the search returns reads back as the channels and the format found, and as the rate
  found if that is even. Of the rates that may be set, 11025 is odd and reads back as 11024.
\<close>

theorem configuration_decodes:
  assumes "c < 128" "rate_is_permissible cfg r"
  shows "CHANNELS_FROM_ENCODED_FORMAT (encode_configuration c r f) = c
    \<and> FORMAT_FROM_ENCODED_FORMAT (encode_configuration c r f) = word_of_nat (format_number f)
    \<and> RATE_FROM_ENCODED_FORMAT (encode_configuration c r f) = (if r = 11025 then 11024 else r)"
proof -
  have "r \<in> set (map sps_rate_actual_rate sps_rates)" using assms(2) by (auto simp: rate_is_permissible_def)
  then have "r < 0x100000 \<and> r - r mod 2 = (if r = 11025 then 11024 else r)"
    by (auto simp: sps_rates_def sps_rate_actual_rate_def)
  then show ?thesis using assms(1) by (simp add: decode_channels decode_format decode_rate)
qed

lemma configuration_decodes_witness:
  "RATE_FROM_ENCODED_FORMAT (encode_configuration 2 11025 SPS_FORMAT_S16_LE) = 11024
    \<and> RATE_FROM_ENCODED_FORMAT (encode_configuration 2 48000 SPS_FORMAT_S16_LE) = 48000"
proof -
  have "rate_is_permissible open_config r" if "r = 11025 \<or> r = 48000" for r
    using that by (auto simp: rate_is_permissible_def open_config_def sps_rates_def SPS_RATE_SET_def rate_number_def
        sps_rate_actual_rate_def)
  then show ?thesis
    using configuration_decodes [of 2 open_config 11025 SPS_FORMAT_S16_LE]
      configuration_decodes [of 2 open_config 48000 SPS_FORMAT_S16_LE] by simp
qed

section \<open>The cache\<close>

type_synonym request = "nat \<times> u32 \<times> u32 \<times> sps_format"

definition regular :: "request \<Rightarrow> bool" where
  "regular q \<longleftrightarrow> (case q of (chk, c, r, f) \<Rightarrow> c < 128 \<and> r < 0x100000 \<and> r mod 2 = 0)"

lemma format_number_inj: "format_number f = format_number f' \<Longrightarrow> f = f'"
  by (cases f; cases f') (simp_all add: format_number_def)

lemma encode_inj:
  assumes "regular (chk, c, r, f)" "regular (chk', c', r', f')"
    and "encode_configuration c r f = encode_configuration c' r' f'"
  shows "c = c' \<and> r = r' \<and> f = f'"
proof -
  have "unat (word_of_nat (format_number f) :: u32) = unat (word_of_nat (format_number f') :: u32)"
    using assms decode_format [of c r f] decode_format [of c' r' f'] by (simp add: regular_def)
  then have "f = f'"
    using format_number_bound [of f] format_number_bound [of f']
    by (intro format_number_inj) (simp add: unsigned_of_nat take_bit_nat_eq_self)
  then show ?thesis
    using assms decode_channels [of c r f] decode_channels [of c' r' f'] decode_rate [of c r f]
      decode_rate [of c' r' f'] by (simp add: regular_def)
qed

text \<open>The search without its cache.\<close>

definition uncached :: "search_config \<Rightarrow> methods \<Rightarrow> request \<Rightarrow> u32 option" where
  "uncached cfg ms q = (case q of (chk, c, r, f) \<Rightarrow>
     (case find_configuration cfg ms chk c r f of
        None \<Rightarrow> None | Some None \<Rightarrow> Some 0 | Some (Some (g, r', c')) \<Rightarrow> Some (encode_configuration c' r' g)))"

definition cache_ok :: "search_config \<Rightarrow> methods \<Rightarrow> search_cache \<Rightarrow> bool" where
  "cache_ok cfg ms cache \<longleftrightarrow> encoded_response cache = 0 \<or>
     (\<exists>c r f. regular (cached_check cache, c, r, f) \<and> encoded_request cache = encode_configuration c r f
        \<and> uncached cfg ms (cached_check cache, c, r, f) = Some (encoded_response cache))"

lemma cache_ok_new:
  "regular (chk, c, r, f) \<Longrightarrow> uncached cfg ms (chk, c, r, f) = Some reply \<Longrightarrow>
     cache_ok cfg ms \<lparr>encoded_request = encode_configuration c r f, encoded_response = reply, cached_check = chk\<rparr>"
  by (auto simp: cache_ok_def)

lemma cached_search:
  assumes "cache_ok cfg ms cache" "regular (chk, c, r, f)"
  shows "case search_for_suitable_configuration cfg ms chk c r f cache of
      None \<Rightarrow> uncached cfg ms (chk, c, r, f) = None
    | Some (reply, cache') \<Rightarrow> uncached cfg ms (chk, c, r, f) = Some reply \<and> cache_ok cfg ms cache'"
proof (cases "cached_check cache = chk \<and> encoded_request cache = encode_configuration c r f
    \<and> encoded_response cache \<noteq> 0")
  case True
  then obtain c' r' f' where q: "regular (chk, c', r', f')" "encode_configuration c r f = encode_configuration c' r' f'"
      "uncached cfg ms (chk, c', r', f') = Some (encoded_response cache)"
    using assms(1) by (auto simp: cache_ok_def)
  then have "uncached cfg ms (chk, c, r, f) = Some (encoded_response cache)"
    using encode_inj [OF assms(2) q(1,2)] by simp
  then show ?thesis using True assms(1) by (simp add: search_for_suitable_configuration_def Let_def)
next
  case False
  then have search: "search_for_suitable_configuration cfg ms chk c r f cache =
      (case find_configuration cfg ms chk c r f of
             None \<Rightarrow> None
           | Some None \<Rightarrow> Some (0, cache)
           | Some (Some (g, r', c')) \<Rightarrow> Some (encode_configuration c' r' g,
               \<lparr>encoded_request = encode_configuration c r f, encoded_response = encode_configuration c' r' g,
                cached_check = chk\<rparr>))"
    by (auto simp: search_for_suitable_configuration_def Let_def split: option.split)
  show ?thesis
  proof (cases "find_configuration cfg ms chk c r f")
    case (Some res)
    then show ?thesis unfolding search using assms
      by (cases res) (auto simp: uncached_def intro!: cache_ok_new [OF assms(2)])
  qed (simp add: search uncached_def)
qed

fun search_requests ::
  "search_config \<Rightarrow> methods \<Rightarrow> request list \<Rightarrow> search_cache \<Rightarrow> u32 list option" where
  "search_requests cfg ms [] cache = Some []"
| "search_requests cfg ms ((chk, c, r, f) # qs) cache =
     (case search_for_suitable_configuration cfg ms chk c r f cache of
        None \<Rightarrow> None
      | Some (reply, cache') \<Rightarrow> map_option ((#) reply) (search_requests cfg ms qs cache'))"

text \<open>
  C38. As long as the settings and the answers of the back ends stay the same, the cache is invisible: any
  sequence of requests, to any back ends, for less than 128 channels and for even rates, gets the replies
  of the search without a cache.
\<close>

theorem cache_transparent:
  assumes "\<forall>q \<in> set qs. regular q"
  shows "search_requests cfg ms qs empty_cache = those (map (uncached cfg ms) qs)"
proof -
  have "search_requests cfg ms qs cache = those (map (uncached cfg ms) qs)" if "cache_ok cfg ms cache" for cache
    using assms that
  proof (induction qs arbitrary: cache)
    case (Cons q qs)
    obtain chk c r f where q: "q = (chk, c, r, f)" by (cases q)
    have "regular (chk, c, r, f)" using Cons.prems(1) q by simp
    from cached_search [OF Cons.prems(2) this] Cons.IH Cons.prems(1)
    show ?case by (auto simp: q split: option.splits)
  qed simp
  then show ?thesis by (simp add: cache_ok_def empty_cache_def)
qed

lemma cache_transparent_witness:
  "search_requests open_config refuses [(1, 2, 44100, SPS_FORMAT_S16_LE), (1, 2, 44100, SPS_FORMAT_S16_LE)] empty_cache
     = those (map (uncached open_config refuses) [(1, 2, 44100, SPS_FORMAT_S16_LE), (1, 2, 44100, SPS_FORMAT_S16_LE)])"
  by (rule cache_transparent) (simp add: regular_def)

section \<open>The settings\<close>

text \<open>The formats that a word of the settings stands for.\<close>

definition stands_for :: "string \<Rightarrow> sps_format \<Rightarrow> bool" where
  "stands_for s g \<longleftrightarrow> s = ''auto'' \<or> sps_format_description_string g = s
     \<or> s = ''S16'' \<and> g \<in> {SPS_FORMAT_S16_LE, SPS_FORMAT_S16_BE}
     \<or> s = ''S24'' \<and> g \<in> {SPS_FORMAT_S24_LE, SPS_FORMAT_S24_BE, SPS_FORMAT_S24_3LE, SPS_FORMAT_S24_3BE}
     \<or> s = ''S32'' \<and> g \<in> {SPS_FORMAT_S32_LE, SPS_FORMAT_S32_BE}"

lemma named_formats:
  "bit (fold (\<lambda>f set. if s = sps_format_description_string f then set OR push_bit (format_number f) 1 else set)
          fs (w :: u32)) (format_number g)
     \<longleftrightarrow> bit w (format_number g) \<or> g \<in> set fs \<and> sps_format_description_string g = s"
proof (induction fs arbitrary: w)
  case (Cons f fs)
  have "format_number f < 32" using format_number_bound [of f] by simp
  then have "bit (w OR 2 ^ format_number f) (format_number g) \<longleftrightarrow> bit w (format_number g) \<or> g = f"
    by (auto simp: bit_mark dest: format_number_inj)
  then show ?case by (auto simp: Cons.IH)
qed simp

lemma format_setting_bits:
  assumes "g \<in> set native_formats"
  shows "bit (format_setting w s) (format_number g) \<longleftrightarrow> bit w (format_number g) \<or> stands_for s g"
proof -
  consider "s \<in> {''auto'', ''S16'', ''S24'', ''S32''}" | "s \<notin> {''auto'', ''S16'', ''S24'', ''S32''}" by blast
  then show ?thesis
  proof cases
    case 1
    then show ?thesis using assms
      by (elim insertE; simp add: format_setting_def stands_for_def SPS_FORMAT_SET_def bit_or_iff native_formats_def)
        (auto simp: format_number_def sps_format_description_string_def)
  next
    case 2
    then show ?thesis using assms by (auto simp: format_setting_def stands_for_def named_formats)
  qed
qed

lemma format_settings_exact:
  assumes "g \<in> set native_formats"
  shows "bit (get_format_settings (Texts ts)) (format_number g) \<longleftrightarrow> (\<exists>t \<in> set ts. stands_for t g)"
proof -
  have "bit (foldl format_setting w ts) (format_number g)
      \<longleftrightarrow> bit w (format_number g) \<or> (\<exists>t \<in> set ts. stands_for t g)" for w
    by (induction ts arbitrary: w) (auto simp: format_setting_bits [OF assms])
  then show ?thesis by (simp add: get_format_settings_def)
qed

end
