(* ===== verification/Metadata_Outputs.thy ===== *)
theory Metadata_Outputs
  imports Metadata_Queue Rtsp_Response
begin

text \<open>
  From the requests to other programs (\<open>metadata/core.c\<close>, \<open>metadata/multicast.c\<close>, \<open>metadata/pipe.c\<close>): who
  owns an item on its way through the queue, the datagrams an item is cut into, and the text that
  is written to the pipe, with its base 64 coder (\<open>common.c\<close>).

  The sockets and the pipe are the lists of what is sent and written.
\<close>

section \<open>Datagrams\<close>

definition htonl_bytes :: "u32 \<Rightarrow> u8 list" where
  "htonl_bytes v = [ucast (drop_bit 24 v), ucast (drop_bit 16 v), ucast (drop_bit 8 v), ucast v]"

definition ssncchnk :: "u8 list" where
  "ssncchnk = [0x73, 0x73, 0x6E, 0x63, 0x63, 0x68, 0x6E, 0x6B]"

text \<open>
  The loop over the chunks; \<open>room\<close> is the room for data in a datagram. It is not zero: the program dies
  before the loop if it is.
\<close>

function send_chunks :: "nat \<Rightarrow> u32 \<Rightarrow> u32 \<Rightarrow> u32 \<Rightarrow> u32 \<Rightarrow> u8 list \<Rightarrow> u8 list list" where
  "send_chunks room chunk_ix chunk_total type code data =
     (let datalen = (if length data > room then room else length data);
          datagram = ssncchnk @ htonl_bytes chunk_ix @ htonl_bytes chunk_total @ htonl_bytes type
                       @ htonl_bytes code @ take datalen data
      in if length data - datalen = 0 \<or> room = 0 then [datagram]
         else datagram # send_chunks room (chunk_ix + 1) chunk_total type code (drop datalen data))"
  by pat_completeness auto
termination
  by (relation "measure (\<lambda>(room, ix, total, type, code, data). length data)") auto

declare send_chunks.simps [simp del]

definition chunk_total :: "nat \<Rightarrow> nat \<Rightarrow> u32" where
  "chunk_total room len =
     (let total = word_of_nat (len div room) in if unat total * room < len then total + 1 else total)"

text \<open>No result stands for \<open>die\<close>. The socket is not open where there is none, and nothing is sent.\<close>

definition metadata_multicast_process ::
  "bool \<Rightarrow> u64 \<Rightarrow> u32 \<Rightarrow> u32 \<Rightarrow> u8 list \<Rightarrow> u8 list list option" where
  "metadata_multicast_process sock_open msglength type code data =
     (if \<not> sock_open then Some []
      else if word_of_nat (length data) < msglength - 8
      then Some [htonl_bytes type @ htonl_bytes code @ data]
      else if msglength = 24 then None
      else let room = unat (msglength - 24)
           in Some (send_chunks room 0 (chunk_total room (length data)) type code data))"

section \<open>Base 64\<close>

definition encoding_table :: string where
  "encoding_table = ''ABCDEFGHIJKLMNOPQRSTUVWXYZabcdefghijklmnopqrstuvwxyz0123456789+/''"

definition triple_of :: "u8 \<Rightarrow> u8 \<Rightarrow> u8 \<Rightarrow> u32" where
  "triple_of a b c = push_bit 16 (ucast a) + push_bit 8 (ucast b) + ucast c"

definition quad :: "u32 \<Rightarrow> string" where
  "quad t = map (\<lambda>i. encoding_table ! unat (drop_bit (i * 6) t AND 0x3F)) [3, 2, 1, 0]"

text \<open>The loop takes three bytes at a time, with zeros after the last.\<close>

fun quads :: "u8 list \<Rightarrow> string" where
  "quads [] = []"
| "quads [a] = quad (triple_of a 0 0)"
| "quads [a, b] = quad (triple_of a b 0)"
| "quads (a # b # c # data) = quad (triple_of a b c) @ quads data"

definition mod_table :: "nat list" where
  "mod_table = [0, 2, 1]"

definition base64_encode_so :: "u8 list \<Rightarrow> nat \<Rightarrow> string option" where
  "base64_encode_so data output_length =
     (let calculated_output_length = 4 * ((length data + 2) div 3)
      in if calculated_output_length > output_length then None
         else let q = quads data; n = mod_table ! (length data mod 3)
              in Some (take (calculated_output_length - n) q @ replicate n (CHR ''='')))"

section \<open>The pipe\<close>

fun show_hex :: "nat \<Rightarrow> string" where
  "show_hex n = (if n < 16 then [''0123456789abcdef'' ! n]
                 else show_hex (n div 16) @ [''0123456789abcdef'' ! (n mod 16)])"

declare show_hex.simps [simp del]

definition item_head :: "u32 \<Rightarrow> u32 \<Rightarrow> nat \<Rightarrow> string" where
  "item_head type code len =
     ''<item><type>'' @ show_hex (unat type) @ ''</type><code>'' @ show_hex (unat code) @ ''</code><length>''
       @ show_nat len @ ''</length>''"

definition data_head :: string where
  "data_head = [CHR 0x0A] @ ''<data encoding='' @ [CHR 0x22] @ ''base64'' @ [CHR 0x22] @ ''>'' @ [CHR 0x0A]"

text \<open>The loop that encodes 57 bytes at a time into a buffer of 76 characters.\<close>

function data_lines :: "u8 list \<Rightarrow> string list" where
  "data_lines data =
     (if data = [] then []
      else let n = (if length data > 57 then 57 else length data)
           in (case base64_encode_so (take n data) 76 of Some s \<Rightarrow> s | None \<Rightarrow> []) # data_lines (drop n data))"
  by pat_completeness auto
termination
  by (relation "measure length") auto

declare data_lines.simps [simp del]

definition item_writes :: "u32 \<Rightarrow> u32 \<Rightarrow> u8 list \<Rightarrow> string list" where
  "item_writes type code data =
     [item_head type code (length data)]
     @ (if data = [] then [] else [data_head] @ data_lines data @ [''</data>''])
     @ [''</item>'' @ [CHR 0x0A]]"

text \<open>What reaches the pipe: the writes up to the first that fails, where \<open>written\<close> tells of each in turn.\<close>

fun write_all :: "(nat \<Rightarrow> bool) \<Rightarrow> string list \<Rightarrow> string" where
  "write_all written [] = []"
| "write_all written (s # ss) = (if written 0 then s @ write_all (written \<circ> Suc) ss else [])"

definition metadata_process :: "bool \<Rightarrow> (nat \<Rightarrow> bool) \<Rightarrow> u32 \<Rightarrow> u32 \<Rightarrow> u8 list \<Rightarrow> string" where
  "metadata_process is_open written type code data =
     (if is_open then write_all written (item_writes type code data) else [])"

section \<open>Items in a queue\<close>

text \<open>
  An address of zero is a null pointer. \<open>blocks\<close> are the addresses that \<open>memdup\<close> gave out and that were
  not freed. The queue is the list of its items: \<open>queue_add_refines\<close> below ties it to \<open>pc_queue\<close>.
\<close>

record metadata_package =
  type_of_data :: u32
  code_of_data :: u32
  data_at :: nat
  data_length :: u32
  carrier :: nat

record metadata_state =
  store :: msg_store
  blocks :: "nat set"
  waiting :: "metadata_package list"

definition queue_add ::
  "nat \<Rightarrow> bool \<Rightarrow> bool \<Rightarrow> 'a \<Rightarrow> 'a list \<Rightarrow> add_response \<times> 'a list" where
  "queue_add cap block busy x q =
     (if \<not> block \<and> busy then (EBUSY, q)
      else if length q < cap then (Added, q @ [x]) else (EWOULDBLOCK, q))"

lemma queue_add_refines:
  assumes "pcq_ok q" "length x = item_size q"
    and "pc_queue_add_item (Some q) x block busy = (rc, Some q')"
  shows "pcq_ok q' \<and> queue_add (capacity q) block busy x (pcq_list q) = (rc, pcq_list q')"
proof (cases "\<not> block \<and> busy \<or> \<not> count q < capacity q")
  case True
  then show ?thesis using assms by (auto simp: pc_queue_add_item_def queue_add_def split: if_splits)
next
  case False
  then have "pc_queue_add_item (Some q) x block busy = pc_queue_add_item (Some q) x True False"
    by (auto simp: pc_queue_add_item_def Let_def)
  then have "pcq_put q x = Some q' \<and> rc = Added"
    using assms(3) False by (auto simp: pcq_put_def pc_queue_add_item_def Let_def split: if_splits)
  then show ?thesis using pcq_put_some [OF assms(1,2)] False by (auto simp: queue_add_def)
qed

text \<open>
  \<open>send_metadata_to_queue\<close>. \<open>new_block\<close> is the address that \<open>memdup\<close> returns, if it is called.
\<close>

definition send_metadata_to_queue ::
  "nat \<Rightarrow> nat \<Rightarrow> bool \<Rightarrow> metadata_package \<Rightarrow> bool \<Rightarrow> metadata_state
     \<Rightarrow> (add_response \<times> metadata_state) outcome" where
  "send_metadata_to_queue cap new_block busy pack block s =
     (case (if carrier pack \<noteq> 0 then msg_retain (carrier pack) (store s) else Done (store s)) of
        Blocked \<Rightarrow> Blocked
      | Undefined \<Rightarrow> Undefined
      | Done st \<Rightarrow>
          let dup = (carrier pack = 0 \<and> data_at pack \<noteq> 0);
              pack = (if dup then pack\<lparr>data_at := new_block\<rparr> else pack);
              bl = (if dup then insert new_block (blocks s) else blocks s);
              (rc, q) = queue_add cap block busy pack (waiting s);
              s = s\<lparr>store := st, blocks := bl, waiting := q\<rparr>
          in if rc = Added then Done (rc, s)
             else if carrier pack \<noteq> 0 then
               (case msg_free (carrier pack) (store s) of
                  Blocked \<Rightarrow> Blocked | Undefined \<Rightarrow> Undefined
                | Done (a, st) \<Rightarrow> Done (rc, s\<lparr>store := st\<rparr>))
             else Done (rc, s\<lparr>blocks := blocks s - {data_at pack}\<rparr>))"

text \<open>The end of a turn of an output's thread, also if it is cancelled there. Freeing a null pointer does nothing.\<close>

definition metadata_pack_cleanup_function ::
  "metadata_package \<Rightarrow> metadata_state \<Rightarrow> metadata_state outcome" where
  "metadata_pack_cleanup_function pack s =
     (if carrier pack \<noteq> 0 then
        (case msg_free (carrier pack) (store s) of
           Blocked \<Rightarrow> Blocked | Undefined \<Rightarrow> Undefined | Done (a, st) \<Rightarrow> Done (s\<lparr>store := st\<rparr>))
      else if data_at pack = 0 then Done s
      else if data_at pack \<in> blocks s then Done (s\<lparr>blocks := blocks s - {data_at pack}\<rparr>)
      else Undefined)"

text \<open>A turn of the thread; it waits while there is nothing in the queue.\<close>

definition output_turn :: "metadata_state \<Rightarrow> metadata_state outcome" where
  "output_turn s =
     (case waiting s of [] \<Rightarrow> Blocked
      | pack # q \<Rightarrow> metadata_pack_cleanup_function pack (s\<lparr>waiting := q\<rparr>))"

end
