(* ===== verification/Metadata_Outputs_Proofs.thy ===== *)
theory Metadata_Outputs_Proofs
  imports Metadata_Outputs
begin

text \<open>
  What goes out can be read back: the datagrams of an item in any order, and the text in the pipe. No message
  and no block of memory is freed twice or lost on the way through the queue.
\<close>

section \<open>Datagrams\<close>

text \<open>A receiver: it reads the fields of a datagram and puts chunks in the order of their numbers.\<close>

definition u32_at :: "nat \<Rightarrow> u8 list \<Rightarrow> u32" where
  "u32_at i bs = word_of_nat (unat (bs ! i) * 16777216 + unat (bs ! (i + 1)) * 65536
     + unat (bs ! (i + 2)) * 256 + unat (bs ! (i + 3)))"

definition receive :: "u8 list list \<Rightarrow> (u32 \<times> u32 \<times> u8 list) option" where
  "receive ds =
     (case ds of [] \<Rightarrow> None
      | d # _ \<Rightarrow>
          if take 8 d = ssncchnk then
            Some (u32_at 16 d, u32_at 20 d,
              concat (map (\<lambda>i. case List.find (\<lambda>d. u32_at 8 d = word_of_nat i) ds of
                                 Some d \<Rightarrow> drop 24 d | None \<Rightarrow> []) [0..<unat (u32_at 12 d)]))
          else Some (u32_at 0 d, u32_at 4 d, drop 8 d))"

lemma length_htonl [simp]: "length (htonl_bytes v) = 4"
  by (simp add: htonl_bytes_def)

lemma unat_drop_bit_u32: "unat (drop_bit n (v :: u32)) = unat v div 2 ^ n"
  unfolding unat_drop_bit_eq by (rule drop_bit_eq_div)

lemma unat_byte: "unat (ucast (drop_bit (8 * i) (v :: u32)) :: u8) = unat v div 256 ^ i mod 256"
proof -
  have "unat (ucast (drop_bit (8 * i) v) :: u8) = take_bit 8 (unat (drop_bit (8 * i) v))"
    by (simp add: unsigned_ucast_eq)
  also have "unat (drop_bit (8 * i) v) = unat v div 2 ^ (8 * i)"
    by (rule unat_drop_bit_u32)
  finally show ?thesis by (simp add: take_bit_eq_mod power_mult)
qed

lemma four_bytes:
  "(n :: nat) < 4294967296 \<Longrightarrow>
     n div 16777216 mod 256 * 16777216 + n div 65536 mod 256 * 65536 + n div 256 mod 256 * 256 + n mod 256 = n"
proof -
  assume n: "n < 4294967296"
  define q r where "q = n div 256" and "r = n div 256 div 256"
  have q: "n div 65536 = r" "n div 16777216 = r div 256" by (simp_all add: r_def flip: div_mult2_eq)
  have "r div 256 < 256" using n by (simp add: r_def flip: div_mult2_eq)
  then have m: "r div 256 mod 256 = r div 256" by simp
  have "n = q * 256 + n mod 256" "q = r * 256 + q mod 256" "r = r div 256 * 256 + r mod 256"
    by (simp_all add: q_def r_def)
  then show ?thesis unfolding q q_def [symmetric] m by linarith
qed

lemma u32_at_htonl: "length xs = i \<Longrightarrow> u32_at i (xs @ htonl_bytes v @ ys) = v"
proof -
  assume i: "length xs = i"
  have b: "unat (ucast (drop_bit 24 v) :: u8) = unat v div 16777216 mod 256"
    "unat (ucast (drop_bit 16 v) :: u8) = unat v div 65536 mod 256"
    "unat (ucast (drop_bit 8 v) :: u8) = unat v div 256 mod 256" "unat (ucast v :: u8) = unat v mod 256"
    using unat_byte [of 3 v] unat_byte [of 2 v] unat_byte [of 1 v] unat_byte [of 0 v] by simp_all
  have "unat v < 4294967296" using unsigned_less [of v] by simp
  have "u32_at i (xs @ htonl_bytes v @ ys) =
      word_of_nat (unat (ucast (drop_bit 24 v) :: u8) * 16777216 + unat (ucast (drop_bit 16 v) :: u8) * 65536
        + unat (ucast (drop_bit 8 v) :: u8) * 256 + unat (ucast v :: u8))"
    using i by (simp add: u32_at_def htonl_bytes_def nth_append)
  also have "\<dots> = word_of_nat (unat v)"
    unfolding b using \<open>unat v < 4294967296\<close> by (simp only: four_bytes)
  finally show ?thesis by simp
qed

definition chunk :: "u32 \<Rightarrow> u32 \<Rightarrow> u32 \<Rightarrow> nat \<Rightarrow> u8 list \<Rightarrow> u8 list" where
  "chunk tot type code i payload =
     ssncchnk @ htonl_bytes (word_of_nat i) @ htonl_bytes tot @ htonl_bytes type @ htonl_bytes code @ payload"

lemma length_ssncchnk [simp]: "length ssncchnk = 8"
  by (simp add: ssncchnk_def)

lemma chunk_fields:
  "take 8 (chunk tot type code i payload) = ssncchnk"
  "u32_at 8 (chunk tot type code i payload) = word_of_nat i"
  "u32_at 12 (chunk tot type code i payload) = tot"
  "u32_at 16 (chunk tot type code i payload) = type"
  "u32_at 20 (chunk tot type code i payload) = code"
  "drop 24 (chunk tot type code i payload) = payload"
  using u32_at_htonl [of "ssncchnk" 8] u32_at_htonl [of "ssncchnk @ htonl_bytes (word_of_nat i)" 12]
    u32_at_htonl [of "ssncchnk @ htonl_bytes (word_of_nat i) @ htonl_bytes tot" 16]
    u32_at_htonl [of "ssncchnk @ htonl_bytes (word_of_nat i) @ htonl_bytes tot @ htonl_bytes type" 20]
  by (simp_all add: chunk_def)

text \<open>The number of chunks of data that are not empty.\<close>

definition chunk_count :: "nat \<Rightarrow> nat \<Rightarrow> nat" where
  "chunk_count room len = Suc ((len - 1) div room)"

lemma chunk_count_step: "0 < room \<Longrightarrow> room < len \<Longrightarrow> chunk_count room len = Suc (chunk_count room (len - room))"
  by (simp add: chunk_count_def le_div_geq)

lemma chunk_count_one: "0 < len \<Longrightarrow> len \<le> room \<Longrightarrow> chunk_count room len = 1"
  by (simp add: chunk_count_def)

lemma send_chunks_last:
  "length data \<le> room \<Longrightarrow>
     send_chunks room (word_of_nat k) tot type code data = [chunk tot type code k data]"
  by (subst send_chunks.simps) (simp add: Let_def chunk_def)

lemma send_chunks_more:
  "0 < room \<Longrightarrow> room < length data \<Longrightarrow>
     send_chunks room (word_of_nat k) tot type code data =
       chunk tot type code k (take room data) # send_chunks room (word_of_nat (Suc k)) tot type code (drop room data)"
  by (subst send_chunks.simps) (simp add: Let_def chunk_def add.commute)

definition piece :: "nat \<Rightarrow> u8 list \<Rightarrow> nat \<Rightarrow> u8 list" where
  "piece room data i = take room (drop (i * room) data)"

lemma piece_Suc: "piece room data (Suc i) = piece room (drop room data) i"
  by (simp add: piece_def add.commute)

lemma send_chunks_eq:
  assumes "0 < room" "data \<noteq> []"
  shows "send_chunks room (word_of_nat k) tot type code data =
     map (\<lambda>i. chunk tot type code (k + i) (piece room data i)) [0..<chunk_count room (length data)]"
  using assms(2)
proof (induction "length data" arbitrary: data k rule: less_induct)
  case less
  show ?case
  proof (cases "room < length data")
    case True
    let ?rest = "drop room data"
    have "[0..<chunk_count room (length data)] = 0 # map Suc [0..<chunk_count room (length ?rest)]"
      using True assms(1) by (simp add: chunk_count_step upt_conv_Cons map_Suc_upt)
    moreover have "send_chunks room (word_of_nat (Suc k)) tot type code ?rest =
       map (\<lambda>i. chunk tot type code (Suc k + i) (piece room ?rest i)) [0..<chunk_count room (length ?rest)]"
      using True assms(1) by (intro less.hyps) auto
    ultimately show ?thesis
      unfolding send_chunks_more [OF assms(1) True]
      by (simp add: piece_Suc comp_def) (simp add: piece_def)
  next
    case False
    then show ?thesis using less.prems by (simp add: send_chunks_last chunk_count_one piece_def)
  qed
qed

lemma concat_pieces: "concat (map (piece room data) [0..<n]) = take (n * room) data"
proof (induction n)
  case (Suc n)
  then show ?case by (simp add: piece_def take_add [symmetric] add.commute [of room])
qed simp

lemma chunk_count_le: "0 < len \<Longrightarrow> chunk_count room len \<le> len"
  using div_le_dividend [of "len - 1" room] unfolding chunk_count_def by linarith

lemma quotient: "a < (room :: nat) \<Longrightarrow> (a + q * room) div room = q"
  by simp

lemma chunk_total_eq:
  assumes "0 < room" "0 < len" "len < 2 ^ 32"
  shows "chunk_total room len = word_of_nat (chunk_count room len)"
proof -
  define q m where "q = len div room" and "m = len mod room"
  have len: "len = q * room + m" "m < room" using assms(1) by (simp_all add: q_def m_def)
  have u: "unat (word_of_nat q :: u32) = q"
    using assms(3) div_le_dividend [of len room] unfolding q_def by (intro unat_of_nat_u32) linarith
  have "chunk_count room len = (if q * room < len then Suc q else q)"
  proof (cases "m = 0")
    case True
    then obtain p where p: "q = Suc p" using len(1) assms(2) by (cases q) auto
    then have "len - 1 = (room - 1) + p * room" using len True assms(1) by simp
    moreover have "room - 1 < room" using assms(1) by simp
    ultimately have "(len - 1) div room = p" by (simp only: quotient)
    then show ?thesis using True p len(1) by (simp add: chunk_count_def)
  next
    case False
    then have "len - 1 = (m - 1) + q * room" using len(1) by simp
    moreover have "m - 1 < room" using len(2) by linarith
    ultimately have "(len - 1) div room = q" by (simp only: quotient)
    then show ?thesis using False len by (simp add: chunk_count_def)
  qed
  then show ?thesis by (simp add: chunk_total_def Let_def u add.commute flip: q_def)
qed

lemma find_chunk:
  assumes "set ds = (\<lambda>i. chunk tot type code i (f i)) ` {0..<n}" "n < 2 ^ 32" "i < n"
  shows "List.find (\<lambda>d. u32_at 8 d = word_of_nat i) ds = Some (chunk tot type code i (f i))"
proof -
  have same: "d = chunk tot type code i (f i)" if "d \<in> set ds" "u32_at 8 d = word_of_nat i" for d
  proof -
    obtain j where j: "j < n" "d = chunk tot type code j (f j)" using \<open>d \<in> set ds\<close> assms(1) by auto
    then have "(word_of_nat j :: u32) = word_of_nat i" using that(2) by (simp add: chunk_fields)
    then have "j = i" using j(1) assms(2,3) unat_of_nat_u32 by (metis order_less_trans)
    then show ?thesis using j by simp
  qed
  have "chunk tot type code i (f i) \<in> set ds" using assms by auto
  then have "List.find (\<lambda>d. u32_at 8 d = word_of_nat i) ds \<noteq> None"
    unfolding find_None_iff using chunk_fields(2) by blast
  then obtain d where d: "List.find (\<lambda>d. u32_at 8 d = word_of_nat i) ds = Some d" by blast
  then have "d \<in> set ds \<and> u32_at 8 d = word_of_nat i" by (rule find_SomeD)
  then show ?thesis using d same by simp
qed

lemma receive_chunks:
  assumes "set ds = (\<lambda>i. chunk (word_of_nat n) type code i (f i)) ` {0..<n}" "n < 2 ^ 32" "0 < n"
  shows "receive ds = Some (type, code, concat (map f [0..<n]))"
proof -
  have "ds \<noteq> []" using assms(1,3) by auto
  then obtain d ds' where ds: "ds = d # ds'" by (cases ds) auto
  then obtain i where d: "d = chunk (word_of_nat n) type code i (f i)" using assms(1) by auto
  have "map (\<lambda>i. case List.find (\<lambda>d. u32_at 8 d = word_of_nat i) ds of Some d \<Rightarrow> drop 24 d | None \<Rightarrow> []) [0..<n]
      = map f [0..<n]"
    using find_chunk [OF assms(1,2)] by (simp add: chunk_fields)
  moreover have "unat (word_of_nat n :: u32) = n" using assms(2) by (rule unat_of_nat_u32)
  moreover have "receive ds = Some (type, code,
      concat (map (\<lambda>i. case List.find (\<lambda>d. u32_at 8 d = word_of_nat i) ds of Some d \<Rightarrow> drop 24 d | None \<Rightarrow> [])
        [0..<unat (word_of_nat n :: u32)]))"
    by (simp add: receive_def ds d chunk_fields)
  ultimately show ?thesis by (simp only:)
qed

lemma receive_single:
  assumes "htonl_bytes type @ htonl_bytes code \<noteq> ssncchnk" "set ds = {htonl_bytes type @ htonl_bytes code @ data}"
  shows "receive ds = Some (type, code, data)"
proof -
  obtain d ds' where ds: "ds = d # ds'" using assms(2) by (cases ds) auto
  then have d: "d = htonl_bytes type @ htonl_bytes code @ data" using assms(2) by auto
  have "u32_at 0 d = type" "u32_at 4 d = code" "take 8 d = htonl_bytes type @ htonl_bytes code" "drop 8 d = data"
    using u32_at_htonl [of "[]" 0] u32_at_htonl [of "htonl_bytes type" 4] by (simp_all add: d)
  then show ?thesis using assms(1) by (simp add: receive_def ds)
qed

text \<open>
  With a message length that the configuration allows, the datagrams of an item fit the buffer they are
  made in, and a receiver that gets them all, in any order and however often, gets back the type, the code
  and the data of the item. The type and code of the chunks themselves are not sent as an item.
\<close>

theorem multicast_roundtrip:
  assumes "500 \<le> msglength" "msglength \<le> 65000" "length data < 2 ^ 32"
    and "htonl_bytes type @ htonl_bytes code \<noteq> ssncchnk"
    and "metadata_multicast_process True msglength type code data = Some sent" "set ds = set sent"
  shows "receive ds = Some (type, code, data) \<and> (\<forall>d \<in> set sent. length d \<le> unat msglength)"
proof -
  define room where "room = unat msglength - 24"
  have m: "500 \<le> unat msglength" "unat msglength \<le> 65000" using assms(1,2) by (simp_all add: word_le_nat_alt)
  have sub: "unat (msglength - 8) = unat msglength - 8" "unat (msglength - 24) = room"
    using m by (simp_all add: room_def unat_sub word_le_nat_alt)
  have len: "unat (word_of_nat (length data) :: u64) = length data"
    using assms(3) by (simp add: unsigned_of_nat take_bit_nat_eq_self)
  show ?thesis
  proof (cases "length data < unat msglength - 8")
    case True
    then have "(word_of_nat (length data) :: u64) < msglength - 8" using len sub by (simp add: word_less_nat_alt)
    then have "sent = [htonl_bytes type @ htonl_bytes code @ data]"
      using assms(5) by (simp add: metadata_multicast_process_def)
    then show ?thesis using receive_single [OF assms(4)] assms(6) True by simp
  next
    case False
    then have nolt: "\<not> (word_of_nat (length data) :: u64) < msglength - 8" using len sub by (simp add: word_less_nat_alt)
    have ne: "data \<noteq> []" "0 < length data" using False m by auto
    have room: "0 < room" using m by (simp add: room_def)
    let ?n = "chunk_count room (length data)"
    have n: "?n < 2 ^ 32" using chunk_count_le [OF ne(2), of room] assms(3) by linarith
    have "msglength \<noteq> 24" using m by auto
    then have "sent = send_chunks room (word_of_nat 0) (chunk_total room (length data)) type code data"
      using assms(5) nolt sub by (simp add: metadata_multicast_process_def Let_def)
    then have sent: "sent = map (\<lambda>i. chunk (word_of_nat ?n) type code i (piece room data i)) [0..<?n]"
      unfolding chunk_total_eq [OF room ne(2) assms(3)] send_chunks_eq [OF room ne(1)] by simp
    then have "set ds = (\<lambda>i. chunk (word_of_nat ?n) type code i (piece room data i)) ` {0..<?n}"
      using assms(6) by (simp only: set_map set_upt)
    then have "receive ds = Some (type, code, concat (map (piece room data) [0..<?n]))"
      by (rule receive_chunks [OF _ n]) (simp add: chunk_count_def)
    moreover have "length data \<le> ?n * room"
      using room ne(2) dividend_less_div_times [of room "length data - 1"]
      by (simp add: chunk_count_def)
    ultimately show ?thesis using sent room by (auto simp: concat_pieces chunk_def piece_def room_def)
  qed
qed

definition sample_type :: u32 where
  "sample_type = 0x636F7265"

lemma multicast_roundtrip_witness:
  "receive [htonl_bytes sample_type @ htonl_bytes sample_type @ [1, 2, 3]] = Some (sample_type, sample_type, [1, 2, 3])
   \<and> receive (rev (send_chunks 476 0 (chunk_total 476 500) sample_type sample_type (replicate 500 7)))
       = Some (sample_type, sample_type, replicate 500 7)"
proof -
  have t: "htonl_bytes sample_type @ htonl_bytes sample_type \<noteq> ssncchnk" by code_simp
  have "metadata_multicast_process True 500 sample_type sample_type [1, 2, 3]
      = Some [htonl_bytes sample_type @ htonl_bytes sample_type @ [1, 2, 3]]"
    by (simp add: metadata_multicast_process_def)
  moreover have "metadata_multicast_process True 500 sample_type sample_type (replicate 500 7)
      = Some (send_chunks 476 0 (chunk_total 476 500) sample_type sample_type (replicate 500 7))"
    by (simp add: metadata_multicast_process_def)
  ultimately show ?thesis
    using multicast_roundtrip [OF _ _ _ t, of 500 "[1, 2, 3]" _
        "[htonl_bytes sample_type @ htonl_bytes sample_type @ [1, 2, 3]]"]
      multicast_roundtrip [OF _ _ _ t, of 500 "replicate 500 7" _
        "rev (send_chunks 476 0 (chunk_total 476 500) sample_type sample_type (replicate 500 7))"] by simp
qed

section \<open>Base 64\<close>

text \<open>The decoder of the standard, for text without line breaks.\<close>

definition sextet :: "char \<Rightarrow> nat" where
  "sextet c = length (takeWhile (\<lambda>x. x \<noteq> c) encoding_table)"

fun b64_decode :: "string \<Rightarrow> u8 list" where
  "b64_decode (a # b # c # d # cs) =
     (let x = sextet a * 64 + sextet b; y = x * 64 + sextet c; z = y * 64 + sextet d
      in if c = CHR ''='' then [word_of_nat (x div 16)]
         else if d = CHR ''='' then [word_of_nat (y div 1024), word_of_nat (y div 4)]
         else [word_of_nat (z div 65536), word_of_nat (z div 256), word_of_nat z] @ b64_decode cs)"
| "b64_decode _ = []"

lemma table_index: "map sextet encoding_table = [0..<64]"
  by code_simp

lemma table_chars: "CHR ''='' \<notin> set encoding_table \<and> CHR 0x0A \<notin> set encoding_table \<and> length encoding_table = 64"
  by code_simp

lemma sextet_table [simp]: "k < 64 \<Longrightarrow> sextet (encoding_table ! k) = k"
  using table_index table_chars by (metis nth_map nth_upt plus_nat.add_0)

lemma table_not_pad: "k < 64 \<Longrightarrow> encoding_table ! k \<noteq> CHR ''='' \<and> encoding_table ! k \<noteq> CHR 0x0A"
  using table_chars by (metis nth_mem)

definition digit :: "nat \<Rightarrow> nat \<Rightarrow> nat" where
  "digit t i = t div 64 ^ i mod 64"

lemma digit_less [simp]: "digit t i < 64"
  by (simp add: digit_def)

lemma quad_digits: "quad t = map (\<lambda>i. encoding_table ! digit (unat t) i) [3, 2, 1, 0]"
proof -
  have "unat (drop_bit (i * 6) t AND 0x3F) = digit (unat t) i" for i
  proof -
    have "(0x3F :: u32) = mask 6" by (simp add: mask_eq_exp_minus_1)
    then have "unat (drop_bit (i * 6) t AND 0x3F) = unat (take_bit 6 (drop_bit (i * 6) t))"
      by (simp only: take_bit_eq_mask)
    also have "\<dots> = take_bit 6 (unat (drop_bit (i * 6) t))" by (rule unsigned_take_bit_eq)
    also have "unat (drop_bit (i * 6) t) = unat t div 64 ^ i"
      by (simp only: unat_drop_bit_u32) (simp add: mult.commute [of i] power_mult)
    finally show ?thesis by (simp add: digit_def take_bit_eq_mod)
  qed
  then show ?thesis by (simp add: quad_def)
qed

lemma unat_triple: "unat (triple_of a b c) = unat a * 65536 + unat b * 256 + unat c"
proof -
  have bounds: "unat a < 256" "unat b < 256" "unat c < 256"
    using unsigned_less [of a] unsigned_less [of b] unsigned_less [of c] by simp_all
  have "triple_of a b c = word_of_nat (unat a * 65536 + unat b * 256 + unat c)"
    by (simp add: triple_of_def push_bit_eq_mult mult.commute unsigned_ucast_eq)
  then show ?thesis using bounds by (simp only:) (intro unat_of_nat_u32; simp)
qed

lemma digits:
  assumes "t < 16777216"
  shows "digit t 3 * 64 + digit t 2 = t div 4096"
    "(digit t 3 * 64 + digit t 2) * 64 + digit t 1 = t div 64"
    "((digit t 3 * 64 + digit t 2) * 64 + digit t 1) * 64 + digit t 0 = t"
proof -
  define q r where "q = t div 64" and "r = t div 64 div 64"
  have q: "t div 4096 = r" "t div 262144 = r div 64" by (simp_all add: r_def flip: div_mult2_eq)
  have "r div 64 < 64" using assms by (simp add: r_def flip: div_mult2_eq)
  then have d: "digit t 3 = r div 64" "digit t 2 = r mod 64" "digit t 1 = q mod 64" "digit t 0 = t mod 64"
    by (simp_all add: digit_def q q_def)
  have e: "t = q * 64 + t mod 64" "q = r * 64 + q mod 64" "r = r div 64 * 64 + r mod 64"
    by (simp_all add: q_def r_def)
  show "digit t 3 * 64 + digit t 2 = t div 4096" unfolding d q using e(3) by linarith
  then show two: "(digit t 3 * 64 + digit t 2) * 64 + digit t 1 = t div 64"
    by (simp only: q d(3) flip: q_def e(2))
  show "((digit t 3 * 64 + digit t 2) * 64 + digit t 1) * 64 + digit t 0 = t"
    by (simp only: two d(4) flip: q_def e(1))
qed

text \<open>The text for some bytes, as the coder makes it.\<close>

definition b64 :: "u8 list \<Rightarrow> string" where
  "b64 data = (let n = mod_table ! (length data mod 3)
     in take (4 * ((length data + 2) div 3) - n) (quads data) @ replicate n (CHR ''=''))"

lemma base64_encode_so_eq:
  "base64_encode_so data room = (if 4 * ((length data + 2) div 3) \<le> room then Some (b64 data) else None)"
  by (auto simp: base64_encode_so_def b64_def Let_def)

lemma length_quad [simp]: "length (quad t) = 4"
  by (simp add: quad_def)

lemma groups: "(Suc (Suc (Suc n)) + 2) div 3 = Suc ((n + 2) div 3)" "Suc (Suc (Suc n)) mod 3 = n mod 3"
    "n \<noteq> 0 \<Longrightarrow> 1 \<le> (n + 2) div 3" "n \<le> 57 \<Longrightarrow> 4 * ((n + 2) div 3) \<le> 76"
  by presburger+

lemma length_quads: "length (quads data) = 4 * ((length data + 2) div 3)"
proof (induction data rule: quads.induct)
  case (4 a b c data)
  have "length (a # b # c # data) = Suc (Suc (Suc (length data)))"
    "length (quads (a # b # c # data)) = 4 + length (quads data)" by simp_all
  then show ?case by (simp only: groups(1) 4 mult_Suc_right)
qed simp_all

lemma mod_table_le: "length data \<noteq> 0 \<Longrightarrow> mod_table ! (length data mod 3) \<le> 4 * ((length data + 2) div 3)"
proof -
  assume "length data \<noteq> 0"
  then have "1 \<le> (length data + 2) div 3" by (rule groups(3))
  moreover have "length data mod 3 \<in> {0, 1, 2}" by auto
  ultimately show ?thesis by (auto simp: mod_table_def)
qed

lemma b64_simps:
  "b64 [] = []"
  "b64 [a] = take 2 (quad (triple_of a 0 0)) @ ''==''"
  "b64 [a, b] = take 3 (quad (triple_of a b 0)) @ ''=''"
  "b64 (a # b # c # data) = quad (triple_of a b c) @ b64 data"
proof -
  show "b64 (a # b # c # data) = quad (triple_of a b c) @ b64 data"
  proof (cases "data = []")
    case False
    then have "mod_table ! (length data mod 3) \<le> 4 * ((length data + 2) div 3)"
      by (intro mod_table_le) simp
    moreover have "length (a # b # c # data) = Suc (Suc (Suc (length data)))" by simp
    ultimately show ?thesis
      unfolding b64_def Let_def quads.simps by (simp only: groups) simp
  qed (simp add: b64_def mod_table_def)
qed (simp_all add: b64_def mod_table_def numeral_2_eq_2)

lemma byte_eqI: "n mod 256 = unat b \<Longrightarrow> word_of_nat n = (b :: u8)"
  by (simp add: word_unat_eq_iff unsigned_of_nat take_bit_eq_mod del: of_nat_add of_nat_mult)

lemma decode_four:
  assumes "w < 64" "x < 64" "y < 64" "z < 64"
  shows "b64_decode (encoding_table ! w # encoding_table ! x # encoding_table ! y # encoding_table ! z # cs) =
      (let n = ((w * 64 + x) * 64 + y) * 64 + z
       in [word_of_nat (n div 65536), word_of_nat (n div 256), word_of_nat n] @ b64_decode cs)"
  unfolding b64_decode.simps(1) Let_def sextet_table [OF assms(1)] sextet_table [OF assms(2)]
    sextet_table [OF assms(3)] sextet_table [OF assms(4)]
  using table_not_pad [OF assms(3)] table_not_pad [OF assms(4)] by (simp only: if_False simp_thms)

lemma decode_quad:
  "b64_decode (quad (triple_of a b c) @ cs) = [a, b, c] @ b64_decode cs"
  "b64_decode (take 2 (quad (triple_of a 0 0)) @ ''=='') = [a]"
  "b64_decode (take 3 (quad (triple_of a b 0)) @ ''='') = [a, b]"
proof -
  have bounds: "unat a < 256" "unat b < 256" "unat c < 256"
    using unsigned_less [of a] unsigned_less [of b] unsigned_less [of c] by simp_all
  define t where "t = unat a * 65536 + unat b * 256 + unat c"
  have t: "t < 16777216" "t div 256 mod 256 = unat b" "t mod 256 = unat c" "t div 65536 mod 256 = unat a"
  proof -
    have e: "t = unat c + (unat a * 256 + unat b) * 256" by (simp add: t_def)
    have d: "t div 256 = unat a * 256 + unat b" unfolding e by (rule quotient [OF bounds(3)])
    show "t < 16777216" "t div 65536 mod 256 = unat a" using bounds by (simp_all add: t_def)
    show "t div 256 mod 256 = unat b" unfolding d using bounds by simp
    show "t mod 256 = unat c" unfolding e using bounds by (simp only: mod_mult_self1 mod_less)
  qed
  show "b64_decode (quad (triple_of a b c) @ cs) = [a, b, c] @ b64_decode cs"
    by (simp only: quad_digits unat_triple list.map append.simps decode_four digit_less digits(3) [OF t(1)]
        byte_eqI [OF t(2)] byte_eqI [OF t(3)] byte_eqI [OF t(4)] Let_def flip: t_def)
  define u where "u = unat a * 65536"
  have u: "u < 16777216" "u div 4096 div 16 mod 256 = unat a" using bounds by (simp_all add: u_def)
  show "b64_decode (take 2 (quad (triple_of a 0 0)) @ ''=='') = [a]"
    using digits(1) [OF u(1)] by (simp add: quad_digits unat_triple byte_eqI u(2) flip: u_def)
  define v where "v = unat a * 65536 + unat b * 256"
  have v: "v < 16777216" "v div 64 div 1024 mod 256 = unat a" "v div 64 div 4 mod 256 = unat b"
    using bounds by (simp_all add: v_def flip: div_mult2_eq)
  show "b64_decode (take 3 (quad (triple_of a b 0)) @ ''='') = [a, b]"
    using digits(2) [OF v(1)]
    by (simp add: quad_digits unat_triple byte_eqI table_not_pad v(2,3) flip: v_def)
qed

lemma b64_decodes: "b64_decode (b64 data) = data"
  by (induction data rule: quads.induct) (simp_all add: b64_simps decode_quad)

lemma b64_append: "length xs mod 3 = 0 \<Longrightarrow> b64 (xs @ ys) = b64 xs @ b64 ys"
  by (induction xs rule: quads.induct) (auto simp: b64_simps groups(2))

lemma b64_no_line_feed: "CHR 0x0A \<notin> set (b64 data)"
proof -
  have q: "CHR 0x0A \<notin> set (quad t)" for t
    using table_not_pad [OF digit_less] by (simp add: quad_digits) metis
  show ?thesis
    using q by (induction data rule: quads.induct) (auto simp: b64_simps dest: in_set_takeD)
qed

section \<open>The pipe\<close>

lemma data_lines_eq: "concat (data_lines data) = b64 data"
proof (induction data rule: data_lines.induct)
  case (1 data)
  show ?case
  proof (cases "data = []")
    case False
    define n where "n = (if length data > 57 then 57 else length data)"
    have "length (take n data) \<le> 57" by (simp add: n_def)
    then have "4 * ((length (take n data) + 2) div 3) \<le> 76" by (rule groups(4))
    then have line: "base64_encode_so (take n data) 76 = Some (b64 (take n data))"
      by (simp add: base64_encode_so_eq)
    have "concat (data_lines data) = b64 (take n data) @ concat (data_lines (drop n data))"
      using False by (subst data_lines.simps) (simp add: Let_def line flip: n_def)
    also have "concat (data_lines (drop n data)) = b64 (drop n data)" using 1 False n_def by blast
    also have "b64 (take n data) @ b64 (drop n data) = b64 data"
    proof (cases "length data > 57")
      case True
      then show ?thesis using b64_append [of "take n data" "drop n data"] by (simp add: n_def)
    qed (simp add: n_def b64_simps)
    finally show ?thesis .
  qed (simp add: data_lines.simps b64_simps)
qed

lemma write_all_True: "(\<And>i. written i) \<Longrightarrow> write_all written ss = concat ss"
  by (induction ss arbitrary: written) auto

text \<open>
  When every write succeeds, an item reaches the pipe as its type, code and length, and its data, if
  there is any, in base 64 on a single line: the text between the tags decodes to the data and has no line
  break, although the coder is handed the data line by line.
\<close>

theorem pipe_item_text:
  assumes "\<And>i. written i"
  shows "\<exists>s. metadata_process True written type code data =
      item_head type code (length data)
      @ (if data = [] then [] else data_head @ s @ ''</data>'') @ ''</item>'' @ [CHR 0x0A]
    \<and> b64_decode s = data \<and> CHR 0x0A \<notin> set s"
  by (intro exI [of _ "b64 data"])
    (simp add: metadata_process_def write_all_True assms item_writes_def data_lines_eq b64_decodes b64_no_line_feed)

lemma pipe_item_text_witness:
  "\<exists>s. metadata_process True (\<lambda>i. True) sample_type sample_type [77, 97, 110] =
      item_head sample_type sample_type 3 @ data_head @ s @ ''</data>'' @ ''</item>'' @ [CHR 0x0A]
    \<and> b64_decode s = [77, 97, 110]"
  using pipe_item_text [of "\<lambda>i. True" sample_type sample_type "[77, 97, 110]"] by (auto simp: numeral_3_eq_3)

section \<open>Items in a queue\<close>

text \<open>The items that carry a message, and the blocks of those that carry none.\<close>

definition carried :: "nat \<Rightarrow> metadata_package list \<Rightarrow> nat" where
  "carried a ps = length (filter (\<lambda>p. carrier p = a) ps)"

definition own_blocks :: "metadata_package list \<Rightarrow> nat list" where
  "own_blocks ps = map data_at (filter (\<lambda>p. carrier p = 0 \<and> data_at p \<noteq> 0) ps)"

text \<open>
  A store is in step with a queue, where \<open>ext a\<close> counts the references to the message at \<open>a\<close> that are held
  elsewhere: a message exists exactly if it is referred to, and counts its references.
\<close>

definition counted :: "(nat \<Rightarrow> nat) \<Rightarrow> msg_store \<Rightarrow> metadata_package list \<Rightarrow> bool" where
  "counted ext st ps \<longleftrightarrow> \<not> locked st
     \<and> (\<forall>a > 65536. case cells st a of
            None \<Rightarrow> ext a + carried a ps = 0
          | Some (i, n) \<Rightarrow> 0 < n \<and> n = ext a + carried a ps)"

text \<open>The live blocks are those of the items that wait, one each.\<close>

definition memory_ok :: "(nat \<Rightarrow> nat) \<Rightarrow> metadata_state \<Rightarrow> bool" where
  "memory_ok ext s \<longleftrightarrow> counted ext (store s) (waiting s)
     \<and> (\<forall>p \<in> set (waiting s). carrier p \<noteq> 0 \<longrightarrow> 65536 < carrier p)
     \<and> distinct (own_blocks (waiting s)) \<and> set (own_blocks (waiting s)) = blocks s"

lemma carried_count [simp]:
  "carried a [] = 0" "carried a (p # ps) = of_bool (carrier p = a) + carried a ps"
  "carried a (ps @ qs) = carried a ps + carried a qs"
  by (simp_all add: carried_def)

lemma own_blocks_simps [simp]:
  "own_blocks [] = []"
  "own_blocks (p # ps) = (if carrier p = 0 \<and> data_at p \<noteq> 0 then data_at p # own_blocks ps else own_blocks ps)"
  "own_blocks (ps @ qs) = own_blocks ps @ own_blocks qs"
  by (simp_all add: own_blocks_def)

lemma no_null_block: "0 \<notin> set (own_blocks ps)"
  by (auto simp: own_blocks_def)

definition may_send :: "(nat \<Rightarrow> nat) \<Rightarrow> metadata_package \<Rightarrow> nat \<Rightarrow> metadata_state \<Rightarrow> bool" where
  "may_send ext pack new_block s \<longleftrightarrow>
     (carrier pack \<noteq> 0 \<longrightarrow> 65536 < carrier pack \<and> 0 < ext (carrier pack))
     \<and> new_block \<noteq> 0 \<and> new_block \<notin> blocks s"

text \<open>One more reference held for a while.\<close>

abbreviation one_more :: "nat \<Rightarrow> (nat \<Rightarrow> nat) \<Rightarrow> nat \<Rightarrow> nat" where
  "one_more c ext \<equiv> ext(c := Suc (ext c))"

lemma counted_cong:
  assumes "\<And>a. 65536 < a \<Longrightarrow> ext a + carried a ps = ext' a + carried a ps'"
  shows "counted ext st ps \<longleftrightarrow> counted ext' st ps'"
  using assms by (simp add: counted_def cong: option.case_cong)

lemma counted_append: "carrier p = 0 \<Longrightarrow> counted ext st (ps @ [p]) \<longleftrightarrow> counted ext st ps"
  by (rule counted_cong) simp

lemma counted_Cons: "carrier p = 0 \<Longrightarrow> counted ext st (p # ps) \<longleftrightarrow> counted ext st ps"
  by (rule counted_cong) simp

lemma counted_given: "counted ext st (ps @ [p]) \<longleftrightarrow> counted (one_more (carrier p) ext) st ps"
  by (rule counted_cong) simp

lemma counted_taken: "counted ext st (p # ps) \<longleftrightarrow> counted (one_more (carrier p) ext) st ps"
  by (rule counted_cong) simp

lemma counted_retain:
  assumes "counted ext st ps" "65536 < c" "0 < ext c"
  shows "\<exists>st'. msg_retain c st = Done st' \<and> counted (one_more c ext) st' ps"
proof -
  obtain i n where c: "cells st c = Some (i, n)"
    using assms by (fastforce simp: counted_def split: option.splits)
  then have "msg_retain c st = Done (st\<lparr>cells := (cells st)(c \<mapsto> (i, Suc n)), locked := False\<rparr>)"
    using assms by (simp add: counted_def msg_retain_def)
  then show ?thesis using assms c by (auto simp: counted_def split: option.splits)
qed

lemma counted_free:
  assumes "counted (one_more c ext) st ps" "65536 < c"
  shows "\<exists>a st'. msg_free c st = Done (a, st') \<and> counted ext st' ps"
proof -
  obtain i n where c: "cells st c = Some (i, n)" "n = Suc (ext c) + carried c ps"
    using assms by (fastforce simp: counted_def split: option.splits)
  show ?thesis
  proof (cases "n - 1 = 0")
    case True
    then have "\<exists>a. msg_free c st = Done (a, st\<lparr>cells := (cells st)(c := None)\<rparr>)"
      using assms c by (simp add: counted_def msg_free_def Let_def)
    then show ?thesis using assms c True by (fastforce simp: counted_def split: option.splits if_splits)
  next
    case False
    moreover have "\<not> locked st" using assms(1) by (simp add: counted_def)
    ultimately have "msg_free c st = Done (c, st\<lparr>cells := (cells st)(c \<mapsto> (i, n - 1))\<rparr>)"
      using assms(2) c(1) by (simp add: msg_free_def)
    then show ?thesis using assms c False by (auto simp: counted_def split: option.splits if_splits)
  qed
qed

lemma send_keeps_memory:
  assumes "memory_ok ext s" "may_send ext pack new_block s"
  shows "\<exists>rc s'. send_metadata_to_queue cap new_block busy pack block s = Done (rc, s') \<and> memory_ok ext s'"
proof (cases "carrier pack = 0")
  case True
  then show ?thesis using assms
    by (auto simp: send_metadata_to_queue_def queue_add_def memory_ok_def may_send_def Let_def counted_append
        dest: no_null_block [THEN notE])
next
  case False
  let ?c = "carrier pack"
  have c: "65536 < ?c" "0 < ext ?c" using assms(2) False by (auto simp: may_send_def)
  obtain st where st: "msg_retain ?c (store s) = Done st" "counted (one_more ?c ext) st (waiting s)"
    using counted_retain [of ext "store s" "waiting s", OF _ c] assms(1) unfolding memory_ok_def by blast
  obtain a st' where st': "msg_free ?c st = Done (a, st')" "counted ext st' (waiting s)"
    using counted_free [OF st(2) c(1)] by blast
  show ?thesis using assms(1) False c(1) st st' counted_given [of ext st "waiting s" pack]
    by (auto simp: send_metadata_to_queue_def queue_add_def memory_ok_def Let_def)
qed

lemma output_turn_keeps_memory:
  assumes "memory_ok ext s" "waiting s \<noteq> []"
  shows "\<exists>s'. output_turn s = Done s' \<and> memory_ok ext s'"
proof -
  obtain p q where w: "waiting s = p # q" using assms(2) by (cases "waiting s") auto
  show ?thesis
  proof (cases "carrier p = 0")
    case True
    then show ?thesis using assms w
      by (cases "data_at p = 0")
        (auto simp: output_turn_def metadata_pack_cleanup_function_def memory_ok_def counted_Cons)
  next
    case False
    then have "counted (one_more (carrier p) ext) (store s) q" "65536 < carrier p"
      using assms(1) w counted_taken by (auto simp: memory_ok_def)
    then obtain a st where "msg_free (carrier p) (store s) = Done (a, st)" "counted ext st q"
      using counted_free by blast
    then show ?thesis using assms w False
      by (auto simp: output_turn_def metadata_pack_cleanup_function_def memory_ok_def)
  qed
qed

text \<open>What the threads do, in the order in which they get the queue; an output with nothing to do waits.\<close>

datatype metadata_op = Send metadata_package nat bool bool | Output

fun metadata_step :: "nat \<Rightarrow> metadata_op \<Rightarrow> metadata_state \<Rightarrow> metadata_state outcome" where
  "metadata_step cap (Send pack new_block busy block) s =
     (case send_metadata_to_queue cap new_block busy pack block s of
        Done (rc, s') \<Rightarrow> Done s' | Blocked \<Rightarrow> Blocked | Undefined \<Rightarrow> Undefined)"
| "metadata_step cap Output s = (if waiting s = [] then Done s else output_turn s)"

fun metadata_run :: "nat \<Rightarrow> metadata_op list \<Rightarrow> metadata_state \<Rightarrow> metadata_state outcome" where
  "metadata_run cap [] s = Done s"
| "metadata_run cap (op # ops) s =
     (case metadata_step cap op s of
        Done s' \<Rightarrow> metadata_run cap ops s' | Blocked \<Rightarrow> Blocked | Undefined \<Rightarrow> Undefined)"

text \<open>A sender holds a reference to the message it sends, and \<open>memdup\<close> gives a block that is not in use.\<close>

fun proper :: "(nat \<Rightarrow> nat) \<Rightarrow> nat \<Rightarrow> metadata_op list \<Rightarrow> metadata_state \<Rightarrow> bool" where
  "proper ext cap [] s \<longleftrightarrow> True"
| "proper ext cap (op # ops) s \<longleftrightarrow>
     (case op of Send pack new_block busy block \<Rightarrow> may_send ext pack new_block s | Output \<Rightarrow> True)
     \<and> (case metadata_step cap op s of Done s' \<Rightarrow> proper ext cap ops s' | _ \<Rightarrow> True)"

lemma metadata_step_keeps:
  assumes "memory_ok ext s"
    and "case op of Send pack new_block busy block \<Rightarrow> may_send ext pack new_block s | Output \<Rightarrow> True"
  shows "\<exists>s'. metadata_step cap op s = Done s' \<and> memory_ok ext s'"
proof (cases op)
  case (Send pack new_block busy block)
  then show ?thesis using assms send_keeps_memory [of ext s pack new_block cap busy block] by auto
next
  case Output
  then show ?thesis using assms output_turn_keeps_memory [of ext s] by simp
qed

lemma message_count:
  assumes "counted ext st []" "65536 < a"
  shows "(case cells st a of None \<Rightarrow> 0 | Some (i, n) \<Rightarrow> n) = ext a"
proof -
  have "case cells st a of None \<Rightarrow> ext a + carried a [] = 0 | Some (i, n) \<Rightarrow> 0 < n \<and> n = ext a + carried a []"
    using assms by (simp add: counted_def)
  then show ?thesis by (auto split: option.splits)
qed

text \<open>
  C40. However items are sent, dropped by a full queue, and taken by an output or its cancellation, nothing is
  freed twice or used after it is freed, and nothing is lost: once the queue is empty no copied data is
  left, and every message has exactly the references that are held outside the queue.
\<close>

theorem metadata_memory_safe:
  assumes "memory_ok ext s" "proper ext cap ops s"
  shows "\<exists>s'. metadata_run cap ops s = Done s' \<and> memory_ok ext s'
    \<and> (waiting s' = [] \<longrightarrow> blocks s' = {}
        \<and> (\<forall>a > 65536. (case cells (store s') a of None \<Rightarrow> 0 | Some (i, n) \<Rightarrow> n) = ext a))"
  using assms
proof (induction ops arbitrary: s)
  case Nil
  then show ?case using message_count [of ext "store s"] by (auto simp: memory_ok_def)
next
  case (Cons op ops)
  then obtain s' where "metadata_step cap op s = Done s'" "memory_ok ext s'"
    using metadata_step_keeps [OF Cons.prems(1), of op cap] by auto
  with Cons show ?case by simp
qed

definition one_message :: metadata_state where
  "one_message = \<lparr>store = \<lparr>cells = [70000 \<mapsto> (1, 1)], locked = False\<rparr>, blocks = {}, waiting = []\<rparr>"

definition cover_item :: metadata_package where
  "cover_item = \<lparr>type_of_data = 1, code_of_data = 2, data_at = 70100, data_length = 10, carrier = 70000\<rparr>"

definition text_item :: metadata_package where
  "text_item = \<lparr>type_of_data = 1, code_of_data = 2, data_at = 80000, data_length = 3, carrier = 0\<rparr>"

lemma metadata_memory_safe_witness:
  "\<exists>s'. metadata_run 1 [Send cover_item 90000 False True, Send text_item 90000 False True, Output] one_message = Done s'
     \<and> memory_ok (\<lambda>a. of_bool (a = 70000)) s'"
proof -
  have "memory_ok (\<lambda>a. of_bool (a = 70000)) one_message"
    by (simp add: memory_ok_def counted_def one_message_def)
  moreover have "proper (\<lambda>a. of_bool (a = 70000)) 1
      [Send cover_item 90000 False True, Send text_item 90000 False True, Output] one_message"
    by (simp add: may_send_def one_message_def cover_item_def text_item_def send_metadata_to_queue_def msg_retain_def
        msg_free_def queue_add_def Let_def output_turn_def metadata_pack_cleanup_function_def)
  ultimately show ?thesis using metadata_memory_safe by blast
qed

end
