(* ===== verification/Sample_Input.thy ===== *)
theory Sample_Input
  imports Output_Search
begin

text \<open>
  The samples of a packet on their way into the transition buffer of the player
  (\<open>player_thread_func\<close> of \<open>player.c\<close>): the playback modes, the widening to 32 bits, the
  replication when the output is faster than the input, the decision to dither; and the silence
  of \<open>generate_zero_frames\<close> (\<open>common.c\<close>). \<open>None\<close>: the program dies or reads past the packet.
\<close>

section \<open>Playback modes\<close>

datatype playback_mode = ST_stereo | ST_mono | ST_reverse_stereo | ST_left_only | ST_right_only

text \<open>
  The left and right samples of a frame at 32 bits. The sum of two 16-bit samples has 17 bits, all of
  which are kept. \<open>ls << 16\<close> of a negative number is taken as the shift of its bits.
\<close>

definition mode_16 :: "playback_mode \<Rightarrow> u16 \<Rightarrow> u16 \<Rightarrow> u32 \<times> u32" where
  "mode_16 m ls rs =
     (case m of
        ST_mono \<Rightarrow> (let both = push_bit 15 (scast ls + scast rs) in (both, both))
      | ST_reverse_stereo \<Rightarrow> (push_bit 16 (scast rs), push_bit 16 (scast ls))
      | ST_left_only \<Rightarrow> (push_bit 16 (scast ls), push_bit 16 (scast ls))
      | ST_right_only \<Rightarrow> (push_bit 16 (scast rs), push_bit 16 (scast rs))
      | ST_stereo \<Rightarrow> (push_bit 16 (scast ls), push_bit 16 (scast rs)))"

definition mode_32 :: "playback_mode \<Rightarrow> u32 \<Rightarrow> u32 \<Rightarrow> u32 \<times> u32" where
  "mode_32 m ls rs =
     (case m of
        ST_mono \<Rightarrow> (let both = signed_drop_bit 1 (scast ls + scast rs :: u64) in (ucast both, ucast both))
      | ST_reverse_stereo \<Rightarrow> (rs, ls)
      | ST_left_only \<Rightarrow> (ls, ls)
      | ST_right_only \<Rightarrow> (rs, rs)
      | ST_stereo \<Rightarrow> (ls, rs))"

section \<open>The transition buffer\<close>

text \<open>The frames of a packet, two samples each, and each frame \<open>ratio\<close> times.\<close>

fun stereo_frames :: "('a \<Rightarrow> 'a \<Rightarrow> u32 \<times> u32) \<Rightarrow> nat \<Rightarrow> nat \<Rightarrow> 'a list \<Rightarrow> u32 list option" where
  "stereo_frames mode ratio 0 inps = Some []"
| "stereo_frames mode ratio (Suc n) (ls # rs # inps) =
     (let (ll, rl) = mode ls rs in
      map_option ((@) (concat (replicate ratio [ll, rl]))) (stereo_frames mode ratio n inps))"
| "stereo_frames mode ratio (Suc n) inps = None"

text \<open>Other numbers of channels: each sample \<open>ratio\<close> times.\<close>

fun plain_samples :: "('a \<Rightarrow> u32) \<Rightarrow> nat \<Rightarrow> nat \<Rightarrow> 'a list \<Rightarrow> u32 list option" where
  "plain_samples widen ratio 0 inps = Some []"
| "plain_samples widen ratio (Suc n) (s # inps) =
     map_option ((@) (replicate ratio (widen s))) (plain_samples widen ratio n inps)"
| "plain_samples widen ratio (Suc n) [] = None"

text \<open>The data of a packet are 16-bit words; samples of 32 bits take two, the low one first.\<close>

fun words_32 :: "u16 list \<Rightarrow> u32 list" where
  "words_32 (lo # hi # ws) = (ucast lo OR push_bit 16 (ucast hi)) # words_32 ws"
| "words_32 ws = []"

definition transition_buffer ::
  "playback_mode \<Rightarrow> nat \<Rightarrow> nat \<Rightarrow> nat \<Rightarrow> nat \<Rightarrow> u16 list \<Rightarrow> u32 list option" where
  "transition_buffer mode channels bit_depth ratio n inps =
     (if channels = 2 then
        if bit_depth = 16 then stereo_frames (mode_16 mode) ratio n inps
        else if bit_depth = 32 then stereo_frames (mode_32 mode) ratio n (words_32 inps)
        else None
      else
        if bit_depth = 16 then plain_samples (\<lambda>s. push_bit 16 (scast s)) ratio (n * channels) inps
        else if bit_depth = 32 then plain_samples id ratio (n * channels) (words_32 inps)
        else None)"

section \<open>Dither and silence\<close>

text \<open>
  Dither is on when samples are scaled, when bits are lost on the way out, and when channels are mixed. The
  output depth is zero before the first packet has come.
\<close>

definition dither_needed :: "u32 \<Rightarrow> nat \<Rightarrow> nat \<Rightarrow> playback_mode \<Rightarrow> bool" where
  "dither_needed volume output_bit_depth input_effective_bit_depth mode \<longleftrightarrow>
     volume \<noteq> 0x10000 \<or> (0 < output_bit_depth \<and> output_bit_depth < input_effective_bit_depth) \<or> mode = ST_mono"

definition all_formats :: "sps_format list" where
  "all_formats = SPS_FORMAT_UNKNOWN # native_formats
     @ [SPS_FORMAT_S16, SPS_FORMAT_S24, SPS_FORMAT_S32, SPS_FORMAT_AUTO, SPS_FORMAT_INVALID]"

text \<open>The format that a number in a configuration stands for.\<close>

definition format_of_number :: "u32 \<Rightarrow> sps_format option" where
  "format_of_number n = List.find (\<lambda>f. format_number f = unat n) all_formats"

definition sps_format_sample_size :: "sps_format \<Rightarrow> nat" where
  "sps_format_sample_size f =
     (if format_number f \<le> format_number SPS_FORMAT_AUTO
      then [0, 1, 1, 2, 2, 4, 4, 3, 3, 4, 4, 2, 4, 4, 0, 0] ! format_number f else 0)"

text \<open>The bytes of samples of silence, with the last random number and the state of the generator.\<close>

fun zero_samples ::
  "sps_format \<Rightarrow> nat \<Rightarrow> bool \<Rightarrow> nat \<Rightarrow> u64 \<Rightarrow> ranctx \<Rightarrow> u8 list \<times> u64 \<times> ranctx" where
  "zero_samples f bits dither 0 prev x = ([], prev, x)"
| "zero_samples f bits dither (Suc n) prev x =
     (let dither_mask = push_bit (64 - bits) 1 - 1;
          (r, x) = r64i x;
          tpdf = (r AND dither_mask) - (prev AND dither_mask);
          bs = format_bytes f (if dither then tpdf else 0)
      in apfst ((@) bs) (zero_samples f bits dither n r x))"

definition generate_zero_frames ::
  "nat \<Rightarrow> bool \<Rightarrow> u64 \<Rightarrow> u32 \<Rightarrow> ranctx \<Rightarrow> (u8 list \<times> u64 \<times> ranctx) option" where
  "generate_zero_frames n dither prev configuration x =
     (if configuration = 0 then Some ([], prev, x)
      else case format_of_number (FORMAT_FROM_ENCODED_FORMAT configuration) of
        None \<Rightarrow> if n * unat (CHANNELS_FROM_ENCODED_FORMAT configuration) = 0 then Some ([], prev, x) else None
      | Some f \<Rightarrow>
          (case format_bits f of
             None \<Rightarrow> None
           | Some bits \<Rightarrow>
               Some (zero_samples f bits dither (n * unat (CHANNELS_FROM_ENCODED_FORMAT configuration)) prev x)))"

end
