(* ===== verification/Sync_Control.thy ===== *)
theory Sync_Control
  imports Complex_Main Prelude
begin

text \<open>
  How the player keeps in time (\<open>player_thread_func\<close> of \<open>player.c\<close>): the error between when a
  frame should be played and when it will be, the frames to skip or the silence to insert at a discontinuity,
  the ring of the last 40 errors and the extremes taken from it, the frames to add or take out, and the
  request to start again. Times are in nanoseconds. Signed 64-bit values are integers; the product of
  an error and a rate wraps as in C. Doubles are reals.
\<close>

section \<open>The error\<close>

definition sync_history_length :: nat where "sync_history_length = 40"

record sync_state =
  sync_samples :: "int list"
  sync_samples_index :: nat
  sync_samples_count :: nat
  frames_to_skip :: u32
  skipping_frames_at_start_of_play :: bool

definition wrap64 :: "int \<Rightarrow> int" where
  "wrap64 i = sint (word_of_int i :: u64)"

definition NANO :: int where "NANO = 1000000000"

text \<open>
  What the output device reports, as the result of the call and a number of frames: the delay, or no
  information. An underrun, a negative number, counts as no delay.
\<close>

definition reported_delay :: "(int \<times> int) option \<Rightarrow> u64 option" where
  "reported_delay r =
     (case r of
        Some (resp, l_delay) \<Rightarrow> if resp = 0 then Some (if 0 \<le> l_delay then word_of_int l_delay else 0) else None
      | None \<Rightarrow> None)"

text \<open>The time at which the frame will be played. There is no rate of zero: it would be a division by it.\<close>

definition time_to_be_played :: "u64 \<Rightarrow> u64 \<Rightarrow> u64 \<Rightarrow> u32 \<Rightarrow> u64" where
  "time_to_be_played measured current_delay retained rate =
     measured + (current_delay + retained) * 1000000000 div ucast rate"

definition sync_error_ns_of :: "u64 \<Rightarrow> u64 \<Rightarrow> int" where
  "sync_error_ns_of will should = sint (will - should)"

definition sync_error_of :: "int \<Rightarrow> u32 \<Rightarrow> int" where
  "sync_error_of ns rate = wrap64 (ns * uint rate) sdiv NANO"

section \<open>Discontinuities\<close>

text \<open>While frames are being skipped at the start of play, a better estimate replaces the number to skip.\<close>

definition update_skipping :: "int \<Rightarrow> sync_state \<Rightarrow> sync_state" where
  "update_skipping sync_error s =
     (if \<not> skipping_frames_at_start_of_play s then s
      else if sync_error \<le> 0 then s\<lparr>frames_to_skip := 0, skipping_frames_at_start_of_play := False\<rparr>
      else if uint (frames_to_skip s) \<noteq> sync_error then s\<lparr>frames_to_skip := word_of_int sync_error\<rparr>
      else s)"

text \<open>
  The gap to fix at the first frame, or at a frame whose timestamp does not follow: the error, or for a
  packet that repeats frames only what it repeats, changed from the input rate to the output rate.
\<close>

definition gap_to_fix :: "bool \<Rightarrow> int \<Rightarrow> u32 \<Rightarrow> u32 \<Rightarrow> int \<Rightarrow> int" where
  "gap_to_fix first_frame timestamp_gap input_rate rate sync_error =
     (if \<not> first_frame \<and> timestamp_gap < 0 then
        (let ns = (- timestamp_gap * NANO) sdiv uint input_rate
         in wrap64 (wrap64 (ns * uint rate) + NANO div 2) sdiv NANO)
      else sync_error)"

text \<open>The state, the frames of silence to insert, and what is left of the errors.\<close>

record fixed =
  fixed_state :: sync_state
  silent_frames :: nat
  fixed_ns :: int
  fixed_error :: int

definition fix_gap :: "int \<Rightarrow> int \<Rightarrow> int \<Rightarrow> sync_state \<Rightarrow> fixed" where
  "fix_gap gap ns sync_error s =
     (if 0 < gap then
        \<lparr>fixed_state = s\<lparr>frames_to_skip := frames_to_skip s + word_of_int gap\<rparr>, silent_frames = 0,
         fixed_ns = 0, fixed_error = sync_error\<rparr>
      else if gap < 0 then
        \<lparr>fixed_state = s\<lparr>frames_to_skip := 0, skipping_frames_at_start_of_play := False\<rparr>,
         silent_frames = nat (- gap), fixed_ns = 0, fixed_error = 0\<rparr>
      else \<lparr>fixed_state = s, silent_frames = 0, fixed_ns = ns, fixed_error = sync_error\<rparr>)"

definition fix_discontinuity ::
  "bool \<Rightarrow> int \<Rightarrow> u32 \<Rightarrow> u32 \<Rightarrow> int \<Rightarrow> int \<Rightarrow> sync_state \<Rightarrow> fixed" where
  "fix_discontinuity first_frame timestamp_gap input_rate rate ns sync_error s =
     (if first_frame \<or> timestamp_gap \<noteq> 0 then
        fix_gap (gap_to_fix first_frame timestamp_gap input_rate rate sync_error) ns sync_error
          (if first_frame then s\<lparr>skipping_frames_at_start_of_play := True\<rparr> else s)
      else \<lparr>fixed_state = s, silent_frames = 0, fixed_ns = ns, fixed_error = sync_error\<rparr>)"

section \<open>The ring of errors\<close>

definition record_error :: "int \<Rightarrow> sync_state \<Rightarrow> sync_state" where
  "record_error ns s =
     (let count = (if sync_samples_count s = sync_history_length then sync_samples_count s - 1
                   else sync_samples_count s)
      in s\<lparr>sync_samples := (sync_samples s)[sync_samples_index s := ns], sync_samples_count := count + 1,
           sync_samples_index := (sync_samples_index s + 1) mod sync_history_length\<rparr>)"

record extremes =
  highest :: int
  second_highest :: int
  lowest :: int
  second_lowest :: int

definition look_at :: "extremes \<Rightarrow> int \<Rightarrow> extremes" where
  "look_at e x =
     (if highest e < x then e\<lparr>second_highest := highest e, highest := x\<rparr>
      else if second_highest e < x then e\<lparr>second_highest := x\<rparr>
      else if x < lowest e then e\<lparr>second_lowest := lowest e, lowest := x\<rparr>
      else if x < second_lowest e then e\<lparr>second_lowest := x\<rparr>
      else e)"

text \<open>All four start as the error in the first slot of the ring.\<close>

definition find_extremes :: "int list \<Rightarrow> extremes" where
  "find_extremes xs =
     foldl look_at \<lparr>highest = hd xs, second_highest = hd xs, lowest = hd xs, second_lowest = hd xs\<rparr> xs"

definition ring_extremes :: "sync_state \<Rightarrow> extremes" where
  "ring_extremes s = find_extremes (take (sync_samples_count s) (sync_samples s))"

definition centered_error :: "extremes \<Rightarrow> int" where
  "centered_error e = (second_highest e + second_lowest e) sdiv 2"

section \<open>Corrections\<close>

text \<open>The conversion of a double to an integer drops the fraction.\<close>

definition to_int64 :: "real \<Rightarrow> int" where
  "to_int64 x = (if 0 \<le> x then \<lfloor>x\<rfloor> else \<lceil>x\<rceil>)"

text \<open>The product of the number of packets played and their length is an \<open>int\<close> of 32 bits.\<close>

definition settled :: "u32 \<Rightarrow> u32 \<Rightarrow> bool" where
  "settled play_number inbuflength \<longleftrightarrow> 10 * 1024 \<le> sint (play_number * inbuflength)"

definition amount_to_stuff :: "real \<Rightarrow> int \<Rightarrow> u32 \<Rightarrow> u32 \<Rightarrow> int" where
  "amount_to_stuff tolerance centered play_number inbuflength =
     (let tolerance_ns = to_int64 (tolerance * 1000000000); n = sint inbuflength sdiv 350 in
      if \<not> settled play_number inbuflength then 0
      else if tolerance_ns < centered then (if n = 0 then - 1 else - n)
      else if centered < - tolerance_ns then (if n = 0 then 1 else n)
      else 0)"

definition out_of_bounds :: "bool \<Rightarrow> real \<Rightarrow> u32 \<Rightarrow> int \<Rightarrow> extremes \<Rightarrow> nat \<Rightarrow> bool" where
  "out_of_bounds no_sync threshold ts centered e count \<longleftrightarrow>
     \<not> no_sync \<and> ts \<noteq> 0 \<and> 0 < threshold \<and> threshold < \<bar>of_int centered / 1000000000\<bar>
     \<and> \<not> (0 \<le> highest e \<and> lowest e \<le> 0) \<and> count = sync_history_length"

text \<open>
  What is known after a measurement: the errors as they count in the statistics, the silence, the centred
  error, the extremes and the correction. A measurement that took two milliseconds or more is not used.
\<close>

record measured =
  state_after :: sync_state
  silence_before :: nat
  error_ns :: int
  error_frames :: int
  centered :: int
  seen :: "extremes option"
  stuff :: int

definition assess ::
  "real \<Rightarrow> u32 \<Rightarrow> u32 \<Rightarrow> u32 \<Rightarrow> bool \<Rightarrow> int \<Rightarrow> u32 \<Rightarrow> u64 \<Rightarrow> u64 \<Rightarrow> sync_state \<Rightarrow> measured" where
  "assess tolerance play_number inbuflength input_rate first_frame timestamp_gap rate will should s =
     (let ns = sync_error_ns_of will should; err = sync_error_of ns rate;
          f = fix_discontinuity first_frame timestamp_gap input_rate rate ns err (update_skipping err s)
      in if frames_to_skip (fixed_state f) = 0 then
           (let s = record_error (fixed_ns f) (fixed_state f); e = ring_extremes s; c = centered_error e
            in \<lparr>state_after = s, silence_before = silent_frames f, error_ns = fixed_ns f,
                error_frames = fixed_error f, centered = c, seen = Some e,
                stuff = amount_to_stuff tolerance c play_number inbuflength\<rparr>)
         else
           \<lparr>state_after = fixed_state f, silence_before = silent_frames f, error_ns = fixed_ns f,
            error_frames = fixed_error f, centered = 0, seen = None, stuff = 0\<rparr>)"

definition unmeasured :: "sync_state \<Rightarrow> measured" where
  "unmeasured s =
     \<lparr>state_after = s, silence_before = 0, error_ns = 0, error_frames = 0, centered = 0, seen = None, stuff = 0\<rparr>"

end
