(* ===== verification/Sync_Proofs.thy ===== *)
theory Sync_Proofs
  imports Sync_Control
begin

text \<open>
  What holds of the control of the timing: what the extremes of the ring are, and that one error that stands
  out is left out except in the first slot; the first packet is put in its place to within a frame; the
  corrections have the sign that they should have, and stop after a long time.
\<close>

section \<open>The extremes\<close>













section \<open>An error that stands out\<close>









section \<open>The first packet\<close>

lemma sdiv_remainder: "0 < b \<Longrightarrow> \<bar>a - a sdiv b * b\<bar> < (b::int)"
  using smod_int_compares [of a b] sdiv_mult_smod_eq [of a b] by (cases "0 \<le> a") auto

lemma wrap64_id: "- (2 ^ 63) \<le> i \<Longrightarrow> i < 2 ^ 63 \<Longrightarrow> wrap64 i = i"
  unfolding wrap64_def by (simp add: sint_sbintrunc' signed_take_bit_int_eq_self)

lemma record_error_frames [simp]:
  "frames_to_skip (record_error ns s) = frames_to_skip s"
  "skipping_frames_at_start_of_play (record_error ns s) = skipping_frames_at_start_of_play s"
  by (simp_all add: record_error_def Let_def)

text \<open>
  C29. The first packet is put in its place: the silence inserted before it, or the frames that will be skipped,
  make up for the error to within one frame of the output, whether the packet is early or late.
\<close>

theorem first_packet_in_time:
  assumes "rate \<noteq> 0" "\<bar>sync_error_ns_of will should * uint rate\<bar> < 2 ^ 61"
    and "frames_to_skip s = 0" "\<not> skipping_frames_at_start_of_play s"
    and "m = assess tol play_number inbuflength input_rate True gap rate will should s"
  shows "\<bar>sync_error_ns_of will should * uint rate
            + (int (silence_before m) - uint (frames_to_skip (state_after m))) * NANO\<bar> < NANO"
proof -
  let ?ns = "sync_error_ns_of will should" and ?err = "sync_error_of (sync_error_ns_of will should) rate"
  have "wrap64 (?ns * uint rate) = ?ns * uint rate" using assms(2) by (intro wrap64_id) auto
  then have err: "?err = (?ns * uint rate) sdiv NANO" by (simp add: sync_error_of_def)
  have close: "\<bar>?ns * uint rate - ?err * NANO\<bar> < NANO" unfolding err by (rule sdiv_remainder) (simp add: NANO_def)
  have "\<bar>?err * NANO\<bar> < 2 ^ 61 + NANO" using close assms(2) by linarith
  then have small: "\<bar>?err\<bar> < 2 ^ 32" by (simp add: NANO_def abs_mult)
  have skip: "uint (word_of_int ?err :: u32) = ?err" if "0 \<le> ?err"
    using that small by (simp add: uint_word_of_int)
  have some: "(word_of_int ?err :: u32) \<noteq> 0" if "0 < ?err"
    using skip that by (metis less_imp_le order_less_irrefl uint_0_eq)
  consider (late) "0 < ?err" | (early) "?err < 0" | (due) "?err = 0" by linarith
  then have "int (silence_before m) - uint (frames_to_skip (state_after m)) = - ?err"
    using assms(3,4) skip some unfolding assms(5)
    by cases (simp_all add: assess_def Let_def update_skipping_def fix_discontinuity_def gap_to_fix_def fix_gap_def)
  then show ?thesis using close by simp
qed

theorem first_packet_in_time_witness:
  "\<bar>sync_error_ns_of 1000 500000000 * uint (44100::u32)
     + (int (silence_before (assess 0.002 1 352 44100 True 0 44100 1000 500000000
          \<lparr>sync_samples = replicate 40 0, sync_samples_index = 0, sync_samples_count = 0, frames_to_skip = 0,
           skipping_frames_at_start_of_play = False\<rparr>))
       - uint (frames_to_skip (state_after (assess 0.002 1 352 44100 True 0 44100 1000 500000000
          \<lparr>sync_samples = replicate 40 0, sync_samples_index = 0, sync_samples_count = 0, frames_to_skip = 0,
           skipping_frames_at_start_of_play = False\<rparr>)))) * NANO\<bar> < NANO"
  by (rule first_packet_in_time [OF _ _ _ _ refl]) (simp_all add: sync_error_ns_of_def)

section \<open>Corrections\<close>

text \<open>
  A correction has the sign that brings the error back to zero, is there only when the error is beyond the
  tolerance, and is one frame in 350, at least one.
\<close>

theorem corrections_pull_back:
  assumes "0 \<le> tol" "settled play_number n" "0 \<le> sint n"
  shows "(of_int c > tol * 1000000000 + 1 \<longrightarrow> amount_to_stuff tol c play_number n = - max 1 (sint n div 350))
    \<and> (of_int c < - (tol * 1000000000 + 1) \<longrightarrow> amount_to_stuff tol c play_number n = max 1 (sint n div 350))
    \<and> (\<bar>of_int c\<bar> \<le> tol * 1000000000 \<longrightarrow> amount_to_stuff tol c play_number n = 0)"
proof -
  have n: "sint n sdiv 350 = sint n div 350" using assms(3) by (simp add: signed_divide_int_def sgn_if)
  have pos: "0 \<le> sint n div 350" using assms(3) by simp
  define T where "T = \<lfloor>tol * 1000000000\<rfloor>"
  have tol: "to_int64 (tol * 1000000000) = T" using assms(1) by (simp add: to_int64_def T_def)
  have nonneg: "0 \<le> T" using assms(1) by (simp add: T_def)
  have "amount_to_stuff tol c play_number n = - max 1 (sint n div 350)" if "of_int c > tol * 1000000000 + 1"
  proof -
    have "T < c" using that unfolding T_def by linarith
    then show ?thesis unfolding amount_to_stuff_def Let_def tol n using assms(2) pos by (simp add: max_def)
  qed
  moreover have "amount_to_stuff tol c play_number n = max 1 (sint n div 350)"
    if "of_int c < - (tol * 1000000000 + 1)"
  proof -
    have "c < - T" using that unfolding T_def by linarith
    moreover then have "\<not> T < c" using nonneg by linarith
    ultimately show ?thesis unfolding amount_to_stuff_def Let_def tol n using assms(2) pos nonneg by (simp add: max_def)
  qed
  moreover have "amount_to_stuff tol c play_number n = 0" if "\<bar>of_int c\<bar> \<le> tol * 1000000000"
  proof -
    have "\<not> T < c" "\<not> c < - T" using that unfolding T_def by linarith+
    then show ?thesis unfolding amount_to_stuff_def Let_def tol n by simp
  qed
  ultimately show ?thesis by blast
qed

theorem corrections_pull_back_witness:
  "amount_to_stuff 0.002 3000000 100 352 = - 1 \<and> amount_to_stuff 0.002 (- 3000000) 100 1024 = 2"
  using corrections_pull_back [of "0.002" 100 352 3000000] corrections_pull_back [of "0.002" 100 1024 "- 3000000"]
  by (simp add: settled_def)

text \<open>
  After 13 hours and a half of packets of 352 frames the product of their number and their length no
  longer fits an \<open>int\<close>: for as long again, no error however large is corrected.
\<close>

theorem long_play_stops_corrections:
  assumes "6100806 \<le> k" "k \<le> (12201611::nat)"
  shows "amount_to_stuff tol c (of_nat k) 352 = 0"
proof -
  have "sint (of_nat k * 352 :: u32) < 0"
  proof -
    have "(of_nat k * 352 :: u32) = word_of_int (int k * 352 - 2 ^ 32)" by simp
    then have "sint (of_nat k * 352 :: u32) = sint (word_of_int (int k * 352 - 2 ^ 32) :: u32)" by (simp only:)
    also have "\<dots> = int k * 352 - 2 ^ 32"
      by (rule sint_word_of_int_32) (use assms in auto)
    finally have e: "sint (of_nat k * 352 :: u32) = int k * 352 - 2 ^ 32" .
    show ?thesis unfolding e using assms by simp
  qed
  then show ?thesis by (simp add: amount_to_stuff_def settled_def Let_def)
qed

theorem long_play_stops_corrections_witness:
  "amount_to_stuff 0.002 1000000000 (of_nat 6100806) 352 = 0"
  by (rule long_play_stops_corrections) simp_all

end
