(* ===== verification/Output_Chain.thy ===== *)
theory Output_Chain
  imports Jitter_Buffer Sample_Input
begin

text \<open>
  The chain from decoded audio to the format of the output device (\<open>setup_software_resampler\<close> and
  \<open>avframe_to_audio\<close> of \<open>player.c\<close>): the parameters that follow from the kind of stream, the map from
  the channels of the device to those of the resampler, and the copy of the samples along that
  map. The resampler itself is a library: the names of its channels and the samples it makes are
  arguments. \<open>None\<close>: an access outside an array.
\<close>

section \<open>Parameters of a stream\<close>

text \<open>Rate, frames in a packet, channels, and the format to suggest to the device.\<close>

definition stream_parameters :: "u32 \<Rightarrow> u32 \<times> u32 \<times> u32 \<times> sps_format" where
  "stream_parameters s =
     (if s = ALAC_44100_S16_2 then (44100, 352, 2, SPS_FORMAT_S16)
      else if s = ALAC_48000_S24_2 then (48000, 352, 2, SPS_FORMAT_S24)
      else if s = AAC_44100_F24_2 then (44100, 1024, 2, SPS_FORMAT_S32)
      else if s = AAC_48000_F24_2 then (48000, 1024, 2, SPS_FORMAT_S32)
      else if s = AAC_48000_F24_5P1 then (48000, 1024, 6, SPS_FORMAT_S32)
      else if s = AAC_48000_F24_7P1 then (48000, 1024, 8, SPS_FORMAT_S32)
      else (48000, 1024, 2, SPS_FORMAT_S32))"

section \<open>The channel map\<close>

definition silent_channel_index :: nat where "silent_channel_index = 65"
definition front_mono_channel_index :: nat where "front_mono_channel_index = 66"

text \<open>The map of the connection has eight entries, the lists of names have 64.\<close>

definition map_entries :: nat where "map_entries = 8"
definition most_channels :: nat where "most_channels = 64"

record channel_state =
  channel_map :: "nat list"
  output_allocated :: "bool list"
  resampler_allocated :: "bool list"

text \<open>The names of the channels of the device: none, those of the settings, or those the device gives.\<close>

fun words_of :: "string \<Rightarrow> string \<Rightarrow> string list" where
  "words_of [] w = (if w = [] then [] else [w])"
| "words_of (c # s) w =
     (if c = CHR '' '' then (if w = [] then words_of s [] else w # words_of s []) else words_of s (w @ [c]))"

definition device_names :: "bool \<Rightarrow> string list \<Rightarrow> string option \<Rightarrow> string list" where
  "device_names mapping_enable configured device_map =
     (if \<not> mapping_enable then []
      else if configured \<noteq> [] then configured
      else case device_map of None \<Rightarrow> [] | Some m \<Rightarrow> words_of m [])"

definition name_at :: "string list \<Rightarrow> nat \<Rightarrow> string option" where
  "name_at names i = (if i < length names then Some (names ! i) else None)"

text \<open>The resampler's channel of a name.\<close>

fun index_of :: "string \<Rightarrow> string list \<Rightarrow> nat \<Rightarrow> nat option" where
  "index_of n [] i = None"
| "index_of n (x # xs) i = (if n = x then Some i else index_of n xs (i + 1))"

definition set_channel :: "nat \<Rightarrow> nat \<Rightarrow> channel_state \<Rightarrow> channel_state option" where
  "set_channel cmi c s = (if map_entries \<le> cmi then None else Some (s\<lparr>channel_map := (channel_map s)[cmi := c]\<rparr>))"

definition map_named :: "string list \<Rightarrow> string list \<Rightarrow> nat \<Rightarrow> channel_state \<Rightarrow> channel_state option" where
  "map_named resampler device cmi s =
     Option.bind (set_channel cmi silent_channel_index s) (\<lambda>s.
       case name_at device cmi of
         None \<Rightarrow> Some s
       | Some n \<Rightarrow>
           if n = ''--'' then Some (s\<lparr>output_allocated := (output_allocated s)[cmi := True]\<rparr>)
           else case index_of n resampler 0 of
             None \<Rightarrow> Some s
           | Some c \<Rightarrow>
               map_option (\<lambda>s. s\<lparr>output_allocated := (output_allocated s)[cmi := True],
                   resampler_allocated := (resampler_allocated s)[c := True]\<rparr>)
                 (set_channel cmi c s))"

fun map_all_named :: "string list \<Rightarrow> string list \<Rightarrow> nat list \<Rightarrow> channel_state \<Rightarrow> channel_state option" where
  "map_all_named resampler device [] s = Some s"
| "map_all_named resampler device (cmi # cmis) s =
     Option.bind (map_named resampler device cmi s) (map_all_named resampler device cmis)"

text \<open>
  What is left is matched in order: \<open>cs\<close> are the channels of the resampler not yet passed over, of 64; one
  without a name or that is allocated is passed over.
\<close>

fun skip_taken :: "nat \<Rightarrow> bool list \<Rightarrow> nat list \<Rightarrow> nat list" where
  "skip_taken found allocated [] = []"
| "skip_taken found allocated (c # cs) =
     (if c < found \<and> \<not> allocated ! c then c # cs else skip_taken found allocated cs)"

fun map_rest :: "nat \<Rightarrow> nat list \<Rightarrow> nat list \<Rightarrow> channel_state \<Rightarrow> channel_state option" where
  "map_rest found [] cs s = Some s"
| "map_rest found (cmi # cmis) cs s =
     (if cs = [] then Some s
      else if output_allocated s ! cmi then map_rest found cmis cs s
      else case skip_taken found (resampler_allocated s) cs of
          [] \<Rightarrow> Some s
        | c # cs \<Rightarrow>
            Option.bind (set_channel cmi c s) (\<lambda>s.
              map_rest found cmis (c # cs)
                (s\<lparr>output_allocated := (output_allocated s)[cmi := True],
                   resampler_allocated := (resampler_allocated s)[c := True]\<rparr>)))"

definition build_map :: "string list \<Rightarrow> string list \<Rightarrow> nat \<Rightarrow> nat list \<Rightarrow> nat list option" where
  "build_map resampler device n old =
     (if most_channels < length device \<or> most_channels < n then None
      else
        (let s = \<lparr>channel_map = old, output_allocated = replicate most_channels False,
                  resampler_allocated = replicate most_channels False\<rparr>
         in map_option channel_map
              (Option.bind (map_all_named resampler device [0..<n] s)
                 (map_rest (length resampler) [0..<n] [0..<most_channels]))))"

section \<open>Setting up the chain\<close>

record chain =
  configuration :: u32  \<comment> \<open>\<open>config.current_output_configuration\<close>\<close>
  num_channels :: nat
  input_bit_depth :: nat
  input_effective_bit_depth :: nat
  frame_bytes :: nat  \<comment> \<open>\<open>input_bytes_per_frame\<close>\<close>
  output_map :: "nat list"
  resampler_output_channels :: nat
  resampler_bytes :: nat
  resampler_ssrc :: u32

text \<open>
  What the device and the resampler answer: the best configuration, if the device can be asked, its channel
  map, and the names and the sample size of the resampler's output. The settings of the map are here too.
\<close>

record chain_env =
  get_configuration :: "(u32 \<Rightarrow> u32 \<Rightarrow> sps_format \<Rightarrow> u32) option"
  device_channel_map :: "u32 \<Rightarrow> string option"
  resampler_names :: "u32 \<Rightarrow> u32 \<Rightarrow> string list"
  resampler_sample_size :: "u32 \<Rightarrow> nat"
  output_channel_mapping_enable :: bool
  output_channel_map :: "string list"

definition chosen_configuration :: "chain_env \<Rightarrow> u32 \<Rightarrow> u32" where
  "chosen_configuration e s =
     (let (rate, _, channels, suggested) = stream_parameters s in
      case get_configuration e of
        None \<Rightarrow> encode_configuration 2 48000 SPS_FORMAT_S32_LE
      | Some f \<Rightarrow> f channels rate suggested)"

definition setup_software_resampler :: "chain_env \<Rightarrow> u32 \<Rightarrow> chain \<Rightarrow> chain option" where
  "setup_software_resampler e s ch =
     (let config = chosen_configuration e s in
      if config = 0 then Some (ch\<lparr>input_bit_depth := 16, input_effective_bit_depth := 16, frame_bytes := 4\<rparr>)
      else
        (let width = unat (CHANNELS_FROM_ENCODED_FORMAT config); names = resampler_names e s config;
             depth = (if s = ALAC_44100_S16_2 then 16 else 32);
             effective = (if s = ALAC_44100_S16_2 then 16 else if s = ALAC_48000_S24_2 then 24 else 32);
             device = device_names (output_channel_mapping_enable e) (output_channel_map e)
                        (device_channel_map e config)
         in map_option (\<lambda>m. ch\<lparr>configuration := config, num_channels := width, input_bit_depth := depth,
                input_effective_bit_depth := effective,
                frame_bytes := depth div 8 * width, output_map := m, resampler_output_channels := length names,
                resampler_bytes := resampler_sample_size e s, resampler_ssrc := s\<rparr>)
              (if names = [] then Some (output_map ch) else build_map names device width (output_map ch))))"

section \<open>Along the map\<close>

text \<open>A frame of the device from a frame of the resampler. Samples not written are zero.\<close>

definition map_channel :: "'a::len word list \<Rightarrow> nat \<Rightarrow> 'a word option" where
  "map_channel frame c =
     (if c = front_mono_channel_index then
        if 2 \<le> length frame
        then Some (word_of_int (sint (frame ! 0) sdiv 2) + word_of_int (sint (frame ! 1) sdiv 2)) else None
      else if c = silent_channel_index then Some 0
      else if c < length frame then Some (frame ! c) else None)"

fun map_channels :: "'a::len word list \<Rightarrow> nat list \<Rightarrow> 'a word list option" where
  "map_channels frame [] = Some []"
| "map_channels frame (c # cs) =
     Option.bind (map_channel frame c) (\<lambda>x. map_option ((#) x) (map_channels frame cs))"

definition map_frame :: "nat list \<Rightarrow> nat \<Rightarrow> 'a::len word list \<Rightarrow> 'a word list option" where
  "map_frame m width frame = (if length m < width then None else map_channels frame (take width m))"

fun map_frames :: "nat list \<Rightarrow> nat \<Rightarrow> 'a::len word list list \<Rightarrow> 'a word list option" where
  "map_frames m width [] = Some []"
| "map_frames m width (frame # frames) =
     Option.bind (map_frame m width frame) (\<lambda>xs. map_option ((@) xs) (map_frames m width frames))"

text \<open>Samples of 32 bits as the words of a packet.\<close>

fun halves :: "u32 list \<Rightarrow> u16 list" where
  "halves [] = []"
| "halves (x # xs) = ucast x # ucast (drop_bit 16 x) # halves xs"

text \<open>The frames that the resampler made, in its sample format.\<close>

datatype pcm = Pcm16 "u16 list list" | Pcm32 "u32 list list" | Pcm_Other nat

text \<open>The words of the audio and the number of frames; no audio when the resampler made none.\<close>

definition avframe_to_audio :: "chain \<Rightarrow> pcm \<Rightarrow> (u16 list option \<times> nat) option" where
  "avframe_to_audio ch p =
     (let width = unat (CHANNELS_FROM_ENCODED_FORMAT (configuration ch)) in
      case p of
        Pcm16 frames \<Rightarrow>
          if frames = [] then Some (None, 0)
          else map_option (\<lambda>xs. (Some xs, length frames)) (map_frames (output_map ch) width frames)
      | Pcm32 frames \<Rightarrow>
          if frames = [] then Some (None, 0)
          else map_option (\<lambda>xs. (Some (halves xs), length frames)) (map_frames (output_map ch) width frames)
      | Pcm_Other n \<Rightarrow>
          if n = 0 then Some (None, 0)
          else Some (Some (replicate (n * width * resampler_bytes ch div 2) 0), n))"

end
