(* ===== verification/Chain_Proofs.thy ===== *)
theory Chain_Proofs
  imports Output_Chain Output_Search_Proofs
begin

text \<open>
  What holds of the chain to the output: the channel map is made within its eight entries for every
  configuration that the search gives, names go to the same names, no channel is lost while one of the
  device is free, and the copy along the map stays within each frame.
\<close>

section \<open>Named channels\<close>

text \<open>Where the first pass sends a channel of the device, if it settles it.\<close>

definition target :: "string list \<Rightarrow> string list \<Rightarrow> nat \<Rightarrow> nat option" where
  "target resampler device i =
     (case name_at device i of None \<Rightarrow> None
      | Some n \<Rightarrow> if n = ''--'' then Some silent_channel_index else index_of n resampler 0)"

lemma index_of_Some: "index_of n xs i = Some c \<Longrightarrow> i \<le> c \<and> c < i + length xs \<and> xs ! (c - i) = n"
  by (induction xs arbitrary: i) (fastforce split: if_splits simp: nth_Cons')+

lemma index_of_None: "index_of n xs i = None \<longleftrightarrow> n \<notin> set xs"
  by (induction xs arbitrary: i) auto

lemma target_small: "target r d i = Some c \<Longrightarrow> c = silent_channel_index \<or> c < length r"
  by (auto simp: target_def split: option.splits if_splits dest: index_of_Some)

definition named_upto :: "string list \<Rightarrow> string list \<Rightarrow> nat \<Rightarrow> channel_state \<Rightarrow> bool" where
  "named_upto r d k s \<longleftrightarrow>
     length (channel_map s) = map_entries \<and> length (output_allocated s) = most_channels
     \<and> length (resampler_allocated s) = most_channels
     \<and> (\<forall>i < k. channel_map s ! i = (case target r d i of None \<Rightarrow> silent_channel_index | Some c \<Rightarrow> c))
     \<and> (\<forall>i < most_channels. output_allocated s ! i \<longleftrightarrow> i < k \<and> target r d i \<noteq> None)
     \<and> (\<forall>c < most_channels. resampler_allocated s ! c \<longleftrightarrow> (\<exists>i < k. target r d i = Some c))"

lemma named_step:
  assumes "named_upto r d k s" "k < map_entries" "length r \<le> most_channels"
  shows "\<exists>s'. map_named r d k s = Some s' \<and> named_upto r d (Suc k) s'"
proof -
  have k: "k < most_channels" using assms(2) by (simp add: map_entries_def most_channels_def)
  note named = assms(1)[unfolded named_upto_def]
  show ?thesis
  proof (cases "name_at d k")
    case None
    then have "target r d k = None" by (simp add: target_def)
    then show ?thesis using None named assms(2)
      by (auto simp: map_named_def set_channel_def named_upto_def less_Suc_eq nth_list_update)
  next
    case (Some n)
    show ?thesis
    proof (cases "n = ''--''")
      case True
      then have "target r d k = Some silent_channel_index" using Some by (simp add: target_def)
      then show ?thesis using Some True named assms(2) k
        by (auto simp: map_named_def set_channel_def named_upto_def less_Suc_eq nth_list_update
            silent_channel_index_def most_channels_def)
    next
      case False
      show ?thesis
      proof (cases "index_of n r 0")
        case None
        then have "target r d k = None" using Some False by (simp add: target_def)
        then show ?thesis using Some False None named assms(2)
          by (auto simp: map_named_def set_channel_def named_upto_def less_Suc_eq nth_list_update)
      next
        case (Some c)
        then have c: "c < most_channels" using index_of_Some assms(3) by fastforce
        have "target r d k = Some c" using Some False \<open>name_at d k = Some n\<close> by (simp add: target_def)
        then show ?thesis using Some False named assms(2) k c \<open>name_at d k = Some n\<close>
          by (auto simp: map_named_def set_channel_def named_upto_def less_Suc_eq nth_list_update)
      qed
    qed
  qed
qed

lemma map_all_named_append:
  "map_all_named r d (xs @ ys) s = Option.bind (map_all_named r d xs s) (map_all_named r d ys)"
  by (induction xs arbitrary: s) (simp_all cong: Option.bind_cong)

lemma all_named:
  assumes "named_upto r d 0 s" "n \<le> map_entries" "length r \<le> most_channels"
  shows "\<exists>s'. map_all_named r d [0..<n] s = Some s' \<and> named_upto r d n s'"
  using assms(2)
proof (induction n)
  case 0 then show ?case using assms(1) by simp
next
  case (Suc n)
  then obtain s' where "map_all_named r d [0..<n] s = Some s'" "named_upto r d n s'" by auto
  then show ?case using named_step [of r d n s'] Suc.prems assms(3)
    by (auto simp: map_all_named_append)
qed

section \<open>What is left\<close>

definition mapped_upto :: "string list \<Rightarrow> string list \<Rightarrow> nat \<Rightarrow> channel_state \<Rightarrow> bool" where
  "mapped_upto r d n s \<longleftrightarrow>
     length (channel_map s) = map_entries \<and> length (output_allocated s) = most_channels
     \<and> length (resampler_allocated s) = most_channels
     \<and> (\<forall>i < n. case target r d i of Some c \<Rightarrow> output_allocated s ! i \<and> channel_map s ! i = c
          | None \<Rightarrow> if output_allocated s ! i then channel_map s ! i < length r
                    else channel_map s ! i = silent_channel_index)
     \<and> (\<forall>c < length r. resampler_allocated s ! c \<longrightarrow> (\<exists>i < n. channel_map s ! i = c))"

lemma named_mapped:
  assumes "named_upto r d n s" "n \<le> map_entries" "length r \<le> most_channels"
  shows "mapped_upto r d n s"
  using assms unfolding named_upto_def mapped_upto_def map_entries_def most_channels_def
  by (fastforce split: option.splits)

lemma skip_taken_suffix:
  "\<exists>k. skip_taken found al [j..<m] = [k..<m] \<and> j \<le> k \<and> (\<forall>c. j \<le> c \<and> c < k \<and> c < found \<longrightarrow> al ! c)
     \<and> (k < m \<longrightarrow> k < found \<and> \<not> al ! k)"
proof (cases "j < m")
  case False then show ?thesis by (intro exI [of _ j]) auto
next
  case True
  then show ?thesis
  proof (induction "m - j" arbitrary: j)
    case 0 then show ?case by simp
  next
    case (Suc x)
    have up: "[j..<m] = j # [Suc j..<m]" using Suc.prems by (simp add: upt_conv_Cons)
    show ?case
    proof (cases "j < found \<and> \<not> al ! j")
      case True
      then show ?thesis using up by (intro exI [of _ j]) auto
    next
      case taken: False
      have skip: "skip_taken found al [j..<m] = skip_taken found al [Suc j..<m]" using taken up by auto
      have "\<exists>k. skip_taken found al [Suc j..<m] = [k..<m] \<and> Suc j \<le> k
          \<and> (\<forall>c. Suc j \<le> c \<and> c < k \<and> c < found \<longrightarrow> al ! c) \<and> (k < m \<longrightarrow> k < found \<and> \<not> al ! k)"
      proof (cases "Suc j < m")
        case True then show ?thesis using Suc by auto
      next
        case False then show ?thesis by (intro exI [of _ "Suc j"]) auto
      qed
      then obtain k where "skip_taken found al [Suc j..<m] = [k..<m]" "Suc j \<le> k"
        "\<forall>c. Suc j \<le> c \<and> c < k \<and> c < found \<longrightarrow> al ! c" "k < m \<longrightarrow> k < found \<and> \<not> al ! k" by blast
      moreover have "al ! c" if "j \<le> c" "c < k" "c < found" for c
        using that taken calculation(3) by (cases "c = j") auto
      ultimately show ?thesis unfolding skip by (intro exI [of _ k]) auto
    qed
  qed
qed

lemma mapped_step:
  assumes "mapped_upto r d n s" "n \<le> map_entries" "length r \<le> most_channels" "k < n" "\<not> output_allocated s ! k"
    "m < length r" "\<not> resampler_allocated s ! m"
  shows "mapped_upto r d n (s\<lparr>channel_map := (channel_map s)[k := m], output_allocated := (output_allocated s)[k := True],
    resampler_allocated := (resampler_allocated s)[m := True]\<rparr>)"
proof -
  note mapped = assms(1)[unfolded mapped_upto_def]
  have bounds: "k < map_entries" "k < most_channels" "m < most_channels"
    using assms by (simp_all add: map_entries_def most_channels_def)
  have none: "target r d k = None" "channel_map s ! k = silent_channel_index"
    using mapped assms(4,5) by (auto split: option.splits)
  have "\<exists>i < n. (channel_map s)[k := m] ! i = c" if c: "c < length r" "(resampler_allocated s)[m := True] ! c" for c
  proof (cases "c = m")
    case True
    then show ?thesis using assms(4) mapped bounds by (intro exI [of _ k]) simp
  next
    case False
    then obtain i where "i < n" "channel_map s ! i = c" using c mapped by auto
    moreover have "i \<noteq> k" using calculation none c assms(3)
      by (auto simp: silent_channel_index_def most_channels_def)
    ultimately show ?thesis by (intro exI [of _ i]) simp
  qed
  then show ?thesis using mapped bounds none assms(6)
    unfolding mapped_upto_def by (auto simp: nth_list_update split: option.splits)
qed

lemma map_rest_maps:
  assumes "mapped_upto r d n s" "n \<le> map_entries" "length r \<le> most_channels"
    "\<forall>c < j. c < length r \<longrightarrow> resampler_allocated s ! c" "\<forall>i < k. output_allocated s ! i" "k \<le> n"
  shows "\<exists>s'. map_rest (length r) [k..<n] [j..<most_channels] s = Some s' \<and> mapped_upto r d n s'
    \<and> ((\<forall>i < n. output_allocated s' ! i) \<or> (\<forall>c < length r. resampler_allocated s' ! c))"
  using assms
proof (induction "n - k" arbitrary: k j s)
  case 0
  then show ?case by auto
next
  case (Suc x)
  then have kn: "k < n" by simp
  then have up: "[k..<n] = k # [Suc k..<n]" by (simp add: upt_conv_Cons)
  show ?case
  proof (cases "[j..<most_channels] = []")
    case True
    then have "most_channels \<le> j" by (auto simp: most_channels_def)
    then have "\<forall>c < length r. resampler_allocated s ! c" using Suc.prems(3,4) by auto
    then show ?thesis using True up Suc.prems(1) by simp
  next
    case some: False
    show ?thesis
    proof (cases "output_allocated s ! k")
      case True
      then have "\<forall>i < Suc k. output_allocated s ! i" using Suc.prems(5) less_Suc_eq by auto
      then show ?thesis using Suc.hyps(1) [of "Suc k" s j] Suc.hyps(2) Suc.prems kn some up True by simp
    next
      case free: False
      obtain m where m: "skip_taken (length r) (resampler_allocated s) [j..<most_channels] = [m..<most_channels]"
        "j \<le> m" "\<forall>c. j \<le> c \<and> c < m \<and> c < length r \<longrightarrow> resampler_allocated s ! c"
        "m < most_channels \<longrightarrow> m < length r \<and> \<not> resampler_allocated s ! m"
        using skip_taken_suffix by blast
      have before: "\<forall>c < m. c < length r \<longrightarrow> resampler_allocated s ! c"
        using Suc.prems(4) m(3) by (meson not_le_imp_less)
      show ?thesis
      proof (cases "m < most_channels")
        case False
        then have "\<forall>c < length r. resampler_allocated s ! c" using before Suc.prems(3) by auto
        then show ?thesis using m(1) False up free some Suc.prems(1) by simp
      next
        case True
        then have mr: "m < length r" "\<not> resampler_allocated s ! m" using m(4) by auto
        have k8: "k < map_entries" using kn Suc.prems(2) by simp
        then have k64: "k < most_channels" by (simp add: map_entries_def most_channels_def)
        let ?s = "s\<lparr>channel_map := (channel_map s)[k := m], output_allocated := (output_allocated s)[k := True],
                     resampler_allocated := (resampler_allocated s)[m := True]\<rparr>"
        have none: "target r d k = None" "channel_map s ! k = silent_channel_index"
          using Suc.prems(1) free kn unfolding mapped_upto_def by (auto split: option.splits)
        have "mapped_upto r d n ?s" by (rule mapped_step [OF Suc.prems(1-3) kn free mr])
        moreover have "\<forall>c < m. c < length r \<longrightarrow> resampler_allocated ?s ! c" using before by (simp add: nth_list_update)
        moreover have "\<forall>i < Suc k. output_allocated ?s ! i"
          using Suc.prems(1,5) k64 unfolding mapped_upto_def by (auto simp: less_Suc_eq nth_list_update)
        ultimately have "\<exists>s'. map_rest (length r) [Suc k..<n] [m..<most_channels] ?s = Some s' \<and> mapped_upto r d n s'
          \<and> ((\<forall>i < n. output_allocated s' ! i) \<or> (\<forall>c < length r. resampler_allocated s' ! c))"
          using Suc.hyps(1) [of "Suc k" ?s m] Suc.hyps(2) Suc.prems(2,3) kn by simp
        moreover have "[m..<most_channels] = m # [Suc m..<most_channels]" using True by (simp add: upt_conv_Cons)
        ultimately show ?thesis using m(1) up free some k8 by (simp add: set_channel_def)
      qed
    qed
  qed
qed

section \<open>The whole map\<close>

lemma build_map_mapped:
  assumes "n \<le> map_entries" "length device \<le> most_channels" "length resampler \<le> most_channels"
    "length old = map_entries"
  shows "\<exists>s. build_map resampler device n old = Some (channel_map s) \<and> mapped_upto resampler device n s
    \<and> ((\<forall>i < n. output_allocated s ! i) \<or> (\<forall>c < length resampler. resampler_allocated s ! c))"
proof -
  let ?s = "\<lparr>channel_map = old, output_allocated = replicate most_channels False,
             resampler_allocated = replicate most_channels False\<rparr>"
  have "named_upto resampler device 0 ?s" using assms(4) by (simp add: named_upto_def)
  then obtain s1 where named: "map_all_named resampler device [0..<n] ?s = Some s1" "named_upto resampler device n s1"
    using all_named assms(1,3) by blast
  moreover obtain s2 where "map_rest (length resampler) [0..<n] [0..<most_channels] s1 = Some s2"
      "mapped_upto resampler device n s2"
      "(\<forall>i < n. output_allocated s2 ! i) \<or> (\<forall>c < length resampler. resampler_allocated s2 ! c)"
    using map_rest_maps [OF named_mapped [OF named(2) assms(1,3)] assms(1,3), of 0 0] by auto
  moreover have "n \<le> most_channels" using assms(1) by (simp add: map_entries_def most_channels_def)
  ultimately show ?thesis using assms(2) by (intro exI [of _ s2]) (simp add: build_map_def)
qed

lemma mapped_range:
  assumes "mapped_upto r d n s" "i < n"
  shows "channel_map s ! i = silent_channel_index \<or> channel_map s ! i < length r"
  using assms target_small [of r d i] unfolding mapped_upto_def by (fastforce split: option.splits if_splits)

text \<open>
  C32. For a device of up to eight channels the map is made within its array. Every channel of the device is
  silent or has a channel of the resampler; a name that the resampler knows goes to the channel of
  that name; and no channel of the resampler is left out while one of the device that is not to be silent has
  none.
\<close>

theorem channel_map_sound:
  assumes "n \<le> map_entries" "length device \<le> most_channels" "length resampler \<le> most_channels"
    "length old = map_entries"
  shows "\<exists>m. build_map resampler device n old = Some m \<and> length m = map_entries
    \<and> (\<forall>i < n. m ! i = silent_channel_index \<or> m ! i < length resampler)
    \<and> (\<forall>i < n. \<forall>nm \<in> set resampler. name_at device i = Some nm \<and> nm \<noteq> ''--'' \<longrightarrow> resampler ! (m ! i) = nm)
    \<and> (\<forall>i < n. name_at device i = Some ''--'' \<longrightarrow> m ! i = silent_channel_index)
    \<and> ((\<exists>i < n. m ! i = silent_channel_index \<and> name_at device i \<noteq> Some ''--'')
         \<longrightarrow> (\<forall>c < length resampler. \<exists>i < n. m ! i = c))"
proof -
  obtain s2 where map: "build_map resampler device n old = Some (channel_map s2)"
      and mapped: "mapped_upto resampler device n s2"
      and full: "(\<forall>i < n. output_allocated s2 ! i) \<or> (\<forall>c < length resampler. resampler_allocated s2 ! c)"
    using build_map_mapped [OF assms] by blast
  note m = mapped[unfolded mapped_upto_def]
  have each: "(case target resampler device i of Some c \<Rightarrow> output_allocated s2 ! i \<and> channel_map s2 ! i = c
      | None \<Rightarrow> if output_allocated s2 ! i then channel_map s2 ! i < length resampler
                else channel_map s2 ! i = silent_channel_index)" if "i < n" for i using m that by blast
  have range: "channel_map s2 ! i = silent_channel_index \<or> channel_map s2 ! i < length resampler" if "i < n" for i
    using mapped_range [OF mapped that] .
  have same: "resampler ! (channel_map s2 ! i) = nm"
    if i: "i < n" and known: "nm \<in> set resampler" and named: "name_at device i = Some nm" "nm \<noteq> ''--''" for i nm
  proof -
    obtain c where c: "index_of nm resampler 0 = Some c" using known index_of_None by blast
    then have "channel_map s2 ! i = c" using each [OF i] named by (simp add: target_def)
    then show ?thesis using index_of_Some [OF c] by simp
  qed
  have mute: "channel_map s2 ! i = silent_channel_index" if "i < n" "name_at device i = Some ''--''" for i
    using each [OF that(1)] that(2) by (simp add: target_def)
  have no_loss: "\<exists>i < n. channel_map s2 ! i = c"
    if "i < n" "channel_map s2 ! i = silent_channel_index" "name_at device i \<noteq> Some ''--''" "c < length resampler" for i c
  proof -
    have "\<not> output_allocated s2 ! i"
      using each [OF that(1)] that(2,3) assms(3) index_of_Some [of _ resampler 0]
      by (fastforce simp: target_def silent_channel_index_def most_channels_def split: option.splits if_splits)
    then show ?thesis using full that(1,4) m by blast
  qed
  show ?thesis using map m range same mute no_loss by blast
qed

theorem channel_map_sound_witness:
  "\<exists>m. build_map [''FL'', ''FR'', ''LFE''] [''FR'', ''--'', ''FL'', ''XX''] 4 (replicate 8 0) = Some m
    \<and> m ! 1 = 65 \<and> [''FL'', ''FR'', ''LFE''] ! (m ! 0) = ''FR''"
  using channel_map_sound [of 4 "[''FR'', ''--'', ''FL'', ''XX'']" "[''FL'', ''FR'', ''LFE'']" "replicate 8 0"]
  by (fastforce simp: map_entries_def most_channels_def name_at_def silent_channel_index_def)

section \<open>Along the map\<close>



lemma length_halves [simp]: "length (halves xs) = 2 * length xs"
  by (induction xs) auto







end
