(* ===== verification/Player_Turn.thy ===== *)
theory Player_Turn
  imports Frame_Release Volume Output_Chain Sync_Control
begin

text \<open>
  A turn of the player thread (\<open>player_thread_func\<close> of \<open>player.c\<close>) once a packet is there: silence in the
  place of a packet that is missing, or the samples of the packet raised to 32 bits, measured against the
  clock, corrected, scaled and handed to the output device. Built with FFmpeg and without libsoxr and
  convolution. Allocations succeed. What the turn reads from outside is the record \<open>turn_env\<close>; what it
  does is a list of effects. \<open>None\<close>: the program dies or its behaviour is undefined.
\<close>

section \<open>Settings, inputs and state\<close>

datatype stuffing_type = ST_basic | ST_vernier | ST_soxr | ST_auto

record play_config =
  playback_mode :: playback_mode
  packet_stuffing :: stuffing_type
  no_sync :: bool
  tolerance :: real
  resync_threshold :: real
  metadata_progress_interval :: real
  loudness_enabled :: bool
  external_volume :: bool  \<comment> \<open>the output device has a \<open>volume_range\<close>\<close>

record turn_env =
  reported :: "(int \<times> int) option"  \<comment> \<open>result and frames of \<open>delay\<close>, if the device has it\<close>
  measurement_start :: u64
  measurement_end :: u64  \<comment> \<open>when \<open>delay\<close> returned\<close>
  after_measurement :: u64
  due_clock :: clock_env
  play_clock :: clock_env
  chain_answers :: chain_env
  resampled :: pcm
  retained :: u64  \<comment> \<open>\<open>frames_retained_in_the_resampler\<close>, after the packet\<close>
  rand_value :: nat
  loudness_filter :: "u32 list \<Rightarrow> u32 list"
  progress_now :: u64

datatype play_effect =
    Play_Untimed "u8 list" nat
  | Play_Timed "u8 list" int u32 u64
  | Phb0 u32 u64
  | Phbt u32 u64
  | Fetching effect  \<comment> \<open>from \<open>buffer_get_frame\<close>\<close>

record turn_state =
  tconn :: player_conn
  vol :: volume_conn
  sync :: sync_state
  enable_dither :: bool
  play_number :: u32
  chain :: chain
  output_bit_depth :: nat
  output_sample_ratio :: nat
  frames_retained :: u64  \<comment> \<open>\<open>frames_retained_in_the_resampler\<close>\<close>
  previously_retained :: u64
  request_resync :: bool
  seen_this_session :: bool
  last_progress :: u64
  minimum_dac_queue_size :: u64
  tsum_of_frames :: u64
  number_of_statistics :: u32
  frames_since_last_stats_logged :: u32
  tsum_of_sync_errors :: int
  tsum_of_corrections :: int
  tsum_of_insertions_and_deletions :: int
  tsum_of_gaps :: int
  outputs :: "play_effect list"

definition out_rate :: "turn_state \<Rightarrow> u32" where
  "out_rate st = RATE_FROM_ENCODED_FORMAT (configuration (chain st))"

definition out_format :: "turn_state \<Rightarrow> sps_format option" where
  "out_format st = format_of_number (FORMAT_FROM_ENCODED_FORMAT (configuration (chain st)))"

definition out_frame_size :: "turn_state \<Rightarrow> nat" where
  "out_frame_size st =
     unat (CHANNELS_FROM_ENCODED_FORMAT (configuration (chain st)))
       * (case out_format st of None \<Rightarrow> 0 | Some f \<Rightarrow> sps_format_sample_size f)"

definition emit :: "play_effect \<Rightarrow> turn_state \<Rightarrow> turn_state" where
  "emit x st = st\<lparr>outputs := outputs st @ [x]\<rparr>"

definition note_dither :: "play_config \<Rightarrow> turn_state \<Rightarrow> turn_state" where
  "note_dither cfg st =
     st\<lparr>enable_dither := dither_needed (fix_volume (vol st)) (output_bit_depth st)
          (input_effective_bit_depth (chain st)) (playback_mode cfg)\<rparr>"

section \<open>Silence\<close>

definition play_silence :: "nat \<Rightarrow> turn_state \<Rightarrow> turn_state option" where
  "play_silence n st =
     map_option (\<lambda>(bs, r, x). emit (Play_Untimed bs n)
         (st\<lparr>vol := (vol st)\<lparr>previous_random_number := r, rx := x\<rparr>\<rparr>))
       (generate_zero_frames n (enable_dither st) (previous_random_number (vol st))
          (configuration (chain st)) (rx (vol st)))"

text \<open>The statistics at the end of a turn, when frames were played.\<close>

definition note_played :: "nat \<Rightarrow> int \<Rightarrow> int \<Rightarrow> turn_state \<Rightarrow> turn_state" where
  "note_played n sync_error amount st =
     (if n = 0 then st
      else st\<lparr>tsum_of_frames := tsum_of_frames st + of_nat n,
              number_of_statistics := number_of_statistics st + 1,
              frames_since_last_stats_logged := frames_since_last_stats_logged st + of_nat n,
              tsum_of_sync_errors := tsum_of_sync_errors st + sync_error,
              tsum_of_corrections := tsum_of_corrections st + amount,
              tsum_of_insertions_and_deletions := tsum_of_insertions_and_deletions st + \<bar>amount\<bar>\<rparr>)"

definition play_missing :: "turn_state \<Rightarrow> turn_state option" where
  "play_missing st =
     (let n = unat (frames_per_packet (tconn st));
          st = st\<lparr>tconn := (tconn st)\<lparr>last_seqno_read := last_seqno_read (tconn st) + 1\<rparr>\<rparr>
      in map_option (note_played n 0 0) (play_silence n st))"

section \<open>Samples to bytes\<close>

text \<open>The filters work on the samples as floats in an array of 1024 for each channel.\<close>

definition apply_loudness :: "(u32 list \<Rightarrow> u32 list) \<Rightarrow> nat \<Rightarrow> bool \<Rightarrow> u32 list \<Rightarrow> u32 list option" where
  "apply_loudness filt n loudness tbuf =
     (if \<not> loudness then Some tbuf else if 1024 < n then None else Some (filt tbuf))"

definition make_output ::
  "play_config \<Rightarrow> nat \<Rightarrow> u32 list \<Rightarrow> nat \<Rightarrow> int \<Rightarrow> turn_state \<Rightarrow> (u8 list \<times> int \<times> turn_state) option" where
  "make_output cfg rand tbuf n amount st =
     (let v = vol st; c = sample_conn.truncate v in
      case out_format st of None \<Rightarrow> None
      | Some f \<Rightarrow>
          map_option (\<lambda>(bs, c, frames).
              (bs, frames, st\<lparr>vol := v\<lparr>previous_random_number := previous_random_number c, rx := rx c\<rparr>\<rparr>))
            (if packet_stuffing cfg = ST_basic
             then stuff_buffer_basic_32 tbuf n f amount rand (enable_dither st) c
             else stuff_buffer_vernier tbuf n f amount (enable_dither st) c))"

text \<open>Muted in software, the buffer is overwritten with silence.\<close>

definition mute_buffer :: "u8 list \<Rightarrow> int \<Rightarrow> turn_state \<Rightarrow> (u8 list \<times> turn_state) option" where
  "mute_buffer bs frames st =
     (if \<not> software_mute_enabled (vol st) then Some (bs, st)
      else map_option (\<lambda>(zs, r, x). (zs @ drop (length zs) bs, st\<lparr>vol := (vol st)\<lparr>rx := x\<rparr>\<rparr>))
        (generate_zero_frames (nat frames) (enable_dither st) (previous_random_number (vol st))
           (configuration (chain st)) (rx (vol st))))"

text \<open>Play the frames, or what is left of them when frames are to be skipped.\<close>

definition play_or_skip :: "nat \<Rightarrow> u8 list \<Rightarrow> int \<Rightarrow> u32 \<Rightarrow> u64 \<Rightarrow> turn_state \<Rightarrow> turn_state \<times> int" where
  "play_or_skip frame_size bs frames ts should st =
     (let s = sync st; skip = frames_to_skip s in
      if skip = 0 then (emit (Play_Timed bs frames ts should) st, frames)
      else if frames < uint skip then (st\<lparr>sync := s\<lparr>frames_to_skip := skip - word_of_int frames\<rparr>\<rparr>, 0)
      else (emit (Play_Timed (drop (unat skip * frame_size) bs) (frames - uint skip) ts should)
              (st\<lparr>sync := s\<lparr>frames_to_skip := 0, skipping_frames_at_start_of_play := False\<rparr>\<rparr>),
            frames - uint skip))"

definition send_progress :: "play_config \<Rightarrow> bool \<Rightarrow> u64 \<Rightarrow> u32 \<Rightarrow> u64 \<Rightarrow> turn_state \<Rightarrow> turn_state" where
  "send_progress cfg first_frame now ts should st =
     (if metadata_progress_interval cfg = 0 then st
      else if first_frame then (emit (Phbt ts should) (emit (Phb0 ts should) st))\<lparr>last_progress := now\<rparr>
      else
        (let iv = word_of_int (to_int64 (metadata_progress_interval cfg * 1000000000)) + last_progress st
         in if sint (iv - now) \<le> 0 then (emit (Phbt ts should) st)\<lparr>last_progress := now\<rparr> else st))"

section \<open>With a delay and without\<close>

definition measure_sync :: "play_config \<Rightarrow> turn_env \<Rightarrow> abuf \<Rightarrow> u64 \<Rightarrow> u64 \<Rightarrow> u32 \<Rightarrow> turn_state \<Rightarrow> measured" where
  "measure_sync cfg e b delay should inbuflength st =
     (if sint (after_measurement e - measurement_start e) < 2000000 then
        assess (tolerance cfg) (play_number st) inbuflength (input_rate (tconn st))
          (first_packet_timestamp (tconn st) = timestamp b) (sint (timestamp_gap b)) (out_rate st)
          (time_to_be_played (measurement_end e) delay (previously_retained st) (out_rate st)) should (sync st)
      else unmeasured (sync st))"

definition serious_error :: "play_config \<Rightarrow> abuf \<Rightarrow> measured \<Rightarrow> bool" where
  "serious_error cfg b m =
     (case seen m of
        None \<Rightarrow> False
      | Some x \<Rightarrow> out_of_bounds (no_sync cfg) (resync_threshold cfg) (timestamp b) (centered m) x
                    (sync_samples_count (state_after m)))"

text \<open>Scale, correct, mute, and play or skip; the time the frame is due is worked out again.\<close>

definition output_packet ::
  "play_config \<Rightarrow> turn_env \<Rightarrow> abuf \<Rightarrow> bool \<Rightarrow> u32 list \<Rightarrow> nat \<Rightarrow> int \<Rightarrow> turn_state \<Rightarrow> (turn_state \<times> int) option" where
  "output_packet cfg e b first_frame tbuf n amount st =
     Option.bind (make_output cfg (rand_value e) tbuf n amount st) (\<lambda>(bs, frames, st).
       if frames = 0 then Some (st, 0)
       else Option.bind (mute_buffer bs frames st) (\<lambda>(bs, st).
         map_option (\<lambda>(should, c).
             (let (st, n) = play_or_skip (out_frame_size st) bs frames (timestamp b) should (st\<lparr>tconn := c\<rparr>)
              in (send_progress cfg first_frame (progress_now e) (timestamp b) should st, n)))
           (local_time (play_clock e) (timestamp b) (tconn st))))"

text \<open>
  After the silence, if any: a packet with a serious error is dropped, with a request to start again when it is
  early; any other goes through the filters and out.
\<close>

definition play_assessed ::
  "play_config \<Rightarrow> turn_env \<Rightarrow> abuf \<Rightarrow> bool \<Rightarrow> u32 list \<Rightarrow> nat \<Rightarrow> measured \<Rightarrow> turn_state \<Rightarrow> turn_state option" where
  "play_assessed cfg e b first_frame tbuf n m st =
     (if serious_error cfg b m then
        Some (note_played (silence_before m) (error_frames m) (stuff m)
                (if centered m < 0 then st\<lparr>request_resync := True\<rparr> else st))
      else
        (let amount = (if no_sync cfg then 0 else stuff m);
             loudness = (loudness_enabled cfg \<and> \<not> external_volume cfg);
             st = st\<lparr>vol := (vol st)\<lparr>do_loudness := loudness\<rparr>\<rparr>
         in Option.bind (apply_loudness (loudness_filter e) n loudness tbuf) (\<lambda>tbuf.
              map_option (\<lambda>(st, played). note_played (silence_before m + nat played) (error_frames m) amount st)
                (output_packet cfg e b first_frame tbuf n amount st))))"

definition play_synced ::
  "play_config \<Rightarrow> turn_env \<Rightarrow> abuf \<Rightarrow> bool \<Rightarrow> u32 list \<Rightarrow> nat \<Rightarrow> u64 \<Rightarrow> turn_state \<Rightarrow> turn_state option" where
  "play_synced cfg e b first_frame tbuf n delay st =
     Option.bind (local_time (due_clock e) (timestamp b) (tconn st)) (\<lambda>(should, c).
       let st = st\<lparr>tconn := c, minimum_dac_queue_size := min (minimum_dac_queue_size st) delay\<rparr>;
           m = measure_sync cfg e b delay should (of_nat n) st;
           st = st\<lparr>sync := state_after m, previously_retained := frames_retained st,
                   tsum_of_gaps := tsum_of_gaps st + (case seen m of None \<Rightarrow> 0
                     | Some x \<Rightarrow> second_highest x - second_lowest x)\<rparr>
       in Option.bind (if silence_before m = 0 then Some st else play_silence (silence_before m) st)
            (play_assessed cfg e b first_frame tbuf n m))"

definition play_unsynced ::
  "play_config \<Rightarrow> turn_env \<Rightarrow> abuf \<Rightarrow> bool \<Rightarrow> u32 list \<Rightarrow> nat \<Rightarrow> turn_state \<Rightarrow> turn_state option" where
  "play_unsynced cfg e b first_frame tbuf n st =
     Option.bind (make_output cfg (rand_value e) tbuf n 0 st) (\<lambda>(bs, frames, st).
       Option.bind (mute_buffer bs frames st) (\<lambda>(bs, st).
         map_option (\<lambda>(should, c).
             note_played (nat frames) 0 0
               (send_progress cfg first_frame (progress_now e) (timestamp b) should
                 (emit (Play_Timed bs frames (timestamp b) should) (st\<lparr>tconn := c\<rparr>))))
           (local_time (play_clock e) (timestamp b) (tconn st))))"

section \<open>The packet\<close>

text \<open>Every eight seconds of output the sums start again.\<close>

definition restart_statistics :: "turn_state \<Rightarrow> turn_state" where
  "restart_statistics st =
     (let interval = 8 * out_rate st in
      if interval \<noteq> 0 \<and> interval < frames_since_last_stats_logged st
      then st\<lparr>tsum_of_sync_errors := 0, tsum_of_corrections := 0, tsum_of_insertions_and_deletions := 0,
              number_of_statistics := 0, tsum_of_frames := 0, tsum_of_gaps := 0,
              minimum_dac_queue_size := - 1, frames_since_last_stats_logged := 0\<rparr>
      else st)"

definition play_frames :: "play_config \<Rightarrow> turn_env \<Rightarrow> abuf \<Rightarrow> u16 list \<Rightarrow> turn_state \<Rightarrow> turn_state option" where
  "play_frames cfg e b inps st =
     Option.bind (transition_buffer (playback_mode cfg) (input_num_channels (vol st)) (input_bit_depth (chain st))
        (output_sample_ratio st) (unat (frame_count b)) inps) (\<lambda>tbuf.
       let n = unat (frame_count b) * output_sample_ratio st; first_frame = (\<not> seen_this_session st);
           st = (restart_statistics st)\<lparr>seen_this_session := True\<rparr>
       in case reported_delay (reported e) of
            Some delay \<Rightarrow> play_synced cfg e b first_frame tbuf n delay st
          | None \<Rightarrow> play_unsynced cfg e b first_frame tbuf n st)"

definition play_packet :: "play_config \<Rightarrow> turn_env \<Rightarrow> abuf \<Rightarrow> turn_state \<Rightarrow> turn_state option" where
  "play_packet cfg e b st =
     (case data b of
        None \<Rightarrow> Some st
      | Some inps \<Rightarrow>
          (let st = st\<lparr>play_number := play_number st + 1,
                       tconn := (tconn st)\<lparr>play_number_after_flush := play_number_after_flush (tconn st) + 1\<rparr>\<rparr>
           in if timestamp b = 0 then play_missing st else play_frames cfg e b inps st))"

text \<open>The slot after its packet was played; one without data keeps all but what is freed.\<close>

definition finish_slot :: "abuf \<Rightarrow> abuf" where
  "finish_slot b =
     snd (free_audio_buffer_payload
       (if data b = None then b
        else b\<lparr>avframe := None, timestamp := 0, sequence_number := 0, resend_time := 0,
               initialisation_time := 0, timestamp_gap := 0\<rparr>))"

section \<open>The turn\<close>

text \<open>
  A packet of another kind of stream has the chain set up again. What the connection keeps of the stream is
  set with it.
\<close>

definition clear_software_resampler :: "chain \<Rightarrow> chain" where
  "clear_software_resampler ch = ch\<lparr>resampler_ssrc := SSRC_NONE\<rparr>"

definition switch_stream :: "turn_env \<Rightarrow> u32 \<Rightarrow> turn_state \<Rightarrow> turn_state option" where
  "switch_stream e s st =
     (if resampler_ssrc (chain st) = s then Some st
      else
        (let ch = clear_software_resampler (chain st); (rate, n, _, _) = stream_parameters s in
         if s = SSRC_NONE then Some (st\<lparr>chain := ch\<rparr>)
         else map_option (\<lambda>ch. st\<lparr>chain := ch, vol := (vol st)\<lparr>input_num_channels := num_channels ch\<rparr>,
                tconn := (tconn st)\<lparr>input_rate := rate, frames_per_packet := n,
                  input_bytes_per_frame := of_nat (frame_bytes ch)\<rparr>\<rparr>)
           (setup_software_resampler (chain_answers e) s ch)))"

text \<open>
  The audio of the packet comes out of the resampler. For a slot without a packet that has a length the
  resampler is given as much silence; there is none of both when there is no resampler.
\<close>

definition convert_packet :: "turn_env \<Rightarrow> abuf \<Rightarrow> turn_state \<Rightarrow> (abuf \<times> turn_state) option" where
  "convert_packet e b st =
     Option.bind (switch_stream e (ssrc b) st) (\<lambda>st.
       if avframe b = None \<and> frame_count b = 0 then Some (b, st)
       else if resampler_ssrc (chain st) = SSRC_NONE then None
       else map_option (\<lambda>(xs, n). (b\<lparr>data := xs, frame_count := of_nat n, avframe := None\<rparr>,
                st\<lparr>frames_retained := retained e\<rparr>))
              (avframe_to_audio (chain st) (resampled e)))"

datatype turned = Turn_Waits | Turn_Undefined | Turned turn_state

definition player_turn ::
  "release_config \<Rightarrow> play_config \<Rightarrow> get_env list \<Rightarrow> turn_env \<Rightarrow> turn_state \<Rightarrow> turned" where
  "player_turn rcfg cfg es e st =
     (let st = note_dither cfg st in
      case buffer_get_frame rcfg (request_resync st) es (tconn st) of
        Waiting \<Rightarrow> Turn_Waits
      | Undefined \<Rightarrow> Turn_Undefined
      | Got ob c fx \<Rightarrow>
          (let st = st\<lparr>tconn := c, request_resync := False, outputs := outputs st @ map Fetching fx\<rparr> in
           case ob of
             None \<Rightarrow> Turned st
           | Some b \<Rightarrow>
               (case Option.bind (convert_packet e b st) (\<lambda>(b, st). map_option (Pair b) (play_packet cfg e b st)) of
                  None \<Rightarrow> Turn_Undefined
                | Some (b, st) \<Rightarrow>
                    (let c = tconn st in
                     Turned (st\<lparr>tconn := c\<lparr>audio_buffer :=
                       (audio_buffer c)[BUFIDX (ab_read c - 1) := finish_slot b]\<rparr>\<rparr>)))))"

end
