(* ===== verification/Player_Proofs.thy ===== *)
theory Player_Proofs
  imports Player_Turn Sync_Proofs Sample_Proofs
begin

text \<open>
  What holds of a turn of the player: at full volume the bytes handed to the device are the samples of the packet;
  every frame is played, skipped or added as the correction says, and counted; and what happens to a
  packet while the device does not tell its delay, and to one that never came.
\<close>

section \<open>Samples through\<close>

lemma process_samples_plain:
  assumes "format_bits f = Some bits"
  shows "process_samples f False xs c
    = Some (concat (map (\<lambda>x. format_bytes f (hyper_volume (fix_volume c) c x)) xs), c)"
  using assms by (induction xs) (simp_all add: process_sample_def)

lemma basic_samples_unchanged: "3 \<le> n \<Longrightarrow> basic_samples ch inp n 0 r = (take (n * ch) inp, int n)"
  by (simp add: basic_samples_def Let_def)

lemma vernier_samples_unchanged: "3 \<le> n \<Longrightarrow> vernier_samples ch inp n 0 = Some (take (n * ch) inp, int n)"
  by (simp add: vernier_samples_def Let_def)

lemma hyper_volume_full: "fix_volume c = 0x10000 \<Longrightarrow> hyper_volume 0x10000 c x = push_bit 32 (scast x)"
  by (simp add: hyper_volume_def push_bit_eq_mult)

lemma hyper_16: "push_bit 32 (scast (push_bit 16 (scast (w :: u16)) :: u32)) = (push_bit 48 (ucast w) :: u64)"
  by (rule bit_eqI) (auto simp: bit_simps)

lemma bytes_16:
  "format_bytes SPS_FORMAT_S16_LE (push_bit 48 (ucast (w :: u16))) = [ucast w, ucast (drop_bit 8 w)]"
proof -
  have "(ucast (signed_drop_bit 48 (push_bit 48 (ucast w) :: u64)) :: u8) = ucast w"
    "(ucast (signed_drop_bit 8 (signed_drop_bit 48 (push_bit 48 (ucast w) :: u64))) :: u8) = ucast (drop_bit 8 w)"
    by (rule bit_eqI; auto simp: bit_simps)+
  then show ?thesis by (simp add: format_bytes_def low_bytes_def Let_def numeral_2_eq_2)
qed

lemma stereo_16_samples:
  "length inps = 2 * n \<Longrightarrow>
   stereo_frames (mode_16 ST_stereo) 1 n inps = Some (map (\<lambda>w. push_bit 16 (scast w)) inps)"
proof (induction n arbitrary: inps)
  case 0 then show ?case by simp
next
  case (Suc n)
  then obtain l r rest where "inps = l # r # rest" "length rest = 2 * n"
    by (cases inps; cases "tl inps") auto
  then show ?case using Suc.IH [of rest] by (simp add: mode_16_def)
qed

lemma truncated [simp]:
  "fix_volume (sample_conn.truncate v) = fix_volume v"
  "previous_random_number (sample_conn.truncate v) = previous_random_number v"
  "rx (sample_conn.truncate v) = rx v"
  "input_num_channels (sample_conn.truncate v) = input_num_channels v"
  "do_loudness (sample_conn.truncate v) = do_loudness v"
  by (simp_all add: sample_conn.truncate_def)

lemma same_sample_state [simp]:
  "st\<lparr>vol := (vol st)\<lparr>previous_random_number := previous_random_number (vol st), rx := rx (vol st)\<rparr>\<rparr> = st"
  by simp

text \<open>Samples that were 16 bits wide come out as they are, at full volume and without dither.\<close>

lemma make_output_exact:
  assumes "out_format st = Some SPS_FORMAT_S16_LE" "fix_volume (vol st) = 0x10000" "\<not> enable_dither st"
    and "3 \<le> n" "length inps = n * input_num_channels (vol st)"
  shows "make_output cfg r (map (\<lambda>w. push_bit 16 (scast w)) inps) n 0 st
    = Some (concat (map (\<lambda>w :: u16. [ucast w, ucast (drop_bit 8 w)]) inps), int n, st)"
proof -
  let ?c = "sample_conn.truncate (vol st)"
  have "process_samples SPS_FORMAT_S16_LE False (map (\<lambda>w. push_bit 16 (scast w)) inps) ?c
      = Some (concat (map (\<lambda>w :: u16. [ucast w, ucast (drop_bit 8 w)]) inps), ?c)"
    using assms(2)
    by (simp add: process_samples_plain [of _ 16] format_bits_def hyper_volume_full hyper_16 bytes_16 comp_def)
  then show ?thesis using assms
    by (simp add: make_output_def Let_def stuff_buffer_basic_32_def stuff_buffer_vernier_def basic_samples_unchanged
        vernier_samples_unchanged)
qed

lemma restart_statistics_keeps [simp]:
  "chain (restart_statistics st) = chain st" "vol (restart_statistics st) = vol st"
  "tconn (restart_statistics st) = tconn st" "sync (restart_statistics st) = sync st"
  "enable_dither (restart_statistics st) = enable_dither st"
  "outputs (restart_statistics st) = outputs st" "request_resync (restart_statistics st) = request_resync st"
  "play_number (restart_statistics st) = play_number st"
  by (simp_all add: restart_statistics_def Let_def)

lemma out_format_keeps [simp]: "out_format (st\<lparr>seen_this_session := b\<rparr>) = out_format st"
  "out_format (restart_statistics st) = out_format st"
  by (simp_all add: out_format_def)

lemma note_played_keeps [simp]:
  "outputs (note_played n a b st) = outputs st" "tconn (note_played n a b st) = tconn st"
  "sync (note_played n a b st) = sync st" "vol (note_played n a b st) = vol st"
  by (simp_all add: note_played_def)

lemma unsynced_exact:
  assumes "\<not> enable_dither st" "input_bit_depth (chain st) = 16"
    and "input_num_channels (vol st) = 2" "output_sample_ratio st = 1" "playback_mode cfg = ST_stereo"
    and "fix_volume (vol st) = 0x10000" "\<not> software_mute_enabled (vol st)"
    and "out_format st = Some SPS_FORMAT_S16_LE"
    and "length inps = 2 * unat (frame_count b)" "3 \<le> unat (frame_count b)"
    and "reported_delay (reported e) = None" "metadata_progress_interval cfg = 0"
    and "local_time (play_clock e) (timestamp b) (tconn st) = Some (t, c)"
  shows "map_option outputs (play_frames cfg e b inps st)
    = Some (outputs st @ [Play_Timed (concat (map (\<lambda>w. [ucast w, ucast (drop_bit 8 w)]) inps))
        (int (unat (frame_count b))) (timestamp b) t])"
proof -
  have "make_output cfg (rand_value e) (map (\<lambda>w. push_bit 16 (scast w)) inps) (unat (frame_count b)) 0
      ((restart_statistics st)\<lparr>seen_this_session := True\<rparr>)
    = Some (concat (map (\<lambda>w. [ucast w, ucast (drop_bit 8 w)]) inps), int (unat (frame_count b)),
        (restart_statistics st)\<lparr>seen_this_session := True\<rparr>)"
    by (rule make_output_exact) (use assms in simp_all)
  then show ?thesis
    using assms(2-) stereo_16_samples [of inps "unat (frame_count b)"]
    by (simp add: play_frames_def transition_buffer_def play_unsynced_def mute_buffer_def
        emit_def send_progress_def)
qed

text \<open>
  C28. When the device does not tell its delay, a packet of 16-bit stereo samples reaches a 16-bit device byte
  for byte: at full volume, in stereo mode, with dither decided as the player decides it, and unmuted.
\<close>

theorem playback_bit_exact:
  assumes "st = note_dither cfg st0"
    and "output_bit_depth st = 16" "input_effective_bit_depth (chain st) = 16" "input_bit_depth (chain st) = 16"
    and "input_num_channels (vol st) = 2" "output_sample_ratio st = 1" "playback_mode cfg = ST_stereo"
    and "fix_volume (vol st) = 0x10000" "\<not> software_mute_enabled (vol st)"
    and "out_format st = Some SPS_FORMAT_S16_LE"
    and "length inps = 2 * unat (frame_count b)" "3 \<le> unat (frame_count b)"
    and "reported_delay (reported e) = None" "metadata_progress_interval cfg = 0"
    and "local_time (play_clock e) (timestamp b) (tconn st) = Some (t, c)"
  shows "map_option outputs (play_frames cfg e b inps st)
    = Some (outputs st @ [Play_Timed (concat (map (\<lambda>w. [ucast w, ucast (drop_bit 8 w)]) inps))
        (int (unat (frame_count b))) (timestamp b) t])"
proof (rule unsynced_exact [OF _ assms(4-)])
  show "\<not> enable_dither st" using assms(1-8) by (simp add: note_dither_def dither_needed_def)
qed

section \<open>Frames accounted for\<close>

lemma stuffed_frames:
  assumes "make_output cfg r tbuf n amount st = Some (bs, frames, st')" "100 \<le> n" "\<bar>amount\<bar> \<le> 20"
  shows "frames = int n + amount" "sync st' = sync st" "tconn st' = tconn st"
    "tsum_of_frames st' = tsum_of_frames st" "outputs st' = outputs st" "chain st' = chain st"
  using assms
  by (auto simp: make_output_def Let_def stuff_buffer_basic_32_def stuff_buffer_vernier_def basic_samples_def
      vernier_samples_def INTERPOLATION_LIMIT_def split: option.splits if_splits prod.splits)

lemma mute_buffer_keeps:
  assumes "mute_buffer bs frames st = Some (bs', st')"
  shows "sync st' = sync st" "tsum_of_frames st' = tsum_of_frames st" "outputs st' = outputs st"
    "tconn st' = tconn st"
  using assms by (auto simp: mute_buffer_def split: if_splits)

lemma send_progress_keeps [simp]:
  "sync (send_progress cfg ff now ts t st) = sync st"
  "tsum_of_frames (send_progress cfg ff now ts t st) = tsum_of_frames st"
  by (simp_all add: send_progress_def emit_def Let_def)

lemma emit_keeps [simp]:
  "sync (emit x st) = sync st" "tsum_of_frames (emit x st) = tsum_of_frames st"
  "outputs (emit x st) = outputs st @ [x]"
  by (simp_all add: emit_def)

text \<open>What \<open>output_packet\<close> does, step by step.\<close>

lemma output_packet_cases:
  assumes "output_packet cfg e b ff tbuf n amount st = Some (st', played)"
  obtains bs st1 where "make_output cfg (rand_value e) tbuf n amount st = Some (bs, 0, st1)" "st' = st1" "played = 0"
  | bs frames st1 bs2 st2 should c st3 where
    "make_output cfg (rand_value e) tbuf n amount st = Some (bs, frames, st1)" "frames \<noteq> 0"
    "mute_buffer bs frames st1 = Some (bs2, st2)"
    "play_or_skip (out_frame_size st2) bs2 frames (timestamp b) should (st2\<lparr>tconn := c\<rparr>) = (st3, played)"
    "st' = send_progress cfg ff (progress_now e) (timestamp b) should st3"
proof -
  from assms obtain bs frames st1 where made: "make_output cfg (rand_value e) tbuf n amount st = Some (bs, frames, st1)"
    by (auto simp: output_packet_def bind_eq_Some_conv)
  show ?thesis
  proof (cases "frames = 0")
    case True
    then show ?thesis using that(1) made assms by (simp add: output_packet_def)
  next
    case False
    then obtain bs2 st2 should c where m: "mute_buffer bs frames st1 = Some (bs2, st2)"
      and l: "local_time (play_clock e) (timestamp b) (tconn st2) = Some (should, c)"
      using made assms by (auto simp: output_packet_def bind_eq_Some_conv)
    obtain st3 k where p: "play_or_skip (out_frame_size st2) bs2 frames (timestamp b) should (st2\<lparr>tconn := c\<rparr>) = (st3, k)"
      by fastforce
    then have "k = played" "st' = send_progress cfg ff (progress_now e) (timestamp b) should st3"
      using made m l False assms by (simp_all add: output_packet_def)
    then show ?thesis using that(2) [OF made False m] p by simp
  qed
qed

text \<open>
  The frames of a packet after the correction are played or skipped, all of them: what is played and what is
  still to be skipped add up.
\<close>

theorem output_frames_accounted:
  assumes "output_packet cfg e b ff tbuf n amount st = Some (st', played)" "100 \<le> n" "\<bar>amount\<bar> \<le> 20"
  shows "0 \<le> played
    \<and> played + uint (frames_to_skip (sync st)) = int n + amount + uint (frames_to_skip (sync st'))"
  using assms(1)
proof (cases rule: output_packet_cases)
  case (1 bs st1)
  then show ?thesis using stuffed_frames(1) [OF 1(1) assms(2,3)] assms(2,3) by simp
next
  case (2 bs frames st1 bs2 st2 should c st3)
  note f = stuffed_frames [OF 2(1) assms(2,3)] and m = mute_buffer_keeps [OF 2(3)]
  have skip: "sync (st2\<lparr>tconn := c\<rparr>) = sync st" using f m by simp
  have pos: "0 \<le> frames" using f(1) assms(2,3) by simp
  have minus: "uint (frames_to_skip (sync st) - word_of_int frames) = uint (frames_to_skip (sync st)) - frames"
    if "frames < uint (frames_to_skip (sync st))"
    using that pos uint_lt2p [of "frames_to_skip (sync st)"]
    by (simp add: uint_word_ariths uint_word_of_int)
  show ?thesis
    using 2(4,5) pos minus skip unfolding f(1) [symmetric] play_or_skip_def Let_def
    by (auto split: if_splits)
qed

section \<open>Frames counted\<close>

fun frames_of :: "play_effect \<Rightarrow> nat" where
  "frames_of (Play_Untimed bs n) = n"
| "frames_of (Play_Timed bs n ts t) = nat n"
| "frames_of _ = 0"

text \<open>One state follows another with \<open>n\<close> frames handed to the device, and these not yet counted.\<close>

definition grown :: "nat \<Rightarrow> turn_state \<Rightarrow> turn_state \<Rightarrow> bool" where
  "grown n st st' \<longleftrightarrow> (\<exists>xs. outputs st' = outputs st @ xs \<and> sum_list (map frames_of xs) = n)"

definition handed :: "nat \<Rightarrow> turn_state \<Rightarrow> turn_state \<Rightarrow> bool" where
  "handed n st st' \<longleftrightarrow> tsum_of_frames st' = tsum_of_frames st \<and> grown n st st'"

lemma grown_trans: "grown m a b \<Longrightarrow> grown n b c \<Longrightarrow> grown (m + n) a c"
  by (auto simp: grown_def)

lemma handed_trans [trans]: "handed m a b \<Longrightarrow> handed n b c \<Longrightarrow> handed (m + n) a c"
  by (auto simp: handed_def grown_trans)

lemma handed_same: "outputs st' = outputs st \<Longrightarrow> tsum_of_frames st' = tsum_of_frames st \<Longrightarrow> handed 0 st st'"
  by (simp add: handed_def grown_def)

lemma handed_emit: "handed (frames_of x) st (emit x st)"
  by (simp add: handed_def grown_def)

lemma handed_silence: "play_silence n st = Some st' \<Longrightarrow> handed n st st'"
  by (auto simp: play_silence_def handed_def grown_def)

lemma handed_play_or_skip:
  assumes "play_or_skip k bs frames ts t st = (st', played)" shows "handed (nat played) st st'"
  using assms by (auto simp: handed_def grown_def play_or_skip_def Let_def split: if_splits)

lemma handed_progress: "handed 0 st (send_progress cfg ff now ts t st)"
  by (simp add: handed_def grown_def send_progress_def emit_def Let_def)

lemma handed_make_output: "make_output cfg r tbuf n amount st = Some (bs, frames, st') \<Longrightarrow> handed 0 st st'"
  by (auto simp: handed_def grown_def make_output_def Let_def split: option.splits)

lemma handed_output:
  assumes "output_packet cfg e b ff tbuf n amount st = Some (st', played)"
  shows "handed (nat played) st st'"
  using assms
proof (cases rule: output_packet_cases)
  case (1 bs st1)
  then show ?thesis using handed_make_output by simp
next
  case (2 bs frames st1 bs2 st2 should c st3)
  have "handed 0 st st1" by (rule handed_make_output [OF 2(1)])
  also have "handed 0 st1 (st2\<lparr>tconn := c\<rparr>)"
    using mute_buffer_keeps [OF 2(3)] by (intro handed_same) simp_all
  also have "handed (nat played) (st2\<lparr>tconn := c\<rparr>) st3" by (rule handed_play_or_skip [OF 2(4)])
  also have "handed 0 st3 st'" unfolding 2(5) by (rule handed_progress)
  finally show ?thesis by simp
qed

definition counted :: "turn_state \<Rightarrow> turn_state \<Rightarrow> bool" where
  "counted st st' \<longleftrightarrow> (\<exists>n. grown n st st' \<and> tsum_of_frames st' \<in> {tsum_of_frames st + of_nat n, of_nat n})"

lemma counted_played: "handed n st st' \<Longrightarrow> counted st (note_played n a b st')"
  unfolding counted_def by (rule exI [of _ n]) (auto simp: handed_def grown_def note_played_def)

lemma counted_handed: "handed 0 a b \<Longrightarrow> counted b c \<Longrightarrow> counted a c"
  unfolding counted_def handed_def using grown_trans [of 0] by fastforce

lemma counted_assessed:
  assumes "play_assessed cfg e b ff tbuf n m st = Some st'" "handed (silence_before m) st0 st"
  shows "counted st0 st'"
proof (cases "serious_error cfg b m")
  case True
  have "handed 0 st (if centered m < 0 then st\<lparr>request_resync := True\<rparr> else st)" by (simp add: handed_same)
  then have "handed (silence_before m) st0 (if centered m < 0 then st\<lparr>request_resync := True\<rparr> else st)"
    using handed_trans [OF assms(2)] by fastforce
  then show ?thesis using assms(1) True by (auto simp: play_assessed_def intro: counted_played)
next
  case False
  then obtain filtered amount st1 played v where
    out: "output_packet cfg e b ff filtered n amount (st\<lparr>vol := v\<rparr>) = Some (st1, played)"
    and st': "st' = note_played (silence_before m + nat played) (error_frames m) amount st1"
    using assms(1) by (auto simp: play_assessed_def Let_def bind_eq_Some_conv)
  have "handed 0 st (st\<lparr>vol := v\<rparr>)" by (simp add: handed_same)
  also have "handed (nat played) (st\<lparr>vol := v\<rparr>) st1" by (rule handed_output [OF out])
  finally have "handed (silence_before m + nat played) st0 st1" using handed_trans [OF assms(2)] by simp
  then show ?thesis unfolding st' by (rule counted_played)
qed

lemma counted_synced:
  assumes "play_synced cfg e b ff tbuf n delay st = Some st'" shows "counted st st'"
proof -
  from assms obtain should c where l: "local_time (due_clock e) (timestamp b) (tconn st) = Some (should, c)"
    by (auto simp: play_synced_def bind_eq_Some_conv)
  define st0 where "st0 = st\<lparr>tconn := c, minimum_dac_queue_size := min (minimum_dac_queue_size st) delay\<rparr>"
  define m where "m = measure_sync cfg e b delay should (of_nat n) st0"
  define st1 where "st1 = st0\<lparr>sync := state_after m, previously_retained := frames_retained st0,
    tsum_of_gaps := tsum_of_gaps st0 + (case seen m of None \<Rightarrow> 0 | Some x \<Rightarrow> second_highest x - second_lowest x)\<rparr>"
  have first: "outputs st1 = outputs st" "tsum_of_frames st1 = tsum_of_frames st"
    by (simp_all add: st1_def st0_def)
  have "Option.bind (if silence_before m = 0 then Some st1 else play_silence (silence_before m) st1)
      (play_assessed cfg e b ff tbuf n m) = Some st'"
    using assms l unfolding play_synced_def Let_def st1_def m_def st0_def by simp
  then obtain st2 where
    silence: "(if silence_before m = 0 then Some st1 else play_silence (silence_before m) st1) = Some st2"
    and rest: "play_assessed cfg e b ff tbuf n m st2 = Some st'"
    unfolding bind_eq_Some_conv by blast
  have "handed 0 st st1" using first by (rule handed_same)
  also have "handed (silence_before m) st1 st2"
    using silence by (auto intro: handed_silence handed_same split: if_splits)
  finally show ?thesis using counted_assessed [OF rest, of st] by simp
qed

lemma counted_unsynced:
  assumes "play_unsynced cfg e b ff tbuf n st = Some st'" shows "counted st st'"
proof -
  from assms obtain bs frames st1 bs2 st2 t c where
    made: "make_output cfg (rand_value e) tbuf n 0 st = Some (bs, frames, st1)"
    and muted: "mute_buffer bs frames st1 = Some (bs2, st2)"
    and st': "st' = note_played (nat frames) 0 0 (send_progress cfg ff (progress_now e) (timestamp b) t
               (emit (Play_Timed bs2 frames (timestamp b) t) (st2\<lparr>tconn := c\<rparr>)))"
    by (auto simp: play_unsynced_def bind_eq_Some_conv)
  have "handed 0 st st1" by (rule handed_make_output [OF made])
  also have "handed 0 st1 (st2\<lparr>tconn := c\<rparr>)" using mute_buffer_keeps [OF muted] by (intro handed_same) simp_all
  also have "handed (nat frames) (st2\<lparr>tconn := c\<rparr>) (emit (Play_Timed bs2 frames (timestamp b) t) (st2\<lparr>tconn := c\<rparr>))"
    using handed_emit [of "Play_Timed bs2 frames (timestamp b) t"] by simp
  also note handed_progress [of _ cfg ff "progress_now e" "timestamp b" t]
  finally show ?thesis unfolding st' by (intro counted_played) simp
qed

lemma counted_restart:
  assumes "counted (restart_statistics st) st'" shows "counted st st'"
proof -
  have "tsum_of_frames (restart_statistics st) \<in> {tsum_of_frames st, 0}"
    by (simp add: restart_statistics_def Let_def)
  then show ?thesis using assms by (auto simp: counted_def grown_def)
qed

lemma counted_missing:
  assumes "play_missing st = Some st'" shows "counted st st'"
proof -
  define c where "c = (tconn st)\<lparr>last_seqno_read := last_seqno_read (tconn st) + 1\<rparr>"
  define n where "n = unat (frames_per_packet (tconn st))"
  obtain st1 where silence: "play_silence n (st\<lparr>tconn := c\<rparr>) = Some st1" and st': "st' = note_played n 0 0 st1"
    using assms by (auto simp: play_missing_def Let_def c_def n_def)
  have "handed 0 st (st\<lparr>tconn := c\<rparr>)" by (simp add: handed_same)
  also have "handed n (st\<lparr>tconn := c\<rparr>) st1" by (rule handed_silence [OF silence])
  finally show ?thesis unfolding st' by (intro counted_played) simp
qed

lemma counted_frames:
  assumes "play_frames cfg e b inps st = Some st'" shows "counted st st'"
proof -
  let ?st = "(restart_statistics st)\<lparr>seen_this_session := True\<rparr>"
  have "counted ?st st'"
    using assms
    by (auto simp: play_frames_def bind_eq_Some_conv Let_def split: option.splits
        intro: counted_unsynced counted_synced)
  moreover have "handed 0 (restart_statistics st) ?st" by (simp add: handed_same)
  ultimately show ?thesis using counted_handed counted_restart by blast
qed

text \<open>
  C33. Every frame handed to the device in a turn is counted: the sum of the statistics grows by exactly the
  frames of the calls to the device, or starts again and holds just these.
\<close>

theorem played_frames_counted:
  assumes "play_packet cfg e b st = Some st'"
  shows "counted st st'"
proof (cases "data b")
  case None
  then show ?thesis using assms by (auto simp: play_packet_def counted_def grown_def)
next
  case (Some inps)
  define st1 where "st1 = st\<lparr>play_number := play_number st + 1,
    tconn := (tconn st)\<lparr>play_number_after_flush := play_number_after_flush (tconn st) + 1\<rparr>\<rparr>"
  have first: "handed 0 st st1" by (simp add: st1_def handed_same)
  have "counted st1 st'"
    using assms Some unfolding play_packet_def st1_def [symmetric]
    by (auto simp: Let_def st1_def [symmetric] split: if_splits intro: counted_missing counted_frames)
  then show ?thesis by (rule counted_handed [OF first])
qed

section \<open>The volume when the device does not tell its delay\<close>

definition at_volume :: "u32 \<Rightarrow> turn_state \<Rightarrow> turn_state" where
  "at_volume v st = st\<lparr>vol := (vol st)\<lparr>fix_volume := v\<rparr>\<rparr>"

lemma at_volume_keeps [simp]:
  "outputs (at_volume v st) = outputs st" "tconn (at_volume v st) = tconn st" "sync (at_volume v st) = sync st"
  "chain (at_volume v st) = chain st" "enable_dither (at_volume v st) = enable_dither st"
  "output_sample_ratio (at_volume v st) = output_sample_ratio st"
  "seen_this_session (at_volume v st) = seen_this_session st" "last_progress (at_volume v st) = last_progress st"
  "out_format (at_volume v st) = out_format st"
  "input_num_channels (vol (at_volume v st)) = input_num_channels (vol st)"
  "software_mute_enabled (vol (at_volume v st)) = software_mute_enabled (vol st)"
  "previous_random_number (vol (at_volume v st)) = previous_random_number (vol st)"
  "rx (vol (at_volume v st)) = rx (vol st)"
  by (simp_all add: at_volume_def out_format_def)

lemma at_volume_commutes:
  "(at_volume v st)\<lparr>vol := (vol (at_volume v st))\<lparr>previous_random_number := a, rx := x\<rparr>\<rparr>
    = at_volume v (st\<lparr>vol := (vol st)\<lparr>previous_random_number := a, rx := x\<rparr>\<rparr>)"
  "(at_volume v st)\<lparr>vol := (vol (at_volume v st))\<lparr>rx := x\<rparr>\<rparr> = at_volume v (st\<lparr>vol := (vol st)\<lparr>rx := x\<rparr>\<rparr>)"
  "(at_volume v st)\<lparr>tconn := c\<rparr> = at_volume v (st\<lparr>tconn := c\<rparr>)"
  "(at_volume v st)\<lparr>seen_this_session := s\<rparr> = at_volume v (st\<lparr>seen_this_session := s\<rparr>)"
  "emit y (at_volume v st) = at_volume v (emit y st)"
  "restart_statistics (at_volume v st) = at_volume v (restart_statistics st)"
  by (simp_all add: at_volume_def emit_def restart_statistics_def out_rate_def Let_def)

lemma process_samples_loud:
  "do_loudness c \<Longrightarrow> process_samples f d xs (c\<lparr>fix_volume := v\<rparr>)
    = map_option (apsnd (\<lambda>c. c\<lparr>fix_volume := v\<rparr>)) (process_samples f d xs c)"
proof (induction xs arbitrary: c)
  case Nil then show ?case by simp
next
  case (Cons x xs)
  have step: "process_sample x f v d (c\<lparr>fix_volume := v\<rparr>)
      = map_option (apsnd (\<lambda>c. c\<lparr>fix_volume := v\<rparr>)) (process_sample x f (fix_volume c) d c)"
    using Cons.prems
    by (simp add: process_sample_def hyper_volume_def add_dither_def Let_def split: option.split prod.split)
  have keep: "do_loudness c'" if "process_sample x f (fix_volume c) d c = Some (bs, c')" for bs c'
    using that Cons.prems
    by (auto simp: process_sample_def add_dither_def Let_def split: option.splits prod.splits if_splits)
  show ?case
  proof (cases "process_sample x f (fix_volume c) d c")
    case None then show ?thesis using step by simp
  next
    case (Some p)
    obtain bs c' where p: "p = (bs, c')" by fastforce
    then show ?thesis using step Some Cons.IH [OF keep [of bs c']]
      by (simp add: option.map_comp comp_def apsnd_def apfst_def map_prod_def split_def)
  qed
qed

lemma make_output_loud:
  assumes "do_loudness (vol st)"
  shows "make_output cfg r tbuf n amount (at_volume v st)
    = map_option (\<lambda>(bs, k, st). (bs, k, at_volume v st)) (make_output cfg r tbuf n amount st)"
proof -
  have trunc: "sample_conn.truncate (vol (at_volume v st)) = (sample_conn.truncate (vol st))\<lparr>fix_volume := v\<rparr>"
    by (simp add: at_volume_def sample_conn.truncate_def)
  note loud = process_samples_loud [of "sample_conn.truncate (vol st)", simplified, OF assms]
  show ?thesis
    by (simp add: make_output_def trunc Let_def stuff_buffer_basic_32_def stuff_buffer_vernier_def loud
        option.map_comp comp_def split_def at_volume_commutes split: option.split)
qed

lemma mute_buffer_volume:
  "mute_buffer bs k (at_volume v st) = map_option (apsnd (at_volume v)) (mute_buffer bs k st)"
  by (simp add: mute_buffer_def option.map_comp comp_def split_def at_volume_commutes)

lemma send_progress_volume:
  "send_progress cfg ff now ts t (at_volume v st) = at_volume v (send_progress cfg ff now ts t st)"
  by (simp add: send_progress_def emit_def at_volume_def Let_def)

text \<open>
  With the loudness filter on, a packet for which the device does not tell its delay goes out at full
  volume: the bytes are the same whatever the volume is.
\<close>

theorem volume_lost_without_delay:
  assumes "reported_delay (reported e) = None" "do_loudness (vol st)"
  shows "map_option outputs (play_frames cfg e b inps (at_volume v st))
    = map_option outputs (play_frames cfg e b inps st)"
proof -
  have loud: "do_loudness (vol ((restart_statistics st)\<lparr>seen_this_session := True\<rparr>))" using assms(2) by simp
  show ?thesis
    unfolding play_frames_def at_volume_keeps
    by (cases "transition_buffer (playback_mode cfg) (input_num_channels (vol st)) (input_bit_depth (chain st))
          (output_sample_ratio st) (unat (frame_count b)) inps")
      (simp_all add: assms(1) play_unsynced_def at_volume_commutes make_output_loud [OF loud] mute_buffer_volume
        send_progress_volume split_def option.map_comp comp_def Option.map_conv_bind_option)
qed

section \<open>Packets that are not played\<close>

text \<open>
  A packet that never came, in a slot of the ring that had none before, is not replaced by silence: nothing
  is played, and the resampler is given up.
\<close>

theorem missing_packet_in_fresh_slot:
  assumes "b = missing_slot now (init_buffer ! i)" "i < BUFFER_FRAMES"
  shows "\<exists>st'. convert_packet e b st = Some (b, st') \<and> play_packet cfg e b st' = Some st'
    \<and> outputs st' = outputs st \<and> tsum_of_frames st' = tsum_of_frames st
    \<and> resampler_ssrc (chain st') = SSRC_NONE"
proof -
  have b: "ssrc b = SSRC_NONE" "data b = None" "avframe b = None" "frame_count b = 0"
    using assms by (simp_all add: missing_slot_def init_buffer_def blank_def)
  then show ?thesis
    by (auto simp: convert_packet_def switch_stream_def clear_software_resampler_def play_packet_def split_def)
qed

text \<open>A packet longer than 1024 frames does not fit the arrays of the filter.\<close>

theorem loudness_overruns_long_packet:
  assumes "1024 < n" "loudness_enabled cfg" "\<not> external_volume cfg" "\<not> serious_error cfg b m"
  shows "play_assessed cfg e b ff tbuf n m st = None"
  using assms by (simp add: play_assessed_def apply_loudness_def)

section \<open>Instances\<close>

definition cd_chain :: chain where
  "cd_chain = \<lparr>configuration = encode_configuration 2 44100 SPS_FORMAT_S16_LE, num_channels = 2,
     input_bit_depth = 16, input_effective_bit_depth = 16, frame_bytes = 4, output_map = [0, 1, 0, 0, 0, 0, 0, 0],
     resampler_output_channels = 2, resampler_bytes = 2, resampler_ssrc = ALAC_44100_S16_2\<rparr>"

definition a_sync :: sync_state where
  "a_sync = \<lparr>sync_samples = replicate 40 0, sync_samples_index = 0, sync_samples_count = 0, frames_to_skip = 0,
     skipping_frames_at_start_of_play = False\<rparr>"

definition loud_volume :: "bool \<Rightarrow> volume_conn" where
  "loud_volume l = \<lparr>do_loudness = l, fix_volume = 0x10000, previous_random_number = 0, input_num_channels = 2,
     rx = \<lparr>ra = 1, rb = 2, rc = 3, rd = 4\<rparr>, software_mute_enabled = False, own_airplay_volume = 0\<rparr>"

definition cd_state :: "bool \<Rightarrow> turn_state" where
  "cd_state l = \<lparr>tconn = two_packets 65535 44100 44452, vol = loud_volume l, sync = a_sync, enable_dither = False,
     play_number = 1, chain = cd_chain, output_bit_depth = 16, output_sample_ratio = 1, frames_retained = 0,
     previously_retained = 0, request_resync = False, seen_this_session = False, last_progress = 0,
     minimum_dac_queue_size = 0, tsum_of_frames = 0, number_of_statistics = 0, frames_since_last_stats_logged = 0,
     tsum_of_sync_errors = 0, tsum_of_corrections = 0, tsum_of_insertions_and_deletions = 0, tsum_of_gaps = 0,
     outputs = []\<rparr>"

definition cd_config :: play_config where
  "cd_config = \<lparr>playback_mode = ST_stereo, packet_stuffing = ST_vernier, no_sync = False, tolerance = 0.002,
     resync_threshold = 0.05, metadata_progress_interval = 0, loudness_enabled = False, external_volume = False\<rparr>"

definition no_answers :: chain_env where
  "no_answers = \<lparr>get_configuration = None, device_channel_map = (\<lambda>_. None), resampler_names = (\<lambda>_ _. []),
     resampler_sample_size = (\<lambda>_. 2), output_channel_mapping_enable = False, output_channel_map = []\<rparr>"

definition an_input :: "(int \<times> int) option \<Rightarrow> turn_env" where
  "an_input d = \<lparr>reported = d, measurement_start = 0, measurement_end = 0, after_measurement = 0,
     due_clock = a_clock, play_clock = a_clock, chain_answers = no_answers, resampled = Pcm16 [], retained = 0,
     rand_value = 0, loudness_filter = id, progress_now = 0\<rparr>"

definition a_packet :: abuf where
  "a_packet = (packet_at 65535 44100)\<lparr>frame_count := 3, data := Some [1, 2, 3, 4, 5, 0xFFFF]\<rparr>"

lemma instance_fields [simp]:
  "tconn (cd_state l) = two_packets 65535 44100 44452" "vol (cd_state l) = loud_volume l"
  "sync (cd_state l) = a_sync" "\<not> enable_dither (cd_state l)" "chain (cd_state l) = cd_chain"
  "output_bit_depth (cd_state l) = 16" "output_sample_ratio (cd_state l) = 1" "outputs (cd_state l) = []"
  "fix_volume (loud_volume l) = 0x10000" "do_loudness (loud_volume l) = l" "input_num_channels (loud_volume l) = 2"
  "\<not> software_mute_enabled (loud_volume l)" "input_bit_depth cd_chain = 16"
  "input_effective_bit_depth cd_chain = 16" "configuration cd_chain = encode_configuration 2 44100 SPS_FORMAT_S16_LE"
  "playback_mode cd_config = ST_stereo" "metadata_progress_interval cd_config = 0"
  "packet_stuffing cd_config = ST_vernier"
  "reported (an_input d) = d" "play_clock (an_input d) = a_clock"
  "timestamp a_packet = 44100" "frame_count a_packet = 3"
  by (simp_all add: cd_state_def loud_volume_def cd_chain_def cd_config_def an_input_def a_packet_def)

lemma cd_note_dither: "note_dither cd_config (cd_state l) = cd_state l"
  by (simp add: note_dither_def dither_needed_def cd_state_def)

lemma cd_format: "out_format (cd_state l) = Some SPS_FORMAT_S16_LE"
  by (simp add: out_format_def encode_configuration_def) code_simp

lemma cd_local_time: "local_time a_clock 44100 (two_packets 65535 44100 44452)
    = Some (1000000000, two_packets 65535 44100 44452)"
  using a_clock_conversions [of "two_packets 65535 44100 44452"] by (simp add: local_time_def)

lemma byte_255: "(65535 :: u8) = 255"
  by simp

theorem playback_bit_exact_witness:
  "map_option outputs (play_frames cd_config (an_input None) a_packet [1, 2, 3, 4, 5, 0xFFFF] (cd_state False))
    = Some [Play_Timed [1, 0, 2, 0, 3, 0, 4, 0, 5, 0, 0xFF, 0xFF] 3 44100 1000000000]"
  using playback_bit_exact [of "cd_state False" cd_config "cd_state False" "[1, 2, 3, 4, 5, 0xFFFF]" a_packet
      "an_input None", OF cd_note_dither [symmetric] _ _ _ _ _ _ _ _ cd_format _ _ _ _, of 1000000000]
  by (simp add: cd_local_time byte_255 reported_delay_def)

definition basic_config :: play_config where
  "basic_config = cd_config\<lparr>packet_stuffing := ST_basic\<rparr>"

theorem output_frames_accounted_witness:
  "\<exists>st' played. output_packet basic_config (an_input None) a_packet True (replicate 200 0) 100 1 (cd_state False)
      = Some (st', played) \<and> played = 101 + uint (frames_to_skip (sync st'))"
proof -
  have cfg: "packet_stuffing basic_config = ST_basic" by (simp add: basic_config_def)
  obtain bs st1 where made: "make_output basic_config 0 (replicate 200 0) 100 1 (cd_state False) = Some (bs, 101, st1)"
    and st1: "tconn st1 = tconn (cd_state False)" "vol st1 = vol (cd_state False)"
    by (simp add: make_output_def cfg cd_format stuff_buffer_basic_32_def process_samples_plain [of _ 16]
        format_bits_def basic_samples_def Let_def)
  have r: "rand_value (an_input None) = 0" by (simp add: an_input_def)
  obtain st' played where out: "output_packet basic_config (an_input None) a_packet True (replicate 200 0) 100 1
      (cd_state False) = Some (st', played)"
    by (simp add: output_packet_def r made mute_buffer_def st1 cd_local_time split_def Let_def)
  have "played = 101 + uint (frames_to_skip (sync st'))"
    using output_frames_accounted [OF out] by (simp add: a_sync_def)
  with out show ?thesis by blast
qed

theorem played_frames_counted_witness:
  "\<exists>st'. play_packet cd_config (an_input None) (a_packet\<lparr>data := Some [1, 2, 3, 4, 5, 6]\<rparr>) (cd_state False) = Some st'
    \<and> counted (cd_state False) st'"
proof -
  let ?b = "a_packet\<lparr>data := Some [1, 2, 3, 4, 5, 6]\<rparr>"
  let ?st = "(cd_state False)\<lparr>play_number := play_number (cd_state False) + 1,
    tconn := (tconn (cd_state False))\<lparr>play_number_after_flush := play_number_after_flush (tconn (cd_state False)) + 1\<rparr>\<rparr>"
  have "frame_to_local_time a_clock 44100 (tconn ?st) = (Converted 1000000000, tconn ?st)"
    by (rule a_clock_conversions(1)) simp_all
  then have "local_time a_clock 44100 (tconn ?st) = Some (1000000000, tconn ?st)" by (simp add: local_time_def)
  then have "map_option outputs (play_frames cd_config (an_input None) ?b [1, 2, 3, 4, 5, 6] ?st) \<noteq> None"
    by (subst unsynced_exact) (use cd_format in \<open>simp_all add: out_format_def reported_delay_def\<close>)
  then obtain st' where "play_frames cd_config (an_input None) ?b [1, 2, 3, 4, 5, 6] ?st = Some st'" by auto
  then have "play_packet cd_config (an_input None) ?b (cd_state False) = Some st'"
    by (simp add: play_packet_def)
  then show ?thesis using played_frames_counted by blast
qed

theorem volume_lost_without_delay_witness:
  "map_option outputs (play_frames cd_config (an_input (Some (- 16, 0))) a_packet [1, 2, 3, 4, 5, 6]
      (at_volume 0 (cd_state True)))
    = Some [Play_Timed [1, 0, 2, 0, 3, 0, 4, 0, 5, 0, 6, 0] 3 44100 1000000000]"
proof -
  have none: "reported_delay (reported (an_input (Some (- 16, 0)))) = None" by (simp add: reported_delay_def)
  have "map_option outputs (play_frames cd_config (an_input (Some (- 16, 0))) a_packet [1, 2, 3, 4, 5, 6]
      (cd_state True)) = Some [Play_Timed [1, 0, 2, 0, 3, 0, 4, 0, 5, 0, 6, 0] 3 44100 1000000000]"
    using unsynced_exact [of "cd_state True" cd_config "[1, 2, 3, 4, 5, 6]" a_packet "an_input (Some (- 16, 0))"
        1000000000, OF _ _ _ _ _ _ _ cd_format _ _ none]
    by (simp add: cd_local_time)
  then show ?thesis using volume_lost_without_delay [OF none, of "cd_state True"] by simp
qed

theorem missing_packet_in_fresh_slot_witness:
  "\<exists>st'. convert_packet (an_input None) (missing_slot 5 (init_buffer ! 7)) (cd_state False)
      = Some (missing_slot 5 (init_buffer ! 7), st')
    \<and> outputs st' = [] \<and> resampler_ssrc (chain st') = SSRC_NONE"
  using missing_packet_in_fresh_slot [of "missing_slot 5 (init_buffer ! 7)" 5 7 "an_input None" "cd_state False"
      cd_config, OF refl]
  by (auto simp: BUFFER_FRAMES_def)

end
