(* ===== verification/Audio_Ring.thy ===== *)
theory Audio_Ring
  imports Prelude
begin

text \<open>
  The ring of bytes between the player and the thread of the sound server, which \<open>audio_pa.c\<close> and
  \<open>audio_pw.c\<close> have each with the same code: \<open>play\<close> puts bytes in, the callback of the server takes
  them out, and what does not fit is dropped. The locale \<open>byte_ring\<close> states what its users
  rely on; the ring of the code is its interpretation.
\<close>

section \<open>The interface\<close>

datatype 'b ring_op = Put "'b list" | Take nat

text \<open>
  A run of operations on a ring: the bytes taken out, and the ring after it. A request for more bytes
  than there are is cut to these. \<open>put_in_run\<close> are the bytes of the puts that had room.
\<close>

primrec run_ring ::
  "('b list \<Rightarrow> 'r \<Rightarrow> 'r) \<Rightarrow> (nat \<Rightarrow> 'r \<Rightarrow> 'b list \<times> 'r) \<Rightarrow> ('r \<Rightarrow> nat) \<Rightarrow> 'b ring_op list \<Rightarrow> 'r \<Rightarrow> 'b list \<times> 'r" where
  "run_ring put take_out held [] r = ([], r)"
| "run_ring put take_out held (x # xs) r =
     (case x of
        Put bs \<Rightarrow> run_ring put take_out held xs (put bs r)
      | Take n \<Rightarrow> (let p = take_out (min n (held r)) r; q = run_ring put take_out held xs (snd p)
                  in (fst p @ fst q, snd q)))"

primrec op_size :: "'b ring_op \<Rightarrow> nat" where
  "op_size (Put bs) = length bs"
| "op_size (Take n) = n"

primrec put_in_run ::
  "('b list \<Rightarrow> 'r \<Rightarrow> 'r) \<Rightarrow> (nat \<Rightarrow> 'r \<Rightarrow> 'b list \<times> 'r) \<Rightarrow> ('r \<Rightarrow> nat) \<Rightarrow> ('r \<Rightarrow> nat) \<Rightarrow> 'b ring_op list \<Rightarrow> 'r \<Rightarrow> 'b list"
  where
  "put_in_run put take_out held room [] r = []"
| "put_in_run put take_out held room (x # xs) r =
     (case x of
        Put bs \<Rightarrow> take (room r) bs @ put_in_run put take_out held room xs (put bs r)
      | Take n \<Rightarrow> put_in_run put take_out held room xs (snd (take_out (min n (held r)) r)))"

lemma run_ring_append:
  "run_ring put take_out held (xs @ ys) r =
     (let p = run_ring put take_out held xs r; q = run_ring put take_out held ys (snd p) in (fst p @ fst q, snd q))"
  by (induction xs arbitrary: r) (auto simp: Let_def split: ring_op.splits)

lemma put_in_run_append:
  "put_in_run put take_out held room (xs @ ys) r =
     put_in_run put take_out held room xs r
     @ put_in_run put take_out held room ys (snd (run_ring put take_out held xs r))"
  by (induction xs arbitrary: r) (auto simp: Let_def split: ring_op.splits)

locale byte_ring =
  fixes ok :: "'r \<Rightarrow> bool" and room :: "'r \<Rightarrow> nat" and content :: "'r \<Rightarrow> 'b list"
    and put :: "'b list \<Rightarrow> 'r \<Rightarrow> 'r" and take_out :: "nat \<Rightarrow> 'r \<Rightarrow> 'b list \<times> 'r"
  assumes put_ok: "ok r \<Longrightarrow> ok (put bs r)"
    and put_content: "ok r \<Longrightarrow> content (put bs r) = content r @ take (room r) bs"
    and put_room: "ok r \<Longrightarrow> room (put bs r) = room r - length bs"
    and take_ok: "ok r \<Longrightarrow> n \<le> length (content r) \<Longrightarrow> ok (snd (take_out n r))"
    and take_bytes: "ok r \<Longrightarrow> n \<le> length (content r) \<Longrightarrow> fst (take_out n r) = take n (content r)"
    and take_content: "ok r \<Longrightarrow> n \<le> length (content r) \<Longrightarrow> content (snd (take_out n r)) = drop n (content r)"
    and take_room: "ok r \<Longrightarrow> n \<le> length (content r) \<Longrightarrow> room (snd (take_out n r)) = room r + n"
begin

lemma run_ok: "ok r \<Longrightarrow> ok (snd (run_ring put take_out (\<lambda>r. length (content r)) xs r))"
  by (induction xs arbitrary: r) (auto split: ring_op.splits simp: put_ok take_ok Let_def)

text \<open>What goes in comes out, in order and without a byte lost or doubled.\<close>

lemma stream_intact:
  "ok r \<Longrightarrow> fst (run_ring put take_out (\<lambda>r. length (content r)) xs r)
      @ content (snd (run_ring put take_out (\<lambda>r. length (content r)) xs r))
    = content r @ put_in_run put take_out (\<lambda>r. length (content r)) room xs r"
proof (induction xs arbitrary: r)
  case Nil then show ?case by simp
next
  case (Cons x xs)
  show ?case
  proof (cases x)
    case (Put bs)
    then show ?thesis using Cons.IH [OF put_ok [OF Cons.prems, of bs]] Cons.prems by (simp add: put_content)
  next
    case (Take n)
    let ?n = "min n (length (content r))"
    have "content r = take ?n (content r) @ drop ?n (content r)" by simp
    then show ?thesis
      using Take Cons.IH [OF take_ok [OF Cons.prems, of ?n]] take_bytes [OF Cons.prems, of ?n]
        take_content [OF Cons.prems, of ?n]
      by (simp add: Let_def)
  qed
qed

text \<open>If everything is put and asked for in whole frames, and so is the room, only whole frames come out.\<close>

lemma put_whole:
  assumes "ok r" "k dvd room r" "k dvd length (content r)" "k dvd length bs"
  shows "k dvd room (put bs r)" "k dvd length (content (put bs r))"
proof -
  have "k dvd min (room r) (length bs)" using assms(2,4) by (simp add: min_def)
  then show "k dvd length (content (put bs r))" using assms(1,3) by (simp add: put_content min.commute)
  show "k dvd room (put bs r)"
    using assms by (cases "length bs \<le> room r") (simp_all add: put_room dvd_diff_nat)
qed

lemma take_whole:
  assumes "ok r" "k dvd room r" "k dvd length (content r)" "k dvd n" "n \<le> length (content r)"
  shows "k dvd room (snd (take_out n r))" "k dvd length (content (snd (take_out n r)))"
  using assms by (simp_all add: take_room take_content dvd_diff_nat)

lemma run_whole:
  assumes "ok r" "k dvd room r" "k dvd length (content r)" "\<forall>x \<in> set xs. k dvd op_size x"
  shows "k dvd length (fst (run_ring put take_out (\<lambda>r. length (content r)) xs r))
    \<and> k dvd length (content (snd (run_ring put take_out (\<lambda>r. length (content r)) xs r)))"
  using assms
proof (induction xs arbitrary: r)
  case Nil then show ?case by simp
next
  case (Cons x xs)
  show ?case
  proof (cases x)
    case (Put bs)
    then show ?thesis
      using Cons.IH [OF put_ok put_whole] Cons.prems by simp
  next
    case (Take n)
    let ?n = "min n (length (content r))"
    have n: "k dvd ?n" "?n \<le> length (content r)" using Take Cons.prems by (simp_all add: min_def)
    then have "length (fst (take_out ?n r)) = ?n" using Cons.prems(1) by (simp add: take_bytes)
    moreover note Cons.IH [OF take_ok take_whole, of r ?n]
    ultimately show ?thesis using Take n Cons.prems by (simp add: Let_def)
  qed
qed

end

section \<open>The ring of the code\<close>

text \<open>\<open>ring_bytes\<close> is the allocation from \<open>audio_lmb\<close> to \<open>audio_umb\<close>; the ends are offsets into it.\<close>

record audio_ring =
  ring_bytes :: "u8 list"
  audio_toq :: nat
  audio_eoq :: nat
  audio_occupancy :: nat

definition audio_size :: "audio_ring \<Rightarrow> nat" where
  "audio_size r = length (ring_bytes r)"

text \<open>A fresh allocation of the size of \<open>mem\<close>, whose bytes are whatever they are.\<close>

definition new_ring :: "u8 list \<Rightarrow> audio_ring" where
  "new_ring mem = \<lparr>ring_bytes = mem, audio_toq = 0, audio_eoq = 0, audio_occupancy = 0\<rparr>"

definition ring_reset :: "audio_ring \<Rightarrow> audio_ring" where
  "ring_reset r = r\<lparr>audio_toq := 0, audio_eoq := 0, audio_occupancy := 0\<rparr>"

definition ring_put :: "u8 list \<Rightarrow> audio_ring \<Rightarrow> audio_ring" where
  "ring_put bs r =
     (let bytes_available = audio_size r - audio_occupancy r;
          bytes_to_transfer = (if bytes_available < length bs then bytes_available else length bs);
          space_to_end_of_buffer = audio_size r - audio_eoq r
      in if bytes_to_transfer = 0 then r
         else if bytes_to_transfer \<le> space_to_end_of_buffer then
           r\<lparr>ring_bytes := mem_write (audio_eoq r) (take bytes_to_transfer bs) (ring_bytes r),
             audio_eoq := audio_eoq r + bytes_to_transfer,
             audio_occupancy := audio_occupancy r + bytes_to_transfer\<rparr>
         else
           r\<lparr>ring_bytes := mem_write 0 (take (bytes_to_transfer - space_to_end_of_buffer) (drop space_to_end_of_buffer bs))
               (mem_write (audio_eoq r) (take space_to_end_of_buffer bs) (ring_bytes r)),
             audio_eoq := bytes_to_transfer - space_to_end_of_buffer,
             audio_occupancy := audio_occupancy r + bytes_to_transfer\<rparr>)"

definition ring_take :: "nat \<Rightarrow> audio_ring \<Rightarrow> u8 list \<times> audio_ring" where
  "ring_take n r =
     (let to_end = audio_size r - audio_toq r in
      if n \<le> to_end then
        (mem_read (audio_toq r) n (ring_bytes r),
         r\<lparr>audio_toq := audio_toq r + n, audio_occupancy := audio_occupancy r - n\<rparr>)
      else
        (mem_read (audio_toq r) to_end (ring_bytes r) @ mem_read 0 (n - to_end) (ring_bytes r),
         r\<lparr>audio_toq := n - to_end, audio_occupancy := audio_occupancy r - n\<rparr>))"

text \<open>Both ends may stand at the end of the allocation, since they wrap when they are next used.\<close>

definition ring_ok :: "audio_ring \<Rightarrow> bool" where
  "ring_ok r \<longleftrightarrow> audio_toq r \<le> audio_size r \<and> audio_eoq r \<le> audio_size r \<and> audio_occupancy r \<le> audio_size r
     \<and> (audio_toq r + audio_occupancy r) mod audio_size r = audio_eoq r mod audio_size r"

text \<open>The bytes held, the oldest first.\<close>

definition ring_content :: "audio_ring \<Rightarrow> u8 list" where
  "ring_content r = ring (ring_bytes r) (audio_toq r) (audio_occupancy r)"

definition ring_room :: "audio_ring \<Rightarrow> nat" where
  "ring_room r = audio_size r - audio_occupancy r"

lemma length_ring_content [simp]: "length (ring_content r) = audio_occupancy r"
  by (simp add: ring_content_def)

lemma ring_from_end: "ring buf (length buf) n = ring buf 0 n"
  by (simp add: ring_def mod_simps)

section \<open>What its operations do\<close>

lemma ring_put_step:
  assumes "ring_ok r"
  shows "ring_ok (ring_put bs r) \<and> ring_content (ring_put bs r) = ring_content r @ take (ring_room r) bs
    \<and> audio_size (ring_put bs r) = audio_size r"
proof -
  let ?L = "audio_size r" and ?e = "audio_eoq r" and ?t = "audio_toq r" and ?c = "audio_occupancy r"
  define n where "n = min (length bs) (ring_room r)"
  have fits: "?c + n \<le> ?L" and nb: "n \<le> length bs"
    using assms by (auto simp: n_def ring_room_def ring_ok_def)
  have same: "take (ring_room r) bs = take n bs" by (simp add: n_def min_def)
  have e: "?e \<le> ?L" and cong: "(?t + ?c) mod ?L = ?e mod ?L" and t: "?t \<le> ?L"
    using assms by (simp_all add: ring_ok_def)
  have n_def': "(if ?L - ?c < length bs then ?L - ?c else length bs) = n"
    by (auto simp: n_def ring_room_def)
  consider (none) "n = 0" | (row) "0 < n" "n \<le> ?L - ?e" | (two) "?L - ?e < n" by linarith
  then show ?thesis
  proof cases
    case none
    then have "ring_put bs r = r" using n_def' by (simp add: ring_put_def)
    then show ?thesis using assms none same by simp
  next
    case row
    have put: "ring_put bs r = r\<lparr>ring_bytes := mem_write ?e (take n bs) (ring_bytes r),
        audio_eoq := ?e + n, audio_occupancy := ?c + n\<rparr>"
      using row n_def' by (simp add: ring_put_def Let_def)
    have "ring (mem_write ?e (take n bs) (ring_bytes r)) ?t (?c + length (take n bs))
        = ring (ring_bytes r) ?t ?c @ take n bs"
      by (rule ring_write) (use row e nb fits cong in \<open>auto simp: audio_size_def\<close>)
    moreover have "(?t + (?c + n)) mod ?L = (?e + n) mod ?L"
      using cong by (metis add.assoc mod_add_left_eq)
    ultimately show ?thesis
      using row e nb fits t by (simp add: put ring_ok_def ring_content_def audio_size_def same)
  next
    case two
    let ?s = "?L - ?e"
    let ?m = "mem_write ?e (take ?s bs) (ring_bytes r)"
    let ?rest = "take (n - ?s) (drop ?s bs)"
    have put: "ring_put bs r = r\<lparr>ring_bytes := mem_write 0 ?rest ?m, audio_eoq := n - ?s, audio_occupancy := ?c + n\<rparr>"
      using two n_def' by (simp add: ring_put_def Let_def)
    have len: "length ?m = ?L" using e nb two by (simp add: audio_size_def)
    have lens: "length (take ?s bs) = ?s" "length ?rest = n - ?s" using nb two by simp_all
    have wrapped: "(?t + (?c + ?s)) mod ?L = 0"
    proof -
      have "(?t + (?c + ?s)) mod ?L = (?e + ?s) mod ?L" using cong by (metis add.assoc mod_add_left_eq)
      then show ?thesis using e by simp
    qed
    have first: "ring ?m ?t (?c + ?s) = ring (ring_bytes r) ?t ?c @ take ?s bs"
    proof (cases "?s = 0")
      case False
      have "ring ?m ?t (?c + length (take ?s bs)) = ring (ring_bytes r) ?t ?c @ take ?s bs"
      proof (rule ring_write)
        show "take ?s bs \<noteq> []" using False nb two by auto
      qed (use e nb two fits cong lens in \<open>simp_all add: audio_size_def\<close>)
      then show ?thesis using lens by simp
    qed (simp add: mem_write_def)
    have "ring (mem_write 0 ?rest ?m) ?t ((?c + ?s) + length ?rest) = ring ?m ?t (?c + ?s) @ ?rest"
      by (rule ring_write) (use two nb fits len lens wrapped in auto)
    moreover have "take ?s bs @ ?rest = take n bs" using two by (metis less_imp_le_nat take_add le_add_diff_inverse)
    moreover have "(?t + (?c + n)) mod ?L = (n - ?s) mod ?L"
    proof -
      have "?t + (?c + n) = (?t + (?c + ?s)) + (n - ?s)" using two by simp
      then show ?thesis using wrapped by (metis add_0 mod_add_left_eq)
    qed
    ultimately show ?thesis
      using two e nb fits t len lens first
      by (simp add: put ring_ok_def ring_content_def audio_size_def same)
  qed
qed

lemma ring_take_step:
  assumes "ring_ok r" "n \<le> audio_occupancy r"
  shows "ring_ok (snd (ring_take n r)) \<and> fst (ring_take n r) = take n (ring_content r)
    \<and> ring_content (snd (ring_take n r)) = drop n (ring_content r)
    \<and> ring_bytes (snd (ring_take n r)) = ring_bytes r
    \<and> audio_occupancy (snd (ring_take n r)) = audio_occupancy r - n"
proof -
  let ?L = "audio_size r" and ?t = "audio_toq r" and ?c = "audio_occupancy r" and ?b = "ring_bytes r"
  have t: "?t \<le> ?L" and c: "?c \<le> ?L" and cong: "(?t + ?c) mod ?L = audio_eoq r mod ?L"
    using assms(1) by (simp_all add: ring_ok_def)
  have split: "ring_content r = ring ?b ?t n @ ring ?b (?t + n) (?c - n)"
    using ring_add [of ?b ?t n "?c - n"] assms(2) by (simp add: ring_content_def)
  have moved: "((?t + n) mod ?L + (?c - n)) mod ?L = audio_eoq r mod ?L"
    using mod_take_front [OF assms(2)] cong by simp
  show ?thesis
  proof (cases "n \<le> ?L - ?t")
    case True
    then have "ring_take n r = (ring ?b ?t n, r\<lparr>audio_toq := ?t + n, audio_occupancy := ?c - n\<rparr>)"
      using t by (simp add: ring_take_def Let_def ring_mem_read audio_size_def)
    then show ?thesis
      using True assms split t c moved
      by (auto simp: ring_ok_def ring_content_def audio_size_def mod_simps)
  next
    case False
    let ?s = "?L - ?t"
    have n: "n = ?s + (n - ?s)" and backw: "?t + ?s = length ?b" using False t by (simp_all add: audio_size_def)
    have "ring ?b ?t n = ring ?b ?t ?s @ ring ?b 0 (n - ?s)"
      using ring_add [of ?b ?t ?s "n - ?s"] n backw by (simp only: ring_from_end)
    moreover have "n - ?s \<le> ?L" using assms(2) c by simp
    ultimately have take: "ring_take n r = (ring ?b ?t n, r\<lparr>audio_toq := n - ?s, audio_occupancy := ?c - n\<rparr>)"
      using False t by (simp add: ring_take_def Let_def ring_mem_read audio_size_def)
    have "(?t + n) mod ?L = (n - ?s) mod ?L" using n t by (metis add.assoc le_add_diff_inverse mod_add_self1)
    then have "ring ?b (?t + n) (?c - n) = ring ?b (n - ?s) (?c - n)"
      and "((n - ?s) + (?c - n)) mod ?L = audio_eoq r mod ?L"
      using moved ring_mod [of ?b "?t + n"] ring_mod [of ?b "n - ?s"] by (simp_all add: audio_size_def mod_simps)
    then show ?thesis
      using take assms split \<open>n - ?s \<le> ?L\<close>
      by (auto simp add: ring_ok_def ring_content_def audio_size_def)
  qed
qed

interpretation ar: byte_ring ring_ok ring_room ring_content ring_put ring_take
proof
  fix r :: audio_ring and bs :: "u8 list" and n
  assume ok: "ring_ok r"
  show "ring_ok (ring_put bs r)" "ring_content (ring_put bs r) = ring_content r @ take (ring_room r) bs"
    using ring_put_step [OF ok] by simp_all
  have "audio_occupancy (ring_put bs r) = audio_occupancy r + min (ring_room r) (length bs)"
    using ring_put_step [OF ok, of bs] length_ring_content [of "ring_put bs r"] by (simp add: min.commute)
  then show "ring_room (ring_put bs r) = ring_room r - length bs"
    using ring_put_step [OF ok, of bs] by (simp add: ring_room_def)
  assume n: "n \<le> length (ring_content r)"
  then show "ring_ok (snd (ring_take n r))" "fst (ring_take n r) = take n (ring_content r)"
    "ring_content (snd (ring_take n r)) = drop n (ring_content r)"
    using ring_take_step [OF ok, of n] by simp_all
  show "ring_room (snd (ring_take n r)) = ring_room r + n"
    using ring_take_step [OF ok, of n] n ok by (simp add: ring_room_def audio_size_def ring_ok_def)
qed

lemma new_ring_ok [simp]: "ring_ok (new_ring mem)" "ring_content (new_ring mem) = []" "audio_size (new_ring mem) = length mem"
  "ring_room (new_ring mem) = length mem" "audio_occupancy (new_ring mem) = 0"
  by (simp_all add: ring_ok_def new_ring_def ring_content_def ring_room_def audio_size_def ring_def)

lemma ring_reset_ok [simp]: "ring_ok (ring_reset r)" "ring_content (ring_reset r) = []" "audio_size (ring_reset r) = audio_size r"
  "ring_room (ring_reset r) = audio_size r"
  by (simp_all add: ring_ok_def ring_reset_def ring_content_def ring_room_def audio_size_def ring_def)

end
