(* ===== verification/Audio_Servers.thy ===== *)
theory Audio_Servers
  imports Audio_Ring Output_Search
begin

text \<open>
  The back ends for sound servers, PulseAudio (\<open>audio_pa.c\<close>) and PipeWire (\<open>audio_pw.c\<close>): the player
  puts samples into the ring of \<open>Audio_Ring\<close>, and a callback in a thread of the server takes them out. A
  function that holds \<open>buffer_mutex\<close> is one step; what the libraries answer is an argument. A fault is a value:
  memory that has been freed, or the entry of a format that is not in the table.
\<close>

section \<open>The formats of both back ends\<close>

definition format_lookup :: "(u32 \<times> u32) list" where
  "format_lookup =
     [(word_of_nat (format_number SPS_FORMAT_S16_LE), 2), (word_of_nat (format_number SPS_FORMAT_S16_BE), 2),
      (word_of_nat (format_number SPS_FORMAT_S32_LE), 4), (word_of_nat (format_number SPS_FORMAT_S32_BE), 4)]"

text \<open>The bytes of a sample of the entry, if there is one.\<close>

definition sps_format_lookup :: "u32 \<Rightarrow> u32 option" where
  "sps_format_lookup to_find = map_option snd (List.find (\<lambda>e. fst e = to_find) format_lookup)"

datatype server_fault = UseAfterFree | NoFormat

section \<open>PulseAudio\<close>

text \<open>\<open>audio_lmb\<close> is null, points to the allocation, or still to memory that has been freed.\<close>

datatype pointer_state = Null | Live | Freed

record pa_state =
  pa_ring :: audio_ring
  pa_lmb :: pointer_state
  pa_stream :: bool
  pa_corked :: bool
  pa_encoded_format :: u32

definition pa_play :: "u8 list \<Rightarrow> nat \<Rightarrow> pa_state \<Rightarrow> server_fault + pa_state" where
  "pa_play buf samples s =
     (case sps_format_lookup (FORMAT_FROM_ENCODED_FORMAT (pa_encoded_format s)) of
        None \<Rightarrow> Inl NoFormat
      | Some bytes_per_sample \<Rightarrow>
          (let channels = CHANNELS_FROM_ENCODED_FORMAT (pa_encoded_format s);
               bytes_to_transfer = unat (word_of_nat samples * bytes_per_sample * channels);
               n = min bytes_to_transfer (ring_room (pa_ring s));
               s1 = (if 0 < n \<and> pa_lmb s \<noteq> Null
                     then s\<lparr>pa_ring := ring_put (take bytes_to_transfer buf) (pa_ring s)\<rparr> else s);
               threshold = unat (RATE_FROM_ENCODED_FORMAT (pa_encoded_format s) * bytes_per_sample * channels div 4)
           in if 0 < n \<and> pa_lmb s = Freed then Inl UseAfterFree
              else Inr (if threshold \<le> audio_occupancy (pa_ring s1) \<and> pa_corked s1
                        then s1\<lparr>pa_corked := False\<rparr> else s1)))"

text \<open>
  \<open>pa_delay\<close>: \<open>gl\<close> is the reply of \<open>pa_stream_get_latency\<close> and \<open>latency\<close> what it wrote. The result is
  the reply and the delay.
\<close>

definition PA_ERR_NODATA :: int where "PA_ERR_NODATA = 17"
definition EIO :: int where "EIO = 5"
definition ENODEV :: int where "ENODEV = 19"

definition pa_delay :: "int \<Rightarrow> u64 \<Rightarrow> pa_state \<Rightarrow> server_fault + (int \<times> int)" where
  "pa_delay gl latency s =
     (if gl = - PA_ERR_NODATA then Inr (- ENODEV, 0)
      else if gl \<noteq> 0 then Inr (- EIO, 0)
      else case sps_format_lookup (FORMAT_FROM_ENCODED_FORMAT (pa_encoded_format s)) of
             None \<Rightarrow> Inl NoFormat
           | Some bytes_per_sample \<Rightarrow>
               Inr (0, sint (word_of_nat (audio_occupancy (pa_ring s))
                     div ucast (bytes_per_sample * CHANNELS_FROM_ENCODED_FORMAT (pa_encoded_format s))
                   + latency * ucast (RATE_FROM_ENCODED_FORMAT (pa_encoded_format s)) div 1000000)))"

text \<open>\<open>flush\<close> and \<open>stop\<close> have the same body.\<close>

definition pa_flush :: "pa_state \<Rightarrow> pa_state" where
  "pa_flush s = s\<lparr>pa_corked := (if pa_stream s then True else pa_corked s), pa_ring := ring_reset (pa_ring s)\<rparr>"

text \<open>
  The callback \<open>stream_write_cb\<close>. An answer of the server is the reply of \<open>pa_stream_begin_write\<close>,
  whether it gave a place to write to, the most bytes that may be written there, and the reply of
  \<open>pa_stream_write\<close>. As its documentation says, the number of bytes is the one asked for or less. The result has the
  portions handed over; it is \<open>None\<close> if the loop goes on after the last answer, still with the mutex held.
\<close>

record pa_answer =
  begin_ret :: int
  has_place :: bool
  place_size :: nat
  write_ret :: int

fun write_loop :: "pointer_state \<Rightarrow> pa_answer list \<Rightarrow> int \<Rightarrow> int \<Rightarrow> audio_ring
    \<Rightarrow> (server_fault + u8 list list \<times> int \<times> audio_ring) option" where
  "write_loop lmb answers todo ret r =
     (if 0 < todo \<and> 0 < audio_occupancy r \<and> ret = 0 then
        case answers of
          [] \<Rightarrow> None
        | g # gs \<Rightarrow>
            (let n = min (min (nat todo) (audio_occupancy r)) (place_size g) in
             if begin_ret g = 0 \<and> has_place g \<and> lmb \<noteq> Null then
               if lmb = Freed \<and> 0 < n then Some (Inl UseAfterFree)
               else map_option (map_sum id (\<lambda>(out, ret', r'). (fst (ring_take n r) # out, ret', r')))
                      (write_loop lmb gs (todo - int n) (write_ret g) (snd (ring_take n r)))
             else write_loop lmb gs todo (begin_ret g) r)
      else Some (Inr ([], ret, r)))"

declare write_loop.simps [simp del]

definition stream_write_cb ::
  "nat \<Rightarrow> pa_answer list \<Rightarrow> pa_state \<Rightarrow> (server_fault + u8 list list \<times> pa_state) option" where
  "stream_write_cb requested_bytes answers s =
     map_option (map_sum id (\<lambda>(out, ret, r). (out, s\<lparr>pa_ring := r\<rparr>)))
       (write_loop (pa_lmb s) answers (sint (word_of_nat requested_bytes :: 32 word)) 0 (pa_ring s))"

text \<open>
  \<open>configure\<close> for a format that differs from the current one, in the three parts between which the thread of the
  server runs: the new format and the release of the old buffer, the end of the old stream under the lock of the
  main loop, and the new buffer and stream. \<open>malloc\<close> gives the new memory.
\<close>

definition pa_configure_release :: "u32 \<Rightarrow> pa_state \<Rightarrow> server_fault + pa_state" where
  "pa_configure_release e s =
     (case sps_format_lookup (FORMAT_FROM_ENCODED_FORMAT e) of
        None \<Rightarrow> Inl NoFormat
      | Some _ \<Rightarrow> Inr (s\<lparr>pa_encoded_format := e, pa_lmb := (if pa_lmb s = Null then Null else Freed)\<rparr>))"

definition pa_configure_disconnect :: "pa_state \<Rightarrow> pa_state" where
  "pa_configure_disconnect s = s\<lparr>pa_stream := False\<rparr>"

definition pa_configure_connect :: "(nat \<Rightarrow> u8 list) \<Rightarrow> pa_state \<Rightarrow> server_fault + pa_state" where
  "pa_configure_connect malloc s =
     (let e = pa_encoded_format s in
      case sps_format_lookup (FORMAT_FROM_ENCODED_FORMAT e) of
        None \<Rightarrow> Inl NoFormat
      | Some bytes_per_sample \<Rightarrow>
          Inr (s\<lparr>pa_ring := new_ring (malloc (unat (RATE_FROM_ENCODED_FORMAT e * bytes_per_sample
                              * CHANNELS_FROM_ENCODED_FORMAT e))),
                 pa_lmb := Live, pa_stream := True, pa_corked := True\<rparr>))"

definition pa_configure :: "(nat \<Rightarrow> u8 list) \<Rightarrow> u32 \<Rightarrow> pa_state \<Rightarrow> server_fault + pa_state" where
  "pa_configure malloc e s =
     (if pa_encoded_format s = e then Inr s
      else case pa_configure_release e s of
             Inl f \<Rightarrow> Inl f
           | Inr s1 \<Rightarrow> pa_configure_connect malloc (pa_configure_disconnect s1))"

section \<open>PipeWire\<close>

text \<open>The fields of \<open>data\<close>, the flags and the ring. \<open>stride\<close> is the size of a frame.\<close>

record pw_state =
  pw_ring :: audio_ring
  pw_rate :: u32
  pw_bytes_per_sample :: u32
  pw_channels :: u32
  enable_fill :: bool
  stream_is_active :: bool
  on_process_is_running :: bool
  pw_encoded_format :: u32

definition stride :: "pw_state \<Rightarrow> nat" where
  "stride s = unat (pw_bytes_per_sample s * pw_channels s)"

text \<open>
  \<open>on_process\<close>: the server gives no buffer, or one with the frames it wants, with the size of its memory, and with or
  without that memory. The program dies without a buffer. A buffer without memory is
  not given back; another one is queued with the bytes written into it and the size of its chunk.
\<close>

record pw_buffer =
  requested :: nat
  has_memory :: bool
  maxsize :: nat

datatype pw_outcome = Idle | OutOfBuffers | NotQueued | Queued "u8 list" nat

definition on_process :: "pw_buffer option \<Rightarrow> pw_state \<Rightarrow> pw_outcome \<times> pw_state" where
  "on_process dequeued s =
     (let s1 = s\<lparr>on_process_is_running := True\<rparr> in
      if \<not> (0 < audio_occupancy (pw_ring s) \<or> enable_fill s) then (Idle, s1)
      else case dequeued of
        None \<Rightarrow> (OutOfBuffers, s1)
      | Some b \<Rightarrow>
          if \<not> has_memory b then (NotQueued, s1)
          else let max_possible_frames = min (requested b) (maxsize b div stride s);
                   bytes_we_can_transfer = max_possible_frames * stride s
               in if 0 < audio_occupancy (pw_ring s) then
                    let n = min bytes_we_can_transfer (audio_occupancy (pw_ring s));
                        n_frames = n div stride s
                    in (Queued (fst (ring_take n (pw_ring s))) (n_frames * stride s),
                        s1\<lparr>enable_fill := False, pw_ring := snd (ring_take n (pw_ring s))\<rparr>)
                  else (Queued (replicate bytes_we_can_transfer 0) (max_possible_frames * stride s), s1))"

definition pw_play :: "u8 list \<Rightarrow> nat \<Rightarrow> pw_state \<Rightarrow> pw_state" where
  "pw_play buf samples s =
     (let s1 = (if stream_is_active s then s else s\<lparr>on_process_is_running := False, stream_is_active := True\<rparr>);
          bytes_to_transfer = unat (word_of_nat samples * pw_channels s * pw_bytes_per_sample s)
      in s1\<lparr>pw_ring := ring_put (take bytes_to_transfer buf) (pw_ring s1)\<rparr>)"

definition pw_flush :: "pw_state \<Rightarrow> pw_state" where
  "pw_flush s = s\<lparr>pw_ring := ring_reset (pw_ring s), enable_fill := True\<rparr>"

definition pw_stop :: "pw_state \<Rightarrow> pw_state" where
  "pw_stop s = s\<lparr>pw_ring := ring_reset (pw_ring s), stream_is_active := False\<rparr>"

definition pw_configure :: "(nat \<Rightarrow> u8 list) \<Rightarrow> u32 \<Rightarrow> pw_state \<Rightarrow> server_fault + pw_state" where
  "pw_configure malloc e s =
     (if pw_encoded_format s = e then Inr s
      else case sps_format_lookup (FORMAT_FROM_ENCODED_FORMAT e) of
        None \<Rightarrow> Inl NoFormat
      | Some bps \<Rightarrow>
          (let channels = CHANNELS_FROM_ENCODED_FORMAT e; rate = RATE_FROM_ENCODED_FORMAT e
           in Inr (s\<lparr>pw_encoded_format := e, pw_bytes_per_sample := bps, pw_channels := channels, pw_rate := rate,
                     pw_ring := new_ring (malloc (unat (rate * bps * channels))),
                     stream_is_active := False, enable_fill := True\<rparr>)))"

text \<open>
  \<open>delay\<close>. A turn of its loop reads the time of the stream, the bytes in the ring (without the mutex) and the time
  again; \<open>reply\<close> is what the first reading of the time returned, 0 for success.
  The comparison of the two times is that of their bytes; the fields that are only compared are one, \<open>ticks\<close>.
\<close>

record pw_time =
  now :: u64
  rate_num :: u32
  rate_denom :: u32
  ticks :: u64
  delay_ticks :: u64
  queued :: u64
  buffered :: u64

record pw_reading =
  reply :: int
  time_1 :: pw_time
  occupancy_now :: nat
  time_2 :: pw_time

fun read_time :: "nat \<Rightarrow> pw_reading list \<Rightarrow> pw_reading option" where
  "read_time loop_count [] = None"
| "read_time loop_count (x # xs) =
     (let non_matching = time_1 x \<noteq> time_2 x;
          loop_count' = (if non_matching then loop_count + 1 else loop_count)
      in if (non_matching \<or> reply x \<noteq> 0) \<and> loop_count' < 10 then read_time loop_count' xs else Some x)"

text \<open>Signed division truncates; the products are of 64 bits, the second rounding is unsigned.\<close>

definition sdiv64 :: "u64 \<Rightarrow> u64 \<Rightarrow> u64" where
  "sdiv64 a b = word_of_int (sint a sdiv sint b)"

definition pw_net_delay :: "pw_state \<Rightarrow> u64 \<Rightarrow> pw_reading \<Rightarrow> u64" where
  "pw_net_delay s nsec x =
     (let t = time_1 x;
          interval_from_pw_time_to_now_ns = nsec - now t;
          frames_possibly_played_since_measurement =
            sdiv64 (interval_from_pw_time_to_now_ns * ucast (pw_rate s) + 500000000) 1000000000;
          fixed_delay_ns = sdiv64 (delay_ticks t * ucast (rate_num t) * 1000000000) (ucast (rate_denom t));
          fixed_delay_in_frames = (fixed_delay_ns * ucast (pw_rate s) + 500000000) div 1000000000
      in queued t + buffered t + fixed_delay_in_frames
           + word_of_nat (occupancy_now x) div word_of_nat (stride s)
           - frames_possibly_played_since_measurement)"

text \<open>The result is the reply with the delay, or \<open>None\<close> while the loop goes on.\<close>

definition pw_delay :: "u64 \<Rightarrow> pw_reading list \<Rightarrow> pw_state \<Rightarrow> (int \<times> int) option" where
  "pw_delay nsec readings s =
     (if \<not> on_process_is_running s then Some (- ENODEV, 0)
      else map_option (\<lambda>x.
             if time_1 x = time_2 x \<and> reply x = 0 \<and> rate_denom (time_1 x) \<noteq> 0
             then (0, sint (pw_net_delay s nsec x)) else (- ENODEV, 0)) (read_time 1 readings))"

end
