(* ===== verification/Audio_Servers_Proofs.thy ===== *)
theory Audio_Servers_Proofs
  imports Audio_Servers
begin

text \<open>
  What holds of the back ends for sound servers: the samples reach the server in order and in whole frames, a callback
  returns unless the server gives no place to write to, and what a change of the format does to a callback that comes
  in between. The lemmas about the stream are those of the locale \<open>byte_ring\<close>, on the ring of the code.
\<close>

abbreviation ring_run :: "u8 ring_op list \<Rightarrow> audio_ring \<Rightarrow> u8 list \<times> audio_ring" where
  "ring_run \<equiv> run_ring ring_put ring_take (\<lambda>r. length (ring_content r))"

abbreviation ring_accepted :: "u8 ring_op list \<Rightarrow> audio_ring \<Rightarrow> u8 list" where
  "ring_accepted \<equiv> put_in_run ring_put ring_take (\<lambda>r. length (ring_content r)) ring_room"

text \<open>A turn of a thread of the server, or of the player, is a stretch of operations on the ring.\<close>

definition ring_stretch :: "audio_ring \<Rightarrow> u8 list \<Rightarrow> u8 list \<Rightarrow> audio_ring \<Rightarrow> bool" where
  "ring_stretch r out acc r' \<longleftrightarrow> (\<exists>xs. ring_run xs r = (out, r') \<and> ring_accepted xs r = acc)"

lemma stretch_none: "ring_stretch r [] [] r"
  unfolding ring_stretch_def by (rule exI [of _ "[]"]) simp

lemma stretch_put: "ring_stretch r [] (take (ring_room r) bs) (ring_put bs r)"
  unfolding ring_stretch_def by (rule exI [of _ "[Put bs]"]) simp

lemma stretch_take:
  "n \<le> audio_occupancy r \<Longrightarrow> ring_stretch r (fst (ring_take n r)) [] (snd (ring_take n r))"
  unfolding ring_stretch_def by (rule exI [of _ "[Take n]"]) (simp add: Let_def min_absorb1)

lemma stretch_append:
  assumes "ring_stretch r out acc r1" "ring_stretch r1 out' acc' r2"
  shows "ring_stretch r (out @ out') (acc @ acc') r2"
proof -
  obtain xs ys where "ring_run xs r = (out, r1)" "ring_accepted xs r = acc"
    "ring_run ys r1 = (out', r2)" "ring_accepted ys r1 = acc'"
    using assms unfolding ring_stretch_def by blast
  then have "ring_run (xs @ ys) r = (out @ out', r2) \<and> ring_accepted (xs @ ys) r = acc @ acc'"
    by (simp add: run_ring_append put_in_run_append Let_def)
  then show ?thesis unfolding ring_stretch_def by blast
qed

lemma stretch_intact:
  assumes "ring_stretch r out acc r'" "ring_ok r"
  shows "ring_ok r' \<and> out @ ring_content r' = ring_content r @ acc"
proof -
  obtain xs where "ring_run xs r = (out, r')" "ring_accepted xs r = acc"
    using assms(1) unfolding ring_stretch_def by blast
  then show ?thesis using ar.run_ok [OF assms(2), of xs] ar.stream_intact [OF assms(2), of xs] by simp
qed

section \<open>PulseAudio\<close>

text \<open>Calls of \<open>play\<close> and of the callback, in the order in which they take the mutex.\<close>

datatype pa_call = PaPlay "u8 list" nat | PaRequest nat "pa_answer list"

text \<open>
  What one call hands to the server, and what of its samples there was room for. There is no result if the call
  meets a fault, or does not return.
\<close>

definition pa_frame_bytes :: "nat \<Rightarrow> pa_state \<Rightarrow> nat" where
  "pa_frame_bytes samples s =
     (case sps_format_lookup (FORMAT_FROM_ENCODED_FORMAT (pa_encoded_format s)) of
        None \<Rightarrow> 0
      | Some bps \<Rightarrow> unat (word_of_nat samples * bps * CHANNELS_FROM_ENCODED_FORMAT (pa_encoded_format s)))"

fun pa_turn :: "pa_call \<Rightarrow> pa_state \<Rightarrow> (u8 list \<times> u8 list \<times> pa_state) option" where
  "pa_turn (PaPlay buf samples) s =
     (case pa_play buf samples s of
        Inl f \<Rightarrow> None
      | Inr s' \<Rightarrow> Some ([], take (ring_room (pa_ring s)) (take (pa_frame_bytes samples s) buf), s'))"
| "pa_turn (PaRequest n gs) s =
     (case stream_write_cb n gs s of
        Some (Inr (out, s')) \<Rightarrow> Some (concat out, [], s')
      | _ \<Rightarrow> None)"

fun pa_run :: "pa_call list \<Rightarrow> pa_state \<Rightarrow> (u8 list \<times> u8 list \<times> pa_state) option" where
  "pa_run [] s = Some ([], [], s)"
| "pa_run (c # cs) s =
     (case pa_turn c s of
        None \<Rightarrow> None
      | Some (out, acc, s1) \<Rightarrow>
          map_option (\<lambda>(out', acc', s2). (out @ out', acc @ acc', s2)) (pa_run cs s1))"

lemma map_sum_Inr: "map_sum f g x = Inr y \<longleftrightarrow> (\<exists>z. x = Inr z \<and> y = g z)"
  by (cases x) auto

text \<open>The branches of the loop.\<close>

lemma write_loop_ended:
  "\<not> (0 < todo \<and> 0 < audio_occupancy r \<and> ret = 0) \<Longrightarrow> write_loop lmb gs todo ret r = Some (Inr ([], ret, r))"
  by (subst write_loop.simps) (simp only: if_False)

lemma write_loop_waiting:
  "0 < todo \<Longrightarrow> 0 < audio_occupancy r \<Longrightarrow> write_loop lmb [] todo 0 r = None"
  by (subst write_loop.simps) simp

lemma write_loop_refused:
  assumes "0 < todo" "0 < audio_occupancy r" "\<not> (begin_ret g = 0 \<and> has_place g \<and> lmb \<noteq> Null)"
  shows "write_loop lmb (g # gs) todo 0 r = write_loop lmb gs todo (begin_ret g) r"
  using assms(1,2) by (subst write_loop.simps) (simp only: Let_def assms(3) if_False list.case simp_thms if_True)

lemma write_loop_handed:
  assumes "0 < todo" "0 < audio_occupancy r" "begin_ret g = 0" "has_place g" "lmb \<noteq> Null"
    and "n = min (min (nat todo) (audio_occupancy r)) (place_size g)"
  shows "write_loop lmb (g # gs) todo 0 r =
    (if lmb = Freed \<and> 0 < n then Some (Inl UseAfterFree)
     else map_option (map_sum id (\<lambda>(out, ret', r'). (fst (ring_take n r) # out, ret', r')))
            (write_loop lmb gs (todo - int n) (write_ret g) (snd (ring_take n r))))"
  using assms by (subst write_loop.simps) (simp add: Let_def)

lemma write_loop_stretch:
  "write_loop lmb gs todo ret r = Some (Inr (out, ret', r')) \<Longrightarrow> ring_stretch r (concat out) [] r'"
proof (induction gs arbitrary: todo ret r out)
  case Nil
  then show ?case by (simp add: write_loop.simps stretch_none split: if_splits)
next
  case (Cons g gs)
  define n where "n = min (min (nat todo) (audio_occupancy r)) (place_size g)"
  consider (ended) "\<not> (0 < todo \<and> 0 < audio_occupancy r \<and> ret = 0)"
    | (handed) "0 < todo" "0 < audio_occupancy r" "ret = 0" "begin_ret g = 0" "has_place g" "lmb \<noteq> Null"
    | (refused) "0 < todo" "0 < audio_occupancy r" "ret = 0" "\<not> (begin_ret g = 0 \<and> has_place g \<and> lmb \<noteq> Null)"
    by blast
  then show ?case
  proof cases
    case ended
    then show ?thesis using Cons.prems by (simp add: write_loop_ended stretch_none)
  next
    case refused
    then show ?thesis using Cons.prems Cons.IH [of todo "begin_ret g" r out] write_loop_refused [OF refused(1,2,4)] by simp
  next
    case handed
    then obtain out' where out: "out = fst (ring_take n r) # out'"
      and rest: "write_loop lmb gs (todo - int n) (write_ret g) (snd (ring_take n r)) = Some (Inr (out', ret', r'))"
      using Cons.prems write_loop_handed [OF handed(1,2,4,5,6) n_def]
      by (auto simp: map_sum_Inr split: if_splits)
    have "ring_stretch r (fst (ring_take n r)) [] (snd (ring_take n r))"
      by (rule stretch_take) (simp add: n_def)
    from stretch_append [OF this Cons.IH [OF rest]] show ?thesis by (simp add: out)
  qed
qed

lemma pa_turn_stretch:
  assumes "pa_turn c s = Some (out, acc, s')" "pa_lmb s = Live"
  shows "ring_stretch (pa_ring s) out acc (pa_ring s') \<and> pa_lmb s' = Live"
proof (cases c)
  case (PaRequest n gs)
  then show ?thesis
    using assms write_loop_stretch
    by (auto simp: stream_write_cb_def map_sum_Inr split: option.splits sum.splits)
next
  case (PaPlay buf samples)
  let ?b = "pa_frame_bytes samples s"
  have put: "ring_put (take ?b buf) (pa_ring s) = pa_ring s" if "min ?b (ring_room (pa_ring s)) = 0"
    using that by (auto simp: ring_put_def ring_room_def Let_def min_def split: if_splits)
  have "pa_ring s' = ring_put (take ?b buf) (pa_ring s)" "out = []"
    "acc = take (ring_room (pa_ring s)) (take ?b buf)" "pa_lmb s' = Live"
    using assms PaPlay put
    by (auto simp: pa_play_def Let_def pa_frame_bytes_def split: option.splits sum.splits if_splits)
  then show ?thesis using stretch_put [of "pa_ring s" "take ?b buf"] by simp
qed

lemma pa_run_stretch:
  "pa_run cs s = Some (out, acc, s') \<Longrightarrow> pa_lmb s = Live \<Longrightarrow> ring_stretch (pa_ring s) out acc (pa_ring s')"
proof (induction cs arbitrary: s out acc)
  case Nil then show ?case by (simp add: stretch_none)
next
  case (Cons c cs)
  then obtain out1 acc1 s1 out2 acc2 where "pa_turn c s = Some (out1, acc1, s1)"
    "pa_run cs s1 = Some (out2, acc2, s')" "out = out1 @ out2" "acc = acc1 @ acc2"
    by (auto split: option.splits)
  then show ?case using Cons pa_turn_stretch stretch_append by metis
qed

text \<open>
  The callback returns after at most as many turns as bytes are asked for, if the server gives a place each time or
  reports an error; and it has then handed over what was asked for, as far as it was in the ring, or met an error.
\<close>

lemma write_loop_returns:
  assumes "\<forall>g \<in> set gs. begin_ret g = 0 \<longrightarrow> has_place g \<and> 0 < place_size g" "nat todo \<le> length gs" "ring_ok r"
  shows "\<exists>out ret' r'. write_loop Live gs todo ret r = Some (Inr (out, ret', r'))
    \<and> (ret' = 0 \<longrightarrow> length (concat out) = min (nat todo) (audio_occupancy r))
    \<and> (ret = 0 \<and> (\<forall>g \<in> set gs. begin_ret g = 0 \<and> write_ret g = 0) \<longrightarrow> ret' = 0)"
  using assms
proof (induction gs arbitrary: todo ret r)
  case Nil
  then show ?case by (subst write_loop_ended) auto
next
  case (Cons g gs)
  define n where "n = min (min (nat todo) (audio_occupancy r)) (place_size g)"
  have n: "n \<le> audio_occupancy r" "n \<le> nat todo" by (simp_all add: n_def)
  consider (ended) "\<not> (0 < todo \<and> 0 < audio_occupancy r \<and> ret = 0)"
    | (handed) "0 < todo" "0 < audio_occupancy r" "ret = 0" "begin_ret g = 0" "has_place g"
    | (refused) "0 < todo" "0 < audio_occupancy r" "ret = 0" "begin_ret g \<noteq> 0"
    using Cons.prems(1) by auto
  then show ?case
  proof cases
    case ended
    then show ?thesis by (subst write_loop_ended) auto
  next
    case refused
    then have "write_loop Live (g # gs) todo ret r = Some (Inr ([], begin_ret g, r))"
      by (simp add: write_loop_refused write_loop_ended)
    then show ?thesis using refused by simp
  next
    case handed
    have "0 < n" using handed Cons.prems(1) by (simp add: n_def)
    have rest: "nat (todo - int n) = nat todo - n" by simp
    have step: "ring_ok (snd (ring_take n r))" "audio_occupancy (snd (ring_take n r)) = audio_occupancy r - n"
      using ring_take_step [OF Cons.prems(3) n(1)] by simp_all
    have few: "nat todo - n \<le> length gs" and places: "\<forall>g \<in> set gs. begin_ret g = 0 \<longrightarrow> has_place g \<and> 0 < place_size g"
      using \<open>0 < n\<close> Cons.prems(1,2) by simp_all
    obtain out ret' r' where loop: "write_loop Live gs (todo - int n) (write_ret g) (snd (ring_take n r)) = Some (Inr (out, ret', r'))"
      and all: "ret' = 0 \<longrightarrow> length (concat out) = min (nat todo - n) (audio_occupancy r - n)"
      and good: "write_ret g = 0 \<and> (\<forall>g \<in> set gs. begin_ret g = 0 \<and> write_ret g = 0) \<longrightarrow> ret' = 0"
      using Cons.IH [of "todo - int n" "snd (ring_take n r)" "write_ret g", unfolded rest step, OF places few step(1)]
      by blast
    have "n + min (nat todo - n) (audio_occupancy r - n) = min (nat todo) (audio_occupancy r)"
      using n by linarith
    moreover have "length (fst (ring_take n r)) = n" using ring_take_step [OF Cons.prems(3) n(1)] n by simp
    ultimately show ?thesis
      using handed loop all good write_loop_handed [OF handed(1,2,4,5) _ n_def, of Live gs] by auto
  qed
qed

text \<open>
  A request of the server that is served: there are as many answers as bytes asked for, each of which gives a place or
  reports an error.
\<close>

definition served :: "pa_call \<Rightarrow> bool" where
  "served c = (case c of
     PaPlay buf samples \<Rightarrow> True
   | PaRequest n gs \<Rightarrow> n < 2 ^ 31 \<and> n \<le> length gs
       \<and> (\<forall>g \<in> set gs. begin_ret g = 0 \<longrightarrow> has_place g \<and> 0 < place_size g))"

definition format_known :: "pa_state \<Rightarrow> bool" where
  "format_known s \<longleftrightarrow> sps_format_lookup (FORMAT_FROM_ENCODED_FORMAT (pa_encoded_format s)) \<noteq> None"

lemma pa_turn_returns:
  assumes "ring_ok (pa_ring s)" "pa_lmb s = Live" "format_known s" "served c"
  shows "\<exists>out acc s'. pa_turn c s = Some (out, acc, s') \<and> format_known s'"
proof (cases c)
  case (PaPlay buf samples)
  then show ?thesis using assms
    by (auto simp: pa_play_def format_known_def Let_def split: option.splits)
next
  case (PaRequest n gs)
  have "sint (word_of_nat n :: 32 word) = int n"
    using assms(4) PaRequest by (intro sint_of_nat_32) (simp add: served_def)
  moreover obtain out ret r where "write_loop Live gs (int n) 0 (pa_ring s) = Some (Inr (out, ret, r))"
    using write_loop_returns [of gs "int n" "pa_ring s" 0] assms PaRequest by (auto simp: served_def)
  ultimately show ?thesis using assms(2,3) PaRequest by (simp add: stream_write_cb_def format_known_def)
qed

lemma pa_run_returns:
  "ring_ok (pa_ring s) \<Longrightarrow> pa_lmb s = Live \<Longrightarrow> format_known s \<Longrightarrow> \<forall>c \<in> set cs. served c
    \<Longrightarrow> \<exists>out acc s'. pa_run cs s = Some (out, acc, s')"
proof (induction cs arbitrary: s)
  case Nil then show ?case by simp
next
  case (Cons c cs)
  obtain out acc s1 where turn: "pa_turn c s = Some (out, acc, s1)" and known: "format_known s1"
    using pa_turn_returns [of s c] Cons.prems by auto
  have "ring_ok (pa_ring s1)" "pa_lmb s1 = Live"
    using pa_turn_stretch [OF turn Cons.prems(2)] stretch_intact [of "pa_ring s" out acc "pa_ring s1"] Cons.prems(1) by simp_all
  then obtain out' acc' s2 where "pa_run cs s1 = Some (out', acc', s2)" using Cons.IH [of s1] known Cons.prems(4) by auto
  then show ?case using turn by simp
qed

text \<open>
  C34. PulseAudio is handed what the player put in, in order: any sequence of calls of \<open>play\<close> and of the callback, in which the
  server gives a place or reports an error, runs to its end without a fault. The bytes handed over, followed by those in the
  ring, are then the ones that were in the ring at first, followed by those of each packet that there was room for. The
  wrapping of the ring, also in the middle of a frame, and portions smaller than asked for are invisible.
\<close>

theorem pulse_stream_intact:
  assumes "ring_ok (pa_ring s)" "pa_lmb s = Live" "format_known s" "\<forall>c \<in> set cs. served c"
  shows "\<exists>out acc s'. pa_run cs s = Some (out, acc, s')
    \<and> out @ ring_content (pa_ring s') = ring_content (pa_ring s) @ acc \<and> ring_ok (pa_ring s')"
proof -
  obtain out acc s' where run: "pa_run cs s = Some (out, acc, s')" using pa_run_returns [OF assms] by blast
  show ?thesis using run stretch_intact [OF pa_run_stretch [OF run assms(2)] assms(1)] by blast
qed

text \<open>
  A ring of ten bytes with the format of a CD: two frames are put in and two bytes taken, one at a time, then of
  three frames there is room for four bytes, which wrap, and four bytes are taken in two portions.
\<close>

definition small_pa :: pa_state where
  "small_pa = \<lparr>pa_ring = new_ring [0, 0, 0, 0, 0, 0, 0, 0, 0, 0], pa_lmb = Live, pa_stream = True, pa_corked = False,
     pa_encoded_format = 68520067\<rparr>"

definition server_place :: "nat \<Rightarrow> pa_answer" where
  "server_place n = \<lparr>begin_ret = 0, has_place = True, place_size = n, write_ret = 0\<rparr>"

lemma pa_cd_format: "sps_format_lookup 3 = Some 2" "FORMAT_FROM_ENCODED_FORMAT 68520067 = 3"
  "CHANNELS_FROM_ENCODED_FORMAT 68520067 = 2" "RATE_FROM_ENCODED_FORMAT 68520067 = 44100"
  by code_simp+

lemmas ring_eval = ring_put_def ring_take_def new_ring_def ring_room_def audio_size_def mem_write_def mem_read_def
  ring_content_def ring_def Let_def

theorem pulse_stream_intact_witness:
  "\<exists>out acc s'. pa_run [PaPlay [1, 2, 3, 4, 5, 6, 7, 8] 2, PaRequest 2 [server_place 1, server_place 1],
      PaPlay [9, 10, 11, 12, 13, 14, 15, 16, 17, 18, 19, 20] 3, PaRequest 4 [server_place 3, server_place 100, server_place 1, server_place 1]] small_pa = Some (out, acc, s')
    \<and> out = [1, 2, 3, 4, 5, 6] \<and> out @ ring_content (pa_ring s') = acc"
proof -
  let ?cs = "[PaPlay [1, 2, 3, 4, 5, 6, 7, 8] 2, PaRequest 2 [server_place 1, server_place 1],
      PaPlay [9, 10, 11, 12, 13, 14, 15, 16, 17, 18, 19, 20] 3, PaRequest 4 [server_place 3, server_place 100, server_place 1, server_place 1]]"
  have "map_option fst (pa_run ?cs small_pa) = Some [1, 2, 3, 4, 5, 6]"
    by (simp add: small_pa_def pa_play_def pa_cd_format ring_eval pa_frame_bytes_def stream_write_cb_def server_place_def
        write_loop.simps)
  then obtain out acc s' where run: "pa_run ?cs small_pa = Some (out, acc, s')"
    and out: "out = [1, 2, 3, 4, 5, 6]"
    by (cases "pa_run ?cs small_pa") auto
  have "format_known small_pa" by (simp add: format_known_def small_pa_def pa_cd_format)
  moreover have "\<forall>c \<in> set ?cs. served c" by (simp add: served_def server_place_def)
  ultimately have "out @ ring_content (pa_ring s') = acc"
    using pulse_stream_intact [of small_pa ?cs] run by (simp add: small_pa_def)
  with run out show ?thesis by blast
qed

theorem write_callback_returns:
  assumes "ring_ok (pa_ring s)" "pa_lmb s = Live" "requested_bytes < 2 ^ 31" "requested_bytes \<le> length gs"
    and "\<forall>g \<in> set gs. begin_ret g = 0 \<and> has_place g \<and> 0 < place_size g \<and> write_ret g = 0"
  shows "\<exists>out s'. stream_write_cb requested_bytes gs s = Some (Inr (out, s'))
    \<and> concat out = take requested_bytes (ring_content (pa_ring s))
    \<and> ring_content (pa_ring s') = drop requested_bytes (ring_content (pa_ring s))"
proof -
  let ?c = "ring_content (pa_ring s)"
  have todo: "sint (word_of_nat requested_bytes :: 32 word) = int requested_bytes"
    using assms(3) by (rule sint_of_nat_32)
  obtain out r' where loop: "write_loop Live gs (int requested_bytes) 0 (pa_ring s) = Some (Inr (out, 0, r'))"
    and len: "length (concat out) = min requested_bytes (length ?c)"
    using write_loop_returns [of gs "int requested_bytes" "pa_ring s" 0] assms by auto
  have whole: "?c = concat out @ ring_content r'"
    using stretch_intact [OF write_loop_stretch [OF loop] assms(1)] by simp
  have "concat out = take requested_bytes ?c \<and> ring_content r' = drop requested_bytes ?c"
  proof (cases "requested_bytes \<le> length ?c")
    case True
    then have "length (concat out) = requested_bytes" using len by simp
    then show ?thesis unfolding whole by simp
  next
    case False
    then have "length (concat out) = length ?c" using len by simp
    then have "ring_content r' = []" using arg_cong [OF whole, of length] by (simp flip: length_0_conv)
    then show ?thesis using whole False by simp
  qed
  then show ?thesis using loop todo assms(2) by (simp add: stream_write_cb_def)
qed

text \<open>A server that reports success and gives no place keeps the callback in its loop, with the mutex held.\<close>

theorem no_place_spins:
  assumes "begin_ret g = 0" "\<not> has_place g" "0 < requested_bytes" "requested_bytes < 2 ^ 31" "0 < audio_occupancy (pa_ring s)"
  shows "stream_write_cb requested_bytes (replicate n g) s = None"
proof -
  have todo: "sint (word_of_nat requested_bytes :: 32 word) = int requested_bytes"
    using assms(4) by (rule sint_of_nat_32)
  have "write_loop (pa_lmb s) (replicate n g) todo 0 (pa_ring s) = None" if "0 < todo" for todo
    using that assms by (induction n) (simp_all add: write_loop_waiting write_loop_refused)
  then show ?thesis using assms(3) todo by (simp add: stream_write_cb_def)
qed

text \<open>
  C36. A change of the format while bytes are waiting frees the buffer before the stream is ended: a callback that comes in
  between, and is given a place, reads the freed memory. Had the ring been flushed before, it would not have.
\<close>

theorem configure_reads_freed_buffer:
  assumes "pa_lmb s = Live" "0 < audio_occupancy (pa_ring s)" "sps_format_lookup (FORMAT_FROM_ENCODED_FORMAT e) \<noteq> None"
    and "begin_ret g = 0" "has_place g" "0 < place_size g" "0 < requested_bytes" "requested_bytes < 2 ^ 31"
  shows "\<exists>s1. pa_configure_release e s = Inr s1 \<and> pa_stream s1 = pa_stream s
    \<and> stream_write_cb requested_bytes (g # gs) s1 = Some (Inl UseAfterFree)
    \<and> (\<exists>s2. pa_configure_release e (pa_flush s) = Inr s2
          \<and> stream_write_cb requested_bytes (g # gs) s2 = Some (Inr ([], s2)))"
proof -
  obtain bps where bps: "sps_format_lookup (FORMAT_FROM_ENCODED_FORMAT e) = Some bps" using assms(3) by auto
  define s1 where "s1 = s\<lparr>pa_encoded_format := e, pa_lmb := Freed\<rparr>"
  define s2 where "s2 = (pa_flush s)\<lparr>pa_encoded_format := e, pa_lmb := Freed\<rparr>"
  have todo: "sint (word_of_nat requested_bytes :: 32 word) = int requested_bytes"
    using assms(8) by (rule sint_of_nat_32)
  have "write_loop Freed (g # gs) (int requested_bytes) 0 (pa_ring s) = Some (Inl UseAfterFree)"
    using assms write_loop_handed [OF _ assms(2,4,5) _ refl, of "int requested_bytes" Freed gs] by simp
  moreover have "write_loop Freed (g # gs) (int requested_bytes) 0 (pa_ring s2) = Some (Inr ([], 0, pa_ring s2))"
    by (rule write_loop_ended) (simp add: s2_def pa_flush_def ring_reset_def)
  ultimately show ?thesis
    using todo bps assms(1)
    by (auto simp: pa_configure_release_def stream_write_cb_def s1_def s2_def pa_flush_def
        intro!: exI [of _ s1] exI [of _ s2])
qed

theorem write_callback_returns_witness:
  "\<exists>out s'. stream_write_cb 2 [server_place 1, server_place 5] (small_pa\<lparr>pa_ring := ring_put [7, 8, 9] (pa_ring small_pa)\<rparr>) = Some (Inr (out, s'))
    \<and> concat out = [7, 8]"
proof -
  let ?s = "small_pa\<lparr>pa_ring := ring_put [7, 8, 9] (pa_ring small_pa)\<rparr>"
  have c: "ring_content (pa_ring ?s) = [7, 8, 9]" by (simp add: small_pa_def ring_eval)
  have "ring_ok (pa_ring ?s)" by (simp add: small_pa_def ring_put_step)
  then show ?thesis
    using write_callback_returns [of ?s 2 "[server_place 1, server_place 5]"] unfolding c by (auto simp: server_place_def small_pa_def)
qed

theorem configure_reads_freed_buffer_witness:
  "\<exists>s1. pa_configure_release 68520068 (small_pa\<lparr>pa_ring := ring_put [7, 8, 9] (pa_ring small_pa)\<rparr>) = Inr s1
    \<and> stream_write_cb 2 [server_place 5] s1 = Some (Inl UseAfterFree)"
proof -
  let ?s = "small_pa\<lparr>pa_ring := ring_put [7, 8, 9] (pa_ring small_pa)\<rparr>"
  have "0 < audio_occupancy (pa_ring ?s)" by (simp add: small_pa_def ring_eval)
  moreover have "sps_format_lookup (FORMAT_FROM_ENCODED_FORMAT 68520068) \<noteq> None" by code_simp
  ultimately show ?thesis
    using configure_reads_freed_buffer [of ?s 68520068 "server_place 5" 2 "[]"] by (auto simp: server_place_def small_pa_def)
qed

section \<open>PipeWire\<close>

text \<open>Calls of \<open>play\<close> and turns of the callback, in the order in which they take the mutex.\<close>

datatype pw_call = PwPlay "u8 list" nat | PwProcess "pw_buffer option"

text \<open>
  What one turn does: the outcome of the callback, the bytes of the ring that the server plays of it (the silence that is
  sent while the ring is empty is not of the ring), and what there was room for of a packet.
\<close>

definition played :: "pw_outcome \<Rightarrow> u8 list" where
  "played x = (case x of Queued bs n \<Rightarrow> take n bs | _ \<Rightarrow> [])"

fun pw_turn :: "pw_call \<Rightarrow> pw_state \<Rightarrow> pw_outcome list \<times> u8 list \<times> u8 list \<times> pw_state" where
  "pw_turn (PwPlay buf samples) s =
     ([], [], take (ring_room (pw_ring s)) (take (unat (word_of_nat samples * pw_channels s * pw_bytes_per_sample s)) buf),
      pw_play buf samples s)"
| "pw_turn (PwProcess b) s =
     (case on_process b s of
        (x, s') \<Rightarrow> ([x], if 0 < audio_occupancy (pw_ring s) then played x else [], [], s'))"

fun pw_run :: "pw_call list \<Rightarrow> pw_state \<Rightarrow> pw_outcome list \<times> u8 list \<times> u8 list \<times> pw_state" where
  "pw_run [] s = ([], [], [], s)"
| "pw_run (c # cs) s =
     (case pw_turn c s of
        (xs, out, acc, s1) \<Rightarrow>
          (case pw_run cs s1 of (xs', out', acc', s2) \<Rightarrow> (xs @ xs', out @ out', acc @ acc', s2)))"

text \<open>The ring has, and has room for, whole frames.\<close>

definition frames_ok :: "pw_state \<Rightarrow> bool" where
  "frames_ok s \<longleftrightarrow> 0 < stride s \<and> ring_ok (pw_ring s) \<and> stride s dvd ring_room (pw_ring s)
     \<and> stride s dvd audio_occupancy (pw_ring s)"

definition whole_chunk :: "nat \<Rightarrow> pw_outcome \<Rightarrow> bool" where
  "whole_chunk k x = (case x of Queued bs n \<Rightarrow> n = length bs \<and> k dvd n | _ \<Rightarrow> True)"

text \<open>A packet is in a buffer of the size of its samples.\<close>

definition whole_packet :: "pw_state \<Rightarrow> pw_call \<Rightarrow> bool" where
  "whole_packet s c =
     (case c of PwPlay buf samples \<Rightarrow> samples * stride s < 2 ^ 32 \<and> length buf = samples * stride s | PwProcess b \<Rightarrow> True)"

lemma on_process_whole:
  assumes "frames_ok s" "on_process b s = (x, s')"
  shows "ring_stretch (pw_ring s) (if 0 < audio_occupancy (pw_ring s) then played x else []) [] (pw_ring s')"
    and "frames_ok s'" "stride s' = stride s" "whole_chunk (stride s) x"
proof -
  have "ring_stretch (pw_ring s) (if 0 < audio_occupancy (pw_ring s) then played x else []) [] (pw_ring s')
    \<and> frames_ok s' \<and> stride s' = stride s \<and> whole_chunk (stride s) x"
  proof (cases "0 < audio_occupancy (pw_ring s) \<and> (\<exists>buf. b = Some buf \<and> has_memory buf)")
    case False
    then show ?thesis using assms
      by (auto simp: on_process_def Let_def stretch_none frames_ok_def stride_def whole_chunk_def played_def
          split: option.splits if_splits)
  next
    case True
    then obtain buf where buf: "b = Some buf" "has_memory buf" by blast
    define n where "n = min (min (requested buf) (maxsize buf div stride s) * stride s) (audio_occupancy (pw_ring s))"
    have n: "n \<le> audio_occupancy (pw_ring s)" "stride s dvd n" using assms(1) by (simp_all add: n_def min_def frames_ok_def)
    have len: "length (fst (ring_take n (pw_ring s))) = n" using ring_take_step n assms(1) by (simp add: frames_ok_def)
    have x: "x = Queued (fst (ring_take n (pw_ring s))) n"
      and s': "s' = s\<lparr>on_process_is_running := True, enable_fill := False, pw_ring := snd (ring_take n (pw_ring s))\<rparr>"
      using assms(2) True buf n(2) by (auto simp: on_process_def Let_def n_def)
    have "stride s' = stride s" by (simp add: s' stride_def)
    moreover have "frames_ok s'"
      using assms(1) n ar.take_whole [of "pw_ring s" "stride s" n] ring_take_step [of "pw_ring s" n]
      by (simp add: frames_ok_def s' stride_def)
    ultimately show ?thesis
      using stretch_take [OF n(1)] True n(2) len by (simp add: x s' played_def whole_chunk_def)
  qed
  then show "ring_stretch (pw_ring s) (if 0 < audio_occupancy (pw_ring s) then played x else []) [] (pw_ring s')"
    and "frames_ok s'" "stride s' = stride s" "whole_chunk (stride s) x" by simp_all
qed

lemma pw_play_whole:
  assumes "frames_ok s" "whole_packet s (PwPlay buf samples)"
  shows "unat (word_of_nat samples * pw_channels s * pw_bytes_per_sample s) = length buf"
    and "pw_ring (pw_play buf samples s) = ring_put buf (pw_ring s)"
    and "frames_ok (pw_play buf samples s)" "stride (pw_play buf samples s) = stride s"
proof -
  have "word_of_nat samples * pw_channels s * pw_bytes_per_sample s = (word_of_nat (samples * stride s) :: u32)"
    by (simp add: stride_def mult.assoc mult.commute)
  then show bytes: "unat (word_of_nat samples * pw_channels s * pw_bytes_per_sample s) = length buf"
    using assms(2) by (simp only: whole_packet_def pw_call.case unat_of_nat_u32)
  then show ring: "pw_ring (pw_play buf samples s) = ring_put buf (pw_ring s)"
    by (simp add: pw_play_def Let_def)
  show same: "stride (pw_play buf samples s) = stride s" by (simp add: pw_play_def stride_def Let_def)
  have "stride s dvd length buf" using assms(2) by (simp add: whole_packet_def)
  then show "frames_ok (pw_play buf samples s)"
    using assms(1) ring same ar.put_whole [of "pw_ring s" "stride s" buf] ring_put_step [of "pw_ring s" buf]
    by (simp add: frames_ok_def del: length_append flip: length_ring_content)
qed

lemma pw_run_whole:
  assumes "frames_ok s" "\<forall>c \<in> set cs. whole_packet s c" "pw_run cs s = (xs, out, acc, s')"
  shows "ring_stretch (pw_ring s) out acc (pw_ring s') \<and> frames_ok s' \<and> stride s' = stride s
    \<and> (\<forall>x \<in> set xs. whole_chunk (stride s) x)"
  using assms
proof (induction cs arbitrary: s xs out acc s')
  case Nil then show ?case by (simp add: stretch_none)
next
  case (Cons c cs)
  obtain xs1 out1 acc1 s1 where turn: "pw_turn c s = (xs1, out1, acc1, s1)" by (metis prod_cases4)
  obtain xs2 out2 acc2 s2 where run: "pw_run cs s1 = (xs2, out2, acc2, s2)" by (metis prod_cases4)
  have here: "ring_stretch (pw_ring s) out1 acc1 (pw_ring s1) \<and> frames_ok s1 \<and> stride s1 = stride s
    \<and> (\<forall>x \<in> set xs1. whole_chunk (stride s) x)"
  proof (cases c)
    case (PwProcess b)
    obtain x s1' where p: "on_process b s = (x, s1')" by fastforce
    show ?thesis using turn PwProcess p on_process_whole [OF Cons.prems(1) p] by auto
  next
    case (PwPlay buf samples)
    then have packet: "whole_packet s (PwPlay buf samples)" using Cons.prems(2) by simp
    show ?thesis
      using turn PwPlay pw_play_whole [OF Cons.prems(1) packet] stretch_put [of "pw_ring s" buf] by auto
  qed
  have "whole_packet s1 = whole_packet s" using here by (simp add: fun_eq_iff whole_packet_def split: pw_call.splits)
  then have "\<forall>c \<in> set cs. whole_packet s1 c" using Cons.prems(2) by simp
  then have rest: "ring_stretch (pw_ring s1) out2 acc2 (pw_ring s2) \<and> frames_ok s2 \<and> stride s2 = stride s1
    \<and> (\<forall>x \<in> set xs2. whole_chunk (stride s1) x)"
    using Cons.IH [OF _ _ run] here by blast
  show ?case using Cons.prems(3) turn run here rest stretch_append by auto
qed

text \<open>A configuration of the stream gives a ring for a second of whole frames.\<close>

lemma pw_configure_whole:
  assumes "pw_configure malloc e s = Inr s'" "pw_encoded_format s \<noteq> e" "\<And>n. length (malloc n) = n"
    and "0 < unat (CHANNELS_FROM_ENCODED_FORMAT e)"
    and "unat (RATE_FROM_ENCODED_FORMAT e) * (4 * unat (CHANNELS_FROM_ENCODED_FORMAT e)) < 2 ^ 32"
  shows "frames_ok s' \<and> ring_content (pw_ring s') = [] \<and> enable_fill s'"
proof -
  let ?r = "unat (RATE_FROM_ENCODED_FORMAT e)" and ?c = "unat (CHANNELS_FROM_ENCODED_FORMAT e)"
  obtain bps where bps: "sps_format_lookup (FORMAT_FROM_ENCODED_FORMAT e) = Some bps"
    using assms(1,2) by (auto simp: pw_configure_def split: option.splits)
  then have "bps \<in> {2, 4}"
    by (auto simp: sps_format_lookup_def format_lookup_def split: if_splits)
  then have b: "0 < unat bps" "unat bps \<le> 4" by auto
  have "CHANNELS_FROM_ENCODED_FORMAT e \<le> 0x7F" unfolding CHANNELS_FROM_ENCODED_FORMAT_def by (rule word_and_le1)
  then have "?c \<le> 127" by (simp add: word_le_nat_alt)
  then have "unat bps * ?c < 2 ^ 32" using b(2) mult_le_mono [of "unat bps" 4 ?c 127] by simp
  then have stride': "unat (bps * CHANNELS_FROM_ENCODED_FORMAT e) = unat bps * ?c"
    by (simp add: unat_mult_lem [THEN iffD1])
  have "?r * (unat bps * ?c) \<le> ?r * (4 * ?c)" using b(2) by (intro mult_le_mono) simp_all
  from le_less_trans [OF this assms(5)] have "?r * unat (bps * CHANNELS_FROM_ENCODED_FORMAT e) < 2 ^ 32"
    unfolding stride' .
  then have size: "unat (RATE_FROM_ENCODED_FORMAT e * bps * CHANNELS_FROM_ENCODED_FORMAT e) = ?r * (unat bps * ?c)"
    using unat_mult_lem [of "RATE_FROM_ENCODED_FORMAT e" "bps * CHANNELS_FROM_ENCODED_FORMAT e"] stride'
    by (simp add: mult.assoc)
  show ?thesis
    using assms(1,2,3) bps b(1) assms(4) size stride'
    by (auto simp: pw_configure_def frames_ok_def stride_def Let_def)
qed

text \<open>
  C35. PipeWire plays what the player put in, in order and in whole frames: for any sequence of calls of \<open>play\<close> and turns of the
  callback, from a ring of whole frames, the bytes of the ring that the chunks hold, followed by those still in the ring, are
  those that were in it, followed by those of each packet that there was room for. Every chunk is as long as
  what was written into it, so that no byte taken out is lost, and it ends with a frame.
\<close>

theorem pipewire_stream_intact:
  assumes "frames_ok s" "\<forall>c \<in> set cs. whole_packet s c" "pw_run cs s = (xs, out, acc, s')"
  shows "out @ ring_content (pw_ring s') = ring_content (pw_ring s) @ acc
    \<and> frames_ok s' \<and> (\<forall>x \<in> set xs. whole_chunk (stride s) x)"
  using stretch_intact [of "pw_ring s" out acc "pw_ring s'"] pw_run_whole [OF assms] assms(1)
  by (auto simp: frames_ok_def)

definition small_pw :: pw_state where
  "small_pw = \<lparr>pw_ring = new_ring [0, 0, 0, 0, 0, 0], pw_rate = 44100, pw_bytes_per_sample = 2, pw_channels = 1,
     enable_fill = True, stream_is_active = False, on_process_is_running = False, pw_encoded_format = 0\<rparr>"

text \<open>Silence, then two frames of which the server takes one, then three for which there is room for two.\<close>

theorem pipewire_stream_intact_witness:
  "\<exists>xs out acc s'. pw_run [PwProcess (Some \<lparr>requested = 2, has_memory = True, maxsize = 100\<rparr>), PwPlay [1, 2, 3, 4] 2,
      PwProcess (Some \<lparr>requested = 9, has_memory = True, maxsize = 3\<rparr>), PwPlay [5, 6, 7, 8, 9, 10] 3,
      PwProcess (Some \<lparr>requested = 9, has_memory = True, maxsize = 100\<rparr>)] small_pw = (xs, out, acc, s')
    \<and> xs = [Queued [0, 0, 0, 0] 4, Queued [1, 2] 2, Queued [3, 4, 5, 6, 7, 8] 6] \<and> out @ ring_content (pw_ring s') = acc"
proof -
  let ?cs = "[PwProcess (Some \<lparr>requested = 2, has_memory = True, maxsize = 100\<rparr>), PwPlay [1, 2, 3, 4] 2,
      PwProcess (Some \<lparr>requested = 9, has_memory = True, maxsize = 3\<rparr>), PwPlay [5, 6, 7, 8, 9, 10] 3,
      PwProcess (Some \<lparr>requested = 9, has_memory = True, maxsize = 100\<rparr>)]"
  obtain xs out acc s' where run: "pw_run ?cs small_pw = (xs, out, acc, s')" by (metis prod_cases4)
  have st: "stride small_pw = 2" by (simp add: stride_def small_pw_def)
  have "fst (pw_run ?cs small_pw) = [Queued [0, 0, 0, 0] 4, Queued [1, 2] 2, Queued [3, 4, 5, 6, 7, 8] 6]"
    by (simp add: small_pw_def on_process_def stride_def pw_play_def ring_eval, simp add: eval_nat_numeral)
  moreover have "frames_ok small_pw" "\<forall>c \<in> set ?cs. whole_packet small_pw c"
    unfolding frames_ok_def whole_packet_def st by (simp_all add: small_pw_def)
  ultimately show ?thesis
    using pipewire_stream_intact [OF _ _ run] run by (simp add: small_pw_def)
qed

section \<open>The delay of PipeWire\<close>

text \<open>
  The loop ends after nine readings at most that do not match; but a reading that matches and has failed is not counted, so
  that it goes on for ever if the server keeps failing with the same time.
\<close>

lemma read_time_ends:
  "\<forall>x \<in> set xs. time_1 x \<noteq> time_2 x \<Longrightarrow> k < 10 \<Longrightarrow> 10 \<le> k + length xs \<Longrightarrow> \<exists>x \<in> set xs. read_time k xs = Some x"
  by (induction xs arbitrary: k) (auto simp: Let_def)

lemma delay_spins:
  assumes "on_process_is_running s" "reply x \<noteq> 0" "time_1 x = time_2 x"
  shows "pw_delay nsec (replicate n x) s = None"
proof -
  have "read_time 1 (replicate n x) = None" using assms by (induction n) (simp_all add: Let_def)
  then show ?thesis using assms by (simp add: pw_delay_def)
qed

lemma sint_of_nat_64: "m < 2 ^ 63 \<Longrightarrow> sint (word_of_nat m :: u64) = int m"
  using sint_word_of_int_64 [of "int m"] by simp

lemma sdiv64_nat:
  assumes "m < 2 ^ 63" "k < 2 ^ 63" "0 < k"
  shows "sdiv64 (word_of_nat m) (word_of_nat k) = word_of_nat (m div k)"
proof -
  have "int m sdiv int k = int (m div k)" using assms(3) by (simp add: signed_divide_int_def sgn_if zdiv_int)
  then show ?thesis using assms by (simp add: sdiv64_def sint_of_nat_64)
qed

lemma div_of_nat_64: "m < 2 ^ 64 \<Longrightarrow> k < 2 ^ 64 \<Longrightarrow> (word_of_nat m :: u64) div word_of_nat k = word_of_nat (m div k)"
  by (rule word_unat_eq_iff [THEN iffD2]) (simp add: unat_div unsigned_of_nat take_bit_nat_eq_self
      le_less_trans [OF div_le_dividend])

text \<open>
  The delay, while no product leaves its 64 bits and the clock has not gone back: what PipeWire has queued and buffered, its
  own delay and the frames in the ring, less the frames that have been played since the measurement, each
  rounded to the nearest frame.
\<close>

theorem pw_delay_frames:
  fixes s x nsec
  defines "t \<equiv> time_1 x" and "rate \<equiv> unat (pw_rate s)" and "elapsed \<equiv> unat nsec - unat (now (time_1 x))"
    and "fixed \<equiv> unat (delay_ticks (time_1 x)) * unat (rate_num (time_1 x)) * 1000000000 div unat (rate_denom (time_1 x))"
  assumes "on_process_is_running s" "read_time 1 readings = Some x" "time_1 x = time_2 x" "reply x = 0" "rate_denom t \<noteq> 0"
    and "now t \<le> nsec" "elapsed * rate + 500000000 < 2 ^ 63" "fixed * rate + 500000000 < 2 ^ 63"
    and "unat (delay_ticks t) * unat (rate_num t) * 1000000000 < 2 ^ 63"
    and "occupancy_now x < 2 ^ 63"
    and "unat (queued t) + unat (buffered t) + (fixed * rate + 500000000) div 1000000000 + occupancy_now x div stride s < 2 ^ 63"
  shows "pw_delay nsec readings s =
    Some (0, int (unat (queued t) + unat (buffered t) + (fixed * rate + 500000000) div 1000000000 + occupancy_now x div stride s)
           - int ((elapsed * rate + 500000000) div 1000000000))"
proof -
  define num where "num = unat (delay_ticks t) * unat (rate_num t) * 1000000000"
  define kept where "kept = unat (queued t) + unat (buffered t) + (fixed * rate + 500000000) div 1000000000 + occupancy_now x div stride s"
  define gone where "gone = (elapsed * rate + 500000000) div 1000000000"
  have r: "(ucast (pw_rate s) :: u64) = word_of_nat rate" by (simp add: rate_def)
  have "nsec - now t = word_of_nat elapsed"
    using assms(10) by (simp add: elapsed_def t_def word_le_nat_alt of_nat_diff)
  then have played: "sdiv64 ((nsec - now t) * ucast (pw_rate s) + 500000000) 1000000000 = word_of_nat gone"
    using sdiv64_nat [OF assms(11), of 1000000000] by (simp add: r gone_def)
  have "unat (rate_denom t) < 2 ^ 63" by (rule less_trans [OF unsigned_less]) simp
  moreover have "0 < unat (rate_denom t)" using assms(9) by (simp add: unat_gt_0)
  ultimately have "sdiv64 (word_of_nat num) (word_of_nat (unat (rate_denom t))) = word_of_nat fixed"
    using sdiv64_nat [of num "unat (rate_denom t)"] assms(13) by (simp add: num_def fixed_def t_def)
  then have fix_ns: "sdiv64 (delay_ticks t * ucast (rate_num t) * 1000000000) (ucast (rate_denom t)) = word_of_nat fixed"
    by (simp add: num_def)
  have fix_frames: "(word_of_nat fixed * ucast (pw_rate s) + 500000000) div 1000000000
      = (word_of_nat ((fixed * rate + 500000000) div 1000000000) :: u64)"
    using div_of_nat_64 [of "fixed * rate + 500000000" 1000000000] assms(12) by (simp add: r)
  have "stride s < 2 ^ 64" unfolding stride_def by (rule less_trans [OF unsigned_less]) simp
  then have held: "(word_of_nat (occupancy_now x) :: u64) div word_of_nat (stride s) = word_of_nat (occupancy_now x div stride s)"
    using assms(14) by (intro div_of_nat_64) simp_all
  have "pw_net_delay s nsec x = word_of_nat kept - word_of_nat gone"
    unfolding pw_net_delay_def Let_def t_def [symmetric] played fix_ns fix_frames held by (simp add: kept_def)
  also have "\<dots> = word_of_int (int kept - int gone)" by simp
  finally have sum: "pw_net_delay s nsec x = word_of_int (int kept - int gone)" .
  have "kept < 2 ^ 63" using assms(15) by (simp only: kept_def)
  moreover have "gone < 2 ^ 63" unfolding gone_def by (rule le_less_trans [OF div_le_dividend assms(11)])
  ultimately have "sint (pw_net_delay s nsec x) = int kept - int gone"
    unfolding sum by (intro sint_word_of_int_64) simp_all
  then show ?thesis using assms(5-9) by (simp add: pw_delay_def kept_def gone_def t_def)
qed

end
