(* ===== verification/Spec2Isabelle.thy ===== *)
theory Spec2Isabelle
  imports Metadata_Queue Buffered_Tcp Rtsp_Message Rtsp_Response Rtp_Clock Jitter_Buffer Jitter_Proofs
    Jitter_Resend Frame_Release Alac_Bits Alac_Entropy Alac_Clz Alac_Decode
    Alac_Lossless Alac_Errors Sample_Output Sample_Proofs Rtp_Receivers
    Rtp_Receivers_Proofs Rtp_Timing Rtp_Timing_Proofs Ap2_Flush Ap2_Flush_Proofs Ap2_Buffered Ap2_Proofs
    Activity_Monitor Play_Lock Play_Lock_Proofs Play_Table Rtsp_Session Rtsp_Session_Proofs
    Rtsp_Conversation Rtsp_Conversation_Proofs Volume Volume_Proofs Output_Search
    Output_Search_Proofs Metadata_Outputs Metadata_Outputs_Proofs
    Sample_Input Sync_Control Sync_Proofs Output_Chain Chain_Proofs Player_Turn Player_Proofs
    Audio_Ring Audio_Servers Audio_Servers_Proofs
begin

text \<open>
  A model of shairport-sync, an AirPlay receiver in C, and what holds of it.

  \<^bold>\<open>The program.\<close> A client (a phone, a computer) opens an RTSP connection to the receiver. Its
  requests are read and answered by a thread per connection (\<open>rtsp.c\<close>); ANNOUNCE or SETUP describe the
  stream, RECORD starts it, FLUSH, TEARDOWN and SET_PARAMETER steer it. Only one connection may play: it
  holds the play lock. Audio comes in as RTP packets over UDP (\<open>rtp.c\<close>, classic and AirPlay 2 realtime)
  or as blocks over TCP (\<open>ap2_buffered_audio_processor.c\<close>). The receivers put the packets into the jitter
  buffer of the player (\<open>player.c\<close>), which deciphers and decodes them (\<open>alac.c\<close> or a library). The player
  takes them out in order when they are due: the time of a frame follows from an anchor, a pair of a frame
  and a time on the clock of the client, and from what is known of that clock (timing packets or NQPTP).
  It then scales, interpolates and dithers the samples into the format of the output device. Besides,
  metadata travels from the requests through queues to other programs (\<open>metadata/\<close>), and a monitor
  tells apart phases of activity (\<open>activity_monitor.c\<close>).

  The program is taken as built with AirPlay 2, FFmpeg and metadata, on a 64-bit little-endian machine,
  unless a definition says otherwise.

  \<^bold>\<open>How it is modelled.\<close> A struct is a record that has the fields the modelled code uses, with their
  widths: \<open>seq_t\<close> is \<open>16 word\<close>, \<open>uint32_t\<close> is \<open>32 word\<close>, and so on. A function is a
  definition from the old state to the new one. What it calls for its effect only (requests for packets,
  commands, packets sent) is in its result, as a list of values in order. Reads of a clock, results of system
  calls and the replies of other programs are arguments, gathered in an environment record. Errors are values:
  the decoder returns a sum whose left side names the access that would leave a buffer, the conversation
  returns an outcome that names the crash. A loop is a recursive function; where it may go on forever, or where
  it is a thread that never ends, one turn of it is a definition and a function over the list of the inputs
  of its turns iterates it. Threads that share state are inductive step relations whose steps are the stretches
  of code between two lock operations or blocking calls.

  \<^bold>\<open>The theories.\<close>

    \<^item> \<open>Prelude\<close>: C's integers and conversions, byte regions, lemmas on lists and words.
    \<^item> \<open>Rtsp_Message\<close>, \<open>Rtsp_Response\<close> (\<open>utilities/rtsp_message_utilities.c\<close>, \<open>rtsp.c\<close>): the record of a
      message, its reference count, the reader that cuts a request out of a stream that arrives in arbitrary
      pieces, and the writer of a response. A request is recognised whatever the pieces are, and what is written
      reads back.
    \<^item> \<open>Rtsp_Session\<close>, \<open>Rtsp_Session_Proofs\<close>, \<open>Rtsp_Conversation\<close>, \<open>Rtsp_Conversation_Proofs\<close>: the handlers of
      the classic requests over a record of the connection, the test of the password, the table of methods and the
      turn of a conversation from a request to the bytes of its answer. The locale \<open>session_property\<close> carries a
      property that every handler keeps to whole conversations, and has two interpretations:
      well-formedness of the stream description, and who is let in.
    \<^item> \<open>Play_Lock\<close>, \<open>Play_Lock_Proofs\<close>, \<open>Play_Table\<close>: connections, listener and \<open>stop_play\<close> as threads over the
      play lock and the lock of the table of connections; invariants over all schedules, and the
      schedules that end in a deadlock or leave a connection playing.
    \<^item> \<open>Rtp_Receivers\<close>, \<open>Rtp_Receivers_Proofs\<close> (\<open>rtp.c\<close>): the turns of the receiving threads and the requests for
      packets, with the back-off after a failed send.
    \<^item> \<open>Rtp_Timing\<close>, \<open>Rtp_Timing_Proofs\<close>, \<open>Rtp_Clock\<close>: the timing packets of classic AirPlay and the choice of the
      best of them, as an offset with a proved error bound; the conversions between frames and local times and the
      change of the master clock.
    \<^item> \<open>Jitter_Buffer\<close>, \<open>Jitter_Proofs\<close>, \<open>Jitter_Resend\<close> (\<open>player.c\<close>): the ring of 1024 slots. It refines a
      window of sequence numbers with a partial map to packets, and exactly the packets that are missing are asked
      for.
    \<^item> \<open>Frame_Release\<close> (\<open>player.c\<close>, \<open>buffer_get_frame\<close>): the turns of the loop that waits for the time of the
      next packet, the flush requests, and the lead-in of silence.
    \<^item> \<open>Alac_Bits\<close>, \<open>Alac_Clz\<close>, \<open>Alac_Entropy\<close>, \<open>Alac_Decode\<close>, \<open>Alac_Lossless\<close>, \<open>Alac_Errors\<close> (\<open>alac.c\<close>): the decoder,
      checked access by access; it is the inverse of an encoder that is written here from the format.
    \<^item> \<open>Sample_Output\<close>, \<open>Sample_Proofs\<close> (\<open>player.c\<close>): samples to bytes, and the two kinds of stuffing.
    \<^item> \<open>Buffered_Tcp\<close> (\<open>utilities/buffered_read.c\<close>): the ring between the reader of a TCP link and its consumer.
    \<^item> \<open>Ap2_Flush\<close>, \<open>Ap2_Flush_Proofs\<close>, \<open>Ap2_Buffered\<close>, \<open>Ap2_Proofs\<close> (\<open>utilities/mod23.c\<close>, \<open>rtsp.c\<close>,
      \<open>ap2_buffered_audio_processor.c\<close>): flush requests over ranges of blocks whose 23-bit numbers wrap, and the
      processor between the link and the player.
    \<^item> \<open>Metadata_Queue\<close> (\<open>metadata/pc_queue.c\<close>): the queue to the threads of the metadata, an interpretation of the
      locale \<open>bounded_fifo\<close>.
    \<^item> \<open>Activity_Monitor\<close> (\<open>activity_monitor.c\<close>): the thread of the monitor and those that signify activity.
    \<^item> \<open>Metadata_Outputs\<close>, \<open>Metadata_Outputs_Proofs\<close> (\<open>metadata/core.c\<close>, \<open>metadata/multicast.c\<close>,
      \<open>metadata/pipe.c\<close>, base 64 of \<open>common.c\<close>): how an item keeps the message it points into, how it is handed to the
      queues, and its text in the pipe and its datagrams, which a reader puts together again.
    \<^item> \<open>Volume\<close>, \<open>Volume_Proofs\<close> (\<open>player.c\<close>, \<open>common.c\<close>): from the volume a client asks for to attenuation by the
      hardware, by software or by both, and to muting; bounds, monotonicity and the end points of the profiles.
    \<^item> \<open>Output_Search\<close>, \<open>Output_Search_Proofs\<close> (\<open>audio.c\<close>, \<open>common.h\<close>): the search for rate, format and channels that the
      device takes; what it answers is a configuration the device accepted.
    \<^item> \<open>Output_Chain\<close>, \<open>Chain_Proofs\<close> (\<open>player.c\<close>: \<open>setup_software_resampler\<close>, \<open>avframe_to_audio\<close>): the parameters of
      the resampler, the map of channels, the splitting of its output into packets and the count of its frames.
    \<^item> \<open>Sample_Input\<close> (\<open>player.c\<close>, \<open>generate_zero_frames\<close> of \<open>common.c\<close>): the playback modes, the buffer of
      transition samples, the decision to dither, and silence with dither.
    \<^item> \<open>Sync_Control\<close>, \<open>Sync_Proofs\<close> (\<open>player.c\<close>): the error of synchronisation, the ring of the last errors and its
      average without outliers, gaps filled or skipped, and the frames to insert or delete.
    \<^item> \<open>Player_Turn\<close>, \<open>Player_Proofs\<close> (\<open>player.c\<close>, \<open>player_thread_func\<close>): a turn of the loop of the player thread, on
      its branches, as a composition of the above.
    \<^item> \<open>Audio_Ring\<close>, \<open>Audio_Servers\<close>, \<open>Audio_Servers_Proofs\<close> (\<open>audio_pa.c\<close>, \<open>audio_pw.c\<close>): the ring of bytes of the back
      ends for PulseAudio and PipeWire, as an interpretation of the locale \<open>byte_ring\<close>; play, flush, stop, delay, the
      callbacks of the servers and the change of the format.

  \<^bold>\<open>How the parts meet.\<close> The receivers and the buffered processor call \<open>player_put_packet\<close> of \<open>Jitter_Buffer\<close>;
  \<open>Frame_Release\<close> reads the same record and uses the conversions of \<open>Rtp_Clock\<close>, whose anchor the control receivers
  set. The conversation is built on the reader of \<open>Rtsp_Message\<close> and the writer of \<open>Rtsp_Response\<close>, and its handlers
  use the play lock; TEARDOWN and FLUSH act on the player by calls that are recorded in the result.
  A turn of \<open>Player_Turn\<close> takes a packet by \<open>buffer_get_frame\<close> of \<open>Frame_Release\<close>, converts it by \<open>Output_Chain\<close> and
  \<open>Sample_Input\<close>, asks \<open>Sync_Control\<close> for the frames to stuff and writes the samples by \<open>Sample_Output\<close>. The volume of
  \<open>Volume\<close> is the field \<open>fix_volume\<close> that the samples are scaled by, and the answer of \<open>Output_Search\<close> fixes the rate,
  format and channels of the chain. The bytes of a turn are what the calls of \<open>play\<close> in \<open>Audio_Servers\<close> put into the
  ring, and the delay that the back end tells is read by \<open>Sync_Control\<close>. SET_PARAMETER makes the items of \<open>Metadata_Outputs\<close>, which count their
  references to the message by \<open>msg_retain\<close> and \<open>msg_free\<close> of \<open>Rtsp_Response\<close> and travel through \<open>Metadata_Queue\<close>.

  \<^bold>\<open>Parameters.\<close> Deciphering (AES, libsodium), digests and RSA (OpenSSL), base 64, the decoders of FFmpeg, the
  readings of property lists (libplist), the resampler, the loudness filter, what an audio back end answers and
  the handlers of other components are functions or values in the environment records. Theorems about them state what they rely on as a hypothesis, and their
  witnesses give concrete functions.

  \<^bold>\<open>Bounds.\<close> No recursion stands for a loop with fewer turns than the loop has. The walk over the items of a
  metadata request takes fuel, since a length in the request may send its pointer past the end of the body: an item
  is at least eight bytes, so that one more than the length of the body is enough, which is proved
  in \<open>Rtsp_Session_Proofs\<close>. The loop of the entropy decoder counts a turn per sample of the frame, as each turn writes
  at least one. The search through the multiples of a rate is a partial function to an option: the loop does not end
  for rate 0, and ends for any other, which is proved. The other recursions end by the structure of their argument or by a
  measure. The callbacks of the sound servers loop over the answers of the server: they return after a turn per byte at most
  if the server gives them a place each time, and do not return if it never does.
  Floating-point numbers (volumes, averages of errors, the error in frames) are reals, so that
  rounding is not modelled, and the random numbers of dither and of stuffing are arguments.

  \<^bold>\<open>Not modelled.\<close> The start and the end of the player thread and the statistics it prints (they set up
  libraries and print); the loudness filter, convolution and the interpolation by libsoxr (their arithmetic is a
  library's); the handlers of pairing, GET \<open>/info\<close> and the AirPlay 2 forms of SETUP and RECORD (they read and
  write property lists by a library and open sockets); configuration and the main program (\<open>shairport.c\<close>); the remote
  controls (\<open>dacp.c\<close>, D-Bus, MPRIS, MQTT) and the metadata hub, which pass values on to
  libraries; mDNS; the other audio back ends, and of PulseAudio and PipeWire the opening of streams and the channel maps; and the vendored code (\<open>pair_ap\<close>,
  \<open>tinyhttp\<close>, \<open>tinysvcmdns.c\<close>, \<open>FFTConvolver\<close>, \<open>apple_alac.cpp\<close>).
\<close>

end
